(* ===== verification/Go_Prelude.thy ===== *)
theory Go_Prelude
  imports Main "HOL-Library.Word" "HOL-Library.Char_ord" "HOL-Library.List_Lexorder"
begin

text \<open>
  Shared ground of the development: results that carry Go errors, Go maps as
  association lists in strictly ascending key order, the functions of Go's
  \<open>strings\<close> package that the sources call, and the interfaces (locales) that the
  component theories interpret.

  \<^item> A Go function returning \<open>(T, error)\<close> is a HOL function into \<open>error + T\<close>.
  \<^item> A Go string is a sequence of bytes, so it is \<^typ>\<open>string\<close>; comparison is the
    lexicographic order on bytes, as in Go.
  \<^item> A Go map is a list of pairs sorted strictly by key, so that two maps with the
    same entries are equal. Where Go ranges over a map in an unspecified order the
    model uses the ascending one; the sources sort wherever the order is visible,
    except for which of several errors is reported first.
\<close>

section \<open>Collections of facts\<close>

named_theorems res_simps \<open>unfolding results that may be errors\<close>
named_theorems gomap_simps \<open>lookups in updated Go maps\<close>
named_theorems gomap_intros \<open>well-formedness of Go maps\<close>

section \<open>Errors as values\<close>

text \<open>
  The errors of \<open>internal/core/path.go\<close>, one constructor per \<open>fmt.Errorf\<close>, with the
  values the message is formatted from.
\<close>

datatype path_error =
    IdentifierEmpty
  | IdentifierTooLong string
  | IdentifierFirstChar char string
  | IdentifierChar char string
  | IdentifierOnlyUnderscores string
  | ModulePathEmpty
  | ModulePathAbsolute
  | ModulePathInvalid string
  | ModulePathComponent string string
  | ModulePathExtension string string
  | FunctionNameTooFewParts string
  | PathComponentTooLong string
  | PathComponentChar string
  | PathComponentNoAlnum string

text \<open>The errors of \<open>internal/core/value.go\<close>.\<close>

datatype value_error =
    FieldNameTooLong string
  | FieldNameReserved string
  | FieldNameChar string char
  | UnsignedTooBig string
  | UnsupportedValue string string
  | UnexpectedJSONType
  | InvalidJSONNumber string
  | ObjectKeysNotString string
  | FloatNotSpecial
  | SetUnsupported
  | MapUnsupported
  | MalformedField string
  | MalformedWire string
  | WireByteCount nat string

text \<open>The errors of \<open>internal/syncprotocol\<close>.\<close>

datatype proto_error =
    UnknownClientType string
  | UnknownServerType string
  | UnknownQuerySetModification string
  | UnknownStateModification string
  | MissingType
  | MissingModifications
  | MissingJournal string
  | FieldError string
  | FieldMustBe string
  | TimestampTooBig
  | TimestampByteCount nat
  | TimestampMalformed
  | IdentityIncomplete
  | IndexedModification nat

text \<open>The errors of \<open>baseclient\<close>.\<close>

datatype client_error =
    ArgsNotObject
  | StableJSONUnsupported
  | UnknownSubscriber
  | UnknownQueryID "32 word"
  | QueryTokenMissing "32 word"
  | NoAuthCallback
  | UnexpectedTransitionChunk
  | FatalServerError string
  | TransitionVersionMismatch
  | OptimisticUpdateFailed "32 word"
  | EncodeOptimisticValue
  | InvalidMutationRequest "32 word"
  | MismatchedMutationResponse "32 word"
  | InvalidActionRequest "32 word"
  | MismatchedActionResponse "32 word"
  | MutationMissingTimestamp
  | SyncAuthError string "32 word option" "bool option"

text \<open>The errors of \<open>internal/syncclient\<close>.\<close>

datatype sync_error =
    NilBaseClient
  | EmptyClientID
  | NilDialer
  | NegativeBackoff
  | NonPositiveTimeout
  | EmptyDeploymentURL
  | InvalidDeploymentURL string
  | UnsupportedScheme string
  | MissingHost
  | AlreadyRunning
  | InactiveServer

text \<open>The errors of the root package.\<close>

datatype app_error =
    NilHTTPClient
  | SchemeNotHTTP
  | SiteURL string
  | ManyIdentities
  | EncodeIdentity
  | EmptyFunctionPath
  | EmptyTimestamp
  | UninitializedClient
  | UnreadyQueue
  | ReleaseMissing
  | HTTPError int string
  | DecodeTimestamp
  | DecodeResponse
  | DecodeErrorData
  | InvalidStatus string
  | NilOutputTarget
  | SubscriptionClosed

text \<open>The errors of \<open>context\<close>.\<close>

datatype ctx_error = Canceled | DeadlineExceeded

text \<open>
  Go's \<open>error\<close> interface: an error of one of the components, one raised by the
  standard library (named by the package that raises it), one returned by a callback
  of the user, or an error wrapped by another with \<open>%w\<close>.
\<close>

datatype error =
    PathError path_error
  | ValueError value_error
  | ProtoError proto_error
  | ClientError client_error
  | SyncError sync_error
  | AppError app_error
  | CtxError ctx_error
  | StdError string
  | UserError string
  | Wrapped error error

type_synonym 'a res = "error + 'a"

text \<open>Early return on error: \<open>x, err := r; if err != nil { return err }; f(x)\<close>.\<close>

fun rbind :: "'e + 'a \<Rightarrow> ('a \<Rightarrow> 'e + 'b) \<Rightarrow> 'e + 'b" where
  "rbind (Inl e) f = Inl e"
| "rbind (Inr x) f = f x"

text \<open>A loop that fills a slice and stops at the first error.\<close>

fun rmap :: "('a \<Rightarrow> 'e + 'b) \<Rightarrow> 'a list \<Rightarrow> 'e + 'b list" where
  "rmap f [] = Inr []"
| "rmap f (x # xs) = rbind (f x) (\<lambda>y. rbind (rmap f xs) (\<lambda>ys. Inr (y # ys)))"

text \<open>Replacing or wrapping the error of a call.\<close>

fun rerr :: "('e \<Rightarrow> 'd) \<Rightarrow> 'e + 'a \<Rightarrow> 'd + 'a" where
  "rerr g (Inl e) = Inl (g e)"
| "rerr g (Inr x) = Inr x"

definition rguard :: "bool \<Rightarrow> 'e \<Rightarrow> 'e + unit" where
  "rguard ok e = (if ok then Inr () else Inl e)"

lemma rbind_eq_Inr [res_simps]: "rbind r f = Inr y \<longleftrightarrow> (\<exists>x. r = Inr x \<and> f x = Inr y)"
  by (cases r) auto

lemma rbind_eq_Inl [res_simps]:
  "rbind r f = Inl e \<longleftrightarrow> r = Inl e \<or> (\<exists>x. r = Inr x \<and> f x = Inl e)"
  by (cases r) auto

lemma rerr_eq_Inr [res_simps]: "rerr g r = Inr y \<longleftrightarrow> r = Inr y"
  by (cases r) auto

lemma rerr_eq_Inl [res_simps]: "rerr g r = Inl d \<longleftrightarrow> (\<exists>e. r = Inl e \<and> d = g e)"
  by (cases r) auto

lemma rguard_simps [simp]:
  "rguard ok e = Inr u \<longleftrightarrow> ok"
  "rguard ok e = Inl e' \<longleftrightarrow> \<not> ok \<and> e' = e"
  by (auto simp: rguard_def)

lemma rbind_cong [fundef_cong]:
  "r = r' \<Longrightarrow> (\<And>x. r' = Inr x \<Longrightarrow> f x = f' x) \<Longrightarrow> rbind r f = rbind r' f'"
  by (cases r') auto

lemma rmap_cong [fundef_cong]:
  "xs = ys \<Longrightarrow> (\<And>x. x \<in> set ys \<Longrightarrow> f x = g x) \<Longrightarrow> rmap f xs = rmap g ys"
  by (induction ys arbitrary: xs) auto

lemma rmap_Inr_map: "(\<And>x. x \<in> set xs \<Longrightarrow> f x = Inr (g x)) \<Longrightarrow> rmap f xs = Inr (map g xs)"
  by (induction xs) auto

lemma rmap_length: "rmap f xs = Inr ys \<Longrightarrow> length ys = length xs"
  by (induction xs arbitrary: ys) (auto simp: res_simps)

lemma rmap_nth: "rmap f xs = Inr ys \<Longrightarrow> i < length xs \<Longrightarrow> f (xs ! i) = Inr (ys ! i)"
  by (induction xs arbitrary: ys i) (auto simp: res_simps nth_Cons split: nat.splits)

lemma rmap_total: "(\<And>x. x \<in> set xs \<Longrightarrow> \<exists>y. f x = Inr y) \<Longrightarrow> \<exists>ys. rmap f xs = Inr ys"
  by (induction xs) (fastforce simp: res_simps)+

lemma rmap_inverse:
  "(\<And>x y. x \<in> set xs \<Longrightarrow> f x = Inr y \<Longrightarrow> g y = Inr x) \<Longrightarrow> rmap f xs = Inr ys \<Longrightarrow> rmap g ys = Inr xs"
  by (induction xs arbitrary: ys) (auto simp: res_simps)

lemma rmap_map: "rmap f (map g xs) = rmap (\<lambda>x. f (g x)) xs"
  by (induction xs) auto

lemma rmap_set: "rmap f xs = Inr ys \<Longrightarrow> y \<in> set ys \<Longrightarrow> \<exists>x\<in>set xs. f x = Inr y"
  by (induction xs arbitrary: ys) (auto simp: res_simps)

section \<open>Encoders and decoders\<close>

text \<open>
  The contract every pair of an encoder and a decoder of the program fulfils on the
  values it is meant for: encoding succeeds and decoding gives the value back.
\<close>

locale codec =
  fixes enc :: "'a \<Rightarrow> 'e + 'b"
    and dec :: "'b \<Rightarrow> 'd + 'a"
    and ok :: "'a \<Rightarrow> bool"
  assumes round_trip: "ok x \<Longrightarrow> \<exists>y. enc x = Inr y \<and> dec y = Inr x"
begin

lemma enc_total: "ok x \<Longrightarrow> \<exists>y. enc x = Inr y"
  using round_trip by blast

lemma dec_enc: "ok x \<Longrightarrow> rbind (rerr g (enc x)) (\<lambda>y. rerr h (dec y)) = Inr x"
  using round_trip [of x] by auto

lemma enc_inj: "ok x \<Longrightarrow> ok y \<Longrightarrow> enc x = enc y \<Longrightarrow> x = y"
  using round_trip [of x] round_trip [of y] by auto

lemma dec_of_enc: "ok x \<Longrightarrow> enc x = Inr y \<Longrightarrow> dec y = Inr x"
  using round_trip [of x] by auto

lemma list_round_trip: "(\<And>x. x \<in> set xs \<Longrightarrow> ok x) \<Longrightarrow> \<exists>ys. rmap enc xs = Inr ys \<and> rmap dec ys = Inr xs"
proof (induction xs)
  case Nil
  then show ?case by simp
next
  case (Cons x xs)
  obtain y where "enc x = Inr y" "dec y = Inr x"
    using Cons.prems round_trip [of x] by auto
  moreover obtain ys where "rmap enc xs = Inr ys" "rmap dec ys = Inr xs"
    using Cons by auto
  ultimately show ?case by auto
qed

end

section \<open>Go maps\<close>

type_synonym ('k, 'v) gomap = "('k \<times> 'v) list"

abbreviation mget :: "('k, 'v) gomap \<Rightarrow> 'k \<Rightarrow> 'v option" where
  "mget m k \<equiv> map_of m k"

abbreviation mkeys :: "('k, 'v) gomap \<Rightarrow> 'k list" where
  "mkeys m \<equiv> map fst m"

definition mwf :: "('k::linorder, 'v) gomap \<Rightarrow> bool" where
  "mwf m = sorted_wrt (<) (mkeys m)"

text \<open>\<open>m[k] = v\<close>\<close>

fun mput :: "'k::linorder \<Rightarrow> 'v \<Rightarrow> ('k, 'v) gomap \<Rightarrow> ('k, 'v) gomap" where
  "mput k v [] = [(k, v)]"
| "mput k v ((k', v') # m) =
     (if k < k' then (k, v) # (k', v') # m
      else if k = k' then (k, v) # m
      else (k', v') # mput k v m)"

text \<open>\<open>delete(m, k)\<close>\<close>

definition mdel :: "'k \<Rightarrow> ('k, 'v) gomap \<Rightarrow> ('k, 'v) gomap" where
  "mdel k m = filter (\<lambda>p. fst p \<noteq> k) m"

definition mof_list :: "('k::linorder \<times> 'v) list \<Rightarrow> ('k, 'v) gomap" where
  "mof_list ps = fold (\<lambda>(k, v). mput k v) ps []"

lemma mget_mput [simp, gomap_simps]: "mget (mput k v m) = (mget m)(k \<mapsto> v)"
  by (induction k v m rule: mput.induct) auto

lemma mget_mdel [simp, gomap_simps]: "mget (mdel k m) = (mget m)(k := None)"
  by (induction m) (auto simp: mdel_def)

lemma mwf_Nil [simp, gomap_intros]: "mwf []"
  by (simp add: mwf_def)

lemma ball_mput [simp]:
  "(\<forall>p\<in>set (mput k v m). c < fst p) \<longleftrightarrow> c < k \<and> (\<forall>p\<in>set m. c < fst p)"
  by (induction k v m rule: mput.induct) auto

lemma mwf_mput [simp, gomap_intros]: "mwf m \<Longrightarrow> mwf (mput k v m)"
  unfolding mwf_def sorted_wrt_map
proof (induction k v m rule: mput.induct)
  case (2 k v k' v' m)
  then show ?case by (auto simp: not_less)
qed simp

lemma mwf_mdel [simp, gomap_intros]: "mwf m \<Longrightarrow> mwf (mdel k m)"
  unfolding mwf_def mdel_def
  by (induction m) auto

lemma mwf_distinct: "mwf m \<Longrightarrow> distinct (mkeys m)"
  unfolding mwf_def by (simp add: strict_sorted_iff)

lemma mwf_mem_iff: "mwf m \<Longrightarrow> (k, v) \<in> set m \<longleftrightarrow> mget m k = Some v"
  by (simp add: mwf_distinct)

lemma mget_None_iff: "mget m k = None \<longleftrightarrow> k \<notin> set (mkeys m)"
  by (simp add: map_of_eq_None_iff)

lemma mwf_unfold:
  assumes "mwf m"
  shows "m = map (\<lambda>k. (k, the (mget m k))) (mkeys m)"
proof (rule nth_equalityI)
  fix i
  assume i: "i < length m"
  then have "mget m (fst (m ! i)) = Some (snd (m ! i))"
    using assms by (simp add: mwf_mem_iff [symmetric])
  then show "m ! i = map (\<lambda>k. (k, the (mget m k))) (mkeys m) ! i"
    using i by simp
qed simp

lemma mwf_mkeys: "mwf m \<Longrightarrow> mkeys m = sorted_list_of_set (dom (mget m))"
  unfolding mwf_def dom_map_of_conv_image_fst
  by (metis sorted_list_of_set.idem_if_sorted_distinct strict_sorted_iff image_set)

text \<open>Two well-formed maps with the same entries are the same list.\<close>

lemma mwf_ext: "mwf m \<Longrightarrow> mwf m' \<Longrightarrow> mget m = mget m' \<Longrightarrow> m = m'"
  by (metis mwf_unfold mwf_mkeys)

text \<open>
  The interface of a dictionary with extensional equality: what the components rely
  on when they store into, look up in and delete from a Go map.
\<close>

locale dictionary =
  fixes empty :: "'m"
    and put :: "'k \<Rightarrow> 'v \<Rightarrow> 'm \<Rightarrow> 'm"
    and del :: "'k \<Rightarrow> 'm \<Rightarrow> 'm"
    and get :: "'m \<Rightarrow> 'k \<Rightarrow> 'v option"
    and wf :: "'m \<Rightarrow> bool"
  assumes get_empty: "get empty k = None"
    and get_put: "get (put k v m) k' = (if k' = k then Some v else get m k')"
    and get_del: "get (del k m) k' = (if k' = k then None else get m k')"
    and wf_empty: "wf empty"
    and wf_put: "wf m \<Longrightarrow> wf (put k v m)"
    and wf_del: "wf m \<Longrightarrow> wf (del k m)"
    and ext: "wf m \<Longrightarrow> wf m' \<Longrightarrow> (\<And>k. get m k = get m' k) \<Longrightarrow> m = m'"
begin

lemma put_put: "wf m \<Longrightarrow> put k v (put k v' m) = put k v m"
  by (rule ext) (auto simp: wf_put get_put)

lemma put_commute: "wf m \<Longrightarrow> k \<noteq> k' \<Longrightarrow> put k v (put k' v' m) = put k' v' (put k v m)"
  by (rule ext) (auto simp: wf_put get_put)

lemma put_same: "wf m \<Longrightarrow> get m k = Some v \<Longrightarrow> put k v m = m"
  by (rule ext) (auto simp: wf_put get_put)

lemma del_absent: "wf m \<Longrightarrow> get m k = None \<Longrightarrow> del k m = m"
  by (rule ext) (auto simp: wf_del get_del)

lemma del_put: "wf m \<Longrightarrow> get m k = None \<Longrightarrow> del k (put k v m) = m"
  by (rule ext) (auto simp: wf_del wf_put get_del get_put)

lemma del_put_same: "wf m \<Longrightarrow> del k (put k v m) = del k m"
  by (rule ext) (auto simp: wf_del wf_put get_del get_put)

end

interpretation gm: dictionary "[]" "mput :: 'k::linorder \<Rightarrow> 'v \<Rightarrow> _" mdel map_of mwf
  by unfold_locales (auto intro: mwf_ext)

lemma mwf_fold_mput: "mwf m \<Longrightarrow> mwf (fold (\<lambda>(k, v). mput k v) ps m)"
  by (induction ps arbitrary: m) auto

lemma mwf_mof_list [simp, gomap_intros]: "mwf (mof_list ps)"
  by (simp add: mof_list_def mwf_fold_mput)

lemma mget_fold_mput: "mget (fold (\<lambda>(k, v). mput k v) ps m) = mget m ++ map_of (rev ps)"
  by (induction ps arbitrary: m) (auto simp: map_add_def fun_eq_iff split: option.splits)

lemma mget_mof_list: "mget (mof_list ps) = map_of (rev ps)"
  by (simp add: mof_list_def mget_fold_mput)

lemma distinct_map_of_rev: "distinct (map fst xs) \<Longrightarrow> map_of (rev xs) = map_of xs"
  by (rule map_of_inject_set [THEN iffD2]) (auto simp: rev_map [symmetric])

text \<open>Storing the entries of a well-formed map one by one rebuilds it.\<close>

lemma mof_list_id [simp]:
  assumes "mwf m"
  shows "mof_list m = m"
proof (rule mwf_ext)
  have "map_of (rev m) = map_of m"
    using assms by (intro distinct_map_of_rev) (rule mwf_distinct)
  then show "mget (mof_list m) = mget m"
    by (simp add: mget_mof_list)
qed (use assms in auto)

text \<open>Mapping over the values keeps the keys.\<close>

definition mmap :: "('v \<Rightarrow> 'w) \<Rightarrow> ('k, 'v) gomap \<Rightarrow> ('k, 'w) gomap" where
  "mmap f m = map (\<lambda>(k, v). (k, f v)) m"

lemma mkeys_mmap [simp]: "mkeys (mmap f m) = mkeys m"
  by (auto simp: mmap_def)

lemma mwf_mmap [simp, gomap_intros]: "mwf (mmap f m) = mwf m"
  by (simp only: mwf_def mkeys_mmap)

lemma mget_mmap [simp, gomap_simps]: "mget (mmap f m) k = map_option f (mget m k)"
  by (induction m) (auto simp: mmap_def)

section \<open>State machines\<close>

text \<open>
  A component with state is a set of initial states and a step relation; an invariant
  holds initially and is kept by every step, so it holds in every reachable state.
\<close>

locale machine =
  fixes init :: "'s \<Rightarrow> bool"
    and step :: "'s \<Rightarrow> 's \<Rightarrow> bool"
    and inv :: "'s \<Rightarrow> bool"
  assumes inv_init: "init s \<Longrightarrow> inv s"
    and inv_step: "inv s \<Longrightarrow> step s t \<Longrightarrow> inv t"
begin

lemma inv_steps: "step\<^sup>*\<^sup>* s t \<Longrightarrow> inv s \<Longrightarrow> inv t"
  by (induction rule: rtranclp_induct) (auto intro: inv_step)

lemma inv_reachable: "init s \<Longrightarrow> step\<^sup>*\<^sup>* s t \<Longrightarrow> inv t"
  by (blast intro: inv_init inv_steps)

end

end
