(* ===== verification/Go_Strings.thy ===== *)
theory Go_Strings
  imports Go_Prelude
begin

text \<open>
  The functions of Go's \<open>strings\<close> and \<open>path\<close> packages that the sources call, on byte
  strings.
\<close>

section \<open>Package strings\<close>

definition HasPrefix :: "string \<Rightarrow> string \<Rightarrow> bool" where
  "HasPrefix s p = (take (length p) s = p)"

definition HasSuffix :: "string \<Rightarrow> string \<Rightarrow> bool" where
  "HasSuffix s p = (length p \<le> length s \<and> drop (length s - length p) s = p)"

definition TrimSuffix :: "string \<Rightarrow> string \<Rightarrow> string" where
  "TrimSuffix s p = (if HasSuffix s p then take (length s - length p) s else s)"

text \<open>\<open>strings.Split(s, sep)\<close> for a one-byte separator.\<close>

fun Split :: "char \<Rightarrow> string \<Rightarrow> string list" where
  "Split c [] = [[]]"
| "Split c (x # xs) =
     (if x = c then [] # Split c xs
      else (case Split c xs of [] \<Rightarrow> [[x]] | p # ps \<Rightarrow> (x # p) # ps))"

fun Join :: "string \<Rightarrow> string list \<Rightarrow> string" where
  "Join sep [] = []"
| "Join sep [p] = p"
| "Join sep (p # ps) = p @ sep @ Join sep ps"

text \<open>\<open>strings.Cut(s, sep)\<close> for a one-byte separator: before, after, found.\<close>

fun Cut :: "char \<Rightarrow> string \<Rightarrow> string \<times> string \<times> bool" where
  "Cut c [] = ([], [], False)"
| "Cut c (x # xs) =
     (if x = c then ([], xs, True)
      else (case Cut c xs of (a, b, f) \<Rightarrow> (x # a, b, f)))"

text \<open>The parts of \<open>s\<close> around the last \<open>c\<close>, the use the sources make of \<open>LastIndex\<close>.\<close>

definition cut_last :: "char \<Rightarrow> string \<Rightarrow> (string \<times> string) option" where
  "cut_last c s =
     (if c \<in> set s
      then Some (rev (tl (dropWhile (\<lambda>x. x \<noteq> c) (rev s))), rev (takeWhile (\<lambda>x. x \<noteq> c) (rev s)))
      else None)"

fun Contains :: "string \<Rightarrow> string \<Rightarrow> bool" where
  "Contains [] p = (p = [])"
| "Contains (x # xs) p = (HasPrefix (x # xs) p \<or> Contains xs p)"

definition replace_char :: "char \<Rightarrow> char \<Rightarrow> string \<Rightarrow> string" where
  "replace_char a b s = map (\<lambda>x. if x = a then b else x) s"

text \<open>
  The UTF-8 encodings of the code points for which \<open>unicode.IsSpace\<close> holds.
\<close>

definition space_seqs :: "string list" where
  "space_seqs =
     [[CHR 0x09], [CHR 0x0A], [CHR 0x0B], [CHR 0x0C], [CHR 0x0D], [CHR 0x20],
      [CHR 0xC2, CHR 0x85], [CHR 0xC2, CHR 0xA0],
      [CHR 0xE1, CHR 0x9A, CHR 0x80],
      [CHR 0xE2, CHR 0x80, CHR 0x80], [CHR 0xE2, CHR 0x80, CHR 0x81],
      [CHR 0xE2, CHR 0x80, CHR 0x82], [CHR 0xE2, CHR 0x80, CHR 0x83],
      [CHR 0xE2, CHR 0x80, CHR 0x84], [CHR 0xE2, CHR 0x80, CHR 0x85],
      [CHR 0xE2, CHR 0x80, CHR 0x86], [CHR 0xE2, CHR 0x80, CHR 0x87],
      [CHR 0xE2, CHR 0x80, CHR 0x88], [CHR 0xE2, CHR 0x80, CHR 0x89],
      [CHR 0xE2, CHR 0x80, CHR 0x8A], [CHR 0xE2, CHR 0x80, CHR 0xA8],
      [CHR 0xE2, CHR 0x80, CHR 0xA9], [CHR 0xE2, CHR 0x80, CHR 0xAF],
      [CHR 0xE2, CHR 0x81, CHR 0x9F], [CHR 0xE3, CHR 0x80, CHR 0x80]]"

text \<open>Removing the sequences \<open>seqs\<close> from the front as long as one of them is there.\<close>

function strip_front :: "string list \<Rightarrow> string \<Rightarrow> string" where
  "strip_front seqs s =
     (case find (\<lambda>q. q \<noteq> [] \<and> HasPrefix s q) seqs of
        None \<Rightarrow> s
      | Some q \<Rightarrow> strip_front seqs (drop (length q) s))"
  by pat_completeness auto
termination
proof (relation "measure (\<lambda>(seqs, s). length s)")
  fix seqs s q
  assume "find (\<lambda>q. q \<noteq> [] \<and> HasPrefix s q) seqs = Some q"
  then have "q \<noteq> []" "HasPrefix s q"
    by (auto simp: find_Some_iff)
  then have "s \<noteq> []" "q \<noteq> []"
    by (auto simp: HasPrefix_def)
  then show "((seqs, drop (length q) s), seqs, s) \<in> measure (\<lambda>(seqs, s). length s)"
    by simp
qed simp

declare strip_front.simps [simp del]

definition TrimSpace :: "string \<Rightarrow> string" where
  "TrimSpace s = rev (strip_front (map rev space_seqs) (rev (strip_front space_seqs s)))"

section \<open>Package path\<close>

text \<open>
  \<open>path.Clean\<close>: the shortest equivalent slash-separated path. The elements of the path
  are pushed on a stack; an empty element or \<open>.\<close> is skipped, and \<open>..\<close> pops the element
  before it, is dropped at the root, and is kept at the front of a relative path.
\<close>

fun clean_parts :: "bool \<Rightarrow> string list \<Rightarrow> string list \<Rightarrow> string list" where
  "clean_parts rooted out [] = rev out"
| "clean_parts rooted out (p # ps) =
     (if p = [] \<or> p = ''.'' then clean_parts rooted out ps
      else if p = ''..'' then
        (case out of
           [] \<Rightarrow> clean_parts rooted (if rooted then [] else [''..'']) ps
         | q # qs \<Rightarrow> clean_parts rooted (if q = ''..'' then ''..'' # out else qs) ps)
      else clean_parts rooted (p # out) ps)"

definition Clean :: "string \<Rightarrow> string" where
  "Clean s =
     (if s = [] then ''.''
      else let rooted = (hd s = CHR ''/'');
               body = Join ''/'' (clean_parts rooted [] (Split (CHR ''/'') s))
           in if rooted then CHR ''/'' # body
              else if body = [] then ''.'' else body)"

text \<open>\<open>path.Ext\<close>: from the last dot of the last element on, empty if it has none.\<close>

definition Ext :: "string \<Rightarrow> string" where
  "Ext s =
     (let base = rev (takeWhile (\<lambda>x. x \<noteq> CHR ''/'') (rev s))
      in case cut_last (CHR ''.'') base of None \<Rightarrow> [] | Some (a, b) \<Rightarrow> CHR ''.'' # b)"

section \<open>Lemmas\<close>

lemma Split_nonempty [simp]: "Split c s \<noteq> []"
  by (induction s) (auto split: list.splits)

lemma Join_Split: "Join [c] (Split c s) = s"
proof (induction s)
  case (Cons x xs)
  obtain p ps where "Split c xs = p # ps"
    by (cases "Split c xs") auto
  with Cons show ?case by (cases ps) auto
qed simp

lemma Split_no_sep: "p \<in> set (Split c s) \<Longrightarrow> c \<notin> set p"
  by (induction s arbitrary: p) (auto split: list.splits if_splits)

lemma Split_id: "c \<notin> set s \<Longrightarrow> Split c s = [s]"
  by (induction s) auto

lemma Split_append: "c \<notin> set p \<Longrightarrow> Split c (p @ c # s) = p # Split c s"
  by (induction p) auto

lemma Split_Join:
  "ps \<noteq> [] \<Longrightarrow> (\<And>p. p \<in> set ps \<Longrightarrow> c \<notin> set p) \<Longrightarrow> Split c (Join [c] ps) = ps"
  by (induction "[c]" ps rule: Join.induct) (auto simp: Split_id Split_append)

lemma HasPrefix_append [simp]: "HasPrefix (p @ s) p"
  by (simp add: HasPrefix_def)

lemma HasPrefix_iff: "HasPrefix s p \<longleftrightarrow> (\<exists>r. s = p @ r)"
  by (auto simp: HasPrefix_def) (metis append_take_drop_id)

lemma HasSuffix_iff: "HasSuffix s p \<longleftrightarrow> (\<exists>r. s = r @ p)"
proof
  assume "HasSuffix s p"
  then show "\<exists>r. s = r @ p"
    by (metis HasSuffix_def append_take_drop_id)
qed (auto simp: HasSuffix_def)

lemma TrimSuffix_append [simp]: "TrimSuffix (s @ p) p = s"
  by (simp add: TrimSuffix_def HasSuffix_iff)

lemma TrimSuffix_id: "\<not> HasSuffix s p \<Longrightarrow> TrimSuffix s p = s"
  by (simp add: TrimSuffix_def)

lemma cut_last_Some: "cut_last c s = Some (a, b) \<longleftrightarrow> s = a @ c # b \<and> c \<notin> set b"
proof
  assume l: "cut_last c s = Some (a, b)"
  then have c: "c \<in> set (rev s)"
    by (auto simp: cut_last_def split: if_splits)
  then have "rev s = takeWhile (\<lambda>x. x \<noteq> c) (rev s) @ c # tl (dropWhile (\<lambda>x. x \<noteq> c) (rev s))"
    by (metis (mono_tags, lifting) dropWhile_eq_Nil_conv hd_dropWhile list.collapse takeWhile_dropWhile_id)
  then have "s = rev (tl (dropWhile (\<lambda>x. x \<noteq> c) (rev s))) @ c # rev (takeWhile (\<lambda>x. x \<noteq> c) (rev s))"
    by (metis append.assoc append_Cons append_Nil rev.simps(2) rev_append rev_rev_ident)
  with l show "s = a @ c # b \<and> c \<notin> set b"
    by (auto simp: cut_last_def split: if_splits dest: set_takeWhileD)
next
  assume "s = a @ c # b \<and> c \<notin> set b"
  then have s: "s = a @ c # b" and b: "c \<notin> set b"
    by auto
  have "takeWhile (\<lambda>x. x \<noteq> c) (rev b @ c # rev a) = rev b"
    by (subst takeWhile_append2) (use b in auto)
  moreover have "dropWhile (\<lambda>x. x \<noteq> c) (rev b @ c # rev a) = c # rev a"
    by (subst dropWhile_append2) (use b in auto)
  ultimately show "cut_last c s = Some (a, b)"
    by (simp add: cut_last_def s)
qed

lemma cut_last_None: "cut_last c s = None \<longleftrightarrow> c \<notin> set s"
  by (simp add: cut_last_def)

lemma Cut_spec:
  "Cut c s = (a, b, f) \<Longrightarrow> c \<notin> set a \<and> (if f then s = a @ c # b else s = a \<and> b = [])"
  by (induction s arbitrary: a b f) (auto split: if_splits prod.splits)

lemma Cut_append: "c \<notin> set a \<Longrightarrow> Cut c (a @ c # b) = (a, b, True)"
  by (induction a) auto

lemma Cut_absent: "c \<notin> set a \<Longrightarrow> Cut c a = (a, [], False)"
  by (induction a) auto

lemma replace_char_id: "a \<notin> set s \<Longrightarrow> replace_char a b s = s"
  by (induction s) (auto simp: replace_char_def)

end
