(* ===== verification/Go_Encoding.thy ===== *)
theory Go_Encoding
  imports Go_Strings
begin

text \<open>
  The parts of Go's \<open>encoding/base64\<close> and \<open>encoding/binary\<close> packages that the sources
  call: the padded standard and URL encodings and the little-endian byte order of
  64-bit words.
\<close>

type_synonym byte = "8 word"

section \<open>Package encoding/binary\<close>

fun le_bytes :: "nat \<Rightarrow> nat \<Rightarrow> byte list" where
  "le_bytes 0 n = []"
| "le_bytes (Suc k) n = of_nat (n mod 256) # le_bytes k (n div 256)"

fun le_val :: "byte list \<Rightarrow> nat" where
  "le_val [] = 0"
| "le_val (b # bs) = unat b + 256 * le_val bs"

text \<open>\<open>binary.LittleEndian.PutUint64\<close> into a fresh 8-byte buffer, and \<open>Uint64\<close>.\<close>

definition PutUint64 :: "64 word \<Rightarrow> byte list" where
  "PutUint64 w = le_bytes 8 (unat w)"

definition Uint64 :: "byte list \<Rightarrow> 64 word" where
  "Uint64 bs = of_nat (le_val (take 8 bs))"

lemma unat_byte_less: "unat (b :: byte) < 256"
  by (rule order_less_le_trans [OF unsigned_less]) simp

lemma unat_of_nat_byte [simp]: "n < 256 \<Longrightarrow> unat (of_nat n :: byte) = n"
  by (simp add: unat_of_nat take_bit_eq_mod)

lemma length_le_bytes [simp]: "length (le_bytes k n) = k"
  by (induction k n rule: le_bytes.induct) auto

lemma le_val_bytes: "le_val (le_bytes k n) = n mod 256 ^ k"
proof (induction k n rule: le_bytes.induct)
  case (2 k n)
  have "n mod 256 ^ Suc k = n mod 256 + 256 * (n div 256 mod 256 ^ k)"
    by (simp add: mod_mult2_eq)
  with 2 show ?case by simp
qed simp

lemma le_bytes_val: "le_bytes (length bs) (le_val bs) = bs"
proof (induction bs)
  case (Cons b bs)
  have "(unat b + 256 * le_val bs) mod 256 = unat b" "(unat b + 256 * le_val bs) div 256 = le_val bs"
    using unat_byte_less [of b] by auto
  with Cons show ?case by simp
qed simp

lemma length_PutUint64 [simp]: "length (PutUint64 w) = 8"
  by (simp add: PutUint64_def)

lemma Uint64_PutUint64 [simp]: "Uint64 (PutUint64 w) = w"
proof -
  have "unat w mod 256 ^ 8 = unat w"
    by (rule mod_less, rule order_less_le_trans [OF unsigned_less]) simp
  then show ?thesis
    by (simp add: Uint64_def PutUint64_def le_val_bytes)
qed

lemma PutUint64_Uint64: "length bs = 8 \<Longrightarrow> PutUint64 (Uint64 bs) = bs"
proof -
  assume len: "length bs = 8"
  have b: "le_val xs < 256 ^ length xs" for xs
  proof (induction xs)
    case (Cons x xs)
    then show ?case
      using unat_byte_less [of x] by simp
  qed simp
  have "le_val bs < 2 ^ 64"
    using b [of bs] len by simp
  then have "unat (of_nat (le_val bs) :: 64 word) = le_val bs"
    by (simp add: unat_of_nat take_bit_eq_mod)
  then show ?thesis
    using len le_bytes_val [of bs] by (simp add: PutUint64_def Uint64_def)
qed

section \<open>Package encoding/base64\<close>

definition std_alphabet :: string where
  "std_alphabet = ''ABCDEFGHIJKLMNOPQRSTUVWXYZabcdefghijklmnopqrstuvwxyz0123456789+/''"

definition url_alphabet :: string where
  "url_alphabet = ''ABCDEFGHIJKLMNOPQRSTUVWXYZabcdefghijklmnopqrstuvwxyz0123456789-_''"

definition b64_pad :: char where
  "b64_pad = CHR ''=''"

text \<open>\<open>Encoding.EncodeToString\<close>, three bytes to four characters, padded at the end.\<close>

fun b64_encode :: "string \<Rightarrow> byte list \<Rightarrow> string" where
  "b64_encode al [] = []"
| "b64_encode al [a] =
     [al ! (unat a div 4), al ! (unat a mod 4 * 16), b64_pad, b64_pad]"
| "b64_encode al [a, b] =
     [al ! (unat a div 4), al ! (unat a mod 4 * 16 + unat b div 16),
      al ! (unat b mod 16 * 4), b64_pad]"
| "b64_encode al (a # b # c # bs) =
     al ! (unat a div 4) # al ! (unat a mod 4 * 16 + unat b div 16) #
     al ! (unat b mod 16 * 4 + unat c div 64) # al ! (unat c mod 64) # b64_encode al bs"

definition b64_index :: "string \<Rightarrow> char \<Rightarrow> nat option" where
  "b64_index al c =
     (let n = length (takeWhile (\<lambda>x. x \<noteq> c) al) in if n < length al then Some n else None)"

definition b64_bytes :: "nat \<Rightarrow> nat \<Rightarrow> nat \<Rightarrow> nat \<Rightarrow> byte list" where
  "b64_bytes i j k l =
     [of_nat (i * 4 + j div 16), of_nat (j mod 16 * 16 + k div 4), of_nat (k mod 4 * 64 + l)]"

text \<open>
  Decoding the quanta of a text without line breaks: padding is required, it ends the
  text, and (the encodings are not strict) the unused bits of the last character are
  ignored.
\<close>

fun b64_quanta :: "string \<Rightarrow> string \<Rightarrow> byte list option" where
  "b64_quanta al [] = Some []"
| "b64_quanta al (p # q # r # s # cs) =
     (case (b64_index al p, b64_index al q) of
        (Some i, Some j) \<Rightarrow>
          (if r = b64_pad then
             (if s = b64_pad \<and> cs = [] then Some (take 1 (b64_bytes i j 0 0)) else None)
           else (case b64_index al r of
             None \<Rightarrow> None
           | Some k \<Rightarrow>
               (if s = b64_pad then
                  (if cs = [] then Some (take 2 (b64_bytes i j k 0)) else None)
                else (case (b64_index al s, b64_quanta al cs) of
                  (Some l, Some bs) \<Rightarrow> Some (b64_bytes i j k l @ bs)
                | _ \<Rightarrow> None))))
      | _ \<Rightarrow> None)"
| "b64_quanta al _ = None"

text \<open>\<open>Encoding.DecodeString\<close> skips carriage returns and line feeds everywhere.\<close>

definition b64_decode :: "string \<Rightarrow> string \<Rightarrow> byte list option" where
  "b64_decode al s = b64_quanta al (filter (\<lambda>c. c \<noteq> CHR 0x0A \<and> c \<noteq> CHR 0x0D) s)"

text \<open>An alphabet that can be decoded: 64 distinct characters, none with another meaning.\<close>

definition b64_alphabet :: "string \<Rightarrow> bool" where
  "b64_alphabet al \<longleftrightarrow> length al = 64 \<and> distinct al \<and> b64_pad \<notin> set al \<and>
     CHR 0x0A \<notin> set al \<and> CHR 0x0D \<notin> set al"

lemma std_alphabet_ok: "b64_alphabet std_alphabet"
  unfolding b64_alphabet_def std_alphabet_def b64_pad_def by simp

lemma url_alphabet_ok: "b64_alphabet url_alphabet"
  unfolding b64_alphabet_def url_alphabet_def b64_pad_def by simp

lemma b64_index_nth:
  assumes "b64_alphabet al" and "i < 64"
  shows "b64_index al (al ! i) = Some i"
proof -
  have len: "length al = 64" and d: "distinct al"
    using assms(1) by (auto simp: b64_alphabet_def)
  have "takeWhile (\<lambda>x. x \<noteq> al ! i) al = take i al"
    using len d assms(2) by (intro takeWhile_eq_take_P_nth) (auto simp: nth_eq_iff_index_eq)
  then show ?thesis
    using len assms(2) by (simp add: b64_index_def)
qed

lemma b64_nth_plain:
  assumes "b64_alphabet al" and "i < 64"
  shows "al ! i \<noteq> b64_pad" and "al ! i \<noteq> CHR 0x0A" and "al ! i \<noteq> CHR 0x0D"
  using assms by (auto simp: b64_alphabet_def) (metis nth_mem)+

lemma b64_index_less: "b64_index al c = Some i \<Longrightarrow> i < length al \<and> al ! i = c"
  unfolding b64_index_def Let_def
  by (auto split: if_splits) (metis (mono_tags, lifting) nth_length_takeWhile)

lemma b64_bounds:
  assumes "a < 256" and "b < 256" and "c < (256 :: nat)"
  shows "a div 4 < 64" "a mod 4 * 16 < 64" "a mod 4 * 16 + b div 16 < 64"
    "b mod 16 * 4 < 64" "b mod 16 * 4 + c div 64 < 64" "c mod 64 < 64"
proof -
  have "b div 16 < 16" "c div 64 < 4" "a mod 4 < 4" "b mod 16 < 16"
    using assms by auto
  then show "a mod 4 * 16 < 64" "a mod 4 * 16 + b div 16 < 64"
    "b mod 16 * 4 < 64" "b mod 16 * 4 + c div 64 < 64"
    by linarith+
qed (use assms in auto)

lemma b64_bytes_of:
  "b64_bytes (unat a div 4) (unat a mod 4 * 16 + unat b div 16)
     (unat b mod 16 * 4 + unat c div 64) (unat c mod 64) = [a, b, c]"
proof -
  have "unat b div 16 < 16" "unat c div 64 < 4"
    using unat_byte_less [of b] unat_byte_less [of c] by auto
  then have "unat a div 4 * 4 + (unat a mod 4 * 16 + unat b div 16) div 16 = unat a"
    "(unat a mod 4 * 16 + unat b div 16) mod 16 * 16 + (unat b mod 16 * 4 + unat c div 64) div 4 = unat b"
    "(unat b mod 16 * 4 + unat c div 64) mod 4 * 64 + unat c mod 64 = unat c"
    by auto
  then show ?thesis by (simp add: b64_bytes_def)
qed

lemmas b64_byte_bounds [simp] = b64_bounds [OF unat_byte_less unat_byte_less unat_byte_less]

lemma b64_quanta_encode:
  assumes "b64_alphabet al"
  shows "b64_quanta al (b64_encode al bs) = Some bs"
  using assms
proof (induction al bs rule: b64_encode.induct [case_names Nil One Two Three])
  case (One al a)
  then show ?case
    using b64_bytes_of [of a 0 0] by (simp add: b64_index_nth b64_nth_plain)
next
  case (Two al a b)
  then show ?case
    using b64_bytes_of [of a b 0] by (simp add: b64_index_nth b64_nth_plain)
next
  case (Three al a b c bs)
  then show ?case
    using b64_bytes_of [of a b c] by (simp add: b64_index_nth b64_nth_plain)
qed simp

lemma b64_encode_plain:
  assumes "b64_alphabet al"
  shows "filter (\<lambda>c. c \<noteq> CHR 0x0A \<and> c \<noteq> CHR 0x0D) (b64_encode al bs) = b64_encode al bs"
  using assms
  by (induction al bs rule: b64_encode.induct) (simp_all add: b64_nth_plain, simp_all add: b64_pad_def)

lemma b64_decode_encode: "b64_alphabet al \<Longrightarrow> b64_decode al (b64_encode al bs) = Some bs"
  by (simp add: b64_decode_def b64_encode_plain b64_quanta_encode)

text \<open>
  The two alphabets agree wherever both know a character, so a text that both encodings
  accept decodes to the same bytes.
\<close>

lemma b64_index_append:
  "b64_index (pre @ suf) c =
     (if c \<in> set pre then b64_index pre c else map_option ((+) (length pre)) (b64_index suf c))"
proof (cases "c \<in> set pre")
  case True
  have "length (takeWhile (\<lambda>x. x \<noteq> c) pre) < length pre"
    using True by (metis (mono_tags, lifting) append_self_conv length_append length_takeWhile_le
        linorder_not_less nless_le takeWhile_dropWhile_id dropWhile_eq_Nil_conv length_0_conv add_cancel_right_right)
  with True show ?thesis
    by (auto simp: b64_index_def takeWhile_append)
qed (auto simp: b64_index_def takeWhile_append Let_def)

lemma b64_index_agree:
  assumes "b64_index std_alphabet c = Some i" and "b64_index url_alphabet c = Some j"
  shows "i = j"
proof -
  have s: "std_alphabet = take 62 std_alphabet @ ''+/''" "url_alphabet = take 62 std_alphabet @ ''-_''"
    by (simp_all add: std_alphabet_def url_alphabet_def)
  define pre where "pre = take 62 std_alphabet"
  have "b64_index (pre @ ''+/'') c = Some i" "b64_index (pre @ ''-_'') c = Some j"
    using assms s unfolding pre_def by metis+
  then show ?thesis
    unfolding b64_index_append
    by (cases "c \<in> set pre") (auto simp: b64_index_def split: if_splits)
qed

lemma b64_quanta_four:
  "b64_quanta al (p # q # r # s # cs) = Some d \<longleftrightarrow>
     (\<exists>i j. b64_index al p = Some i \<and> b64_index al q = Some j \<and>
       (if r = b64_pad then s = b64_pad \<and> cs = [] \<and> d = take 1 (b64_bytes i j 0 0)
        else \<exists>k. b64_index al r = Some k \<and>
          (if s = b64_pad then cs = [] \<and> d = take 2 (b64_bytes i j k 0)
           else \<exists>l bs. b64_index al s = Some l \<and> b64_quanta al cs = Some bs \<and>
             d = b64_bytes i j k l @ bs)))"
  by (simp split: option.split) (meson option.distinct(1))

lemma b64_quanta_agree:
  assumes agree: "\<And>c i j. b64_index al c = Some i \<Longrightarrow> b64_index al' c = Some j \<Longrightarrow> i = j"
    and "b64_quanta al s = Some d" and "b64_quanta al' s = Some d'"
  shows "d = d'"
  using assms
proof (induction al s arbitrary: d d' rule: b64_quanta.induct [case_names Nil Four])
  case (Four al p q r s cs)
  obtain i j where ij: "b64_index al p = Some i" "b64_index al q = Some j"
      "b64_index al' p = Some i" "b64_index al' q = Some j"
    using Four.prems unfolding b64_quanta_four by metis
  show ?case
  proof (cases "r = b64_pad")
    case False
    obtain k where k: "b64_index al r = Some k" "b64_index al' r = Some k"
      using Four.prems False unfolding b64_quanta_four by metis
    show ?thesis
    proof (cases "s = b64_pad")
      case pad: False
      obtain l bs bs' where "b64_index al s = Some l" "b64_index al' s = Some l"
          "b64_quanta al cs = Some bs" "b64_quanta al' cs = Some bs'"
          "d = b64_bytes i j k l @ bs" "d' = b64_bytes i j k l @ bs'"
        using Four.prems ij k False pad unfolding b64_quanta_four by (metis option.inject)
      then show ?thesis
        using Four.IH [OF refl ij(1,2) False k(1) pad] Four.prems(1) by blast
    qed (use Four.prems(2,3) ij k False in \<open>auto simp: b64_quanta_four\<close>)
  qed (use Four.prems(2,3) ij in \<open>auto simp: b64_quanta_four\<close>)
qed auto

lemma b64_decode_agree:
  "b64_decode std_alphabet s = Some d \<Longrightarrow> b64_decode url_alphabet s = Some d' \<Longrightarrow> d = d'"
  using b64_quanta_agree [OF b64_index_agree] by (simp add: b64_decode_def)

end
