(* ===== verification/Go_Json.thy ===== *)
theory Go_Json
  imports Go_Encoding
begin

text \<open>
  JSON as the sources see it through \<open>encoding/json\<close>, \<open>strconv\<close> and \<open>unicode/utf8\<close>.

  A JSON document (a \<open>[]byte\<close> or \<open>json.RawMessage\<close>) is represented by its syntax tree
  \<open>json\<close>: numbers keep their literal text and object members keep the order and the
  duplicates of the document. No function of the sources inspects the text of a document
  other than through the library, except \<open>rawIsNull\<close>, which is equality with \<open>JNull\<close> on
  trees. \<open>json_text\<close> prints a tree the way \<open>json.Marshal\<close> does, since the query tokens
  of the base client are such texts.
\<close>

section \<open>IEEE 754 double precision numbers as their 64 bits\<close>

type_synonym f64 = "64 word"

definition f64_mag :: "f64 \<Rightarrow> nat" where
  "f64_mag f = unat f mod 2 ^ 63"

definition Signbit :: "f64 \<Rightarrow> bool" where
  "Signbit f \<longleftrightarrow> 2 ^ 63 \<le> unat f"

definition inf_bits :: nat where
  "inf_bits = 0x7FF * 2 ^ 52"

definition IsNaN :: "f64 \<Rightarrow> bool" where
  "IsNaN f \<longleftrightarrow> inf_bits < f64_mag f"

text \<open>\<open>math.IsInf(f, 0)\<close>\<close>

definition IsInf :: "f64 \<Rightarrow> bool" where
  "IsInf f \<longleftrightarrow> f64_mag f = inf_bits"

text \<open>\<open>f == 0\<close>, true of both zeros\<close>

definition f64_is_zero :: "f64 \<Rightarrow> bool" where
  "f64_is_zero f \<longleftrightarrow> f64_mag f = 0"

definition f64_of :: "bool \<Rightarrow> nat \<Rightarrow> f64" where
  "f64_of neg mag = of_nat (mag + (if neg then 2 ^ 63 else 0))"

definition f64_nan :: f64 where
  "f64_nan = 0x7FF8000000000001"

section \<open>Package strconv\<close>

definition is_digit :: "char \<Rightarrow> bool" where
  "is_digit c \<longleftrightarrow> CHR ''0'' \<le> c \<and> c \<le> CHR ''9''"

definition digit_val :: "char \<Rightarrow> nat" where
  "digit_val c = of_char c - 48"

definition digit_char :: "nat \<Rightarrow> char" where
  "digit_char n = char_of (n + 48)"

fun nat_digits :: "nat \<Rightarrow> string" where
  "nat_digits n = (if n < 10 then [digit_char n] else nat_digits (n div 10) @ [digit_char (n mod 10)])"

declare nat_digits.simps [simp del]

definition digits_val :: "string \<Rightarrow> nat" where
  "digits_val s = foldl (\<lambda>n c. n * 10 + digit_val c) 0 s"

definition int_text :: "int \<Rightarrow> string" where
  "int_text i = (if i < 0 then CHR ''-'' # nat_digits (nat (- i)) else nat_digits (nat i))"

text \<open>\<open>strconv.ParseUint(s, 10, 64)\<close> and \<open>strconv.ParseInt(s, 10, 64)\<close>\<close>

definition ParseUint :: "string \<Rightarrow> nat option" where
  "ParseUint s =
     (if s \<noteq> [] \<and> list_all is_digit s \<and> digits_val s < 2 ^ 64 then Some (digits_val s) else None)"

definition ParseInt :: "string \<Rightarrow> int option" where
  "ParseInt s =
     (let neg = (s \<noteq> [] \<and> hd s = CHR ''-'');
          ds = (if s \<noteq> [] \<and> (hd s = CHR ''-'' \<or> hd s = CHR ''+'') then tl s else s)
      in if ds \<noteq> [] \<and> list_all is_digit ds
         then (if neg then if digits_val ds \<le> 2 ^ 63 then Some (- int (digits_val ds)) else None
               else if digits_val ds < 2 ^ 63 then Some (int (digits_val ds)) else None)
         else None)"

text \<open>
  \<open>strconv.ParseFloat(s, 64)\<close> on decimal spellings and on the names of the infinities and
  of not-a-number: the nearest double, ties to even, and an error when it overflows.
  (Hexadecimal mantissas and digit separators, which JSON does not have, are not
  modelled.)
\<close>

fun bit_len :: "nat \<Rightarrow> nat" where
  "bit_len n = (if n = 0 then 0 else Suc (bit_len (n div 2)))"

declare bit_len.simps [simp del]

definition ratio_scale :: "nat \<Rightarrow> nat \<Rightarrow> int \<Rightarrow> nat \<times> nat" where
  "ratio_scale num den e = (if 0 \<le> e then (num * 2 ^ nat e, den) else (num, den * 2 ^ nat (- e)))"

definition ratio_log :: "nat \<Rightarrow> nat \<Rightarrow> int" where
  "ratio_log num den =
     (let e = int (bit_len num) - int (bit_len den); (n, d) = ratio_scale num den (- e)
      in if d \<le> n then e else e - 1)"

definition round_even :: "nat \<Rightarrow> nat \<Rightarrow> nat" where
  "round_even n d =
     (let q = n div d; r = n mod d in if d < 2 * r \<or> (d = 2 * r \<and> odd q) then q + 1 else q)"

definition round_ratio :: "nat \<Rightarrow> nat \<Rightarrow> nat option" where
  "round_ratio num den =
     (if num = 0 then Some 0
      else let e = max (ratio_log num den) (- 1022);
               (n, d) = ratio_scale num den (52 - e);
               bits = nat (e + 1022) * 2 ^ 52 + round_even n d
           in if bits < inf_bits then Some bits else None)"

text \<open>The parts of a decimal spelling: sign, digits with the dot removed, power of ten.\<close>

definition split_float :: "string \<Rightarrow> (bool \<times> string \<times> int) option" where
  "split_float s =
     (let neg = (s \<noteq> [] \<and> hd s = CHR ''-'');
          s1 = (if s \<noteq> [] \<and> (hd s = CHR ''-'' \<or> hd s = CHR ''+'') then tl s else s);
          ip = takeWhile is_digit s1; r1 = dropWhile is_digit s1;
          dot = (r1 \<noteq> [] \<and> hd r1 = CHR ''.'');
          fp = (if dot then takeWhile is_digit (tl r1) else []);
          r2 = (if dot then dropWhile is_digit (tl r1) else r1)
      in if ip @ fp = [] then None
         else if r2 = [] then Some (neg, ip @ fp, - int (length fp))
         else if hd r2 = CHR ''e'' \<or> hd r2 = CHR ''E''
         then let r3 = tl r2;
                  eneg = (r3 \<noteq> [] \<and> hd r3 = CHR ''-'');
                  es = (if r3 \<noteq> [] \<and> (hd r3 = CHR ''-'' \<or> hd r3 = CHR ''+'') then tl r3 else r3)
              in if es \<noteq> [] \<and> list_all is_digit es
                 then Some (neg, ip @ fp,
                        (if eneg then - int (digits_val es) else int (digits_val es)) - int (length fp))
                 else None
         else None)"

definition to_lower :: "char \<Rightarrow> char" where
  "to_lower c = (if CHR ''A'' \<le> c \<and> c \<le> CHR ''Z'' then char_of (of_char c + 32 :: nat) else c)"

definition special_float :: "string \<Rightarrow> f64 option" where
  "special_float s =
     (let l = map to_lower s in
      if l \<in> set [''inf'', ''infinity'', ''+inf'', ''+infinity''] then Some (f64_of False inf_bits)
      else if l \<in> set [''-inf'', ''-infinity''] then Some (f64_of True inf_bits)
      else if l = ''nan'' then Some f64_nan else None)"

definition decimal_ratio :: "nat \<Rightarrow> int \<Rightarrow> nat \<times> nat" where
  "decimal_ratio m e = (if 0 \<le> e then (m * 10 ^ nat e, 1) else (m, 10 ^ nat (- e)))"

definition ParseFloat :: "string \<Rightarrow> f64 option" where
  "ParseFloat s =
     (case special_float s of
        Some f \<Rightarrow> Some f
      | None \<Rightarrow>
          (case split_float s of
             None \<Rightarrow> None
           | Some (neg, ds, e) \<Rightarrow>
               (case decimal_ratio (digits_val ds) e of
                  (num, den) \<Rightarrow> map_option (f64_of neg) (round_ratio num den))))"

text \<open>
  The text \<open>encoding/json\<close> gives to a finite double: the fewest digits that read back as
  the same number (of two such spellings the closer one), in plain notation for
  magnitudes from \<open>1e-6\<close> up to \<open>1e21\<close> and in exponent notation outside.
\<close>

definition f64_ratio :: "nat \<Rightarrow> nat \<times> nat" where
  "f64_ratio mag =
     (let ef = mag div 2 ^ 52; fr = mag mod 2 ^ 52;
          m = (if ef = 0 then fr else fr + 2 ^ 52); e = (if ef = 0 then - 1074 else int ef - 1075)
      in ratio_scale m 1 e)"

text \<open>The least \<open>k\<close> with \<open>num / den < 10 ^ k\<close>, for a positive ratio.\<close>

definition ratio_log10 :: "nat \<Rightarrow> nat \<Rightarrow> int" where
  "ratio_log10 num den =
     (let k = int (length (nat_digits num)) - int (length (nat_digits den));
          (n, d) = (if 0 \<le> k then (num, den * 10 ^ nat k) else (num * 10 ^ nat (- k), den))
      in if d \<le> n then k + 1 else k)"

definition plain_text :: "string \<Rightarrow> int \<Rightarrow> string" where
  "plain_text ds k =
     (if k \<le> 0 then ''0.'' @ replicate (nat (- k)) (CHR ''0'') @ ds
      else if int (length ds) \<le> k then ds @ replicate (nat k - length ds) (CHR ''0'')
      else take (nat k) ds @ CHR ''.'' # drop (nat k) ds)"

definition exp_text :: "string \<Rightarrow> int \<Rightarrow> string" where
  "exp_text ds k =
     take 1 ds @ (if length ds \<le> 1 then [] else CHR ''.'' # drop 1 ds) @
     CHR ''e'' # (if k - 1 < 0 then CHR ''-'' else CHR ''+'') # nat_digits (nat \<bar>k - 1\<bar>)"

definition float_texts :: "nat \<Rightarrow> nat \<Rightarrow> string list" where
  "float_texts mag n =
     (let (num, den) = f64_ratio mag; k = ratio_log10 num den;
          (a, b) = (if k \<le> int n then (num * 10 ^ nat (int n - k), den) else (num, den * 10 ^ nat (k - int n)));
          q = a div b; r = a mod b;
          cands = (if 2 * r < b \<or> (2 * r = b \<and> even q) then [q, q + 1] else [q + 1, q]);
          small = (mag < the (round_ratio 1 (10 ^ 6)) \<or> the (round_ratio (10 ^ 21) 1) \<le> mag)
      in map (\<lambda>d. let ds = nat_digits d; kk = k + int (length ds) - int n;
                      dt = rev (dropWhile (\<lambda>c. c = CHR ''0'') (rev ds))
                  in if small then exp_text dt kk else plain_text dt kk) cands)"

fun shortest_text :: "f64 \<Rightarrow> string \<Rightarrow> nat list \<Rightarrow> string option" where
  "shortest_text f sg [] = None"
| "shortest_text f sg (n # ns) =
     (case find (\<lambda>t. ParseFloat (sg @ t) = Some f) (float_texts (f64_mag f) n) of
        Some t \<Rightarrow> Some (sg @ t)
      | None \<Rightarrow> shortest_text f sg ns)"

definition FormatFloat :: "f64 \<Rightarrow> string" where
  "FormatFloat f =
     (if f64_mag f = 0 then (if Signbit f then ''-0'' else ''0'')
      else the (shortest_text f (if Signbit f then ''-'' else []) [1..<1100]))"

section \<open>Package unicode/utf8\<close>

definition in_range :: "nat \<Rightarrow> nat \<Rightarrow> char \<Rightarrow> bool" where
  "in_range lo hi c \<longleftrightarrow> lo \<le> of_char c \<and> of_char c \<le> hi"

abbreviation utf8_cont :: "char \<Rightarrow> bool" where
  "utf8_cont \<equiv> in_range 0x80 0xBF"

text \<open>The number of bytes of the rune at the front of a string, 0 if it is not valid UTF-8.\<close>

definition utf8_first :: "string \<Rightarrow> nat" where
  "utf8_first s =
     (case s of
        [] \<Rightarrow> 0
      | a # r \<Rightarrow>
          if in_range 0 0x7F a then 1
          else case r of
            [] \<Rightarrow> 0
          | b # r \<Rightarrow>
              if in_range 0xC2 0xDF a \<and> utf8_cont b then 2
              else case r of
                [] \<Rightarrow> 0
              | c # r \<Rightarrow>
                  if utf8_cont c \<and>
                     (in_range 0xE0 0xE0 a \<and> in_range 0xA0 0xBF b \<or>
                      in_range 0xE1 0xEC a \<and> utf8_cont b \<or>
                      in_range 0xED 0xED a \<and> in_range 0x80 0x9F b \<or>
                      in_range 0xEE 0xEF a \<and> utf8_cont b) then 3
                  else case r of
                    [] \<Rightarrow> 0
                  | d # r \<Rightarrow>
                      if utf8_cont c \<and> utf8_cont d \<and>
                         (in_range 0xF0 0xF0 a \<and> in_range 0x90 0xBF b \<or>
                          in_range 0xF1 0xF3 a \<and> utf8_cont b \<or>
                          in_range 0xF4 0xF4 a \<and> in_range 0x80 0x8F b) then 4
                      else 0)"

text \<open>\<open>utf8.ValidString\<close>\<close>

function valid_utf8 :: "string \<Rightarrow> bool" where
  "valid_utf8 s =
     (if s = [] then True
      else if utf8_first s = 0 then False else valid_utf8 (drop (utf8_first s) s))"
  by pat_completeness auto
termination
  by (relation "measure length") auto

declare valid_utf8.simps [simp del]

text \<open>
  What \<open>encoding/json\<close> makes of a Go string: every byte that is not part of a valid rune
  becomes U+FFFD.
\<close>

definition utf8_error :: string where
  "utf8_error = [CHR 0xEF, CHR 0xBF, CHR 0xBD]"

function utf8_sanitize :: "string \<Rightarrow> string" where
  "utf8_sanitize s =
     (if s = [] then []
      else if utf8_first s = 0 then utf8_error @ utf8_sanitize (tl s)
      else take (utf8_first s) s @ utf8_sanitize (drop (utf8_first s) s))"
  by pat_completeness auto
termination
  by (relation "measure length") auto

declare utf8_sanitize.simps [simp del]

lemma valid_utf8_sanitize: "valid_utf8 s \<Longrightarrow> utf8_sanitize s = s"
proof (induction s rule: utf8_sanitize.induct)
  case (1 s)
  then show ?case
    by (subst utf8_sanitize.simps) (auto simp: valid_utf8.simps [of s])
qed

lemma utf8_first_ascii: "of_char c < (128 :: nat) \<Longrightarrow> utf8_first (c # s) = 1"
  by (simp add: utf8_first_def in_range_def)

lemma valid_utf8_Nil [simp]: "valid_utf8 []"
  by (simp add: valid_utf8.simps)

lemma valid_utf8_ascii: "(\<And>c. c \<in> set s \<Longrightarrow> of_char c < (128 :: nat)) \<Longrightarrow> valid_utf8 s"
proof (induction s)
  case (Cons c s)
  then show ?case
    by (subst valid_utf8.simps) (auto simp: utf8_first_ascii)
qed simp

section \<open>JSON documents\<close>

datatype json =
    JNull
  | JBool bool
  | JNum string
  | JStr string
  | JArr "json list"
  | JObj "(string \<times> json) list"

text \<open>
  Values of Go's type \<open>any\<close> as the sources exchange them with \<open>encoding/json\<close>. A nil
  \<open>map[string]any\<close> in an interface is not a nil interface, so it is kept apart; any other
  dynamic type is \<open>WOther\<close>.
\<close>

datatype wire =
    WNil
  | WBool bool
  | WStr string
  | WFloat f64
  | WNumber string
  | WArr "wire list"
  | WMap "(string, wire) gomap"
  | WNilMap
  | WOther

text \<open>\<open>isValidNumber\<close> of \<open>encoding/json\<close>, the grammar of JSON numbers.\<close>

definition valid_number :: "string \<Rightarrow> bool" where
  "valid_number s =
     (let s1 = (if s \<noteq> [] \<and> hd s = CHR ''-'' then tl s else s);
          ip = takeWhile is_digit s1; r1 = dropWhile is_digit s1;
          dot = (r1 \<noteq> [] \<and> hd r1 = CHR ''.'');
          fp = (if dot then takeWhile is_digit (tl r1) else []);
          r2 = (if dot then dropWhile is_digit (tl r1) else r1)
      in ip \<noteq> [] \<and> (hd ip = CHR ''0'' \<longrightarrow> length ip = 1) \<and> (dot \<longrightarrow> fp \<noteq> []) \<and>
         (r2 = [] \<or> (hd r2 = CHR ''e'' \<or> hd r2 = CHR ''E'') \<and>
            (let r3 = tl r2;
                 es = (if r3 \<noteq> [] \<and> (hd r3 = CHR ''-'' \<or> hd r3 = CHR ''+'') then tl r3 else r3)
             in es \<noteq> [] \<and> list_all is_digit es)))"

text \<open>
  \<open>json.Marshal\<close> on such values: object keys come out sorted (the order of the map),
  strings are made valid UTF-8, and infinities and not-a-number are errors.
\<close>

fun json_Marshal :: "wire \<Rightarrow> json res" where
  "json_Marshal WNil = Inr JNull"
| "json_Marshal (WBool b) = Inr (JBool b)"
| "json_Marshal (WStr s) = Inr (JStr (utf8_sanitize s))"
| "json_Marshal (WFloat f) =
     (if IsNaN f \<or> IsInf f then Inl (StdError ''json'') else Inr (JNum (FormatFloat f)))"
| "json_Marshal (WNumber s) =
     (if s = [] then Inr (JNum ''0'')
      else if valid_number s then Inr (JNum s) else Inl (StdError ''json''))"
| "json_Marshal (WArr ws) = rbind (rmap json_Marshal ws) (\<lambda>js. Inr (JArr js))"
| "json_Marshal (WMap m) =
     rbind (rmap (\<lambda>p. rbind (json_Marshal (snd p)) (\<lambda>j. Inr (utf8_sanitize (fst p), j))) m)
       (\<lambda>ms. Inr (JObj ms))"
| "json_Marshal WNilMap = Inr JNull"
| "json_Marshal WOther = Inl (StdError ''json'')"

text \<open>Decoding a document into \<open>any\<close> with \<open>UseNumber\<close>: of equal keys the last one wins.\<close>

fun json_Decode :: "json \<Rightarrow> wire" where
  "json_Decode JNull = WNil"
| "json_Decode (JBool b) = WBool b"
| "json_Decode (JNum s) = WNumber s"
| "json_Decode (JStr s) = WStr s"
| "json_Decode (JArr js) = WArr (map json_Decode js)"
| "json_Decode (JObj ms) = WMap (mof_list (map (\<lambda>p. (fst p, json_Decode (snd p))) ms))"

section \<open>Decoding documents into typed variables\<close>

text \<open>
  \<open>json.Unmarshal\<close> into a variable of a basic type that holds its zero value: \<open>null\<close>
  leaves the variable alone, and a slice becomes nil (\<open>None\<close>).
\<close>

definition json_error :: error where
  "json_error = StdError ''json''"

fun um_string :: "json \<Rightarrow> string res" where
  "um_string JNull = Inr []"
| "um_string (JStr s) = Inr s"
| "um_string _ = Inl json_error"

fun um_bool :: "json \<Rightarrow> bool res" where
  "um_bool JNull = Inr False"
| "um_bool (JBool b) = Inr b"
| "um_bool _ = Inl json_error"

fun um_uint32 :: "json \<Rightarrow> 32 word res" where
  "um_uint32 JNull = Inr 0"
| "um_uint32 (JNum s) =
     (case ParseUint s of
        Some n \<Rightarrow> if n < 2 ^ 32 then Inr (of_nat n) else Inl json_error
      | None \<Rightarrow> Inl json_error)"
| "um_uint32 _ = Inl json_error"

fun um_int64 :: "json \<Rightarrow> 64 word res" where
  "um_int64 JNull = Inr 0"
| "um_int64 (JNum s) =
     (case ParseInt s of Some i \<Rightarrow> Inr (of_int i) | None \<Rightarrow> Inl json_error)"
| "um_int64 _ = Inl json_error"

fun um_float64 :: "json \<Rightarrow> f64 res" where
  "um_float64 JNull = Inr 0"
| "um_float64 (JNum s) =
     (case ParseFloat s of Some f \<Rightarrow> Inr f | None \<Rightarrow> Inl json_error)"
| "um_float64 _ = Inl json_error"

fun um_slice :: "(json \<Rightarrow> 'a res) \<Rightarrow> json \<Rightarrow> 'a list option res" where
  "um_slice um JNull = Inr None"
| "um_slice um (JArr js) = rbind (rmap um js) (\<lambda>xs. Inr (Some xs))"
| "um_slice um _ = Inl json_error"

text \<open>Into a pointer: \<open>null\<close> gives nil, anything else a fresh variable.\<close>

definition um_pointer :: "(json \<Rightarrow> 'a res) \<Rightarrow> json \<Rightarrow> 'a option res" where
  "um_pointer um j = (if j = JNull then Inr None else rbind (um j) (\<lambda>x. Inr (Some x)))"

text \<open>Into a \<open>map[string]json.RawMessage\<close>.\<close>

fun um_object :: "json \<Rightarrow> (string, json) gomap res" where
  "um_object JNull = Inr []"
| "um_object (JObj ms) = Inr (mof_list ms)"
| "um_object _ = Inl json_error"

text \<open>\<open>json.Marshal\<close> of basic types.\<close>

definition ms_uint32 :: "32 word \<Rightarrow> json" where
  "ms_uint32 w = JNum (nat_digits (unat w))"

definition ms_int64 :: "64 word \<Rightarrow> json" where
  "ms_int64 w = JNum (int_text (sint w))"

definition ms_string :: "string \<Rightarrow> json" where
  "ms_string s = JStr (utf8_sanitize s)"

definition ms_float64 :: "f64 \<Rightarrow> json res" where
  "ms_float64 f = json_Marshal (WFloat f)"

definition ms_slice :: "('a \<Rightarrow> json res) \<Rightarrow> 'a list option \<Rightarrow> json res" where
  "ms_slice ms xs = (case xs of None \<Rightarrow> Inr JNull | Some ys \<Rightarrow> rbind (rmap ms ys) (\<lambda>js. Inr (JArr js)))"

section \<open>The text of a document\<close>

definition hex_char :: "nat \<Rightarrow> char" where
  "hex_char n = (if n < 10 then char_of (n + 48) else char_of (n + 87))"

definition escape_byte :: "char \<Rightarrow> string" where
  "escape_byte c =
     (if c = CHR 0x22 then [CHR 0x5C, CHR 0x22]
      else if c = CHR 0x5C then [CHR 0x5C, CHR 0x5C]
      else if c = CHR 0x08 then [CHR 0x5C, CHR ''b'']
      else if c = CHR 0x0C then [CHR 0x5C, CHR ''f'']
      else if c = CHR 0x0A then [CHR 0x5C, CHR ''n'']
      else if c = CHR 0x0D then [CHR 0x5C, CHR ''r'']
      else if c = CHR 0x09 then [CHR 0x5C, CHR ''t'']
      else if of_char c < (32 :: nat) \<or> c = CHR ''<'' \<or> c = CHR ''>'' \<or> c = CHR ''&''
      then [CHR 0x5C, CHR ''u'', CHR ''0'', CHR ''0'',
            hex_char (of_char c div 16), hex_char (of_char c mod 16)]
      else [c])"

text \<open>
  The line and paragraph separators U+2028 and U+2029 are escaped too, so that the text
  is also valid JavaScript.
\<close>

fun json_escape :: "string \<Rightarrow> string" where
  "json_escape [] = []"
| "json_escape [c] = escape_byte c"
| "json_escape [c, d] = escape_byte c @ escape_byte d"
| "json_escape (c # d # e # s) =
     (if c = CHR 0xE2 \<and> d = CHR 0x80 \<and> (e = CHR 0xA8 \<or> e = CHR 0xA9)
      then [CHR 0x5C, CHR ''u'', CHR ''2'', CHR ''0'', CHR ''2'',
            (if e = CHR 0xA8 then CHR ''8'' else CHR ''9'')] @ json_escape s
      else escape_byte c @ json_escape (d # e # s))"

definition json_quote :: "string \<Rightarrow> string" where
  "json_quote s = CHR 0x22 # json_escape s @ [CHR 0x22]"

fun json_text :: "json \<Rightarrow> string" where
  "json_text JNull = ''null''"
| "json_text (JBool b) = (if b then ''true'' else ''false'')"
| "json_text (JNum s) = s"
| "json_text (JStr s) = json_quote s"
| "json_text (JArr js) = CHR ''['' # Join '','' (map json_text js) @ '']''"
| "json_text (JObj ms) =
     CHR ''{'' # Join '','' (map (\<lambda>p. json_quote (fst p) @ CHR '':'' # json_text (snd p)) ms) @ ''}''"

section \<open>Lemmas about numbers\<close>

lemma is_digit_char [simp]: "n < 10 \<Longrightarrow> is_digit (digit_char n)"
  unfolding is_digit_def digit_char_def less_eq_char_def by simp

lemma digit_val_char [simp]: "n < 10 \<Longrightarrow> digit_val (digit_char n) = n"
  unfolding digit_val_def digit_char_def by simp

lemma nat_digits_nonempty [simp]: "nat_digits n \<noteq> []"
  by (subst nat_digits.simps) simp

lemma nat_digits_all [simp]: "list_all is_digit (nat_digits n)"
proof (induction n rule: nat_digits.induct)
  case (1 n)
  then show ?case
    by (cases "n < 10") (auto simp: nat_digits.simps [of n])
qed

lemma digits_val_snoc [simp]: "digits_val (s @ [c]) = digits_val s * 10 + digit_val c"
  by (simp add: digits_val_def)

lemma digits_val_nat [simp]: "digits_val (nat_digits n) = n"
proof (induction n rule: nat_digits.induct)
  case (1 n)
  show ?case
  proof (cases "n < 10")
    case True
    then show ?thesis
      by (simp add: nat_digits.simps [of n] digits_val_def)
  next
    case False
    with "1.IH" show ?thesis
      by (simp add: nat_digits.simps [of n])
  qed
qed

lemma nat_digits_inj: "nat_digits m = nat_digits n \<longleftrightarrow> m = n"
  by (metis digits_val_nat)

lemma ParseUint_digits [simp]: "n < 2 ^ 64 \<Longrightarrow> ParseUint (nat_digits n) = Some n"
  by (simp add: ParseUint_def)

lemma nat_digits_hd: "is_digit (hd (nat_digits n))"
  by (metis list_all_iff hd_in_set nat_digits_all nat_digits_nonempty)

lemma is_digit_not_sign: "is_digit c \<Longrightarrow> c \<noteq> CHR ''-'' \<and> c \<noteq> CHR ''+''"
  by (auto simp: is_digit_def less_eq_char_def)

lemma ParseInt_text [simp]:
  assumes "- (2 ^ 63) \<le> i" and "i < 2 ^ 63"
  shows "ParseInt (int_text i) = Some i"
  using assms is_digit_not_sign [OF nat_digits_hd] by (auto simp: ParseInt_def int_text_def Let_def)

lemma um_ms_uint32 [simp]: "um_uint32 (ms_uint32 w) = Inr w"
proof -
  have "unat w < 2 ^ 32"
    by (rule order_less_le_trans [OF unsigned_less]) simp
  moreover from this have "ParseUint (nat_digits (unat w)) = Some (unat w)"
    by (intro ParseUint_digits) simp
  ultimately show ?thesis
    by (simp add: ms_uint32_def)
qed

lemma um_ms_int64 [simp]: "um_int64 (ms_int64 w) = Inr w"
proof -
  have "- (2 ^ 63) \<le> sint w" "sint w < 2 ^ 63"
    using sint_range_size [of w] by (simp_all add: word_size)
  then show ?thesis
    by (simp add: ms_int64_def)
qed

lemma um_ms_string: "valid_utf8 s \<Longrightarrow> um_string (ms_string s) = Inr s"
  by (simp add: ms_string_def valid_utf8_sanitize)

end
