(* ===== verification/Core_Value.thy ===== *)
theory Core_Value
  imports Go_Json
begin

text \<open>
  Convex values: \<open>internal/core/value.go\<close>. The type \<open>Value\<close>, its wire representation
  (\<open>ConvexJSON\<close>, \<open>valueFromWire\<close>, \<open>decodeValue\<close>), and the encoding of ordinary Go values
  by reflection (\<open>encodeValue\<close>).

  The struct \<open>Value\<close> has a kind and one field per kind; a constructor of the datatype
  stands for a kind with its field, and the zero \<open>Value\<close>, which \<open>Kind\<close> reads as null, is
  \<open>VNull\<close>. A \<open>reflect.Value\<close> is a tree of type \<open>gval\<close> (finite, so without cyclic
  pointers).
\<close>

section \<open>Values\<close>

datatype Value =
    VNull
  | VInt64 "64 word"
  | VFloat64 f64
  | VBoolean bool
  | VString string
  | VBytes "byte list"
  | VArray "Value list"
  | VObject "(string, Value) gomap"

datatype ValueKind =
    NullKind | Int64Kind | Float64Kind | BooleanKind | StringKind | BytesKind | ArrayKind | ObjectKind

fun Kind :: "Value \<Rightarrow> ValueKind" where
  "Kind VNull = NullKind"
| "Kind (VInt64 _) = Int64Kind"
| "Kind (VFloat64 _) = Float64Kind"
| "Kind (VBoolean _) = BooleanKind"
| "Kind (VString _) = StringKind"
| "Kind (VBytes _) = BytesKind"
| "Kind (VArray _) = ArrayKind"
| "Kind (VObject _) = ObjectKind"

definition maxIdentifierLen :: nat where
  "maxIdentifierLen = 1024"

fun field_chars :: "string \<Rightarrow> string \<Rightarrow> unit res" where
  "field_chars k [] = Inr ()"
| "field_chars k (c # cs) =
     (if of_char c < (32 :: nat) \<or> (127 :: nat) \<le> of_char c
      then Inl (ValueError (FieldNameChar k c)) else field_chars k cs)"

definition validateObjectField :: "string \<Rightarrow> unit res" where
  "validateObjectField k =
     (if maxIdentifierLen < length k then Inl (ValueError (FieldNameTooLong k))
      else if HasPrefix k ''$'' then Inl (ValueError (FieldNameReserved k))
      else field_chars k k)"

definition ObjectValue :: "(string, Value) gomap \<Rightarrow> Value res" where
  "ObjectValue fields =
     rbind (rmap (\<lambda>p. rbind (validateObjectField (fst p)) (\<lambda>_. Inr p)) fields)
       (\<lambda>cp. Inr (VObject (mof_list cp)))"

section \<open>Numbers and bytes on the wire\<close>

definition decodeBase64Compat :: "string \<Rightarrow> byte list res" where
  "decodeBase64Compat encoded =
     (case b64_decode std_alphabet encoded of
        Some d \<Rightarrow> Inr d
      | None \<Rightarrow>
          (case b64_decode url_alphabet encoded of
             Some d \<Rightarrow> Inr d
           | None \<Rightarrow> Inl (StdError ''base64'')))"

definition encodeInt64 :: "64 word \<Rightarrow> string" where
  "encodeInt64 n = b64_encode std_alphabet (PutUint64 n)"

definition decodeInt64 :: "string \<Rightarrow> 64 word res" where
  "decodeInt64 encoded =
     rbind (rerr (Wrapped (ValueError (MalformedWire ''$integer''))) (decodeBase64Compat encoded))
       (\<lambda>d. if length d \<noteq> 8 then Inl (ValueError (WireByteCount (length d) ''$integer''))
            else Inr (Uint64 d))"

definition encodeFloat64 :: "f64 \<Rightarrow> string" where
  "encodeFloat64 f = b64_encode std_alphabet (PutUint64 f)"

definition decodeFloat64 :: "string \<Rightarrow> f64 res" where
  "decodeFloat64 encoded =
     rbind (rerr (Wrapped (ValueError (MalformedWire ''$float''))) (decodeBase64Compat encoded))
       (\<lambda>d. if length d \<noteq> 8 then Inl (ValueError (WireByteCount (length d) ''$float''))
            else Inr (Uint64 d))"

definition isSpecialFloat :: "f64 \<Rightarrow> bool" where
  "isSpecialFloat f \<longleftrightarrow> IsNaN f \<or> IsInf f \<or> (f64_is_zero f \<and> Signbit f)"

definition encodedInt64 :: "64 word \<Rightarrow> wire" where
  "encodedInt64 n = WMap [(''$integer'', WStr (encodeInt64 n))]"

definition encodedFloat64 :: "f64 \<Rightarrow> wire" where
  "encodedFloat64 f =
     (if isSpecialFloat f then WMap [(''$float'', WStr (encodeFloat64 f))] else WFloat f)"

definition encodedBytes :: "byte list \<Rightarrow> wire" where
  "encodedBytes d = WMap [(''$bytes'', WStr (b64_encode std_alphabet d))]"

section \<open>From values to the wire\<close>

text \<open>
  \<open>Value.ConvexJSON\<close> with \<open>convexJSONArray\<close> and \<open>convexJSONObject\<close>, the two loops over
  the parts of a value.
\<close>

fun ConvexJSON :: "Value \<Rightarrow> wire res"
  and convexJSONArray :: "Value list \<Rightarrow> wire list res"
  and convexJSONObject :: "(string \<times> Value) list \<Rightarrow> (string, wire) gomap res" where
  "ConvexJSON VNull = Inr WNil"
| "ConvexJSON (VInt64 n) = Inr (encodedInt64 n)"
| "ConvexJSON (VFloat64 f) = Inr (encodedFloat64 f)"
| "ConvexJSON (VBoolean b) = Inr (WBool b)"
| "ConvexJSON (VString s) = Inr (WStr s)"
| "ConvexJSON (VBytes d) = Inr (encodedBytes d)"
| "ConvexJSON (VArray vs) = rbind (convexJSONArray vs) (\<lambda>ws. Inr (WArr ws))"
| "ConvexJSON (VObject m) = rbind (convexJSONObject m) (\<lambda>ms. Inr (WMap ms))"
| "convexJSONArray [] = Inr []"
| "convexJSONArray (v # vs) =
     rbind (ConvexJSON v) (\<lambda>w. rbind (convexJSONArray vs) (\<lambda>ws. Inr (w # ws)))"
| "convexJSONObject [] = Inr []"
| "convexJSONObject ((k, v) # m) =
     rbind (validateObjectField k) (\<lambda>_.
     rbind (ConvexJSON v) (\<lambda>w. rbind (convexJSONObject m) (\<lambda>ms. Inr (mput k w ms))))"

section \<open>From the wire to values\<close>

fun wireString :: "wire \<Rightarrow> string \<Rightarrow> string res" where
  "wireString (WStr s) key = Inr s"
| "wireString _ key = Inl (ValueError (MalformedField key))"

definition decodeWireBytes :: "wire \<Rightarrow> byte list res" where
  "decodeWireBytes raw =
     rbind (wireString raw ''$bytes'') (\<lambda>s.
     rerr (Wrapped (ValueError (MalformedWire ''$bytes''))) (decodeBase64Compat s))"

definition decodeWireInt64 :: "wire \<Rightarrow> 64 word res" where
  "decodeWireInt64 raw = rbind (wireString raw ''$integer'') decodeInt64"

definition decodeWireFloat64 :: "wire \<Rightarrow> f64 res" where
  "decodeWireFloat64 raw = rbind (wireString raw ''$float'') decodeFloat64"

text \<open>The Go functions with results \<open>(value, ok, err)\<close>: \<open>None\<close> stands for \<open>ok = false\<close>.\<close>

definition valueFromWireSingleton :: "string \<Rightarrow> wire \<Rightarrow> Value res option" where
  "valueFromWireSingleton key raw =
     (if key = ''$bytes'' then Some (rbind (decodeWireBytes raw) (\<lambda>d. Inr (VBytes d)))
      else if key = ''$integer'' then Some (rbind (decodeWireInt64 raw) (\<lambda>n. Inr (VInt64 n)))
      else if key = ''$float'' then
        Some (rbind (decodeWireFloat64 raw) (\<lambda>f.
          if isSpecialFloat f then Inr (VFloat64 f) else Inl (ValueError FloatNotSpecial)))
      else if key = ''$set'' then Some (Inl (ValueError SetUnsupported))
      else if key = ''$map'' then Some (Inl (ValueError MapUnsupported))
      else None)"

definition valueFromJSONNumber :: "string \<Rightarrow> Value res" where
  "valueFromJSONNumber n =
     (case ParseFloat n of Some f \<Rightarrow> Inr (VFloat64 f) | None \<Rightarrow> Inl (ValueError (InvalidJSONNumber n)))"

text \<open>A map of one entry whose key is a sentinel is that singleton, and nothing else.\<close>

definition wire_singleton :: "(string \<Rightarrow> wire \<Rightarrow> 'a option) \<Rightarrow> (string, wire) gomap \<Rightarrow> 'a option" where
  "wire_singleton f m = (case m of [(k, w)] \<Rightarrow> f k w | _ \<Rightarrow> None)"

fun valueFromWire :: "wire \<Rightarrow> Value res"
  and valueArrayFromWire :: "wire list \<Rightarrow> Value list res"
  and valueFieldsFromWire :: "(string, wire) gomap \<Rightarrow> (string \<times> Value) list res" where
  "valueFromWire WNil = Inr VNull"
| "valueFromWire (WBool b) = Inr (VBoolean b)"
| "valueFromWire (WStr s) = Inr (VString s)"
| "valueFromWire (WNumber n) = valueFromJSONNumber n"
| "valueFromWire (WFloat f) = Inr (VFloat64 f)"
| "valueFromWire (WArr ws) = rbind (valueArrayFromWire ws) (\<lambda>vs. Inr (VArray vs))"
| "valueFromWire (WMap m) =
     (case wire_singleton valueFromWireSingleton m of
        Some r \<Rightarrow> r
      | None \<Rightarrow> rbind (valueFieldsFromWire m) (\<lambda>fs. ObjectValue (mof_list fs)))"
| "valueFromWire WNilMap = ObjectValue []"
| "valueFromWire WOther = Inl (ValueError UnexpectedJSONType)"
| "valueArrayFromWire [] = Inr []"
| "valueArrayFromWire (w # ws) =
     rbind (valueFromWire w) (\<lambda>v. rbind (valueArrayFromWire ws) (\<lambda>vs. Inr (v # vs)))"
| "valueFieldsFromWire [] = Inr []"
| "valueFieldsFromWire ((k, w) # m) =
     rbind (validateObjectField k) (\<lambda>_.
     rbind (valueFromWire w) (\<lambda>v. rbind (valueFieldsFromWire m) (\<lambda>fs. Inr ((k, v) # fs))))"

text \<open>Documents: \<open>ParseValueJSON\<close>, \<open>Value.MarshalJSON\<close> and \<open>Value.UnmarshalJSON\<close>.\<close>

definition ParseValueJSON :: "json \<Rightarrow> Value res" where
  "ParseValueJSON j = valueFromWire (json_Decode j)"

definition MarshalJSON :: "Value \<Rightarrow> json res" where
  "MarshalJSON v = rbind (ConvexJSON v) json_Marshal"

definition UnmarshalJSON :: "json \<Rightarrow> Value res" where
  "UnmarshalJSON j = ParseValueJSON j"

section \<open>Go values seen by reflection\<close>

text \<open>
  A \<open>reflect.Value\<close>. The first group has the dynamic types \<open>encodeSpecialValue\<close> singles
  out, the second the kinds of \<open>encodeReflectValue\<close>. Signed and unsigned integers carry
  \<open>v.Int()\<close> and \<open>v.Uint()\<close>, floats their conversion to \<open>float64\<close>. A map carries whether
  it is nil and whether its key type is a string kind; a struct field its name, whether
  it is exported, whether it is embedded, its \<open>json\<close> tag and its value.
\<close>

datatype gval =
    GInvalid
  | GNilRef
  | GRef gval
  | GValue Value
  | GNumber f64
  | GInt64 "64 word"
  | GBytes "byte list"
  | GByteSlice "byte list"
  | GJSONNumber string
  | GBool bool
  | GString string
  | GInt "64 word"
  | GUint "64 word"
  | GFloat f64
  | GSeq "gval list"
  | GMap bool bool "(string, gval) gomap"
  | GStruct "(string \<times> bool \<times> bool \<times> string \<times> gval) list"
  | GOther string

text \<open>
  Whether a value was reached through unexported fields, which makes \<open>CanInterface\<close>
  false: not at all, through an embedded field, or through any other.
\<close>

datatype ro = RW | EmbedRO | StickyRO

definition elem_ro :: "ro \<Rightarrow> ro" where
  "elem_ro r = (if r = RW then RW else StickyRO)"

definition field_ro :: "ro \<Rightarrow> bool \<Rightarrow> bool \<Rightarrow> ro" where
  "field_ro r exported anonymous =
     (if r = StickyRO then StickyRO
      else if exported then RW else if anonymous then EmbedRO else StickyRO)"

definition encodeJSONNumber :: "string \<Rightarrow> wire res" where
  "encodeJSONNumber n =
     (if list_ex (\<lambda>c. c \<in> set ''.eE'') n
      then (case ParseFloat n of
              Some f \<Rightarrow> Inr (encodedFloat64 f)
            | None \<Rightarrow> Inl (ValueError (InvalidJSONNumber n)))
      else (case ParseInt n of
              Some i \<Rightarrow> Inr (encodedInt64 (of_int i))
            | None \<Rightarrow>
                (case ParseFloat n of
                   Some f \<Rightarrow> Inr (WFloat f)
                 | None \<Rightarrow> Inl (ValueError (InvalidJSONNumber n)))))"

text \<open>\<open>None\<close> stands for \<open>ok = false\<close>.\<close>

fun encodeSpecialValue :: "ro \<Rightarrow> gval \<Rightarrow> wire res option" where
  "encodeSpecialValue r v =
     (if r \<noteq> RW then None
      else case v of
        GValue x \<Rightarrow> Some (ConvexJSON x)
      | GNumber f \<Rightarrow> Some (Inr (encodedFloat64 f))
      | GInt64 n \<Rightarrow> Some (Inr (encodedInt64 n))
      | GBytes d \<Rightarrow> Some (Inr (encodedBytes d))
      | GByteSlice d \<Rightarrow> Some (Inr (encodedBytes d))
      | GJSONNumber n \<Rightarrow> Some (encodeJSONNumber n)
      | _ \<Rightarrow> None)"

definition printablePath :: "string \<Rightarrow> string" where
  "printablePath path = (if path = [] then ''<root>'' else path)"

definition encodeUint :: "64 word \<Rightarrow> string \<Rightarrow> wire res" where
  "encodeUint u path =
     (if 2 ^ 63 \<le> unat u then Inl (ValueError (UnsignedTooBig (printablePath path)))
      else Inr (encodedInt64 u))"

definition childPath :: "string \<Rightarrow> string \<Rightarrow> string" where
  "childPath path name = (let child = CHR ''.'' # name in if path \<noteq> [] then path @ child else child)"

definition indexPath :: "string \<Rightarrow> nat \<Rightarrow> string" where
  "indexPath path i = path @ CHR ''['' # nat_digits i @ '']''"

text \<open>\<open>jsonField\<close>: name, omitEmpty, skip.\<close>

definition jsonField :: "string \<Rightarrow> string \<times> bool \<times> bool" where
  "jsonField tag =
     (if tag = ''-'' then ([], False, True)
      else let parts = Split (CHR '','') tag
           in (hd parts, list_ex (\<lambda>opt. opt = ''omitempty'' \<or> opt = ''omitzero'') (tl parts), False))"

fun isEmptyValue :: "gval \<Rightarrow> bool" where
  "isEmptyValue GInvalid = False"
| "isEmptyValue GNilRef = True"
| "isEmptyValue (GRef v) = False"
| "isEmptyValue (GValue v) = False"
| "isEmptyValue (GNumber f) = f64_is_zero f"
| "isEmptyValue (GInt64 n) = (n = 0)"
| "isEmptyValue (GBytes d) = (d = [])"
| "isEmptyValue (GByteSlice d) = (d = [])"
| "isEmptyValue (GJSONNumber n) = (n = [])"
| "isEmptyValue (GBool b) = (\<not> b)"
| "isEmptyValue (GString s) = (s = [])"
| "isEmptyValue (GInt n) = (n = 0)"
| "isEmptyValue (GUint n) = (n = 0)"
| "isEmptyValue (GFloat f) = f64_is_zero f"
| "isEmptyValue (GSeq vs) = (vs = [])"
| "isEmptyValue (GMap isnil strkeys kvs) = (kvs = [])"
| "isEmptyValue (GStruct fs) = False"
| "isEmptyValue (GOther t) = False"

definition unsupportedValueError :: "string \<Rightarrow> string \<Rightarrow> error" where
  "unsupportedValueError t path = ValueError (UnsupportedValue t path)"

text \<open>
  The kinds behind the special types, for a value \<open>CanInterface\<close> is false of: a \<open>Value\<close>
  is a struct without exported fields, the byte slices are slices of unsigned integers,
  and a \<open>json.Number\<close> is a string.
\<close>

definition encodeByteElems :: "string \<Rightarrow> byte list \<Rightarrow> wire res" where
  "encodeByteElems path d = Inr (WArr (map (\<lambda>b. encodedInt64 (of_nat (unat b))) d))"

text \<open>\<open>mergeEmbeddedStructField\<close>: \<open>None\<close> if the embedded value is not a map.\<close>

fun mergeEmbedded :: "(string, wire) gomap \<Rightarrow> wire \<Rightarrow> (string, wire) gomap option" where
  "mergeEmbedded out (WMap m) = Some (fold (\<lambda>(k, w). mput k w) m out)"
| "mergeEmbedded out WNilMap = Some out"
| "mergeEmbedded out _ = None"

fun encodeValue :: "ro \<Rightarrow> string \<Rightarrow> gval \<Rightarrow> wire res"
  and encodeSequence :: "ro \<Rightarrow> string \<Rightarrow> nat \<Rightarrow> gval list \<Rightarrow> wire list res"
  and encodeMap :: "ro \<Rightarrow> string \<Rightarrow> (string, gval) gomap \<Rightarrow> (string, wire) gomap \<Rightarrow> wire res"
  and encodeStruct :: "ro \<Rightarrow> string \<Rightarrow> (string \<times> bool \<times> bool \<times> string \<times> gval) list \<Rightarrow>
        (string, wire) gomap \<Rightarrow> wire res" where
  "encodeValue r path GInvalid = Inr WNil"
| "encodeValue r path GNilRef = Inr WNil"
| "encodeValue r path (GRef v) = encodeValue r path v"
| "encodeValue r path (GValue x) =
     (case encodeSpecialValue r (GValue x) of Some e \<Rightarrow> e | None \<Rightarrow> Inr (WMap []))"
| "encodeValue r path (GNumber f) =
     (case encodeSpecialValue r (GNumber f) of Some e \<Rightarrow> e | None \<Rightarrow> Inr (encodedFloat64 f))"
| "encodeValue r path (GInt64 n) =
     (case encodeSpecialValue r (GInt64 n) of Some e \<Rightarrow> e | None \<Rightarrow> Inr (encodedInt64 n))"
| "encodeValue r path (GBytes d) =
     (case encodeSpecialValue r (GBytes d) of Some e \<Rightarrow> e | None \<Rightarrow> encodeByteElems path d)"
| "encodeValue r path (GByteSlice d) =
     (case encodeSpecialValue r (GByteSlice d) of Some e \<Rightarrow> e | None \<Rightarrow> encodeByteElems path d)"
| "encodeValue r path (GJSONNumber n) =
     (case encodeSpecialValue r (GJSONNumber n) of Some e \<Rightarrow> e | None \<Rightarrow> Inr (WStr n))"
| "encodeValue r path (GBool b) = Inr (WBool b)"
| "encodeValue r path (GString s) = Inr (WStr s)"
| "encodeValue r path (GInt n) = Inr (encodedInt64 n)"
| "encodeValue r path (GUint n) = encodeUint n path"
| "encodeValue r path (GFloat f) = Inr (encodedFloat64 f)"
| "encodeValue r path (GSeq vs) = rbind (encodeSequence (elem_ro r) path 0 vs) (\<lambda>ws. Inr (WArr ws))"
| "encodeValue r path (GMap isnil strkeys kvs) =
     (if isnil then Inr WNilMap
      else if \<not> strkeys then Inl (ValueError (ObjectKeysNotString (printablePath path)))
      else encodeMap (elem_ro r) path kvs [])"
| "encodeValue r path (GStruct fs) = encodeStruct r path fs []"
| "encodeValue r path (GOther t) = Inl (unsupportedValueError t path)"
| "encodeSequence r path i [] = Inr []"
| "encodeSequence r path i (v # vs) =
     rbind (encodeValue r (indexPath path i) v) (\<lambda>w.
     rbind (encodeSequence r path (Suc i) vs) (\<lambda>ws. Inr (w # ws)))"
| "encodeMap r path [] out = Inr (WMap out)"
| "encodeMap r path ((k, v) # kvs) out =
     rbind (validateObjectField k) (\<lambda>_.
     rbind (encodeValue r (childPath path k) v) (\<lambda>w. encodeMap r path kvs (mput k w out)))"
| "encodeStruct r path [] out = Inr (WMap out)"
| "encodeStruct r path ((fname, exported, anonymous, tag, v) # fs) out =
     (if \<not> exported \<and> \<not> anonymous then encodeStruct r path fs out
      else case jsonField tag of (name, omitEmpty, skip) \<Rightarrow>
        if skip then encodeStruct r path fs out
        else if omitEmpty \<and> isEmptyValue v then encodeStruct r path fs out
        else
          let r' = field_ro r exported anonymous;
              name' = (if name = [] then fname else name);
              named = (\<lambda>_. rbind (validateObjectField name') (\<lambda>_.
                     rbind (encodeValue r' (childPath path name') v) (\<lambda>w.
                     encodeStruct r path fs (mput name' w out))))
          in if anonymous \<and> name = []
             then rbind (encodeValue r' path v) (\<lambda>w.
                    case mergeEmbedded out w of
                      Some out' \<Rightarrow> encodeStruct r path fs out'
                    | None \<Rightarrow> named ())
             else named ())"

definition EncodeValue :: "gval \<Rightarrow> wire res" where
  "EncodeValue v = encodeValue RW [] v"

definition EncodeJSON :: "gval \<Rightarrow> json res" where
  "EncodeJSON v = rbind (EncodeValue v) json_Marshal"

definition ValueFromGo :: "gval \<Rightarrow> Value res" where
  "ValueFromGo v = (case v of GValue x \<Rightarrow> Inr x | _ \<Rightarrow> rbind (EncodeValue v) valueFromWire)"

section \<open>Values as Go values\<close>

text \<open>An element of type \<open>any\<close>: an interface holding a value, or a nil interface.\<close>

definition box :: "gval \<Rightarrow> gval" where
  "box v = (if v = GInvalid then GNilRef else GRef v)"

fun GoValue :: "Value \<Rightarrow> gval" where
  "GoValue VNull = GInvalid"
| "GoValue (VInt64 n) = GInt64 n"
| "GoValue (VFloat64 f) = GFloat f"
| "GoValue (VBoolean b) = GBool b"
| "GoValue (VString s) = GString s"
| "GoValue (VBytes d) = GBytes d"
| "GoValue (VArray vs) = GSeq (map (\<lambda>v. box (GoValue v)) vs)"
| "GoValue (VObject m) = GMap False True (map (\<lambda>p. (fst p, box (GoValue (snd p)))) m)"

text \<open>\<open>DecodeValue\<close>: from the wire to Go values directly.\<close>

definition decodeWireSingleton :: "string \<Rightarrow> wire \<Rightarrow> gval res option" where
  "decodeWireSingleton key raw =
     (if key = ''$bytes'' then Some (rbind (decodeWireBytes raw) (\<lambda>d. Inr (GBytes d)))
      else if key = ''$integer'' then Some (rbind (decodeWireInt64 raw) (\<lambda>n. Inr (GInt64 n)))
      else if key = ''$float'' then Some (rbind (decodeWireFloat64 raw) (\<lambda>f. Inr (GFloat f)))
      else if key = ''$set'' then Some (Inl (ValueError SetUnsupported))
      else if key = ''$map'' then Some (Inl (ValueError MapUnsupported))
      else None)"

definition decodeJSONNumber :: "string \<Rightarrow> f64 res" where
  "decodeJSONNumber n =
     (case ParseFloat n of Some f \<Rightarrow> Inr f | None \<Rightarrow> Inl (ValueError (InvalidJSONNumber n)))"

fun decodeValue :: "wire \<Rightarrow> gval res"
  and decodeArrayValue :: "wire list \<Rightarrow> gval list res"
  and decodeObjectFields :: "(string, wire) gomap \<Rightarrow> (string \<times> gval) list res" where
  "decodeValue WNil = Inr GInvalid"
| "decodeValue (WBool b) = Inr (GBool b)"
| "decodeValue (WStr s) = Inr (GString s)"
| "decodeValue (WNumber n) = rbind (decodeJSONNumber n) (\<lambda>f. Inr (GFloat f))"
| "decodeValue (WFloat f) = Inr (GFloat f)"
| "decodeValue (WArr ws) = rbind (decodeArrayValue ws) (\<lambda>vs. Inr (GSeq vs))"
| "decodeValue (WMap m) =
     (case wire_singleton decodeWireSingleton m of
        Some r \<Rightarrow> r
      | None \<Rightarrow> rbind (decodeObjectFields m) (\<lambda>fs. Inr (GMap False True (mof_list fs))))"
| "decodeValue WNilMap = Inr (GMap False True [])"
| "decodeValue WOther = Inl (ValueError UnexpectedJSONType)"
| "decodeArrayValue [] = Inr []"
| "decodeArrayValue (w # ws) =
     rbind (decodeValue w) (\<lambda>v. rbind (decodeArrayValue ws) (\<lambda>vs. Inr (box v # vs)))"
| "decodeObjectFields [] = Inr []"
| "decodeObjectFields ((k, w) # m) =
     rbind (validateObjectField k) (\<lambda>_.
     rbind (decodeValue w) (\<lambda>v. rbind (decodeObjectFields m) (\<lambda>fs. Inr ((k, box v) # fs))))"

section \<open>Well-formed values\<close>

text \<open>
  What every value built through the package satisfies: the fields of an object are a
  Go map with valid names.
\<close>

fun wf_value :: "Value \<Rightarrow> bool" where
  "wf_value (VArray vs) = (\<forall>v\<in>set vs. wf_value v)"
| "wf_value (VObject m) =
     (mwf m \<and> (\<forall>p\<in>set m. validateObjectField (fst p) = Inr () \<and> wf_value (snd p)))"
| "wf_value _ = True"

text \<open>What a field name may be, as one condition.\<close>

definition valid_field :: "string \<Rightarrow> bool" where
  "valid_field k \<longleftrightarrow> length k \<le> 1024 \<and> \<not> HasPrefix k ''$'' \<and>
     (\<forall>c\<in>set k. 32 \<le> (of_char c :: nat) \<and> of_char c < (127 :: nat))"

lemma field_chars_iff:
  "field_chars k cs = Inr u \<longleftrightarrow> (\<forall>c\<in>set cs. 32 \<le> (of_char c :: nat) \<and> of_char c < (127 :: nat))"
  by (induction k cs rule: field_chars.induct) (auto simp: not_less not_le)

lemma validateObjectField_iff: "validateObjectField k = Inr u \<longleftrightarrow> valid_field k"
  by (auto simp: validateObjectField_def valid_field_def maxIdentifierLen_def field_chars_iff)

lemma valid_field_not_sentinel:
  assumes "validateObjectField k = Inr u"
  shows "k \<noteq> ''$bytes''" "k \<noteq> ''$integer''" "k \<noteq> ''$float''" "k \<noteq> ''$set''" "k \<noteq> ''$map''"
proof -
  have "take 1 k \<noteq> ''$''"
    using assms by (simp add: validateObjectField_iff valid_field_def HasPrefix_def)
  then show "k \<noteq> ''$bytes''" "k \<noteq> ''$integer''" "k \<noteq> ''$float''" "k \<noteq> ''$set''" "k \<noteq> ''$map''"
    by auto
qed

lemma valid_field_no_singleton:
  assumes "validateObjectField k = Inr u"
  shows "valueFromWireSingleton k w = None" "decodeWireSingleton k w = None"
  using valid_field_not_sentinel [OF assms]
  by (simp_all add: valueFromWireSingleton_def decodeWireSingleton_def)

lemma valid_field_utf8: "validateObjectField k = Inr u \<Longrightarrow> valid_utf8 k"
  by (rule valid_utf8_ascii) (auto simp: validateObjectField_iff valid_field_def)

lemma ObjectValue_ok:
  assumes "\<And>p. p \<in> set m \<Longrightarrow> validateObjectField (fst p) = Inr ()"
  shows "ObjectValue m = Inr (VObject (mof_list m))"
proof -
  have "rmap (\<lambda>p. rbind (validateObjectField (fst p)) (\<lambda>_. Inr p)) m = Inr (map (\<lambda>p. p) m)"
    by (rule rmap_Inr_map) (simp add: assms)
  then show ?thesis by (simp add: ObjectValue_def)
qed

lemma mput_front: "(\<And>p. p \<in> set m \<Longrightarrow> k < fst p) \<Longrightarrow> mput k v m = (k, v) # m"
  by (cases m) fastforce+

lemma mwf_Cons: "mwf ((k, v) # m) \<longleftrightarrow> (\<forall>p\<in>set m. k < fst p) \<and> mwf m"
  by (simp add: mwf_def)

section \<open>Round trips through the wire\<close>

lemma decodeBase64Compat_std [simp]: "decodeBase64Compat (b64_encode std_alphabet d) = Inr d"
  by (simp add: decodeBase64Compat_def b64_decode_encode std_alphabet_ok)

lemma decodeBase64Compat_url: "decodeBase64Compat (b64_encode url_alphabet d) = Inr d"
  using b64_decode_agree [of "b64_encode url_alphabet d"]
  by (auto simp: decodeBase64Compat_def b64_decode_encode url_alphabet_ok split: option.split)

lemma decodeInt64_encodeInt64 [simp]: "decodeInt64 (encodeInt64 n) = Inr n"
  by (simp add: decodeInt64_def encodeInt64_def)

lemma decodeFloat64_encodeFloat64 [simp]: "decodeFloat64 (encodeFloat64 f) = Inr f"
  by (simp add: decodeFloat64_def encodeFloat64_def)

lemma valueFromWire_encoded [simp]:
  "valueFromWire (encodedInt64 n) = Inr (VInt64 n)"
  "valueFromWire (encodedFloat64 f) = Inr (VFloat64 f)"
  "valueFromWire (encodedBytes d) = Inr (VBytes d)"
  by (auto simp: encodedInt64_def encodedFloat64_def encodedBytes_def wire_singleton_def
      valueFromWireSingleton_def decodeWireInt64_def decodeWireFloat64_def decodeWireBytes_def)

lemma wire_round_trips:
  "wf_value v \<Longrightarrow> \<exists>w. ConvexJSON v = Inr w \<and> valueFromWire w = Inr v"
  "(\<And>v. v \<in> set vs \<Longrightarrow> wf_value v) \<Longrightarrow>
     \<exists>ws. convexJSONArray vs = Inr ws \<and> valueArrayFromWire ws = Inr vs"
  "wf_value (VObject m) \<Longrightarrow>
     \<exists>ms. convexJSONObject m = Inr ms \<and> mkeys ms = mkeys m \<and> valueFieldsFromWire ms = Inr m"
proof (induction v and vs and m rule: ConvexJSON_convexJSONArray_convexJSONObject.induct)
  case (8 m)
  then obtain ms where ms: "convexJSONObject m = Inr ms" "mkeys ms = mkeys m" "valueFieldsFromWire ms = Inr m"
    by blast
  have "wire_singleton valueFromWireSingleton ms = None"
    using 8 ms(2) by (auto simp: wire_singleton_def valid_field_no_singleton split: list.splits)
  moreover have "ObjectValue (mof_list m) = Inr (VObject m)"
    using 8 by (simp add: ObjectValue_ok)
  ultimately show ?case
    using ms by simp
next
  case (12 k v m)
  then obtain w ms where w: "ConvexJSON v = Inr w" "valueFromWire w = Inr v"
    and ms: "convexJSONObject m = Inr ms" "mkeys ms = mkeys m" "valueFieldsFromWire ms = Inr m"
    by (auto simp: mwf_Cons)
  have "k < fst p" if "p \<in> set ms" for p
    using 12 ms(2) that by (auto simp: mwf_Cons) (metis image_eqI image_set imageE)
  then have "mput k w ms = (k, w) # ms"
    by (rule mput_front)
  with 12 w ms show ?case
    by simp
qed fastforce+

lemma convexJSONObject_Cons:
  assumes "wf_value (VObject ((k, v) # m))" and "ConvexJSON v = Inr w" and "convexJSONObject m = Inr ms"
  shows "convexJSONObject ((k, v) # m) = Inr ((k, w) # ms)"
proof -
  have "mkeys ms = mkeys m"
    using assms wire_round_trips(3) [of m] by (auto simp: mwf_Cons)
  then have "k < fst p" if "p \<in> set ms" for p
    using assms(1) that by (auto simp: mwf_Cons) (metis image_eqI image_set imageE)
  then show ?thesis
    using assms by (simp add: mput_front)
qed

text \<open>Encoding the Go representation of a value gives the wire form of the value itself.\<close>

lemma encodeValue_GoValue:
  "wf_value v \<Longrightarrow> encodeValue RW path (GoValue v) = ConvexJSON v"
  "(\<And>v. v \<in> set vs \<Longrightarrow> wf_value v) \<Longrightarrow>
     encodeSequence RW path i (map (\<lambda>v. box (GoValue v)) vs) = convexJSONArray vs"
  "wf_value (VObject m) \<Longrightarrow> convexJSONObject m = Inr ms \<Longrightarrow>
     encodeMap RW path (map (\<lambda>p. (fst p, box (GoValue (snd p)))) m) out =
     Inr (WMap (fold (\<lambda>(k, w). mput k w) ms out))"
proof (induction v and vs and m arbitrary: path and path i and path ms out
    rule: ConvexJSON_convexJSONArray_convexJSONObject.induct)
  case (7 vs)
  then show ?case
    by (simp add: elem_ro_def)
next
  case (8 m)
  then obtain ms where ms: "convexJSONObject m = Inr ms" "mkeys ms = mkeys m"
    using wire_round_trips(3) [of m] by auto
  have "mwf ms"
    using 8 ms(2) by (simp add: mwf_def)
  then have "fold (\<lambda>(k, w). mput k w) ms [] = ms"
    using mof_list_id [of ms] by (simp add: mof_list_def)
  with 8 ms show ?case
    by (simp add: elem_ro_def)
next
  case (10 v vs)
  have "encodeValue RW p (box (GoValue v)) = ConvexJSON v" for p
    using 10 by (auto simp: box_def)
  with 10 show ?case
    by (cases "ConvexJSON v") auto
next
  case (12 k v m)
  obtain w ms' where w: "ConvexJSON v = Inr w" and ms': "convexJSONObject m = Inr ms'"
    using 12 by (auto simp: res_simps)
  have "encodeValue RW p (box (GoValue v)) = ConvexJSON v" for p
    using 12 by (auto simp: box_def)
  moreover have "ms = (k, w) # ms'"
    using convexJSONObject_Cons [OF "12.prems"(1) w ms'] "12.prems"(2) by simp
  ultimately show ?case
    using 12 w ms' by (auto simp: mwf_Cons)
qed simp_all

lemma GoValue_not_GValue: "GoValue v \<noteq> GValue x"
  by (cases v) auto

lemma ValueFromGo_GoValue:
  assumes "wf_value v"
  shows "ValueFromGo (GoValue v) = Inr v"
proof -
  obtain w where "ConvexJSON v = Inr w" "valueFromWire w = Inr v"
    using wire_round_trips(1) [OF assms] by blast
  then have "rbind (EncodeValue (GoValue v)) valueFromWire = Inr v"
    using assms by (simp add: EncodeValue_def encodeValue_GoValue)
  then show ?thesis
    using GoValue_not_GValue [of v] by (cases "GoValue v") (auto simp: ValueFromGo_def)
qed

text \<open>Whatever the wire decodes to is a well-formed value.\<close>

lemma mof_list_set: "p \<in> set (mof_list ps) \<Longrightarrow> p \<in> set ps"
proof -
  assume "p \<in> set (mof_list ps)"
  then have "mget (mof_list ps) (fst p) = Some (snd p)"
    by (simp add: mwf_mem_iff [symmetric])
  then have "p \<in> set (rev ps)"
    unfolding mget_mof_list by (metis map_of_SomeD prod.collapse)
  then show ?thesis by simp
qed

lemma ObjectValue_Inr:
  "ObjectValue m = Inr v \<longleftrightarrow>
     v = VObject (mof_list m) \<and> (\<forall>p\<in>set m. validateObjectField (fst p) = Inr ())"
proof
  assume a: "ObjectValue m = Inr v"
  then obtain cp where cp: "rmap (\<lambda>p. rbind (validateObjectField (fst p)) (\<lambda>_. Inr p)) m = Inr cp"
    by (auto simp: ObjectValue_def res_simps)
  have "\<forall>p\<in>set m. validateObjectField (fst p) = Inr ()"
    using rmap_nth [OF cp] by (fastforce simp: in_set_conv_nth res_simps)
  with a show "v = VObject (mof_list m) \<and> (\<forall>p\<in>set m. validateObjectField (fst p) = Inr ())"
    by (simp add: ObjectValue_ok)
qed (simp add: ObjectValue_ok)

lemma valueFromWireSingleton_wf: "valueFromWireSingleton k w = Some (Inr v) \<Longrightarrow> wf_value v"
  by (auto simp: valueFromWireSingleton_def res_simps split: if_splits)

lemma valueFromWire_wf:
  "valueFromWire w = Inr v \<Longrightarrow> wf_value v"
  "valueArrayFromWire ws = Inr vs \<Longrightarrow> v' \<in> set vs \<Longrightarrow> wf_value v'"
  "valueFieldsFromWire m = Inr fs \<Longrightarrow> p \<in> set fs \<Longrightarrow> wf_value (snd p)"
proof (induction w and ws and m arbitrary: v and v' vs and p fs
    rule: valueFromWire_valueArrayFromWire_valueFieldsFromWire.induct)
  case (7 m)
  show ?case
  proof (cases "wire_singleton valueFromWireSingleton m")
    case None
    with "7.prems" obtain fs where fs: "valueFieldsFromWire m = Inr fs" "ObjectValue (mof_list fs) = Inr v"
      by (auto simp: res_simps)
    then have "v = VObject (mof_list fs)" "\<forall>p\<in>set (mof_list fs). validateObjectField (fst p) = Inr ()"
      by (auto simp: ObjectValue_Inr)
    with "7.IH" [OF None fs(1)] show ?thesis
      by (auto dest: mof_list_set)
  next
    case (Some r)
    with "7.prems" show ?thesis
      by (auto simp: wire_singleton_def valueFromWireSingleton_wf split: list.splits prod.splits)
  qed
qed (auto simp: res_simps valueFromJSONNumber_def ObjectValue_Inr mof_list_def split: option.splits)

section \<open>The two decoders agree\<close>

lemma mput_map_snd:
  "mput k (f v) (map (\<lambda>p. (fst p, f (snd p))) m) = map (\<lambda>p. (fst p, f (snd p))) (mput k v m)"
  by (induction k v m rule: mput.induct) auto

lemma mof_list_map_snd:
  "mof_list (map (\<lambda>p. (fst p, f (snd p))) ps) = map (\<lambda>p. (fst p, f (snd p))) (mof_list ps)"
proof -
  have "fold (\<lambda>(k, v). mput k v) (map (\<lambda>p. (fst p, f (snd p))) ps) (map (\<lambda>p. (fst p, f (snd p))) m) =
      map (\<lambda>p. (fst p, f (snd p))) (fold (\<lambda>(k, v). mput k v) ps m)" for m
    by (induction ps arbitrary: m) (auto simp: mput_map_snd)
  from this [of "[]"] show ?thesis
    by (simp add: mof_list_def)
qed

lemma decodeWireSingleton_None:
  "valueFromWireSingleton k w = None \<longleftrightarrow> decodeWireSingleton k w = None"
  by (simp add: valueFromWireSingleton_def decodeWireSingleton_def)

lemma decodeWireSingleton_Inr:
  "valueFromWireSingleton k w = Some (Inr v) \<Longrightarrow> decodeWireSingleton k w = Some (Inr (GoValue v))"
  by (auto simp: valueFromWireSingleton_def decodeWireSingleton_def res_simps split: if_splits)

lemma decodeValue_refines:
  "valueFromWire w = Inr v \<Longrightarrow> decodeValue w = Inr (GoValue v)"
  "valueArrayFromWire ws = Inr vs \<Longrightarrow> decodeArrayValue ws = Inr (map (\<lambda>v. box (GoValue v)) vs)"
  "valueFieldsFromWire m = Inr fs \<Longrightarrow>
     decodeObjectFields m = Inr (map (\<lambda>p. (fst p, box (GoValue (snd p)))) fs)"
proof (induction w and ws and m arbitrary: v and vs and fs
    rule: valueFromWire_valueArrayFromWire_valueFieldsFromWire.induct)
  case (7 m)
  show ?case
  proof (cases "wire_singleton valueFromWireSingleton m")
    case None
    with "7.prems" obtain fs where fs: "valueFieldsFromWire m = Inr fs" "ObjectValue (mof_list fs) = Inr v"
      by (auto simp: res_simps)
    have "wire_singleton decodeWireSingleton m = None"
      using None by (auto simp: wire_singleton_def decodeWireSingleton_None split: list.splits)
    with "7.IH" [OF None fs(1)] fs(2) show ?thesis
      by (simp add: ObjectValue_Inr mof_list_map_snd [where f = "\<lambda>v. box (GoValue v)"])
  next
    case (Some r)
    with "7.prems" obtain k x where "m = [(k, x)]" "valueFromWireSingleton k x = Some (Inr v)"
      by (auto simp: wire_singleton_def split: list.splits prod.splits)
    then show ?thesis
      by (simp add: wire_singleton_def decodeWireSingleton_Inr)
  qed
qed (auto simp: res_simps valueFromJSONNumber_def decodeJSONNumber_def ObjectValue_Inr mof_list_def split: option.splits)

section \<open>Round trips through documents\<close>

definition float_text_ok :: "f64 \<Rightarrow> bool" where
  "float_text_ok f \<longleftrightarrow> ParseFloat (FormatFloat f) = Some f"

text \<open>The strings of a value are valid UTF-8 and its ordinary floats survive printing.\<close>

fun text_ok :: "Value \<Rightarrow> bool" where
  "text_ok (VString s) = valid_utf8 s"
| "text_ok (VFloat64 f) = (isSpecialFloat f \<or> float_text_ok f)"
| "text_ok (VArray vs) = (\<forall>v\<in>set vs. text_ok v)"
| "text_ok (VObject m) = (\<forall>p\<in>set m. text_ok (snd p))"
| "text_ok _ = True"

lemma std_alphabet_ascii: "c \<in> set std_alphabet \<Longrightarrow> of_char c < (128 :: nat)"
  by (auto simp: std_alphabet_def)

lemma b64_encode_set: "b64_alphabet al \<Longrightarrow> set (b64_encode al d) \<subseteq> insert b64_pad (set al)"
  by (induction al d rule: b64_encode.induct) (auto simp: b64_alphabet_def)

lemma b64_utf8 [simp]: "utf8_sanitize (b64_encode std_alphabet d) = b64_encode std_alphabet d"
proof (rule valid_utf8_sanitize, rule valid_utf8_ascii)
  fix c
  assume "c \<in> set (b64_encode std_alphabet d)"
  then have "c = b64_pad \<or> c \<in> set std_alphabet"
    using b64_encode_set [OF std_alphabet_ok] by blast
  then show "of_char c < (128 :: nat)"
    using std_alphabet_ascii by (auto simp: b64_pad_def)
qed

lemma encodeInt64_utf8 [simp]:
  "utf8_sanitize (encodeInt64 n) = encodeInt64 n" "utf8_sanitize (encodeFloat64 f) = encodeFloat64 f"
  by (simp_all add: encodeInt64_def encodeFloat64_def)

lemma sentinel_utf8 [simp]:
  "utf8_sanitize ''$integer'' = ''$integer''" "utf8_sanitize ''$float'' = ''$float''"
  "utf8_sanitize ''$bytes'' = ''$bytes''"
  by (rule valid_utf8_sanitize, rule valid_utf8_ascii, auto)+

lemma json_Marshal_encoded [simp]:
  "json_Marshal (encodedInt64 n) = Inr (JObj [(''$integer'', JStr (encodeInt64 n))])"
  "json_Marshal (encodedBytes d) = Inr (JObj [(''$bytes'', JStr (b64_encode std_alphabet d))])"
  by (simp_all add: encodedInt64_def encodedBytes_def encodeInt64_def)

lemma json_Marshal_float:
  "json_Marshal (encodedFloat64 f) =
     Inr (if isSpecialFloat f then JObj [(''$float'', JStr (encodeFloat64 f))] else JNum (FormatFloat f))"
  by (auto simp: encodedFloat64_def encodeFloat64_def isSpecialFloat_def)

lemma mof_list_single [simp]: "mof_list [p] = [p]"
  by (cases p) (simp add: mof_list_def)

lemma doc_round_trips:
  "wf_value v \<Longrightarrow> text_ok v \<Longrightarrow> ConvexJSON v = Inr w \<Longrightarrow>
     \<exists>j. json_Marshal w = Inr j \<and> valueFromWire (json_Decode j) = Inr v"
  "(\<And>v. v \<in> set vs \<Longrightarrow> wf_value v \<and> text_ok v) \<Longrightarrow> convexJSONArray vs = Inr ws \<Longrightarrow>
     \<exists>js. rmap json_Marshal ws = Inr js \<and> valueArrayFromWire (map json_Decode js) = Inr vs"
  "wf_value (VObject m) \<Longrightarrow> text_ok (VObject m) \<Longrightarrow> convexJSONObject m = Inr ms \<Longrightarrow>
     \<exists>jm. rmap (\<lambda>p. rbind (json_Marshal (snd p)) (\<lambda>j. Inr (utf8_sanitize (fst p), j))) ms = Inr jm \<and>
       mkeys jm = mkeys m \<and>
       valueFieldsFromWire (map (\<lambda>p. (fst p, json_Decode (snd p))) jm) = Inr m"
proof (induction v and vs and m arbitrary: w and ws and ms
    rule: ConvexJSON_convexJSONArray_convexJSONObject.induct)
  case (2 n)
  then show ?case
    using valueFromWire_encoded(1) [of n] by (auto simp: encodedInt64_def)
next
  case (3 f)
  then have w: "w = encodedFloat64 f"
    by simp
  show ?case
  proof (cases "isSpecialFloat f")
    case True
    let ?j = "JObj [(''$float'', JStr (encodeFloat64 f))]"
    have "json_Decode ?j = encodedFloat64 f"
      using True by (simp add: encodedFloat64_def)
    then have "valueFromWire (json_Decode ?j) = Inr (VFloat64 f)"
      by (simp only: valueFromWire_encoded)
    moreover have "json_Marshal w = Inr ?j"
      by (simp only: w json_Marshal_float True if_True)
    ultimately show ?thesis by blast
  next
    case False
    then have "valueFromWire (json_Decode (JNum (FormatFloat f))) = Inr (VFloat64 f)"
      using 3 by (simp add: float_text_ok_def valueFromJSONNumber_def)
    then show ?thesis
      using False w json_Marshal_float [of f] by auto
  qed
next
  case (6 d)
  then show ?case
    using valueFromWire_encoded(3) [of d] by (auto simp: encodedBytes_def)
next
  case (8 m)
  then obtain ms jm where ms: "convexJSONObject m = Inr ms" "w = WMap ms"
    and jm: "rmap (\<lambda>p. rbind (json_Marshal (snd p)) (\<lambda>j. Inr (utf8_sanitize (fst p), j))) ms = Inr jm"
      "mkeys jm = mkeys m" "valueFieldsFromWire (map (\<lambda>p. (fst p, json_Decode (snd p))) jm) = Inr m"
    by (fastforce simp: res_simps)
  let ?m = "map (\<lambda>p. (fst p, json_Decode (snd p))) jm"
  have k: "mkeys ?m = mkeys m"
    using jm(2) by (simp add: comp_def)
  then have "mwf ?m"
    using 8 by (simp add: mwf_def)
  moreover have "wire_singleton valueFromWireSingleton ?m = None"
    using 8 k by (auto simp: wire_singleton_def valid_field_no_singleton split: list.splits)
  moreover have "ObjectValue (mof_list m) = Inr (VObject m)"
    using 8 by (simp add: ObjectValue_ok)
  ultimately show ?case
    using ms jm by simp
next
  case (12 k v m)
  then obtain w ms' where w: "ConvexJSON v = Inr w" and ms': "convexJSONObject m = Inr ms'"
    by (auto simp: res_simps)
  have ms: "ms = (k, w) # ms'"
    using convexJSONObject_Cons [OF "12.prems"(1) w ms'] "12.prems"(3) by simp
  have k: "validateObjectField k = Inr ()" "utf8_sanitize k = k"
    using "12.prems"(1) by (auto intro: valid_utf8_sanitize valid_field_utf8)
  then show ?case
    using 12 w ms' ms by (fastforce simp: mwf_Cons)
qed (fastforce simp: res_simps valid_utf8_sanitize)+

text \<open>The three encodings of values as codecs.\<close>

interpretation int64_wire: codec "\<lambda>n. Inr (encodeInt64 n) :: unit + string" decodeInt64 "\<lambda>_. True"
  by unfold_locales simp

interpretation value_wire: codec ConvexJSON valueFromWire wf_value
  by unfold_locales (rule wire_round_trips)

interpretation value_doc: codec MarshalJSON UnmarshalJSON "\<lambda>v. wf_value v \<and> text_ok v"
proof unfold_locales
  fix v
  assume v: "wf_value v \<and> text_ok v"
  then obtain w where w: "ConvexJSON v = Inr w"
    using value_wire.enc_total by blast
  then show "\<exists>j. MarshalJSON v = Inr j \<and> UnmarshalJSON j = Inr v"
    using doc_round_trips(1) [of v w] v
    by (auto simp: MarshalJSON_def UnmarshalJSON_def ParseValueJSON_def)
qed

lemma sint_small: "unat (u :: 64 word) < 2 ^ 63 \<Longrightarrow> sint u = int (unat u)"
proof -
  assume "unat u < 2 ^ 63"
  then have "int (unat u) < int (2 ^ 63)"
    by (simp only: of_nat_less_iff)
  then have "uint u < 2 ^ 63"
    by (simp only: uint_nat of_nat_power of_nat_numeral)
  then have "signed_take_bit (LENGTH(64) - Suc 0) (uint u) = uint u"
    by (subst signed_take_bit_int_eq_self_iff) (simp add: order_trans [of _ 0])
  then show ?thesis
    by (simp only: sint_uint uint_nat)
qed

section \<open>Properties\<close>

text \<open>
  C14: every well-formed value has a wire form, and decoding the wire form gives the value
  back, special floats, 64-bit integers, bytes and nested objects included.
\<close>

theorem value_wire_round_trip:
  assumes "wf_value v"
  shows "rbind (ConvexJSON v) valueFromWire = Inr v"
  using value_wire.dec_enc [OF assms, of "\<lambda>e. e" "\<lambda>e. e"] value_wire.round_trip [OF assms] by auto

theorem value_wire_round_trip_witness:
  "rbind (ConvexJSON (VObject [(''a'', VArray [VNull, VInt64 (- 1), VFloat64 (2 ^ 63)]), (''b'', VBytes [1, 255])]))
     valueFromWire =
   Inr (VObject [(''a'', VArray [VNull, VInt64 (- 1), VFloat64 (2 ^ 63)]), (''b'', VBytes [1, 255])])"
  by (rule value_wire_round_trip)
    (simp add: mwf_def validateObjectField_iff valid_field_def HasPrefix_def less_char_def)

text \<open>
  C15: converting a value to ordinary Go data and encoding that by reflection is the same as
  encoding the value, so \<open>ValueFromGo\<close> undoes \<open>GoValue\<close>.
\<close>

theorem go_value_round_trip:
  assumes "wf_value v"
  shows "EncodeValue (GoValue v) = ConvexJSON v \<and> ValueFromGo (GoValue v) = Inr v"
  using encodeValue_GoValue(1) [OF assms, of "[]"] ValueFromGo_GoValue [OF assms] by (simp add: EncodeValue_def)

theorem go_value_round_trip_witness:
  "ValueFromGo (GoValue (VObject [(''k'', VArray [VInt64 7, VString ''x''])])) =
     Inr (VObject [(''k'', VArray [VInt64 7, VString ''x''])])"
  using go_value_round_trip [of "VObject [(''k'', VArray [VInt64 7, VString ''x''])]"]
  by (simp add: mwf_def validateObjectField_iff valid_field_def HasPrefix_def)

text \<open>
  whatever \<open>valueFromWire\<close> accepts is a well-formed value, so it can be sent again and
  is then read as the same value.
\<close>

theorem wire_values_well_formed:
  assumes "valueFromWire w = Inr v"
  shows "wf_value v \<and> rbind (ConvexJSON v) valueFromWire = Inr v"
  using valueFromWire_wf(1) [OF assms] value_wire.round_trip by fastforce

theorem wire_values_well_formed_witness:
  "wf_value (VObject [(''a'', VInt64 1)])"
proof -
  have "validateObjectField ''a'' = Inr ()"
    by (simp add: validateObjectField_iff valid_field_def HasPrefix_def)
  then have "valueFromWire (WMap [(''a'', encodedInt64 1)]) = Inr (VObject [(''a'', VInt64 1)])"
    by (simp add: wire_singleton_def valueFromWireSingleton_def ObjectValue_Inr)
  from wire_values_well_formed [OF this] show ?thesis ..
qed

text \<open>
  the decoder to Go data agrees with the decoder to values: it accepts everything the
  latter accepts, with the Go form of the same value as the result.
\<close>

theorem decoders_agree:
  assumes "valueFromWire w = Inr v"
  shows "decodeValue w = Inr (GoValue v)"
  using decodeValue_refines(1) [OF assms] .

theorem decoders_agree_witness:
  "decodeValue (WArr [WNil, encodedInt64 3]) = Inr (GoValue (VArray [VNull, VInt64 3]))"
  by (rule decoders_agree) simp

text \<open>
  they do not reject the same documents: the decoder to Go data reads the wrapper of an
  ordinary float, which the decoder to values rejects.
\<close>

theorem float_wrapper_divergence:
  "decodeValue (WMap [(''$float'', WStr (encodeFloat64 f))]) = Inr (GFloat f) \<and>
   valueFromWire (WMap [(''$float'', WStr (encodeFloat64 f))]) =
     (if isSpecialFloat f then Inr (VFloat64 f) else Inl (ValueError FloatNotSpecial))"
  by (simp add: wire_singleton_def decodeWireSingleton_def valueFromWireSingleton_def decodeWireFloat64_def)

text \<open>
  a well-formed value with UTF-8 strings, whose ordinary floats survive their decimal
  text, survives a JSON document.
\<close>

theorem value_document_round_trip:
  assumes "wf_value v" and "text_ok v"
  shows "rbind (MarshalJSON v) UnmarshalJSON = Inr v"
  using value_doc.round_trip [of v] assms by auto

theorem value_document_round_trip_witness:
  "rbind (MarshalJSON (VArray [VString ''x'', VInt64 (2 ^ 63), VBytes [0]])) UnmarshalJSON =
     Inr (VArray [VString ''x'', VInt64 (2 ^ 63), VBytes [0]])"
  by (rule value_document_round_trip) (simp, simp, rule valid_utf8_ascii, simp)

text \<open>
  unsigned Go integers are encoded exactly when they fit into the signed 64-bit integers
  of Convex, and then denote the same number.
\<close>

theorem unsigned_bounds:
  "EncodeValue (GUint u) =
     (if unat u < 2 ^ 63 then Inr (encodedInt64 u) else Inl (ValueError (UnsignedTooBig ''<root>''))) \<and>
   (case rbind (EncodeValue (GUint u)) valueFromWire of
      Inl e \<Rightarrow> 2 ^ 63 \<le> unat u
    | Inr v \<Rightarrow> \<exists>n. v = VInt64 n \<and> sint n = int (unat u))"
proof -
  have "sint u = int (unat u)" if "unat u < 2 ^ 63"
    using that by (rule sint_small)
  then show ?thesis
    by (simp add: EncodeValue_def encodeUint_def printablePath_def not_le)
qed

end
