(* ===== verification/Sync_Protocol.thy ===== *)
theory Sync_Protocol
  imports Core_Value
begin

text \<open>
  The messages of the sync protocol: \<open>internal/syncprotocol/sync_protocol.go\<close> and
  \<open>identity_attributes.go\<close>. Each message struct is a record with the struct's fields (the
  private flags that record how a field was sent included), the interfaces of message
  kinds are datatypes, and \<open>MarshalJSON\<close> and \<open>UnmarshalJSON\<close> of each struct are a
  function to and from JSON documents. A pointer is an option, and so is a slice, which
  may be nil.
\<close>

type_synonym QueryID = "32 word"
type_synonym QuerySetVersion = "32 word"
type_synonym IdentityVersion = "32 word"
type_synonym RequestID = "32 word"
type_synonym SyncTimestamp = "64 word"

section \<open>Timestamps\<close>

definition MaxInt64 :: nat where
  "MaxInt64 = 2 ^ 63 - 1"

definition SyncTimestamp_MarshalJSON :: "SyncTimestamp \<Rightarrow> json res" where
  "SyncTimestamp_MarshalJSON t =
     (if MaxInt64 < unat t then Inl (ProtoError TimestampTooBig)
      else Inr (ms_string (b64_encode std_alphabet (PutUint64 t))))"

definition decodeSyncBase64Compat :: "string \<Rightarrow> byte list res" where
  "decodeSyncBase64Compat encoded =
     (case b64_decode std_alphabet encoded of
        Some d \<Rightarrow> Inr d
      | None \<Rightarrow>
          (case b64_decode url_alphabet encoded of
             Some d \<Rightarrow> Inr d
           | None \<Rightarrow> Inl (StdError ''base64'')))"

definition SyncTimestamp_UnmarshalJSON :: "json \<Rightarrow> SyncTimestamp res" where
  "SyncTimestamp_UnmarshalJSON j =
     rbind (rerr (Wrapped (ProtoError TimestampMalformed)) (um_string j)) (\<lambda>encoded.
     rbind (rerr (Wrapped (ProtoError TimestampMalformed)) (decodeSyncBase64Compat encoded)) (\<lambda>decoded.
       if length decoded \<noteq> 8 then Inl (ProtoError (TimestampByteCount (length decoded)))
       else let v = Uint64 decoded
            in if MaxInt64 < unat v then Inl (ProtoError TimestampTooBig) else Inr v))"

section \<open>Objects and their fields\<close>

record OptionalString =
  os_Present :: bool
  os_Value :: "string option"

record OptionalValue =
  ov_Present :: bool
  ov_Value :: Value

text \<open>\<open>json.Marshal\<close> of a \<open>map[string]any\<close>, whose keys it sorts.\<close>

definition ms_object :: "(string \<times> json res) list \<Rightarrow> json res" where
  "ms_object fds =
     rbind (rmap (\<lambda>p. rbind (snd p) (\<lambda>j. Inr (fst p, j))) (mof_list fds)) (\<lambda>fs. Inr (JObj fs))"

definition ms_pointer :: "('a \<Rightarrow> json res) \<Rightarrow> 'a option \<Rightarrow> json res" where
  "ms_pointer ms x = (case x of None \<Rightarrow> Inr JNull | Some y \<Rightarrow> ms y)"

definition rawObject :: "json \<Rightarrow> (string, json) gomap res" where
  "rawObject j = um_object j"

text \<open>\<open>unmarshalExactField\<close> into a variable that holds \<open>zero\<close>.\<close>

definition unmarshalExactField :: "(string, json) gomap \<Rightarrow> string \<Rightarrow> (json \<Rightarrow> 'a res) \<Rightarrow> 'a \<Rightarrow> 'a res" where
  "unmarshalExactField raw k um zero =
     (case mget raw k of
        None \<Rightarrow> Inr zero
      | Some j \<Rightarrow> rerr (Wrapped (ProtoError (FieldError k))) (um j))"

definition rawIsNull :: "json \<Rightarrow> bool" where
  "rawIsNull j \<longleftrightarrow> j = JNull"

definition optionalStringFromRaw :: "(string, json) gomap \<Rightarrow> string \<Rightarrow> OptionalString res" where
  "optionalStringFromRaw raw k =
     (case mget raw k of
        None \<Rightarrow> Inr \<lparr>os_Present = False, os_Value = None\<rparr>
      | Some j \<Rightarrow>
          if rawIsNull j then Inr \<lparr>os_Present = True, os_Value = None\<rparr>
          else rbind (rerr (Wrapped (ProtoError (FieldMustBe k))) (um_string j)) (\<lambda>s.
            Inr \<lparr>os_Present = True, os_Value = Some s\<rparr>))"

definition optionalStringWire :: "OptionalString \<Rightarrow> json" where
  "optionalStringWire v = (case os_Value v of None \<Rightarrow> JNull | Some s \<Rightarrow> ms_string s)"

definition optionalValueFromRaw :: "(string, json) gomap \<Rightarrow> string \<Rightarrow> OptionalValue res" where
  "optionalValueFromRaw raw k =
     (case mget raw k of
        None \<Rightarrow> Inr \<lparr>ov_Present = False, ov_Value = VNull\<rparr>
      | Some j \<Rightarrow>
          if rawIsNull j then Inr \<lparr>ov_Present = True, ov_Value = VNull\<rparr>
          else rbind (rerr (Wrapped (ProtoError (FieldMustBe k))) (UnmarshalJSON j)) (\<lambda>v.
            Inr \<lparr>ov_Present = True, ov_Value = v\<rparr>))"

text \<open>
  The optional fields of the other types, with results \<open>(pointer, present)\<close>: the four
  functions differ in the type they decode and in whether they wrap its error.
\<close>

definition optional_from_raw ::
  "(error \<Rightarrow> error) \<Rightarrow> (json \<Rightarrow> 'a res) \<Rightarrow> (string, json) gomap \<Rightarrow> string \<Rightarrow> ('a option \<times> bool) res" where
  "optional_from_raw wrap um raw k =
     (case mget raw k of
        None \<Rightarrow> Inr (None, False)
      | Some j \<Rightarrow>
          if rawIsNull j then Inr (None, True)
          else rbind (rerr wrap (um j)) (\<lambda>x. Inr (Some x, True)))"

definition optionalTimestampFromRaw :: "(string, json) gomap \<Rightarrow> string \<Rightarrow> (SyncTimestamp option \<times> bool) res" where
  "optionalTimestampFromRaw = optional_from_raw (\<lambda>e. e) SyncTimestamp_UnmarshalJSON"

definition optionalFloat64FromRaw :: "(string, json) gomap \<Rightarrow> string \<Rightarrow> (f64 option \<times> bool) res" where
  "optionalFloat64FromRaw raw k = optional_from_raw (Wrapped (ProtoError (FieldMustBe k))) um_float64 raw k"

definition optionalInt64FromRaw :: "(string, json) gomap \<Rightarrow> string \<Rightarrow> (64 word option \<times> bool) res" where
  "optionalInt64FromRaw raw k = optional_from_raw (Wrapped (ProtoError (FieldMustBe k))) um_int64 raw k"

definition optionalIdentityVersionFromRaw ::
  "(string, json) gomap \<Rightarrow> string \<Rightarrow> (IdentityVersion option \<times> bool) res" where
  "optionalIdentityVersionFromRaw = optional_from_raw (\<lambda>e. e) um_uint32"

definition discriminator :: "json \<Rightarrow> string res" where
  "discriminator j =
     rbind (rawObject j) (\<lambda>raw.
     rbind (unmarshalExactField raw ''type'' um_string []) (\<lambda>t.
       if t = [] then Inl (ProtoError MissingType) else Inr t))"

section \<open>Identities\<close>

record SyncUserIdentityAttributes =
  TokenIdentifier :: string
  Issuer :: string
  Subject :: string
  Claims :: "(string, wire) gomap"

definition identity_token :: "SyncUserIdentityAttributes \<Rightarrow> string" where
  "identity_token i =
     (if TokenIdentifier i = [] \<and> Issuer i \<noteq> [] \<and> Subject i \<noteq> []
      then Issuer i @ ''|'' @ Subject i else TokenIdentifier i)"

definition identity_fields :: "SyncUserIdentityAttributes \<Rightarrow> (string, wire) gomap" where
  "identity_fields i =
     (let out = mof_list (Claims i);
          out = (if Issuer i \<noteq> [] then mput ''issuer'' (WStr (Issuer i)) out else out);
          out = (if Subject i \<noteq> [] then mput ''subject'' (WStr (Subject i)) out else out)
      in if identity_token i \<noteq> [] then mput ''tokenIdentifier'' (WStr (identity_token i)) out else out)"

definition Identity_MarshalJSON :: "SyncUserIdentityAttributes \<Rightarrow> json res" where
  "Identity_MarshalJSON i = json_Marshal (WMap (identity_fields i))"

fun decodeRawMap :: "json \<Rightarrow> (string, wire) gomap res" where
  "decodeRawMap j =
     (case json_Decode j of
        WMap m \<Rightarrow> Inr m
      | WNil \<Rightarrow> Inr []
      | _ \<Rightarrow> Inl json_error)"

definition claimString :: "(string, wire) gomap \<Rightarrow> string \<Rightarrow> string" where
  "claimString claims k = (case mget claims k of Some (WStr s) \<Rightarrow> s | _ \<Rightarrow> [])"

definition Identity_UnmarshalJSON :: "json \<Rightarrow> SyncUserIdentityAttributes res" where
  "Identity_UnmarshalJSON j =
     rbind (decodeRawMap j) (\<lambda>claims.
       let i = \<lparr>TokenIdentifier = claimString claims ''tokenIdentifier'',
                Issuer = claimString claims ''issuer'', Subject = claimString claims ''subject'',
                Claims = claims\<rparr>
       in if TokenIdentifier i = []
          then if Issuer i \<noteq> [] \<and> Subject i \<noteq> []
               then Inr (i\<lparr>TokenIdentifier := Issuer i @ ''|'' @ Subject i\<rparr>)
               else Inl (ProtoError IdentityIncomplete)
          else Inr i)"

section \<open>Messages of the client\<close>

subsection \<open>Connect\<close>

record ConnectMessage =
  cn_SessionID :: string
  cn_ConnectionCount :: "32 word"
  cn_LastCloseReason :: string
  cn_MaxObservedTimestamp :: "SyncTimestamp option"
  cn_ClientTS :: "64 word option"
  cn_lastCloseReasonPresent :: bool
  cn_lastCloseReasonNull :: bool

definition Connect_MarshalJSON :: "ConnectMessage \<Rightarrow> json res" where
  "Connect_MarshalJSON m = ms_object (
     [(''type'', Inr (ms_string ''Connect'')),
      (''sessionId'', Inr (ms_string (cn_SessionID m))),
      (''connectionCount'', Inr (ms_uint32 (cn_ConnectionCount m)))] @
     (if cn_LastCloseReason m \<noteq> [] then [(''lastCloseReason'', Inr (ms_string (cn_LastCloseReason m)))] else []) @
     (if cn_lastCloseReasonPresent m \<and> cn_lastCloseReasonNull m then [(''lastCloseReason'', Inr JNull)] else []) @
     (case cn_MaxObservedTimestamp m of
        None \<Rightarrow> [] | Some t \<Rightarrow> [(''maxObservedTimestamp'', SyncTimestamp_MarshalJSON t)]) @
     (case cn_ClientTS m of None \<Rightarrow> [] | Some t \<Rightarrow> [(''clientTs'', Inr (ms_int64 t))]))"

definition Connect_UnmarshalJSON :: "json \<Rightarrow> ConnectMessage res" where
  "Connect_UnmarshalJSON j =
     rbind (rawObject j) (\<lambda>raw.
     rbind (unmarshalExactField raw ''sessionId'' um_string []) (\<lambda>sessionID.
     rbind (unmarshalExactField raw ''connectionCount'' um_uint32 0) (\<lambda>connectionCount.
     rbind (unmarshalExactField raw ''maxObservedTimestamp''
              (um_pointer SyncTimestamp_UnmarshalJSON) None) (\<lambda>maxObservedTimestamp.
     rbind (unmarshalExactField raw ''clientTs'' (um_pointer um_int64) None) (\<lambda>clientTS.
     rbind (case mget raw ''lastCloseReason'' of
              None \<Rightarrow> Inr ([], False, False)
            | Some r \<Rightarrow>
                if rawIsNull r then Inr ([], True, True)
                else rbind (rerr (Wrapped (ProtoError (FieldMustBe ''lastCloseReason''))) (um_string r))
                       (\<lambda>s. Inr (s, True, False)))
       (\<lambda>(lastCloseReason, present, null).
     Inr \<lparr>cn_SessionID = sessionID, cn_ConnectionCount = connectionCount,
          cn_LastCloseReason = (if lastCloseReason = [] then ''unknown'' else lastCloseReason),
          cn_MaxObservedTimestamp = maxObservedTimestamp, cn_ClientTS = clientTS,
          cn_lastCloseReasonPresent = present, cn_lastCloseReasonNull = null\<rparr>))))))"

subsection \<open>ModifyQuerySet\<close>

record QuerySetAdd =
  qa_QueryID :: QueryID
  qa_UDFPath :: string
  qa_Args :: "Value list option"
  qa_Journal :: OptionalString
  qa_ComponentPath :: string

record QuerySetRemove =
  qr_QueryID :: QueryID

datatype QuerySetModification = Add QuerySetAdd | Remove QuerySetRemove

record ModifyQuerySetMessage =
  mq_BaseVersion :: QuerySetVersion
  mq_NewVersion :: QuerySetVersion
  mq_Modifications :: "QuerySetModification list option"

definition QuerySetAdd_MarshalJSON :: "QuerySetAdd \<Rightarrow> json res" where
  "QuerySetAdd_MarshalJSON m = ms_object (
     [(''type'', Inr (ms_string ''Add'')),
      (''queryId'', Inr (ms_uint32 (qa_QueryID m))),
      (''udfPath'', Inr (ms_string (qa_UDFPath m))),
      (''args'', ms_slice MarshalJSON (qa_Args m))] @
     (if os_Present (qa_Journal m) then [(''journal'', Inr (optionalStringWire (qa_Journal m)))] else []) @
     (if qa_ComponentPath m \<noteq> [] then [(''componentPath'', Inr (ms_string (qa_ComponentPath m)))] else []))"

definition QuerySetAdd_UnmarshalJSON :: "json \<Rightarrow> QuerySetAdd res" where
  "QuerySetAdd_UnmarshalJSON j =
     rbind (rawObject j) (\<lambda>raw.
     rbind (unmarshalExactField raw ''queryId'' um_uint32 0) (\<lambda>queryID.
     rbind (unmarshalExactField raw ''udfPath'' um_string []) (\<lambda>udfPath.
     rbind (unmarshalExactField raw ''args'' (um_slice UnmarshalJSON) None) (\<lambda>args.
     rbind (unmarshalExactField raw ''componentPath'' um_string []) (\<lambda>componentPath.
     rbind (optionalStringFromRaw raw ''journal'') (\<lambda>journal.
     Inr \<lparr>qa_QueryID = queryID, qa_UDFPath = udfPath, qa_Args = args, qa_Journal = journal,
          qa_ComponentPath = componentPath\<rparr>))))))"

definition QuerySetRemove_MarshalJSON :: "QuerySetRemove \<Rightarrow> json res" where
  "QuerySetRemove_MarshalJSON m = ms_object
     [(''type'', Inr (ms_string ''Remove'')), (''queryId'', Inr (ms_uint32 (qr_QueryID m)))]"

definition QuerySetRemove_UnmarshalJSON :: "json \<Rightarrow> QuerySetRemove res" where
  "QuerySetRemove_UnmarshalJSON j =
     rbind (rawObject j) (\<lambda>raw.
     rbind (unmarshalExactField raw ''queryId'' um_uint32 0) (\<lambda>queryID. Inr \<lparr>qr_QueryID = queryID\<rparr>))"

fun QuerySetModification_MarshalJSON :: "QuerySetModification \<Rightarrow> json res" where
  "QuerySetModification_MarshalJSON (Add m) = QuerySetAdd_MarshalJSON m"
| "QuerySetModification_MarshalJSON (Remove m) = QuerySetRemove_MarshalJSON m"

definition decodeQuerySetModification :: "json \<Rightarrow> QuerySetModification res" where
  "decodeQuerySetModification j =
     rbind (discriminator j) (\<lambda>t.
       if t = ''Add'' then rbind (QuerySetAdd_UnmarshalJSON j) (\<lambda>m. Inr (Add m))
       else if t = ''Remove'' then rbind (QuerySetRemove_UnmarshalJSON j) (\<lambda>m. Inr (Remove m))
       else Inl (ProtoError (UnknownQuerySetModification t)))"

text \<open>The loop over the raw elements of an array, which names the index of the one that fails.\<close>

definition decode_indexed :: "(json \<Rightarrow> 'a res) \<Rightarrow> json list \<Rightarrow> 'a list res" where
  "decode_indexed dec js =
     rmap (\<lambda>(i, j). rerr (Wrapped (ProtoError (IndexedModification i))) (dec j)) (enumerate 0 js)"

text \<open>Into a \<open>[]json.RawMessage\<close>; the length of a nil slice is 0.\<close>

fun um_raw_slice :: "json \<Rightarrow> json list res" where
  "um_raw_slice JNull = Inr []"
| "um_raw_slice (JArr js) = Inr js"
| "um_raw_slice _ = Inl json_error"

definition ModifyQuerySet_MarshalJSON :: "ModifyQuerySetMessage \<Rightarrow> json res" where
  "ModifyQuerySet_MarshalJSON m = ms_object
     [(''type'', Inr (ms_string ''ModifyQuerySet'')),
      (''baseVersion'', Inr (ms_uint32 (mq_BaseVersion m))),
      (''newVersion'', Inr (ms_uint32 (mq_NewVersion m))),
      (''modifications'', ms_slice QuerySetModification_MarshalJSON (mq_Modifications m))]"

definition ModifyQuerySet_UnmarshalJSON :: "json \<Rightarrow> ModifyQuerySetMessage res" where
  "ModifyQuerySet_UnmarshalJSON j =
     rbind (rawObject j) (\<lambda>raw.
       case mget raw ''modifications'' of
         None \<Rightarrow> Inl (ProtoError MissingModifications)
       | Some modificationsRaw \<Rightarrow>
           if rawIsNull modificationsRaw then Inl (ProtoError MissingModifications)
           else
             rbind (unmarshalExactField raw ''baseVersion'' um_uint32 0) (\<lambda>baseVersion.
             rbind (unmarshalExactField raw ''newVersion'' um_uint32 0) (\<lambda>newVersion.
             rbind (um_raw_slice modificationsRaw) (\<lambda>modifications.
             rbind (decode_indexed decodeQuerySetModification modifications) (\<lambda>mods.
             Inr \<lparr>mq_BaseVersion = baseVersion, mq_NewVersion = newVersion,
                  mq_Modifications = Some mods\<rparr>)))))"

subsection \<open>Mutation\<close>

record MutationMessage =
  mu_RequestID :: RequestID
  mu_UDFPath :: string
  mu_Args :: "Value list option"
  mu_ComponentPath :: string

definition Mutation_MarshalJSON :: "MutationMessage \<Rightarrow> json res" where
  "Mutation_MarshalJSON m = ms_object (
     [(''type'', Inr (ms_string ''Mutation'')),
      (''requestId'', Inr (ms_uint32 (mu_RequestID m))),
      (''udfPath'', Inr (ms_string (mu_UDFPath m))),
      (''args'', ms_slice MarshalJSON (mu_Args m))] @
     (if mu_ComponentPath m \<noteq> [] then [(''componentPath'', Inr (ms_string (mu_ComponentPath m)))] else []))"

definition Mutation_UnmarshalJSON :: "json \<Rightarrow> MutationMessage res" where
  "Mutation_UnmarshalJSON j =
     rbind (rawObject j) (\<lambda>raw.
     rbind (unmarshalExactField raw ''requestId'' um_uint32 0) (\<lambda>requestID.
     rbind (unmarshalExactField raw ''udfPath'' um_string []) (\<lambda>udfPath.
     rbind (unmarshalExactField raw ''args'' (um_slice UnmarshalJSON) None) (\<lambda>args.
     rbind (unmarshalExactField raw ''componentPath'' um_string []) (\<lambda>componentPath.
     Inr \<lparr>mu_RequestID = requestID, mu_UDFPath = udfPath, mu_Args = args,
          mu_ComponentPath = componentPath\<rparr>)))))"

subsection \<open>Action\<close>

record ActionMessage =
  ac_RequestID :: RequestID
  ac_UDFPath :: string
  ac_Args :: "Value list option"
  ac_ComponentPath :: string

definition Action_MarshalJSON :: "ActionMessage \<Rightarrow> json res" where
  "Action_MarshalJSON m = ms_object (
     [(''type'', Inr (ms_string ''Action'')),
      (''requestId'', Inr (ms_uint32 (ac_RequestID m))),
      (''udfPath'', Inr (ms_string (ac_UDFPath m))),
      (''args'', ms_slice MarshalJSON (ac_Args m))] @
     (if ac_ComponentPath m \<noteq> [] then [(''componentPath'', Inr (ms_string (ac_ComponentPath m)))] else []))"

definition Action_UnmarshalJSON :: "json \<Rightarrow> ActionMessage res" where
  "Action_UnmarshalJSON j =
     rbind (rawObject j) (\<lambda>raw.
     rbind (unmarshalExactField raw ''requestId'' um_uint32 0) (\<lambda>requestID.
     rbind (unmarshalExactField raw ''udfPath'' um_string []) (\<lambda>udfPath.
     rbind (unmarshalExactField raw ''args'' (um_slice UnmarshalJSON) None) (\<lambda>args.
     rbind (unmarshalExactField raw ''componentPath'' um_string []) (\<lambda>componentPath.
     Inr \<lparr>ac_RequestID = requestID, ac_UDFPath = udfPath, ac_Args = args,
          ac_ComponentPath = componentPath\<rparr>)))))"

subsection \<open>Authenticate and Event\<close>

type_synonym AuthTokenType = string

definition AuthTokenNone :: AuthTokenType where "AuthTokenNone = ''None''"
definition AuthTokenUser :: AuthTokenType where "AuthTokenUser = ''User''"
definition AuthTokenAdmin :: AuthTokenType where "AuthTokenAdmin = ''Admin''"

record AuthenticateMessage =
  au_BaseVersion :: IdentityVersion
  au_TokenType :: AuthTokenType
  au_Value :: string
  au_ActingAs :: "SyncUserIdentityAttributes option"

definition Authenticate_MarshalJSON :: "AuthenticateMessage \<Rightarrow> json res" where
  "Authenticate_MarshalJSON m = ms_object (
     [(''type'', Inr (ms_string ''Authenticate'')),
      (''baseVersion'', Inr (ms_uint32 (au_BaseVersion m))),
      (''tokenType'', Inr (ms_string (au_TokenType m)))] @
     (if au_Value m \<noteq> [] then [(''value'', Inr (ms_string (au_Value m)))] else []) @
     (case au_ActingAs m of None \<Rightarrow> [] | Some i \<Rightarrow> [(''impersonating'', Identity_MarshalJSON i)]))"

definition Authenticate_UnmarshalJSON :: "json \<Rightarrow> AuthenticateMessage res" where
  "Authenticate_UnmarshalJSON j =
     rbind (rawObject j) (\<lambda>raw.
     rbind (unmarshalExactField raw ''baseVersion'' um_uint32 0) (\<lambda>baseVersion.
     rbind (unmarshalExactField raw ''tokenType'' um_string []) (\<lambda>tokenType.
     rbind (unmarshalExactField raw ''value'' um_string []) (\<lambda>value.
     rbind (case (case mget raw ''actingAs'' of None \<Rightarrow> mget raw ''impersonating'' | r \<Rightarrow> r) of
              None \<Rightarrow> Inr None
            | Some identityRaw \<Rightarrow>
                if rawIsNull identityRaw then Inr None
                else rbind (rerr (Wrapped (ProtoError (FieldError ''actingAs''))) (Identity_UnmarshalJSON identityRaw))
                       (\<lambda>i. Inr (Some i)))
       (\<lambda>actingAs.
     Inr \<lparr>au_BaseVersion = baseVersion, au_TokenType = tokenType, au_Value = value,
          au_ActingAs = actingAs\<rparr>)))))"

record EventMessage =
  ev_EventType :: string
  ev_Event :: "json option"

definition Event_MarshalJSON :: "EventMessage \<Rightarrow> json res" where
  "Event_MarshalJSON m = ms_object
     [(''type'', Inr (ms_string ''Event'')),
      (''eventType'', Inr (ms_string (ev_EventType m))),
      (''event'', Inr (case ev_Event m of None \<Rightarrow> JNull | Some j \<Rightarrow> j))]"

definition Event_UnmarshalJSON :: "json \<Rightarrow> EventMessage res" where
  "Event_UnmarshalJSON j =
     rbind (rawObject j) (\<lambda>raw.
     rbind (unmarshalExactField raw ''eventType'' um_string []) (\<lambda>eventType.
     Inr \<lparr>ev_EventType = eventType, ev_Event = mget raw ''event''\<rparr>))"

subsection \<open>Client messages\<close>

datatype ClientMessage =
    Connect ConnectMessage
  | ModifyQuerySet ModifyQuerySetMessage
  | Mutation MutationMessage
  | Action ActionMessage
  | Authenticate AuthenticateMessage
  | Event EventMessage

fun EncodeClientMessage :: "ClientMessage \<Rightarrow> json res" where
  "EncodeClientMessage (Connect m) = Connect_MarshalJSON m"
| "EncodeClientMessage (ModifyQuerySet m) = ModifyQuerySet_MarshalJSON m"
| "EncodeClientMessage (Mutation m) = Mutation_MarshalJSON m"
| "EncodeClientMessage (Action m) = Action_MarshalJSON m"
| "EncodeClientMessage (Authenticate m) = Authenticate_MarshalJSON m"
| "EncodeClientMessage (Event m) = Event_MarshalJSON m"

definition DecodeClientMessage :: "json \<Rightarrow> ClientMessage res" where
  "DecodeClientMessage j =
     rbind (discriminator j) (\<lambda>t.
       if t = ''Connect'' then rbind (Connect_UnmarshalJSON j) (\<lambda>m. Inr (Connect m))
       else if t = ''ModifyQuerySet'' then rbind (ModifyQuerySet_UnmarshalJSON j) (\<lambda>m. Inr (ModifyQuerySet m))
       else if t = ''Mutation'' then rbind (Mutation_UnmarshalJSON j) (\<lambda>m. Inr (Mutation m))
       else if t = ''Action'' then rbind (Action_UnmarshalJSON j) (\<lambda>m. Inr (Action m))
       else if t = ''Authenticate'' then rbind (Authenticate_UnmarshalJSON j) (\<lambda>m. Inr (Authenticate m))
       else if t = ''Event'' then rbind (Event_UnmarshalJSON j) (\<lambda>m. Inr (Event m))
       else Inl (ProtoError (UnknownClientType t)))"

section \<open>Messages of the server\<close>

record StateVersion =
  sv_QuerySet :: QuerySetVersion
  sv_Identity :: IdentityVersion
  sv_TS :: SyncTimestamp

definition zero_StateVersion :: StateVersion where
  "zero_StateVersion = \<lparr>sv_QuerySet = 0, sv_Identity = 0, sv_TS = 0\<rparr>"

definition StateVersion_MarshalJSON :: "StateVersion \<Rightarrow> json res" where
  "StateVersion_MarshalJSON v = ms_object
     [(''querySet'', Inr (ms_uint32 (sv_QuerySet v))),
      (''identity'', Inr (ms_uint32 (sv_Identity v))),
      (''ts'', SyncTimestamp_MarshalJSON (sv_TS v))]"

definition StateVersion_UnmarshalJSON :: "json \<Rightarrow> StateVersion res" where
  "StateVersion_UnmarshalJSON j =
     rbind (rawObject j) (\<lambda>raw.
     rbind (unmarshalExactField raw ''querySet'' um_uint32 0) (\<lambda>querySet.
     rbind (unmarshalExactField raw ''identity'' um_uint32 0) (\<lambda>identity.
     rbind (unmarshalExactField raw ''ts'' SyncTimestamp_UnmarshalJSON 0) (\<lambda>ts.
     Inr \<lparr>sv_QuerySet = querySet, sv_Identity = identity, sv_TS = ts\<rparr>))))"

subsection \<open>State modifications\<close>

record QueryUpdated =
  qu_QueryID :: QueryID
  qu_Value :: Value
  qu_LogLines :: "string list option"
  qu_Journal :: OptionalString

record QueryFailed =
  qf_QueryID :: QueryID
  qf_ErrorMessage :: string
  qf_LogLines :: "string list option"
  qf_Journal :: OptionalString
  qf_ErrorData :: OptionalValue

record QueryRemoved =
  qd_QueryID :: QueryID

datatype StateModification = Updated QueryUpdated | Failed QueryFailed | Removed QueryRemoved

definition ms_strings :: "string list option \<Rightarrow> json res" where
  "ms_strings = ms_slice (\<lambda>s. Inr (ms_string s))"

definition QueryUpdated_MarshalJSON :: "QueryUpdated \<Rightarrow> json res" where
  "QueryUpdated_MarshalJSON m = ms_object
     [(''type'', Inr (ms_string ''QueryUpdated'')),
      (''queryId'', Inr (ms_uint32 (qu_QueryID m))),
      (''value'', MarshalJSON (qu_Value m)),
      (''logLines'', ms_strings (qu_LogLines m)),
      (''journal'', Inr (optionalStringWire (qu_Journal m)))]"

definition QueryUpdated_UnmarshalJSON :: "json \<Rightarrow> QueryUpdated res" where
  "QueryUpdated_UnmarshalJSON j =
     rbind (rawObject j) (\<lambda>raw.
     rbind (unmarshalExactField raw ''queryId'' um_uint32 0) (\<lambda>queryID.
     rbind (unmarshalExactField raw ''value'' UnmarshalJSON VNull) (\<lambda>value.
     rbind (unmarshalExactField raw ''logLines'' (um_slice um_string) None) (\<lambda>logLines.
     rbind (optionalStringFromRaw raw ''journal'') (\<lambda>journal.
       if \<not> os_Present journal then Inl (ProtoError (MissingJournal ''QueryUpdated''))
       else Inr \<lparr>qu_QueryID = queryID, qu_Value = value, qu_LogLines = logLines, qu_Journal = journal\<rparr>)))))"

definition QueryFailed_MarshalJSON :: "QueryFailed \<Rightarrow> json res" where
  "QueryFailed_MarshalJSON m = ms_object (
     [(''type'', Inr (ms_string ''QueryFailed'')),
      (''queryId'', Inr (ms_uint32 (qf_QueryID m))),
      (''errorMessage'', Inr (ms_string (qf_ErrorMessage m))),
      (''logLines'', ms_strings (qf_LogLines m)),
      (''journal'', Inr (optionalStringWire (qf_Journal m)))] @
     (if ov_Present (qf_ErrorData m) then [(''errorData'', MarshalJSON (ov_Value (qf_ErrorData m)))] else []))"

definition QueryFailed_UnmarshalJSON :: "json \<Rightarrow> QueryFailed res" where
  "QueryFailed_UnmarshalJSON j =
     rbind (rawObject j) (\<lambda>raw.
     rbind (unmarshalExactField raw ''queryId'' um_uint32 0) (\<lambda>queryID.
     rbind (unmarshalExactField raw ''errorMessage'' um_string []) (\<lambda>msg.
     rbind (unmarshalExactField raw ''logLines'' (um_slice um_string) None) (\<lambda>logLines.
     rbind (optionalStringFromRaw raw ''journal'') (\<lambda>journal.
       if \<not> os_Present journal then Inl (ProtoError (MissingJournal ''QueryFailed''))
       else rbind (optionalValueFromRaw raw ''errorData'') (\<lambda>errorData.
         Inr \<lparr>qf_QueryID = queryID, qf_ErrorMessage = msg, qf_LogLines = logLines,
              qf_Journal = journal, qf_ErrorData = errorData\<rparr>))))))"

definition QueryRemoved_MarshalJSON :: "QueryRemoved \<Rightarrow> json res" where
  "QueryRemoved_MarshalJSON m = ms_object
     [(''type'', Inr (ms_string ''QueryRemoved'')), (''queryId'', Inr (ms_uint32 (qd_QueryID m)))]"

definition QueryRemoved_UnmarshalJSON :: "json \<Rightarrow> QueryRemoved res" where
  "QueryRemoved_UnmarshalJSON j =
     rbind (rawObject j) (\<lambda>raw.
     rbind (unmarshalExactField raw ''queryId'' um_uint32 0) (\<lambda>queryID. Inr \<lparr>qd_QueryID = queryID\<rparr>))"

fun StateModification_MarshalJSON :: "StateModification \<Rightarrow> json res" where
  "StateModification_MarshalJSON (Updated m) = QueryUpdated_MarshalJSON m"
| "StateModification_MarshalJSON (Failed m) = QueryFailed_MarshalJSON m"
| "StateModification_MarshalJSON (Removed m) = QueryRemoved_MarshalJSON m"

definition decodeStateModification :: "json \<Rightarrow> StateModification res" where
  "decodeStateModification j =
     rbind (discriminator j) (\<lambda>t.
       if t = ''QueryUpdated'' then rbind (QueryUpdated_UnmarshalJSON j) (\<lambda>m. Inr (Updated m))
       else if t = ''QueryFailed'' then rbind (QueryFailed_UnmarshalJSON j) (\<lambda>m. Inr (Failed m))
       else if t = ''QueryRemoved'' then rbind (QueryRemoved_UnmarshalJSON j) (\<lambda>m. Inr (Removed m))
       else Inl (ProtoError (UnknownStateModification t)))"

subsection \<open>Transition\<close>

record TransitionMessage =
  tr_StartVersion :: StateVersion
  tr_EndVersion :: StateVersion
  tr_Modifications :: "StateModification list option"
  tr_ClientClockSkew :: "f64 option"
  tr_ServerTS :: "64 word option"
  tr_clientClockSkewPresent :: bool
  tr_serverTSPresent :: bool

definition Transition_MarshalJSON :: "TransitionMessage \<Rightarrow> json res" where
  "Transition_MarshalJSON m = ms_object (
     [(''type'', Inr (ms_string ''Transition'')),
      (''startVersion'', StateVersion_MarshalJSON (tr_StartVersion m)),
      (''endVersion'', StateVersion_MarshalJSON (tr_EndVersion m)),
      (''modifications'', ms_slice StateModification_MarshalJSON (tr_Modifications m))] @
     (if tr_clientClockSkewPresent m
      then [(''clientClockSkew'', ms_pointer ms_float64 (tr_ClientClockSkew m))] else []) @
     (if tr_serverTSPresent m
      then [(''serverTs'', ms_pointer (\<lambda>t. Inr (ms_int64 t)) (tr_ServerTS m))] else []))"

definition Transition_UnmarshalJSON :: "json \<Rightarrow> TransitionMessage res" where
  "Transition_UnmarshalJSON j =
     rbind (rawObject j) (\<lambda>raw.
     rbind (unmarshalExactField raw ''startVersion'' StateVersion_UnmarshalJSON zero_StateVersion) (\<lambda>startVersion.
     rbind (unmarshalExactField raw ''endVersion'' StateVersion_UnmarshalJSON zero_StateVersion) (\<lambda>endVersion.
     rbind (unmarshalExactField raw ''modifications'' um_raw_slice []) (\<lambda>modificationRaw.
     rbind (decode_indexed decodeStateModification modificationRaw) (\<lambda>mods.
     rbind (optionalFloat64FromRaw raw ''clientClockSkew'') (\<lambda>(clientClockSkew, clientClockSkewPresent).
     rbind (optionalInt64FromRaw raw ''serverTs'') (\<lambda>(serverTS, serverTSPresent).
     Inr \<lparr>tr_StartVersion = startVersion, tr_EndVersion = endVersion, tr_Modifications = Some mods,
          tr_ClientClockSkew = clientClockSkew, tr_ServerTS = serverTS,
          tr_clientClockSkewPresent = clientClockSkewPresent, tr_serverTSPresent = serverTSPresent\<rparr>)))))))"

subsection \<open>Responses\<close>

record MutationResponseMessage =
  mr_RequestID :: RequestID
  mr_Success :: bool
  mr_Value :: Value
  mr_ErrorMessage :: string
  mr_TS :: "SyncTimestamp option"
  mr_LogLines :: "string list option"
  mr_ErrorData :: OptionalValue
  mr_tsPresent :: bool

definition MutationResponse_MarshalJSON :: "MutationResponseMessage \<Rightarrow> json res" where
  "MutationResponse_MarshalJSON m = ms_object (
     [(''type'', Inr (ms_string ''MutationResponse'')),
      (''requestId'', Inr (ms_uint32 (mr_RequestID m))),
      (''success'', Inr (JBool (mr_Success m))),
      (''logLines'', ms_strings (mr_LogLines m))] @
     (if mr_Success m then [(''result'', MarshalJSON (mr_Value m))]
      else (''result'', Inr (ms_string (mr_ErrorMessage m))) #
        (if ov_Present (mr_ErrorData m) then [(''errorData'', MarshalJSON (ov_Value (mr_ErrorData m)))] else [])) @
     (if mr_tsPresent m \<or> mr_TS m \<noteq> None
      then [(''ts'', ms_pointer SyncTimestamp_MarshalJSON (mr_TS m))] else []))"

text \<open>\<open>json.Unmarshal(raw["result"], \<dots>)\<close>, which fails on a missing field.\<close>

definition um_result :: "(string, json) gomap \<Rightarrow> (json \<Rightarrow> 'a res) \<Rightarrow> 'a res" where
  "um_result raw um = (case mget raw ''result'' of None \<Rightarrow> Inl json_error | Some j \<Rightarrow> um j)"

definition MutationResponse_UnmarshalJSON :: "json \<Rightarrow> MutationResponseMessage res" where
  "MutationResponse_UnmarshalJSON j =
     rbind (rawObject j) (\<lambda>raw.
     rbind (unmarshalExactField raw ''requestId'' um_uint32 0) (\<lambda>requestID.
     rbind (unmarshalExactField raw ''success'' um_bool False) (\<lambda>success.
     rbind (unmarshalExactField raw ''logLines'' (um_slice um_string) None) (\<lambda>logLines.
     rbind (optionalTimestampFromRaw raw ''ts'') (\<lambda>(ts, tsPresent).
     rbind (optionalValueFromRaw raw ''errorData'') (\<lambda>errorData.
       let m = \<lparr>mr_RequestID = requestID, mr_Success = success, mr_Value = VNull, mr_ErrorMessage = [],
                mr_TS = ts, mr_LogLines = logLines, mr_ErrorData = errorData, mr_tsPresent = tsPresent\<rparr>
       in if success then rbind (um_result raw UnmarshalJSON) (\<lambda>v. Inr (m\<lparr>mr_Value := v\<rparr>))
          else rbind (um_result raw um_string) (\<lambda>s. Inr (m\<lparr>mr_ErrorMessage := s\<rparr>))))))))"

record ActionResponseMessage =
  ar_RequestID :: RequestID
  ar_Success :: bool
  ar_Value :: Value
  ar_ErrorMessage :: string
  ar_LogLines :: "string list option"
  ar_ErrorData :: OptionalValue

definition ActionResponse_MarshalJSON :: "ActionResponseMessage \<Rightarrow> json res" where
  "ActionResponse_MarshalJSON m = ms_object (
     [(''type'', Inr (ms_string ''ActionResponse'')),
      (''requestId'', Inr (ms_uint32 (ar_RequestID m))),
      (''success'', Inr (JBool (ar_Success m))),
      (''logLines'', ms_strings (ar_LogLines m))] @
     (if ar_Success m then [(''result'', MarshalJSON (ar_Value m))]
      else (''result'', Inr (ms_string (ar_ErrorMessage m))) #
        (if ov_Present (ar_ErrorData m) then [(''errorData'', MarshalJSON (ov_Value (ar_ErrorData m)))] else [])))"

definition ActionResponse_UnmarshalJSON :: "json \<Rightarrow> ActionResponseMessage res" where
  "ActionResponse_UnmarshalJSON j =
     rbind (rawObject j) (\<lambda>raw.
     rbind (unmarshalExactField raw ''requestId'' um_uint32 0) (\<lambda>requestID.
     rbind (unmarshalExactField raw ''success'' um_bool False) (\<lambda>success.
     rbind (unmarshalExactField raw ''logLines'' (um_slice um_string) None) (\<lambda>logLines.
     rbind (optionalValueFromRaw raw ''errorData'') (\<lambda>errorData.
       let m = \<lparr>ar_RequestID = requestID, ar_Success = success, ar_Value = VNull, ar_ErrorMessage = [],
                ar_LogLines = logLines, ar_ErrorData = errorData\<rparr>
       in if success then rbind (um_result raw UnmarshalJSON) (\<lambda>v. Inr (m\<lparr>ar_Value := v\<rparr>))
          else rbind (um_result raw um_string) (\<lambda>s. Inr (m\<lparr>ar_ErrorMessage := s\<rparr>)))))))"

subsection \<open>Errors, pings and chunks\<close>

record AuthErrorMessage =
  ae_Error :: string
  ae_BaseVersion :: "IdentityVersion option"
  ae_AuthUpdateAttempted :: "bool option"
  ae_baseVersionPresent :: bool

definition AuthError_MarshalJSON :: "AuthErrorMessage \<Rightarrow> json res" where
  "AuthError_MarshalJSON m = ms_object (
     [(''type'', Inr (ms_string ''AuthError'')),
      (''error'', Inr (ms_string (ae_Error m)))] @
     (if ae_baseVersionPresent m \<or> ae_BaseVersion m \<noteq> None
      then [(''baseVersion'', ms_pointer (\<lambda>v. Inr (ms_uint32 v)) (ae_BaseVersion m))] else []) @
     (case ae_AuthUpdateAttempted m of None \<Rightarrow> [] | Some b \<Rightarrow> [(''authUpdateAttempted'', Inr (JBool b))]))"

definition AuthError_UnmarshalJSON :: "json \<Rightarrow> AuthErrorMessage res" where
  "AuthError_UnmarshalJSON j =
     rbind (rawObject j) (\<lambda>raw.
     rbind (unmarshalExactField raw ''error'' um_string []) (\<lambda>msg.
     rbind (unmarshalExactField raw ''authUpdateAttempted'' (um_pointer um_bool) None) (\<lambda>authUpdateAttempted.
     rbind (optionalIdentityVersionFromRaw raw ''baseVersion'') (\<lambda>(baseVersion, present).
     Inr \<lparr>ae_Error = msg, ae_BaseVersion = baseVersion, ae_AuthUpdateAttempted = authUpdateAttempted,
          ae_baseVersionPresent = present\<rparr>))))"

record FatalErrorMessage =
  fa_Error :: string

definition FatalError_MarshalJSON :: "FatalErrorMessage \<Rightarrow> json res" where
  "FatalError_MarshalJSON m = ms_object
     [(''type'', Inr (ms_string ''FatalError'')), (''error'', Inr (ms_string (fa_Error m)))]"

definition FatalError_UnmarshalJSON :: "json \<Rightarrow> FatalErrorMessage res" where
  "FatalError_UnmarshalJSON j =
     rbind (rawObject j) (\<lambda>raw.
     rbind (unmarshalExactField raw ''error'' um_string []) (\<lambda>msg. Inr \<lparr>fa_Error = msg\<rparr>))"

record TransitionChunkMessage =
  ch_Chunk :: string
  ch_PartNumber :: "32 word"
  ch_TotalParts :: "32 word"
  ch_TransitionID :: string

definition TransitionChunk_MarshalJSON :: "TransitionChunkMessage \<Rightarrow> json res" where
  "TransitionChunk_MarshalJSON m = ms_object
     [(''type'', Inr (ms_string ''TransitionChunk'')),
      (''chunk'', Inr (ms_string (ch_Chunk m))),
      (''partNumber'', Inr (ms_uint32 (ch_PartNumber m))),
      (''totalParts'', Inr (ms_uint32 (ch_TotalParts m))),
      (''transitionId'', Inr (ms_string (ch_TransitionID m)))]"

definition TransitionChunk_UnmarshalJSON :: "json \<Rightarrow> TransitionChunkMessage res" where
  "TransitionChunk_UnmarshalJSON j =
     rbind (rawObject j) (\<lambda>raw.
     rbind (unmarshalExactField raw ''chunk'' um_string []) (\<lambda>chunk.
     rbind (unmarshalExactField raw ''partNumber'' um_uint32 0) (\<lambda>partNumber.
     rbind (unmarshalExactField raw ''totalParts'' um_uint32 0) (\<lambda>totalParts.
     rbind (unmarshalExactField raw ''transitionId'' um_string []) (\<lambda>transitionID.
     Inr \<lparr>ch_Chunk = chunk, ch_PartNumber = partNumber, ch_TotalParts = totalParts,
          ch_TransitionID = transitionID\<rparr>)))))"

subsection \<open>Server messages\<close>

datatype ServerMessage =
    Transition TransitionMessage
  | TransitionChunk TransitionChunkMessage
  | MutationResponse MutationResponseMessage
  | ActionResponse ActionResponseMessage
  | AuthError AuthErrorMessage
  | FatalError FatalErrorMessage
  | Ping

fun EncodeServerMessage :: "ServerMessage \<Rightarrow> json res" where
  "EncodeServerMessage (Transition m) = Transition_MarshalJSON m"
| "EncodeServerMessage (TransitionChunk m) = TransitionChunk_MarshalJSON m"
| "EncodeServerMessage (MutationResponse m) = MutationResponse_MarshalJSON m"
| "EncodeServerMessage (ActionResponse m) = ActionResponse_MarshalJSON m"
| "EncodeServerMessage (AuthError m) = AuthError_MarshalJSON m"
| "EncodeServerMessage (FatalError m) = FatalError_MarshalJSON m"
| "EncodeServerMessage Ping = Inr (JObj [(''type'', JStr ''Ping'')])"

definition DecodeServerMessage :: "json \<Rightarrow> ServerMessage res" where
  "DecodeServerMessage j =
     rbind (discriminator j) (\<lambda>t.
       if t = ''Transition'' then rbind (Transition_UnmarshalJSON j) (\<lambda>m. Inr (Transition m))
       else if t = ''TransitionChunk'' then rbind (TransitionChunk_UnmarshalJSON j) (\<lambda>m. Inr (TransitionChunk m))
       else if t = ''MutationResponse'' then rbind (MutationResponse_UnmarshalJSON j) (\<lambda>m. Inr (MutationResponse m))
       else if t = ''ActionResponse'' then rbind (ActionResponse_UnmarshalJSON j) (\<lambda>m. Inr (ActionResponse m))
       else if t = ''AuthError'' then rbind (AuthError_UnmarshalJSON j) (\<lambda>m. Inr (AuthError m))
       else if t = ''FatalError'' then rbind (FatalError_UnmarshalJSON j) (\<lambda>m. Inr (FatalError m))
       else if t = ''Ping'' then Inr Ping
       else Inl (ProtoError (UnknownServerType t)))"

end
