(* ===== verification/Sync_Codec.thy ===== *)
theory Sync_Codec
  imports Sync_Protocol
begin

text \<open>
  The encoders and decoders of the sync protocol are codecs: every message a peer can
  build is encoded, and the decoder returns it unchanged. The conditions under which a
  message survives are spelt out per message, as executable predicates.
\<close>

section \<open>Codecs into documents\<close>

locale json_codec = codec enc dec ok
  for enc :: "'a \<Rightarrow> error + json" and dec :: "json \<Rightarrow> error + 'a" and ok :: "'a \<Rightarrow> bool"
begin

lemma slice_round_trip:
  assumes "pred_option (list_all ok) xs"
  shows "\<exists>j. ms_slice enc xs = Inr j \<and> um_slice dec j = Inr xs"
proof (cases xs)
  case (Some ys)
  then obtain js where "rmap enc ys = Inr js" "rmap dec js = Inr ys"
    using assms list_round_trip [of ys] by (auto simp: list_all_iff)
  with Some show ?thesis
    by (simp add: ms_slice_def)
qed (simp add: ms_slice_def)

lemma indexed_round_trip:
  assumes "list_all ok xs"
  shows "\<exists>js. ms_slice enc (Some xs) = Inr (JArr js) \<and> decode_indexed dec js = Inr xs"
proof -
  obtain js where js: "rmap enc xs = Inr js" "rmap dec js = Inr xs"
    using assms list_round_trip [of xs] by (auto simp: list_all_iff)
  have "rmap (\<lambda>(i, j). rerr (Wrapped (ProtoError (IndexedModification i))) (dec j)) (enumerate n ks) = Inr ys"
    if "rmap dec ks = Inr ys" for n ks ys
    using that by (induction ks arbitrary: n ys) (auto simp: res_simps)
  then show ?thesis
    using js by (simp add: ms_slice_def decode_indexed_def)
qed

end

text \<open>A type none of whose values is encoded as \<open>null\<close> may also sit behind a pointer.\<close>

locale json_pointee = json_codec +
  assumes not_null: "ok x \<Longrightarrow> enc x \<noteq> Inr JNull"
begin

lemma pointer_round_trip:
  assumes "pred_option ok x"
  shows "\<exists>j. ms_pointer enc x = Inr j \<and> um_pointer dec j = Inr x \<and> (j = JNull \<longleftrightarrow> x = None)"
proof (cases x)
  case (Some y)
  then obtain j where "enc y = Inr j" "dec j = Inr y" "j \<noteq> JNull"
    using assms round_trip [of y] not_null [of y] by auto
  with Some show ?thesis
    by (simp add: ms_pointer_def um_pointer_def)
qed (simp add: ms_pointer_def um_pointer_def)

end

section \<open>Fields\<close>

text \<open>The raw fields of an object whose fields were all encoded.\<close>

lemma ms_object_Inr:
  assumes "list_all (\<lambda>p. \<not> isl (snd p)) fds"
  shows "ms_object fds = Inr (JObj (mmap projr (mof_list fds)))"
proof -
  have "rmap (\<lambda>p. rbind (snd p) (\<lambda>j. Inr (fst p, j))) (mof_list fds) =
      Inr (map (\<lambda>p. (fst p, projr (snd p))) (mof_list fds))"
  proof (rule rmap_Inr_map)
    fix p
    assume "p \<in> set (mof_list fds)"
    then have "\<not> isl (snd p)"
      using assms by (auto simp: list_all_iff dest: mof_list_set)
    then show "rbind (snd p) (\<lambda>j. Inr (fst p, j)) = (Inr (fst p, projr (snd p)) :: error + _)"
      by (cases "snd p") auto
  qed
  then show ?thesis
    by (simp add: ms_object_def mmap_def case_prod_unfold)
qed

lemma rawObject_mmap: "rawObject (JObj (mmap f (mof_list fds))) = Inr (mmap f (mof_list fds))"
  by (simp add: rawObject_def)

lemma ascii_sanitize: "list_all (\<lambda>c. of_char c < (128 :: nat)) s \<Longrightarrow> utf8_sanitize s = s"
  by (rule valid_utf8_sanitize, rule valid_utf8_ascii) (auto simp: list_all_iff)

lemma ascii_valid: "list_all (\<lambda>c. of_char c < (128 :: nat)) s \<Longrightarrow> valid_utf8 s"
  by (rule valid_utf8_ascii) (auto simp: list_all_iff)

lemma ms_type: "list_all (\<lambda>c. of_char c < (128 :: nat)) s \<Longrightarrow> ms_string s = JStr s"
  by (simp add: ms_string_def ascii_sanitize)

lemmas object_simps = ms_object_Inr rawObject_mmap mget_mof_list unmarshalExactField_def
  discriminator_def ms_type um_ms_string

text \<open>Basic types.\<close>

interpretation string_json: json_pointee "\<lambda>s. Inr (ms_string s)" um_string valid_utf8
  by unfold_locales (auto simp: um_ms_string, simp add: ms_string_def)

interpretation uint32_json: json_pointee "\<lambda>w. Inr (ms_uint32 w)" um_uint32 "\<lambda>_. True"
  by unfold_locales (auto, simp add: ms_uint32_def)

interpretation int64_json: json_pointee "\<lambda>w. Inr (ms_int64 w)" um_int64 "\<lambda>_. True"
  by unfold_locales (auto, simp add: ms_int64_def)

definition plain_float :: "f64 \<Rightarrow> bool" where
  "plain_float f \<longleftrightarrow> \<not> IsNaN f \<and> \<not> IsInf f \<and> float_text_ok f"

interpretation float64_json: json_pointee ms_float64 um_float64 plain_float
  by unfold_locales (auto simp: ms_float64_def plain_float_def float_text_ok_def)

definition value_ok :: "Value \<Rightarrow> bool" where
  "value_ok v \<longleftrightarrow> wf_value v \<and> text_ok v"

interpretation value_json: json_codec MarshalJSON UnmarshalJSON value_ok
  unfolding value_ok_def by unfold_locales (rule value_doc.round_trip)

definition ts_ok :: "SyncTimestamp \<Rightarrow> bool" where
  "ts_ok t \<longleftrightarrow> unat t \<le> MaxInt64"

interpretation timestamp_json: json_pointee SyncTimestamp_MarshalJSON SyncTimestamp_UnmarshalJSON ts_ok
proof unfold_locales
  fix t
  assume t: "ts_ok t"
  show "\<exists>j. SyncTimestamp_MarshalJSON t = Inr j \<and> SyncTimestamp_UnmarshalJSON j = Inr t"
    using t by (simp add: SyncTimestamp_MarshalJSON_def SyncTimestamp_UnmarshalJSON_def ts_ok_def ms_string_def
        decodeSyncBase64Compat_def b64_decode_encode std_alphabet_ok)
  show "SyncTimestamp_MarshalJSON t \<noteq> Inr JNull"
    by (simp add: SyncTimestamp_MarshalJSON_def ms_string_def)
qed

section \<open>Messages of the client\<close>

definition ostring_ok :: "OptionalString \<Rightarrow> bool" where
  "ostring_ok s \<longleftrightarrow> pred_option valid_utf8 (os_Value s) \<and> (os_Present s \<or> os_Value s = None)"

text \<open>How a nullable string field is read back: as it was, if it was sent.\<close>

lemma optionalStringFromRaw_present:
  assumes "ostring_ok s" "os_Present s" "mget raw k = Some (optionalStringWire s)"
  shows "optionalStringFromRaw raw k = Inr s"
  using assms
  by (cases "os_Value s") (auto simp: optionalStringFromRaw_def optionalStringWire_def ostring_ok_def
      rawIsNull_def um_ms_string ms_string_def valid_utf8_sanitize)

lemma optionalStringFromRaw_absent:
  assumes "ostring_ok s" "\<not> os_Present s" "mget raw k = None"
  shows "optionalStringFromRaw raw k = Inr s"
  using assms by (cases s) (auto simp: optionalStringFromRaw_def ostring_ok_def)

lemmas optional_string = optionalStringFromRaw_present optionalStringFromRaw_absent

definition add_ok :: "QuerySetAdd \<Rightarrow> bool" where
  "add_ok m \<longleftrightarrow> valid_utf8 (qa_UDFPath m) \<and> pred_option (list_all value_ok) (qa_Args m) \<and>
     ostring_ok (qa_Journal m) \<and> valid_utf8 (qa_ComponentPath m)"

lemma QuerySetAdd_round_trip:
  assumes "add_ok m"
  shows "\<exists>j. QuerySetAdd_MarshalJSON m = Inr j \<and> discriminator j = Inr ''Add'' \<and>
    QuerySetAdd_UnmarshalJSON j = Inr m"
proof -
  obtain ja where "ms_slice MarshalJSON (qa_Args m) = Inr ja" "um_slice UnmarshalJSON ja = Inr (qa_Args m)"
    using assms value_json.slice_round_trip by (auto simp: add_ok_def)
  then show ?thesis
    using assms
    by (auto simp: QuerySetAdd_MarshalJSON_def QuerySetAdd_UnmarshalJSON_def add_ok_def object_simps optional_string)
qed

lemma QuerySetRemove_round_trip:
  "\<exists>j. QuerySetRemove_MarshalJSON m = Inr j \<and> discriminator j = Inr ''Remove'' \<and>
    QuerySetRemove_UnmarshalJSON j = Inr m"
  by (simp add: QuerySetRemove_MarshalJSON_def QuerySetRemove_UnmarshalJSON_def object_simps)

fun modification_ok :: "QuerySetModification \<Rightarrow> bool" where
  "modification_ok (Add m) = add_ok m"
| "modification_ok (Remove m) = True"

interpretation modification_json: json_codec QuerySetModification_MarshalJSON decodeQuerySetModification
  modification_ok
proof unfold_locales
  fix m
  assume "modification_ok m"
  then show "\<exists>j. QuerySetModification_MarshalJSON m = Inr j \<and> decodeQuerySetModification j = Inr m"
    using QuerySetAdd_round_trip QuerySetRemove_round_trip
    by (cases m) (fastforce simp: decodeQuerySetModification_def)+
qed

definition modify_ok :: "ModifyQuerySetMessage \<Rightarrow> bool" where
  "modify_ok m \<longleftrightarrow> mq_Modifications m \<noteq> None \<and> pred_option (list_all modification_ok) (mq_Modifications m)"

lemma ModifyQuerySet_round_trip:
  assumes "modify_ok m"
  shows "\<exists>j. ModifyQuerySet_MarshalJSON m = Inr j \<and> discriminator j = Inr ''ModifyQuerySet'' \<and>
    ModifyQuerySet_UnmarshalJSON j = Inr m"
proof -
  obtain ms where ms: "mq_Modifications m = Some ms" "list_all modification_ok ms"
    using assms by (auto simp: modify_ok_def)
  then obtain js where "ms_slice QuerySetModification_MarshalJSON (mq_Modifications m) = Inr (JArr js)"
    "decode_indexed decodeQuerySetModification js = Inr ms"
    using modification_json.indexed_round_trip by force
  then show ?thesis
    using ms by (simp add: ModifyQuerySet_MarshalJSON_def ModifyQuerySet_UnmarshalJSON_def object_simps rawIsNull_def)
qed

definition connect_ok :: "ConnectMessage \<Rightarrow> bool" where
  "connect_ok m \<longleftrightarrow> valid_utf8 (cn_SessionID m) \<and> pred_option ts_ok (cn_MaxObservedTimestamp m) \<and>
     valid_utf8 (cn_LastCloseReason m)"

text \<open>
  The two private fields of a \<open>Connect\<close> message say how its reason was written; only the decoder
  sets them. A reason that is empty or written as null arrives as \<open>unknown\<close>.
\<close>

definition received_connect :: "ConnectMessage \<Rightarrow> ConnectMessage" where
  "received_connect m =
     (let null = (cn_lastCloseReasonPresent m \<and> cn_lastCloseReasonNull m)
      in m\<lparr>cn_LastCloseReason := (if null \<or> cn_LastCloseReason m = [] then ''unknown'' else cn_LastCloseReason m),
           cn_lastCloseReasonPresent := (null \<or> cn_LastCloseReason m \<noteq> []), cn_lastCloseReasonNull := null\<rparr>)"

lemma um_ms_pointer: "um_pointer um_int64 (ms_int64 t) = Inr (Some t)"
  by (simp add: um_pointer_def) (simp add: ms_int64_def)

lemma Connect_round_trip:
  assumes "connect_ok m"
  shows "\<exists>j. Connect_MarshalJSON m = Inr j \<and> discriminator j = Inr ''Connect'' \<and>
    Connect_UnmarshalJSON j = Inr (received_connect m)"
proof -
  obtain jt where "ms_pointer SyncTimestamp_MarshalJSON (cn_MaxObservedTimestamp m) = Inr jt"
    "um_pointer SyncTimestamp_UnmarshalJSON jt = Inr (cn_MaxObservedTimestamp m)"
    using assms timestamp_json.pointer_round_trip by (force simp: connect_ok_def)
  moreover have "ms_string (cn_LastCloseReason m) \<noteq> JNull"
    by (simp add: ms_string_def)
  ultimately show ?thesis
    using assms
    by (cases "cn_MaxObservedTimestamp m"; cases "cn_ClientTS m"; cases "cn_lastCloseReasonPresent m \<and> cn_lastCloseReasonNull m")
      (auto simp: Connect_MarshalJSON_def Connect_UnmarshalJSON_def connect_ok_def received_connect_def Let_def object_simps
        rawIsNull_def ms_pointer_def um_ms_pointer)
qed

definition mutation_ok :: "MutationMessage \<Rightarrow> bool" where
  "mutation_ok m \<longleftrightarrow> valid_utf8 (mu_UDFPath m) \<and> pred_option (list_all value_ok) (mu_Args m) \<and>
     valid_utf8 (mu_ComponentPath m)"

lemma Mutation_round_trip:
  assumes "mutation_ok m"
  shows "\<exists>j. Mutation_MarshalJSON m = Inr j \<and> discriminator j = Inr ''Mutation'' \<and> Mutation_UnmarshalJSON j = Inr m"
proof -
  obtain ja where "ms_slice MarshalJSON (mu_Args m) = Inr ja" "um_slice UnmarshalJSON ja = Inr (mu_Args m)"
    using assms value_json.slice_round_trip by (auto simp: mutation_ok_def)
  then show ?thesis
    using assms by (auto simp: Mutation_MarshalJSON_def Mutation_UnmarshalJSON_def mutation_ok_def object_simps)
qed

definition action_ok :: "ActionMessage \<Rightarrow> bool" where
  "action_ok m \<longleftrightarrow> valid_utf8 (ac_UDFPath m) \<and> pred_option (list_all value_ok) (ac_Args m) \<and>
     valid_utf8 (ac_ComponentPath m)"

lemma Action_round_trip:
  assumes "action_ok m"
  shows "\<exists>j. Action_MarshalJSON m = Inr j \<and> discriminator j = Inr ''Action'' \<and> Action_UnmarshalJSON j = Inr m"
proof -
  obtain ja where "ms_slice MarshalJSON (ac_Args m) = Inr ja" "um_slice UnmarshalJSON ja = Inr (ac_Args m)"
    using assms value_json.slice_round_trip by (auto simp: action_ok_def)
  then show ?thesis
    using assms by (auto simp: Action_MarshalJSON_def Action_UnmarshalJSON_def action_ok_def object_simps)
qed

subsection \<open>Identities\<close>

text \<open>What decoding a document gives, and encoding keeps.\<close>

fun wire_ok :: "wire \<Rightarrow> bool" where
  "wire_ok WNil = True"
| "wire_ok (WBool b) = True"
| "wire_ok (WStr s) = valid_utf8 s"
| "wire_ok (WNumber n) = (n \<noteq> [] \<and> valid_number n)"
| "wire_ok (WArr ws) = (\<forall>w\<in>set ws. wire_ok w)"
| "wire_ok (WMap m) = (mwf m \<and> (\<forall>p\<in>set m. valid_utf8 (fst p) \<and> wire_ok (snd p)))"
| "wire_ok _ = False"

lemma wire_round_trip: "wire_ok w \<Longrightarrow> \<exists>j. json_Marshal w = Inr j \<and> json_Decode j = w"
proof (induction w)
  case (WArr ws)
  then have "\<forall>w\<in>set ws. \<exists>j. json_Marshal w = Inr j \<and> json_Decode j = w"
    by auto
  then have "\<exists>js. rmap json_Marshal ws = Inr js \<and> map json_Decode js = ws"
    by (induction ws) auto
  then show ?case by auto
next
  case (WMap m)
  then have "\<forall>p\<in>set m. valid_utf8 (fst p) \<and> (\<exists>j. json_Marshal (snd p) = Inr j \<and> json_Decode j = snd p)"
    by (auto simp: snds.simps)
  then have "\<exists>ms. rmap (\<lambda>p. rbind (json_Marshal (snd p)) (\<lambda>j. Inr (utf8_sanitize (fst p), j))) m = Inr ms \<and>
      map (\<lambda>p. (fst p, json_Decode (snd p))) ms = m"
    by (induction m) (auto simp: valid_utf8_sanitize)
  with WMap.prems show ?case by auto
qed (auto simp: valid_utf8_sanitize)

definition identity_ok :: "SyncUserIdentityAttributes \<Rightarrow> bool" where
  "identity_ok i \<longleftrightarrow> TokenIdentifier i \<noteq> [] \<and> wire_ok (WMap (Claims i)) \<and>
     mget (Claims i) ''tokenIdentifier'' = Some (WStr (TokenIdentifier i)) \<and>
     claimString (Claims i) ''issuer'' = Issuer i \<and> claimString (Claims i) ''subject'' = Subject i"

lemma claimString_present: "claimString c k = s \<Longrightarrow> s \<noteq> [] \<Longrightarrow> mget c k = Some (WStr s)"
  by (auto simp: claimString_def split: option.splits wire.splits)

lemma identity_fields_id:
  assumes "identity_ok i"
  shows "identity_fields i = Claims i"
proof -
  have w: "mwf (Claims i)" and t: "identity_token i = TokenIdentifier i" "TokenIdentifier i \<noteq> []"
    using assms by (auto simp: identity_ok_def identity_token_def)
  have "mput ''issuer'' (WStr (Issuer i)) (Claims i) = Claims i" if "Issuer i \<noteq> []"
    using assms that w claimString_present by (intro gm.put_same) (auto simp: identity_ok_def)
  moreover have "mput ''subject'' (WStr (Subject i)) (Claims i) = Claims i" if "Subject i \<noteq> []"
    using assms that w claimString_present by (intro gm.put_same) (auto simp: identity_ok_def)
  moreover have "mput ''tokenIdentifier'' (WStr (TokenIdentifier i)) (Claims i) = Claims i"
    using assms w by (intro gm.put_same) (auto simp: identity_ok_def)
  ultimately show ?thesis
    using w t by (simp add: identity_fields_def Let_def)
qed

interpretation identity_json: json_pointee Identity_MarshalJSON Identity_UnmarshalJSON identity_ok
proof unfold_locales
  fix i
  assume i: "identity_ok i"
  then obtain j where "json_Marshal (WMap (Claims i)) = Inr j" "json_Decode j = WMap (Claims i)"
    using wire_round_trip [of "WMap (Claims i)"] by (auto simp: identity_ok_def simp del: wire_ok.simps json_Marshal.simps)
  then show "\<exists>j. Identity_MarshalJSON i = Inr j \<and> Identity_UnmarshalJSON j = Inr i"
    using i by (cases i) (simp add: Identity_MarshalJSON_def Identity_UnmarshalJSON_def identity_fields_id
        identity_ok_def claimString_def del: wire_ok.simps json_Marshal.simps)
  show "Identity_MarshalJSON i \<noteq> Inr JNull"
    by (auto simp: Identity_MarshalJSON_def res_simps)
qed

subsection \<open>Client messages\<close>

definition authenticate_ok :: "AuthenticateMessage \<Rightarrow> bool" where
  "authenticate_ok m \<longleftrightarrow> valid_utf8 (au_TokenType m) \<and> valid_utf8 (au_Value m) \<and>
     pred_option identity_ok (au_ActingAs m)"

lemma Authenticate_round_trip:
  assumes "authenticate_ok m"
  shows "\<exists>j. Authenticate_MarshalJSON m = Inr j \<and> discriminator j = Inr ''Authenticate'' \<and>
    Authenticate_UnmarshalJSON j = Inr m"
proof (cases "au_ActingAs m")
  case None
  then show ?thesis
    using assms by (auto simp: Authenticate_MarshalJSON_def Authenticate_UnmarshalJSON_def authenticate_ok_def
        object_simps)
next
  case (Some i)
  then have "identity_ok i"
    using assms by (simp add: authenticate_ok_def)
  then obtain j where "Identity_MarshalJSON i = Inr j" "Identity_UnmarshalJSON j = Inr i" "j \<noteq> JNull"
    using identity_json.round_trip [of i] identity_json.not_null [of i] by auto
  with Some show ?thesis
    using assms by (auto simp: Authenticate_MarshalJSON_def Authenticate_UnmarshalJSON_def authenticate_ok_def
        object_simps rawIsNull_def)
qed

definition event_ok :: "EventMessage \<Rightarrow> bool" where
  "event_ok m \<longleftrightarrow> valid_utf8 (ev_EventType m) \<and> ev_Event m \<noteq> None"

lemma Event_round_trip:
  "event_ok m \<Longrightarrow> \<exists>j. Event_MarshalJSON m = Inr j \<and> discriminator j = Inr ''Event'' \<and> Event_UnmarshalJSON j = Inr m"
  by (auto simp: Event_MarshalJSON_def Event_UnmarshalJSON_def event_ok_def object_simps)

fun client_ok :: "ClientMessage \<Rightarrow> bool" where
  "client_ok (Connect m) = connect_ok m"
| "client_ok (ModifyQuerySet m) = modify_ok m"
| "client_ok (Mutation m) = mutation_ok m"
| "client_ok (Action m) = action_ok m"
| "client_ok (Authenticate m) = authenticate_ok m"
| "client_ok (Event m) = event_ok m"

lemmas client_round_trips = Connect_round_trip ModifyQuerySet_round_trip Mutation_round_trip
  Action_round_trip Authenticate_round_trip Event_round_trip

text \<open>What arrives for a message: the message, apart from the reason of a \<open>Connect\<close> message.\<close>

fun received :: "ClientMessage \<Rightarrow> ClientMessage" where
  "received (Connect m) = Connect (received_connect m)"
| "received m = m"

lemma client_message_arrives:
  "client_ok m \<Longrightarrow> \<exists>j. EncodeClientMessage m = Inr j \<and> DecodeClientMessage j = Inr (received m)"
  by (cases m) (auto simp: DecodeClientMessage_def dest!: client_round_trips)

interpretation client_json: json_codec EncodeClientMessage DecodeClientMessage "\<lambda>m. client_ok m \<and> received m = m"
proof unfold_locales
  fix m
  assume "client_ok m \<and> received m = m"
  then show "\<exists>j. EncodeClientMessage m = Inr j \<and> DecodeClientMessage j = Inr m"
    using client_message_arrives [of m] by simp
qed

section \<open>Messages of the server\<close>

definition version_ok :: "StateVersion \<Rightarrow> bool" where
  "version_ok v \<longleftrightarrow> ts_ok (sv_TS v)"

interpretation version_json: json_codec StateVersion_MarshalJSON StateVersion_UnmarshalJSON version_ok
proof unfold_locales
  fix v
  assume "version_ok v"
  then obtain j where "SyncTimestamp_MarshalJSON (sv_TS v) = Inr j" "SyncTimestamp_UnmarshalJSON j = Inr (sv_TS v)"
    using timestamp_json.round_trip by (auto simp: version_ok_def)
  then show "\<exists>j. StateVersion_MarshalJSON v = Inr j \<and> StateVersion_UnmarshalJSON j = Inr v"
    by (simp add: StateVersion_MarshalJSON_def StateVersion_UnmarshalJSON_def object_simps)
qed

definition lines_ok :: "string list option \<Rightarrow> bool" where
  "lines_ok = pred_option (list_all valid_utf8)"

lemma lines_round_trip: "lines_ok ls \<Longrightarrow> \<exists>j. ms_strings ls = Inr j \<and> um_slice um_string j = Inr ls"
  using string_json.slice_round_trip [of ls] by (simp add: lines_ok_def ms_strings_def)

definition ovalue_ok :: "OptionalValue \<Rightarrow> bool" where
  "ovalue_ok v \<longleftrightarrow> (if ov_Present v then value_ok (ov_Value v) else ov_Value v = VNull)"

text \<open>An optional value is sent as \<open>null\<close> only when it is null, and reads back as it was.\<close>

lemma optionalValueFromRaw_present:
  assumes "ov_Present v" "mget raw k = Some j" "UnmarshalJSON j = Inr (ov_Value v)"
  shows "optionalValueFromRaw raw k = Inr v"
  using assms by (cases "j = JNull") (auto simp: optionalValueFromRaw_def rawIsNull_def UnmarshalJSON_def ParseValueJSON_def)

lemma optionalValueFromRaw_absent:
  assumes "ovalue_ok v" "\<not> ov_Present v" "mget raw k = None"
  shows "optionalValueFromRaw raw k = Inr v"
  using assms by (cases v) (auto simp: optionalValueFromRaw_def ovalue_ok_def)

lemma optional_value_None:
  "mget raw k = None \<Longrightarrow> optionalValueFromRaw raw k = Inr \<lparr>ov_Present = False, ov_Value = VNull\<rparr>"
  by (simp add: optionalValueFromRaw_def)

lemma optional_value_Some:
  "mget raw k = Some j \<Longrightarrow> UnmarshalJSON j = Inr v \<Longrightarrow>
     optionalValueFromRaw raw k = Inr \<lparr>ov_Present = True, ov_Value = v\<rparr>"
  by (cases "j = JNull")
    (auto simp: optionalValueFromRaw_def rawIsNull_def UnmarshalJSON_def ParseValueJSON_def)

lemmas optional_value = optionalValueFromRaw_present optionalValueFromRaw_absent

lemma ovalue_marshal:
  "ovalue_ok v \<Longrightarrow> ov_Present v \<Longrightarrow> \<exists>j. MarshalJSON (ov_Value v) = Inr j \<and> UnmarshalJSON j = Inr (ov_Value v)"
  using value_json.round_trip by (simp add: ovalue_ok_def)

definition updated_ok :: "QueryUpdated \<Rightarrow> bool" where
  "updated_ok m \<longleftrightarrow> value_ok (qu_Value m) \<and> lines_ok (qu_LogLines m) \<and>
     ostring_ok (qu_Journal m) \<and> os_Present (qu_Journal m)"

lemma QueryUpdated_round_trip:
  assumes "updated_ok m"
  shows "\<exists>j. QueryUpdated_MarshalJSON m = Inr j \<and> discriminator j = Inr ''QueryUpdated'' \<and>
    QueryUpdated_UnmarshalJSON j = Inr m"
proof -
  obtain jv jl where "MarshalJSON (qu_Value m) = Inr jv" "UnmarshalJSON jv = Inr (qu_Value m)"
    "ms_strings (qu_LogLines m) = Inr jl" "um_slice um_string jl = Inr (qu_LogLines m)"
    using assms value_json.round_trip lines_round_trip by (force simp: updated_ok_def)
  then show ?thesis
    using assms by (auto simp: QueryUpdated_MarshalJSON_def QueryUpdated_UnmarshalJSON_def updated_ok_def
        object_simps optional_string)
qed

definition failed_ok :: "QueryFailed \<Rightarrow> bool" where
  "failed_ok m \<longleftrightarrow> valid_utf8 (qf_ErrorMessage m) \<and> lines_ok (qf_LogLines m) \<and>
     ostring_ok (qf_Journal m) \<and> os_Present (qf_Journal m) \<and> ovalue_ok (qf_ErrorData m)"

lemma QueryFailed_round_trip:
  assumes "failed_ok m"
  shows "\<exists>j. QueryFailed_MarshalJSON m = Inr j \<and> discriminator j = Inr ''QueryFailed'' \<and>
    QueryFailed_UnmarshalJSON j = Inr m"
proof -
  obtain jl where l: "ms_strings (qf_LogLines m) = Inr jl" "um_slice um_string jl = Inr (qf_LogLines m)"
    using assms lines_round_trip by (force simp: failed_ok_def)
  show ?thesis
  proof (cases "ov_Present (qf_ErrorData m)")
    case True
    then obtain je where "MarshalJSON (ov_Value (qf_ErrorData m)) = Inr je"
      "UnmarshalJSON je = Inr (ov_Value (qf_ErrorData m))"
      using assms ovalue_marshal by (force simp: failed_ok_def)
    with l True show ?thesis
      using assms by (auto simp: QueryFailed_MarshalJSON_def QueryFailed_UnmarshalJSON_def failed_ok_def
          object_simps optional_string optional_value)
  next
    case False
    with l show ?thesis
      using assms by (auto simp: QueryFailed_MarshalJSON_def QueryFailed_UnmarshalJSON_def failed_ok_def
          object_simps optional_string optional_value)
  qed
qed

lemma QueryRemoved_round_trip:
  "\<exists>j. QueryRemoved_MarshalJSON m = Inr j \<and> discriminator j = Inr ''QueryRemoved'' \<and>
    QueryRemoved_UnmarshalJSON j = Inr m"
  by (simp add: QueryRemoved_MarshalJSON_def QueryRemoved_UnmarshalJSON_def object_simps)

fun change_ok :: "StateModification \<Rightarrow> bool" where
  "change_ok (Updated m) = updated_ok m"
| "change_ok (Failed m) = failed_ok m"
| "change_ok (Removed m) = True"

interpretation change_json: json_codec StateModification_MarshalJSON decodeStateModification change_ok
proof unfold_locales
  fix m
  assume "change_ok m"
  then show "\<exists>j. StateModification_MarshalJSON m = Inr j \<and> decodeStateModification j = Inr m"
    using QueryUpdated_round_trip QueryFailed_round_trip QueryRemoved_round_trip
    by (cases m) (fastforce simp: decodeStateModification_def)+
qed

subsection \<open>Optional fields of other types\<close>

lemma optional_from_raw_present:
  "mget raw k = Some j \<Longrightarrow> um_pointer um j = Inr x \<Longrightarrow> optional_from_raw w um raw k = Inr (x, True)"
  by (auto simp: optional_from_raw_def um_pointer_def rawIsNull_def res_simps split: if_splits)

lemma optional_from_raw_absent: "mget raw k = None \<Longrightarrow> optional_from_raw w um raw k = Inr (None, False)"
  by (simp add: optional_from_raw_def)

lemmas optional_other = optional_from_raw_present optional_from_raw_absent optionalTimestampFromRaw_def
  optionalFloat64FromRaw_def optionalInt64FromRaw_def optionalIdentityVersionFromRaw_def

definition transition_ok :: "TransitionMessage \<Rightarrow> bool" where
  "transition_ok m \<longleftrightarrow> version_ok (tr_StartVersion m) \<and> version_ok (tr_EndVersion m) \<and>
     tr_Modifications m \<noteq> None \<and> pred_option (list_all change_ok) (tr_Modifications m) \<and>
     pred_option plain_float (tr_ClientClockSkew m) \<and>
     (tr_clientClockSkewPresent m \<or> tr_ClientClockSkew m = None) \<and>
     (tr_serverTSPresent m \<or> tr_ServerTS m = None)"

lemma Transition_round_trip:
  assumes "transition_ok m"
  shows "\<exists>j. Transition_MarshalJSON m = Inr j \<and> discriminator j = Inr ''Transition'' \<and>
    Transition_UnmarshalJSON j = Inr m"
proof -
  obtain ms where ms: "tr_Modifications m = Some ms" "list_all change_ok ms"
    using assms by (auto simp: transition_ok_def)
  then obtain js where js: "ms_slice StateModification_MarshalJSON (tr_Modifications m) = Inr (JArr js)"
    "decode_indexed decodeStateModification js = Inr ms"
    using change_json.indexed_round_trip by force
  obtain j1 j2 where v: "StateVersion_MarshalJSON (tr_StartVersion m) = Inr j1"
    "StateVersion_UnmarshalJSON j1 = Inr (tr_StartVersion m)"
    "StateVersion_MarshalJSON (tr_EndVersion m) = Inr j2" "StateVersion_UnmarshalJSON j2 = Inr (tr_EndVersion m)"
    using assms version_json.round_trip [of "tr_StartVersion m"] version_json.round_trip [of "tr_EndVersion m"]
    by (auto simp: transition_ok_def)
  obtain jf where f: "ms_pointer ms_float64 (tr_ClientClockSkew m) = Inr jf"
    "um_pointer um_float64 jf = Inr (tr_ClientClockSkew m)"
    using assms float64_json.pointer_round_trip by (force simp: transition_ok_def)
  obtain jt where t: "ms_pointer (\<lambda>t. Inr (ms_int64 t)) (tr_ServerTS m) = Inr jt"
    "um_pointer um_int64 jt = Inr (tr_ServerTS m)"
    using int64_json.pointer_round_trip [of "tr_ServerTS m"] by (auto simp: pred_option_def)
  show ?thesis
    using assms ms js v f t
    by (cases "tr_clientClockSkewPresent m"; cases "tr_serverTSPresent m")
      (simp_all add: Transition_MarshalJSON_def Transition_UnmarshalJSON_def transition_ok_def object_simps
        optional_other)
qed

definition mutation_response_ok :: "MutationResponseMessage \<Rightarrow> bool" where
  "mutation_response_ok m \<longleftrightarrow> lines_ok (mr_LogLines m) \<and> pred_option ts_ok (mr_TS m) \<and>
     (mr_tsPresent m \<or> mr_TS m = None) \<and> ovalue_ok (mr_ErrorData m) \<and>
     (if mr_Success m then value_ok (mr_Value m) \<and> mr_ErrorMessage m = [] \<and> \<not> ov_Present (mr_ErrorData m)
      else mr_Value m = VNull \<and> valid_utf8 (mr_ErrorMessage m))"

lemma MutationResponse_round_trip:
  assumes ok: "mutation_response_ok m"
  shows "\<exists>j. MutationResponse_MarshalJSON m = Inr j \<and> discriminator j = Inr ''MutationResponse'' \<and>
    MutationResponse_UnmarshalJSON j = Inr m"
proof -
  obtain jl jt where l: "ms_strings (mr_LogLines m) = Inr jl" "um_slice um_string jl = Inr (mr_LogLines m)"
    and t: "ms_pointer SyncTimestamp_MarshalJSON (mr_TS m) = Inr jt"
      "um_pointer SyncTimestamp_UnmarshalJSON jt = Inr (mr_TS m)"
    using ok lines_round_trip timestamp_json.pointer_round_trip by (force simp: mutation_response_ok_def)
  note defs = MutationResponse_MarshalJSON_def MutationResponse_UnmarshalJSON_def mutation_response_ok_def
    object_simps optional_other um_result_def
  consider (good) "mr_Success m" | (data) "\<not> mr_Success m" "ov_Present (mr_ErrorData m)"
    | (plain) "\<not> mr_Success m" "\<not> ov_Present (mr_ErrorData m)"
    by blast
  then show ?thesis
  proof cases
    case good
    then obtain jv where "MarshalJSON (mr_Value m) = Inr jv" "UnmarshalJSON jv = Inr (mr_Value m)"
      using ok value_json.round_trip by (force simp: mutation_response_ok_def)
    note vals = this
    have ed: "mr_ErrorData m = \<lparr>ov_Present = False, ov_Value = VNull\<rparr>"
      using good ok by (cases "mr_ErrorData m") (auto simp: mutation_response_ok_def ovalue_ok_def)
    show ?thesis
      using vals good ok l t by (cases "mr_tsPresent m") (simp_all add: defs optional_value_None ed [symmetric])
  next
    case data
    then obtain je where "MarshalJSON (ov_Value (mr_ErrorData m)) = Inr je"
      "UnmarshalJSON je = Inr (ov_Value (mr_ErrorData m))"
      using ok ovalue_marshal by (force simp: mutation_response_ok_def)
    note vals = this
    have ed: "mr_ErrorData m = \<lparr>ov_Present = True, ov_Value = ov_Value (mr_ErrorData m)\<rparr>"
      using data by simp
    show ?thesis
      using vals data ok l t by (cases "mr_tsPresent m") (simp_all add: defs optional_value_Some ed [symmetric])
  next
    case plain
    have ed: "mr_ErrorData m = \<lparr>ov_Present = False, ov_Value = VNull\<rparr>"
      using plain ok by (cases "mr_ErrorData m") (auto simp: mutation_response_ok_def ovalue_ok_def)
    show ?thesis
      using plain ok l t by (cases "mr_tsPresent m") (simp_all add: defs optional_value_None ed [symmetric])
  qed
qed

definition action_response_ok :: "ActionResponseMessage \<Rightarrow> bool" where
  "action_response_ok m \<longleftrightarrow> lines_ok (ar_LogLines m) \<and> ovalue_ok (ar_ErrorData m) \<and>
     (if ar_Success m then value_ok (ar_Value m) \<and> ar_ErrorMessage m = [] \<and> \<not> ov_Present (ar_ErrorData m)
      else ar_Value m = VNull \<and> valid_utf8 (ar_ErrorMessage m))"

lemma ActionResponse_round_trip:
  assumes ok: "action_response_ok m"
  shows "\<exists>j. ActionResponse_MarshalJSON m = Inr j \<and> discriminator j = Inr ''ActionResponse'' \<and>
    ActionResponse_UnmarshalJSON j = Inr m"
proof -
  obtain jl where l: "ms_strings (ar_LogLines m) = Inr jl" "um_slice um_string jl = Inr (ar_LogLines m)"
    using ok lines_round_trip by (force simp: action_response_ok_def)
  note defs = ActionResponse_MarshalJSON_def ActionResponse_UnmarshalJSON_def action_response_ok_def
    object_simps um_result_def
  consider (good) "ar_Success m" | (data) "\<not> ar_Success m" "ov_Present (ar_ErrorData m)"
    | (plain) "\<not> ar_Success m" "\<not> ov_Present (ar_ErrorData m)"
    by blast
  then show ?thesis
  proof cases
    case good
    then obtain jv where "MarshalJSON (ar_Value m) = Inr jv" "UnmarshalJSON jv = Inr (ar_Value m)"
      using ok value_json.round_trip by (force simp: action_response_ok_def)
    note vals = this
    have ed: "ar_ErrorData m = \<lparr>ov_Present = False, ov_Value = VNull\<rparr>"
      using good ok by (cases "ar_ErrorData m") (auto simp: action_response_ok_def ovalue_ok_def)
    show ?thesis
      using vals good ok l by (simp add: defs optional_value_None ed [symmetric])
  next
    case data
    then obtain je where "MarshalJSON (ov_Value (ar_ErrorData m)) = Inr je"
      "UnmarshalJSON je = Inr (ov_Value (ar_ErrorData m))"
      using ok ovalue_marshal by (force simp: action_response_ok_def)
    note vals = this
    have ed: "ar_ErrorData m = \<lparr>ov_Present = True, ov_Value = ov_Value (ar_ErrorData m)\<rparr>"
      using data by simp
    show ?thesis
      using vals data ok l by (simp add: defs optional_value_Some ed [symmetric])
  next
    case plain
    have ed: "ar_ErrorData m = \<lparr>ov_Present = False, ov_Value = VNull\<rparr>"
      using plain ok by (cases "ar_ErrorData m") (auto simp: action_response_ok_def ovalue_ok_def)
    show ?thesis
      using plain ok l by (simp add: defs optional_value_None ed [symmetric])
  qed
qed

definition auth_error_ok :: "AuthErrorMessage \<Rightarrow> bool" where
  "auth_error_ok m \<longleftrightarrow> valid_utf8 (ae_Error m) \<and> (ae_baseVersionPresent m \<or> ae_BaseVersion m = None)"

lemma AuthError_round_trip:
  assumes "auth_error_ok m"
  shows "\<exists>j. AuthError_MarshalJSON m = Inr j \<and> discriminator j = Inr ''AuthError'' \<and> AuthError_UnmarshalJSON j = Inr m"
proof -
  obtain jb where "ms_pointer (\<lambda>v. Inr (ms_uint32 v)) (ae_BaseVersion m) = Inr jb"
    "um_pointer um_uint32 jb = Inr (ae_BaseVersion m)"
    using uint32_json.pointer_round_trip [of "ae_BaseVersion m"] by (auto simp: pred_option_def)
  moreover have "um_pointer um_bool (JBool b) = Inr (Some b)" for b
    by (simp add: um_pointer_def)
  ultimately show ?thesis
    using assms
    by (cases "ae_baseVersionPresent m"; cases "ae_AuthUpdateAttempted m")
      (simp_all add: AuthError_MarshalJSON_def AuthError_UnmarshalJSON_def auth_error_ok_def object_simps
        optional_other)
qed

lemma FatalError_round_trip:
  "valid_utf8 (fa_Error m) \<Longrightarrow> \<exists>j. FatalError_MarshalJSON m = Inr j \<and> discriminator j = Inr ''FatalError'' \<and>
    FatalError_UnmarshalJSON j = Inr m"
  by (simp add: FatalError_MarshalJSON_def FatalError_UnmarshalJSON_def object_simps)

lemma TransitionChunk_round_trip:
  "valid_utf8 (ch_Chunk m) \<and> valid_utf8 (ch_TransitionID m) \<Longrightarrow>
    \<exists>j. TransitionChunk_MarshalJSON m = Inr j \<and> discriminator j = Inr ''TransitionChunk'' \<and>
      TransitionChunk_UnmarshalJSON j = Inr m"
  by (simp add: TransitionChunk_MarshalJSON_def TransitionChunk_UnmarshalJSON_def object_simps)

fun server_ok :: "ServerMessage \<Rightarrow> bool" where
  "server_ok (Transition m) = transition_ok m"
| "server_ok (TransitionChunk m) = (valid_utf8 (ch_Chunk m) \<and> valid_utf8 (ch_TransitionID m))"
| "server_ok (MutationResponse m) = mutation_response_ok m"
| "server_ok (ActionResponse m) = action_response_ok m"
| "server_ok (AuthError m) = auth_error_ok m"
| "server_ok (FatalError m) = valid_utf8 (fa_Error m)"
| "server_ok Ping = True"

lemmas server_round_trips = Transition_round_trip TransitionChunk_round_trip MutationResponse_round_trip
  ActionResponse_round_trip AuthError_round_trip FatalError_round_trip

lemma Ping_discriminator: "discriminator (JObj [(''type'', JStr ''Ping'')]) = Inr ''Ping''"
  by (simp add: discriminator_def rawObject_def unmarshalExactField_def)

interpretation server_json: json_codec EncodeServerMessage DecodeServerMessage server_ok
proof unfold_locales
  fix m
  assume "server_ok m"
  then show "\<exists>j. EncodeServerMessage m = Inr j \<and> DecodeServerMessage j = Inr m"
    by (cases m) (auto simp: DecodeServerMessage_def Ping_discriminator dest!: server_round_trips)
qed

section \<open>Properties\<close>

text \<open>
  C35: the sync timestamps that are sent and accepted are exactly the non-negative 64-bit
  integers; a timestamp of either base64 alphabet is read back as it was written, and
  whatever is accepted can be sent again.
\<close>

theorem timestamp_bounds:
  "(SyncTimestamp_MarshalJSON t = Inl (ProtoError TimestampTooBig) \<longleftrightarrow> 2 ^ 63 \<le> unat t) \<and>
   list_all (\<lambda>al. SyncTimestamp_UnmarshalJSON (JStr (b64_encode al (PutUint64 t))) =
       (if 2 ^ 63 \<le> unat t then Inl (ProtoError TimestampTooBig) else Inr t)) [std_alphabet, url_alphabet] \<and>
   (case SyncTimestamp_UnmarshalJSON j of Inl e \<Rightarrow> True | Inr u \<Rightarrow> \<exists>k. SyncTimestamp_MarshalJSON u = Inr k)"
proof -
  have dec: "decodeSyncBase64Compat s = decodeBase64Compat s" for s
    by (simp add: decodeSyncBase64Compat_def decodeBase64Compat_def)
  have "decodeBase64Compat (b64_encode std_alphabet (PutUint64 t)) = Inr (PutUint64 t)"
    "decodeBase64Compat (b64_encode url_alphabet (PutUint64 t)) = Inr (PutUint64 t)"
    by (simp_all add: decodeBase64Compat_url)
  moreover have "unat u \<le> MaxInt64" if "SyncTimestamp_UnmarshalJSON j = Inr u" for u
    using that by (auto simp: SyncTimestamp_UnmarshalJSON_def res_simps Let_def not_less split: if_splits)
  ultimately show ?thesis
    by (auto simp: SyncTimestamp_MarshalJSON_def SyncTimestamp_UnmarshalJSON_def dec MaxInt64_def split: sum.split)
qed

text \<open>
  C16: every client message whose texts are valid and whose timestamps and values can be
  written is encoded, and decoding it gives the message back; in a \<open>Connect\<close> message, also one
  that the manager builds, the private marks of how the reason was written are set, and a
  reason that is empty or null is read as \<open>unknown\<close>. A message that was decoded once, with its
  reason written in whatever way, is given back without any change.
\<close>

theorem client_message_round_trip:
  assumes "client_ok m"
  shows "rbind (EncodeClientMessage m) DecodeClientMessage = Inr (received m) \<and>
    ((\<forall>c. m = Connect c \<longrightarrow> cn_LastCloseReason c \<noteq> [] \<or> cn_lastCloseReasonPresent c \<and> cn_lastCloseReasonNull c) \<longrightarrow>
      rbind (EncodeClientMessage (received m)) DecodeClientMessage = Inr (received m))"
proof -
  have ok: "client_ok (received m)"
    using assms by (cases m) (auto simp: connect_ok_def received_connect_def Let_def ascii_valid)
  have again: "received (received m) = received m"
    if "\<forall>c. m = Connect c \<longrightarrow> cn_LastCloseReason c \<noteq> [] \<or> cn_lastCloseReasonPresent c \<and> cn_lastCloseReasonNull c"
    using that by (cases m) (auto simp: received_connect_def Let_def)
  show ?thesis
    using client_message_arrives [OF assms] client_message_arrives [OF ok] again by auto
qed

theorem client_message_round_trip_witness:
  "rbind (EncodeClientMessage (ModifyQuerySet \<lparr>mq_BaseVersion = 0, mq_NewVersion = 1,
     mq_Modifications = Some [Remove \<lparr>qr_QueryID = 7\<rparr>,
       Add \<lparr>qa_QueryID = 3, qa_UDFPath = ''m.js:f'', qa_Args = Some [VObject [(''a'', VInt64 5)]],
            qa_Journal = \<lparr>os_Present = True, os_Value = None\<rparr>, qa_ComponentPath = []\<rparr>]\<rparr>)) DecodeClientMessage =
   Inr (ModifyQuerySet \<lparr>mq_BaseVersion = 0, mq_NewVersion = 1,
     mq_Modifications = Some [Remove \<lparr>qr_QueryID = 7\<rparr>,
       Add \<lparr>qa_QueryID = 3, qa_UDFPath = ''m.js:f'', qa_Args = Some [VObject [(''a'', VInt64 5)]],
            qa_Journal = \<lparr>os_Present = True, os_Value = None\<rparr>, qa_ComponentPath = []\<rparr>]\<rparr>) \<and>
   rbind (EncodeClientMessage (Connect \<lparr>cn_SessionID = ''s'', cn_ConnectionCount = 1, cn_LastCloseReason = ''InitialConnect'',
     cn_MaxObservedTimestamp = None, cn_ClientTS = Some 5, cn_lastCloseReasonPresent = False,
     cn_lastCloseReasonNull = False\<rparr>)) DecodeClientMessage =
   Inr (Connect \<lparr>cn_SessionID = ''s'', cn_ConnectionCount = 1, cn_LastCloseReason = ''InitialConnect'',
     cn_MaxObservedTimestamp = None, cn_ClientTS = Some 5, cn_lastCloseReasonPresent = True, cn_lastCloseReasonNull = False\<rparr>)"
  (is "rbind (EncodeClientMessage ?a) _ = _ \<and> rbind (EncodeClientMessage ?b) _ = _")
proof -
  have "client_ok ?a" "client_ok ?b"
    by (simp_all add: modify_ok_def add_ok_def value_ok_def ostring_ok_def validateObjectField_iff valid_field_def
        HasPrefix_def mwf_def ascii_valid connect_ok_def)
  from this [THEN client_message_round_trip] show ?thesis
    by (simp add: received_connect_def)
qed

text \<open>
  C17: every well-formed server message is encoded, and decoding it gives the message back.
\<close>

theorem server_message_round_trip:
  assumes "server_ok m"
  shows "rbind (EncodeServerMessage m) DecodeServerMessage = Inr m"
  using server_json.dec_enc [OF assms, of "\<lambda>e. e" "\<lambda>e. e"] server_json.round_trip [OF assms] by auto

theorem server_message_round_trip_witness:
  "rbind (EncodeServerMessage (MutationResponse \<lparr>mr_RequestID = 1, mr_Success = True, mr_Value = VBoolean True,
      mr_ErrorMessage = [], mr_TS = Some 9, mr_LogLines = None,
      mr_ErrorData = \<lparr>ov_Present = False, ov_Value = VNull\<rparr>, mr_tsPresent = True\<rparr>)) DecodeServerMessage =
   Inr (MutationResponse \<lparr>mr_RequestID = 1, mr_Success = True, mr_Value = VBoolean True,
      mr_ErrorMessage = [], mr_TS = Some 9, mr_LogLines = None,
      mr_ErrorData = \<lparr>ov_Present = False, ov_Value = VNull\<rparr>, mr_tsPresent = True\<rparr>)"
  by (rule server_message_round_trip)
    (simp add: mutation_response_ok_def lines_ok_def ts_ok_def MaxInt64_def ovalue_ok_def value_ok_def)

text \<open>
  the optional clock fields of a transition are sent according to the private presence
  flags only, so a transition built with a server timestamp but without the flag loses it.
\<close>

theorem transition_clock_fields:
  assumes "transition_ok (m\<lparr>tr_ServerTS := None, tr_ClientClockSkew := None\<rparr>)"
    and "\<not> tr_serverTSPresent m" and "\<not> tr_clientClockSkewPresent m"
  shows "rbind (EncodeServerMessage (Transition m)) DecodeServerMessage =
    Inr (Transition (m\<lparr>tr_ServerTS := None, tr_ClientClockSkew := None\<rparr>))"
proof -
  have "Transition_MarshalJSON m = Transition_MarshalJSON (m\<lparr>tr_ServerTS := None, tr_ClientClockSkew := None\<rparr>)"
    using assms by (simp add: Transition_MarshalJSON_def)
  then show ?thesis
    using server_json.round_trip [of "Transition (m\<lparr>tr_ServerTS := None, tr_ClientClockSkew := None\<rparr>)"] assms by auto
qed

theorem transition_clock_fields_witness:
  "rbind (EncodeServerMessage (Transition \<lparr>tr_StartVersion = zero_StateVersion, tr_EndVersion = zero_StateVersion,
     tr_Modifications = Some [], tr_ClientClockSkew = None, tr_ServerTS = Some 17,
     tr_clientClockSkewPresent = False, tr_serverTSPresent = False\<rparr>)) DecodeServerMessage =
   Inr (Transition \<lparr>tr_StartVersion = zero_StateVersion, tr_EndVersion = zero_StateVersion,
     tr_Modifications = Some [], tr_ClientClockSkew = None, tr_ServerTS = None,
     tr_clientClockSkewPresent = False, tr_serverTSPresent = False\<rparr>)"
  using transition_clock_fields [of "\<lparr>tr_StartVersion = zero_StateVersion, tr_EndVersion = zero_StateVersion,
     tr_Modifications = Some [], tr_ClientClockSkew = None, tr_ServerTS = Some 17,
     tr_clientClockSkewPresent = False, tr_serverTSPresent = False\<rparr>"]
  by (simp add: transition_ok_def version_ok_def ts_ok_def zero_StateVersion_def)

end
