(* ===== verification/Core_Path.thy ===== *)
theory Core_Path
  imports Go_Strings
begin

text \<open>
  Function paths: \<open>internal/core/path.go\<close>. Identifiers, module paths, UDF paths, their
  canonical forms and the normalisation of the names users write. Each struct of the file
  is a record of the same fields; a parsed path is a value the parser returned.
\<close>

section \<open>Identifiers\<close>

definition maxIdentifierLength :: nat where
  "maxIdentifierLength = 64"

definition isASCIIAlpha :: "char \<Rightarrow> bool" where
  "isASCIIAlpha c \<longleftrightarrow> (CHR ''a'' \<le> c \<and> c \<le> CHR ''z'') \<or> (CHR ''A'' \<le> c \<and> c \<le> CHR ''Z'')"

definition isASCIIDigit :: "char \<Rightarrow> bool" where
  "isASCIIDigit c \<longleftrightarrow> CHR ''0'' \<le> c \<and> c \<le> CHR ''9''"

text \<open>The loop of \<open>isValidIdentifier\<close>, with its flag \<open>hasNonUnderscore\<close>.\<close>

fun identifier_loop :: "bool \<Rightarrow> string \<Rightarrow> bool" where
  "identifier_loop hasNonUnderscore [] = hasNonUnderscore"
| "identifier_loop hasNonUnderscore (c # cs) =
     (if isASCIIAlpha c \<or> isASCIIDigit c then identifier_loop True cs
      else if c \<noteq> CHR ''_'' then False
      else identifier_loop hasNonUnderscore cs)"

definition isValidIdentifier :: "string \<Rightarrow> bool" where
  "isValidIdentifier s =
     (if s = [] \<or> maxIdentifierLength < length s then False
      else if \<not> isASCIIAlpha (hd s) \<and> hd s \<noteq> CHR ''_'' then False
      else identifier_loop False s)"

fun identifier_error :: "string \<Rightarrow> string \<Rightarrow> unit res" where
  "identifier_error s [] =
     (if list_all (\<lambda>c. c = CHR ''_'') s then Inl (PathError (IdentifierOnlyUnderscores s)) else Inr ())"
| "identifier_error s (c # cs) =
     (if \<not> isASCIIAlpha c \<and> \<not> isASCIIDigit c \<and> c \<noteq> CHR ''_''
      then Inl (PathError (IdentifierChar c s)) else identifier_error s cs)"

definition ValidateIdentifier :: "string \<Rightarrow> unit res" where
  "ValidateIdentifier s =
     (if isValidIdentifier s then Inr ()
      else if s = [] then Inl (PathError IdentifierEmpty)
      else if maxIdentifierLength < length s then Inl (PathError (IdentifierTooLong s))
      else if \<not> isASCIIAlpha (hd s) \<and> hd s \<noteq> CHR ''_''
        then Inl (PathError (IdentifierFirstChar (hd s) s))
      else identifier_error s (tl s))"

type_synonym FunctionName = string

definition ParseFunctionName :: "string \<Rightarrow> FunctionName res" where
  "ParseFunctionName s = rbind (ValidateIdentifier s) (\<lambda>_. Inr s)"

section \<open>Module paths\<close>

record ModulePath =
  raw :: string

record CanonicalizedModulePath =
  craw :: string

fun component_loop :: "string \<Rightarrow> bool \<Rightarrow> string \<Rightarrow> unit res" where
  "component_loop s hasAlnum [] =
     (if \<not> hasAlnum then Inl (PathError (PathComponentNoAlnum s)) else Inr ())"
| "component_loop s hasAlnum (c # cs) =
     (if isASCIIAlpha c \<or> isASCIIDigit c then component_loop s True cs
      else if c \<noteq> CHR ''_'' \<and> c \<noteq> CHR ''.'' then Inl (PathError (PathComponentChar s))
      else component_loop s hasAlnum cs)"

definition validatePathComponent :: "string \<Rightarrow> unit res" where
  "validatePathComponent s =
     (if maxIdentifierLength < length s then Inl (PathError (PathComponentTooLong s))
      else component_loop s False s)"

fun module_parts :: "string \<Rightarrow> string list \<Rightarrow> unit res" where
  "module_parts s [] = Inr ()"
| "module_parts s (part # parts) =
     (if part = [] \<or> part = ''.'' \<or> part = ''..'' then Inl (PathError (ModulePathComponent part s))
      else rbind (validatePathComponent part) (\<lambda>_. module_parts s parts))"

definition ParseModulePath :: "string \<Rightarrow> ModulePath res" where
  "ParseModulePath s =
     (if s = [] then Inl (PathError ModulePathEmpty)
      else if HasPrefix s ''/'' then Inl (PathError ModulePathAbsolute)
      else
        let cleaned = Clean (replace_char (CHR 0x5C) (CHR ''/'') s)
        in if cleaned = ''.'' \<or> HasPrefix cleaned ''../'' \<or> cleaned = ''..'' \<or> Contains cleaned ''/../''
           then Inl (PathError (ModulePathInvalid s))
           else rbind (module_parts s (Split (CHR ''/'') cleaned)) (\<lambda>_.
             let ext = Ext cleaned
             in if ext \<noteq> [] \<and> ext \<noteq> ''.js'' then Inl (PathError (ModulePathExtension s ext))
                else Inr \<lparr>raw = cleaned\<rparr>))"

definition IsSystem :: "ModulePath \<Rightarrow> bool" where
  "IsSystem p \<longleftrightarrow> HasPrefix (raw p) ''_system/'' \<or> raw p = ''_system'' \<or> raw p = ''_system.js''"

definition IsDeps :: "ModulePath \<Rightarrow> bool" where
  "IsDeps p \<longleftrightarrow> HasPrefix (raw p) ''_deps/'' \<or> raw p = ''_deps'' \<or> HasPrefix (raw p) ''actions/_deps/''"

definition CanonicalizeModule :: "ModulePath \<Rightarrow> CanonicalizedModulePath" where
  "CanonicalizeModule p =
     (if Ext (raw p) = [] then \<lparr>craw = raw p @ ''.js''\<rparr> else \<lparr>craw = raw p\<rparr>)"

definition IsHTTP :: "ModulePath \<Rightarrow> bool" where
  "IsHTTP p \<longleftrightarrow> craw (CanonicalizeModule p) = ''http.js''"

definition IsCron :: "ModulePath \<Rightarrow> bool" where
  "IsCron p \<longleftrightarrow> craw (CanonicalizeModule p) = ''crons.js''"

section \<open>UDF paths\<close>

record UDFPath =
  Module :: ModulePath
  Function :: "FunctionName option"

record CanonicalizedUDFPath =
  CModule :: CanonicalizedModulePath
  CFunction :: FunctionName

definition ParseUDFPath :: "string \<Rightarrow> UDFPath res" where
  "ParseUDFPath s =
     (case cut_last (CHR '':'') s of
        None \<Rightarrow> rbind (ParseModulePath s) (\<lambda>m. Inr \<lparr>Module = m, Function = None\<rparr>)
      | Some (modulePart, after) \<Rightarrow>
          rbind (ParseFunctionName after) (\<lambda>f.
          rbind (ParseModulePath modulePart) (\<lambda>m. Inr \<lparr>Module = m, Function = Some f\<rparr>)))"

definition UDFPath_String :: "UDFPath \<Rightarrow> string" where
  "UDFPath_String p =
     (case Function p of
        None \<Rightarrow> raw (Module p)
      | Some f \<Rightarrow> raw (Module p) @ '':'' @ f)"

definition Canonicalize :: "UDFPath \<Rightarrow> CanonicalizedUDFPath" where
  "Canonicalize p =
     \<lparr>CModule = CanonicalizeModule (Module p),
      CFunction = (case Function p of None \<Rightarrow> ''default'' | Some f \<Rightarrow> f)\<rparr>"

definition CanonicalizedUDFPath_String :: "CanonicalizedUDFPath \<Rightarrow> string" where
  "CanonicalizedUDFPath_String p = craw (CModule p) @ '':'' @ CFunction p"

definition source_exts :: "string list" where
  "source_exts = [''.ts'', ''.tsx'', ''.jsx'', ''.mts'', ''.mjs'', ''.cts'', ''.cjs'']"

definition ParseFunctionPath :: "string \<Rightarrow> string res" where
  "ParseFunctionPath s =
     (if HasPrefix s ''api.'' \<or> HasPrefix s ''internal.'' then
        let parts = Split (CHR ''.'') s
        in if length parts < 3 then Inl (PathError (FunctionNameTooFewParts s))
           else let exportName = last parts;
                    moduleName = Join ''/'' (butlast (tl parts));
                    normalized = moduleName @ '':'' @ exportName
                in rbind (ParseUDFPath normalized) (\<lambda>_. Inr normalized)
      else
        case Cut (CHR '':'') s of (filePath, exportName, _) \<Rightarrow>
          let exportName = TrimSpace exportName;
              exportName = (if exportName = [] then ''default'' else exportName);
              filePath = fold (\<lambda>ext p. TrimSuffix p ext) source_exts filePath;
              normalized = filePath @ '':'' @ exportName
          in rbind (ParseUDFPath normalized) (\<lambda>_. Inr normalized))"

section \<open>Identifiers and components as conditions on strings\<close>

definition isAlnum :: "char \<Rightarrow> bool" where
  "isAlnum c \<longleftrightarrow> isASCIIAlpha c \<or> isASCIIDigit c"

definition valid_component :: "string \<Rightarrow> bool" where
  "valid_component s \<longleftrightarrow> length s \<le> 64 \<and> (\<forall>c\<in>set s. isAlnum c \<or> c = CHR ''_'' \<or> c = CHR ''.'') \<and>
     (\<exists>c\<in>set s. isAlnum c)"

lemma identifier_loop_iff:
  "identifier_loop b s \<longleftrightarrow> (\<forall>c\<in>set s. isAlnum c \<or> c = CHR ''_'') \<and> (b \<or> (\<exists>c\<in>set s. isAlnum c))"
  by (induction b s rule: identifier_loop.induct) (auto simp: isAlnum_def)

lemma isValidIdentifier_iff:
  "isValidIdentifier s \<longleftrightarrow> s \<noteq> [] \<and> length s \<le> 64 \<and> (isASCIIAlpha (hd s) \<or> hd s = CHR ''_'') \<and>
     (\<forall>c\<in>set s. isAlnum c \<or> c = CHR ''_'') \<and> (\<exists>c\<in>set s. isAlnum c)"
  by (auto simp: isValidIdentifier_def identifier_loop_iff maxIdentifierLength_def)

lemma identifier_error_iff:
  "identifier_error s cs = Inr u \<longleftrightarrow>
     (\<forall>c\<in>set cs. isAlnum c \<or> c = CHR ''_'') \<and> \<not> (\<forall>c\<in>set s. c = CHR ''_'')"
  by (induction s cs rule: identifier_error.induct) (auto simp: isAlnum_def list_all_iff)

lemma underscore_not_alnum [simp]:
  "\<not> isAlnum (CHR ''_'')" "\<not> isAlnum (CHR ''.'')" "\<not> isAlnum (CHR ''/'')" "\<not> isAlnum (CHR '':'')"
  "\<not> isAlnum (CHR 0x5C)"
  by (auto simp: isAlnum_def isASCIIAlpha_def isASCIIDigit_def less_eq_char_def)

text \<open>The error branches of \<open>ValidateIdentifier\<close> are taken exactly when the check fails.\<close>

lemma ValidateIdentifier_iff: "ValidateIdentifier s = Inr u \<longleftrightarrow> isValidIdentifier s"
proof (cases s)
  case (Cons c cs)
  have "identifier_error s cs = Inr u \<Longrightarrow> length s \<le> 64 \<Longrightarrow> isASCIIAlpha c \<or> c = CHR ''_'' \<Longrightarrow>
      isValidIdentifier s"
    using Cons by (auto simp: identifier_error_iff isValidIdentifier_iff isAlnum_def)
  then show ?thesis
    using Cons by (auto simp: ValidateIdentifier_def maxIdentifierLength_def)
qed (simp add: ValidateIdentifier_def isValidIdentifier_def)

lemma ParseFunctionName_Inr: "ParseFunctionName s = Inr f \<longleftrightarrow> f = s \<and> isValidIdentifier s"
  by (auto simp: ParseFunctionName_def res_simps ValidateIdentifier_iff)

lemma identifier_no_colon: "isValidIdentifier f \<Longrightarrow> CHR '':'' \<notin> set f"
  by (auto simp: isValidIdentifier_iff)

lemma component_loop_iff:
  "component_loop s b cs = Inr u \<longleftrightarrow>
     (\<forall>c\<in>set cs. isAlnum c \<or> c = CHR ''_'' \<or> c = CHR ''.'') \<and> (b \<or> (\<exists>c\<in>set cs. isAlnum c))"
  by (induction s b cs rule: component_loop.induct) (auto simp: isAlnum_def)

lemma validatePathComponent_iff: "validatePathComponent s = Inr u \<longleftrightarrow> valid_component s"
  by (auto simp: validatePathComponent_def component_loop_iff valid_component_def maxIdentifierLength_def)

lemma valid_component_not_dots [simp]:
  "\<not> valid_component []" "\<not> valid_component ''.''" "\<not> valid_component ''..''"
  by (auto simp: valid_component_def)

lemma module_parts_iff: "module_parts s ps = Inr u \<longleftrightarrow> (\<forall>p\<in>set ps. valid_component p)"
  by (induction s ps rule: module_parts.induct) (auto simp: res_simps validatePathComponent_iff)

section \<open>Parsed module paths\<close>

text \<open>What a parsed module path is: valid components, and no extension or \<open>.js\<close>.\<close>

definition wf_module :: "string \<Rightarrow> bool" where
  "wf_module r \<longleftrightarrow> (\<forall>p\<in>set (Split (CHR ''/'') r). valid_component p) \<and> (Ext r = [] \<or> Ext r = ''.js'')"

lemma Split_append_sep: "Split c (a @ c # b) = Split c a @ Split c b"
  by (induction a) (auto split: list.split)

lemma Split_set: "set s \<subseteq> insert c (\<Union>p\<in>set (Split c s). set p)"
proof (induction s)
  case (Cons x xs)
  obtain p ps where "Split c xs = p # ps"
    by (cases "Split c xs") auto
  with Cons show ?case by auto
qed simp

lemma Contains_iff: "Contains s p \<longleftrightarrow> (\<exists>a b. s = a @ p @ b)"
proof (induction s p rule: Contains.induct)
  case (2 x xs p)
  show ?case
  proof
    assume "Contains (x # xs) p"
    then consider r where "x # xs = p @ r" | a b where "xs = a @ p @ b"
      using 2 by (auto simp: HasPrefix_iff)
    then show "\<exists>a b. x # xs = a @ p @ b"
      by cases (metis append_Nil, metis append_Cons)
  next
    assume "\<exists>a b. x # xs = a @ p @ b"
    then obtain a b where "x # xs = a @ p @ b"
      by blast
    then have "HasPrefix (x # xs) p \<or> (\<exists>a b. xs = a @ p @ b)"
      by (cases a) (auto simp: HasPrefix_iff)
    then show "Contains (x # xs) p"
      using 2 by auto
  qed
qed simp

lemma clean_parts_id:
  "(\<And>p. p \<in> set ps \<Longrightarrow> p \<noteq> [] \<and> p \<noteq> ''.'' \<and> p \<noteq> ''..'') \<Longrightarrow> clean_parts b out ps = rev out @ ps"
  by (induction ps arbitrary: out) auto

lemma wf_module_chars:
  assumes "wf_module r" and "c \<in> set r"
  shows "isAlnum c \<or> c = CHR ''_'' \<or> c = CHR ''.'' \<or> c = CHR ''/''"
  using assms Split_set [of r "CHR ''/''"] by (fastforce simp: wf_module_def valid_component_def)

lemma wf_module_start:
  assumes "wf_module r"
  shows "r \<noteq> []" "hd r \<noteq> CHR ''/''" "\<not> HasPrefix r ''/''"
proof -
  show "r \<noteq> []" using assms by (auto simp: wf_module_def)
  then show "hd r \<noteq> CHR ''/''" "\<not> HasPrefix r ''/''"
    using assms by (cases r; auto simp: wf_module_def HasPrefix_def)+
qed

lemma wf_module_no_dotdot:
  assumes "wf_module r"
  shows "r \<noteq> ''.''" "r \<noteq> ''..''" "\<not> HasPrefix r ''../''" "\<not> Contains r ''/../''"
proof -
  have d: "''..'' \<notin> set (Split (CHR ''/'') r)"
    using assms by (auto simp: wf_module_def)
  show "r \<noteq> ''.''" "r \<noteq> ''..''"
    using assms by (auto simp: wf_module_def)
  show "\<not> HasPrefix r ''../''"
    using d by (auto simp: HasPrefix_iff)
  show "\<not> Contains r ''/../''"
  proof
    assume "Contains r ''/../''"
    then obtain a b where "r = a @ CHR ''/'' # (''..'' @ CHR ''/'' # b)"
      by (auto simp: Contains_iff)
    then have "''..'' \<in> set (Split (CHR ''/'') r)"
      by (simp only: Split_append_sep) simp
    with d show False by simp
  qed
qed

lemma Clean_wf_module: "wf_module r \<Longrightarrow> Clean r = r"
proof -
  assume r: "wf_module r"
  have "clean_parts False [] (Split (CHR ''/'') r) = Split (CHR ''/'') r"
    using r by (subst clean_parts_id) (auto simp: wf_module_def)
  then show ?thesis
    using wf_module_start [OF r] Join_Split [of "CHR ''/''" r] by (simp add: Clean_def)
qed

lemma ParseModulePath_wf: "ParseModulePath s = Inr m \<Longrightarrow> wf_module (raw m)"
  unfolding ParseModulePath_def Let_def
  by (auto simp: res_simps module_parts_iff wf_module_def simp del: Split.simps split: if_splits)

lemma ParseModulePath_id:
  assumes "wf_module r"
  shows "ParseModulePath r = Inr \<lparr>raw = r\<rparr>"
proof -
  have "CHR 0x5C \<notin> set r"
    using wf_module_chars [OF assms, of "CHR 0x5C"] by auto
  then have "Clean (replace_char (CHR 0x5C) (CHR ''/'') r) = r"
    by (simp add: replace_char_id Clean_wf_module assms)
  then show ?thesis
    using wf_module_start [OF assms] wf_module_no_dotdot [OF assms] assms
    by (auto simp: ParseModulePath_def Let_def res_simps module_parts_iff wf_module_def)
qed

section \<open>Parsed UDF paths\<close>

definition wf_udf :: "UDFPath \<Rightarrow> bool" where
  "wf_udf p \<longleftrightarrow> wf_module (raw (Module p)) \<and>
     (case Function p of None \<Rightarrow> True | Some f \<Rightarrow> isValidIdentifier f)"

lemma wf_module_no_colon: "wf_module r \<Longrightarrow> CHR '':'' \<notin> set r"
  using wf_module_chars [of r "CHR '':''"] by auto

lemma ParseUDFPath_wf: "ParseUDFPath s = Inr p \<Longrightarrow> wf_udf p"
  by (auto simp: ParseUDFPath_def wf_udf_def res_simps ParseFunctionName_Inr ParseModulePath_wf
      split: option.splits)

lemma ParseUDFPath_module: "CHR '':'' \<notin> set s \<Longrightarrow>
    ParseUDFPath s = rbind (ParseModulePath s) (\<lambda>m. Inr \<lparr>Module = m, Function = None\<rparr>)"
  using cut_last_None [of "CHR '':''" s] by (simp add: ParseUDFPath_def)

lemma ParseUDFPath_colon: "CHR '':'' \<notin> set f \<Longrightarrow>
    ParseUDFPath (s @ '':'' @ f) =
      rbind (ParseFunctionName f) (\<lambda>f. rbind (ParseModulePath s) (\<lambda>m. Inr \<lparr>Module = m, Function = Some f\<rparr>))"
  using cut_last_Some [of "CHR '':''" "s @ '':'' @ f" s f] by (simp add: ParseUDFPath_def)

lemma ParseUDFPath_of_wf:
  "wf_module r \<Longrightarrow> isValidIdentifier f \<Longrightarrow>
     ParseUDFPath (r @ '':'' @ f) = Inr \<lparr>Module = \<lparr>raw = r\<rparr>, Function = Some f\<rparr>"
  using ParseFunctionName_Inr [of f f]
  by (subst ParseUDFPath_colon) (simp_all add: identifier_no_colon ParseModulePath_id)

lemma UDFPath_String_round_trip: "wf_udf p \<Longrightarrow> ParseUDFPath (UDFPath_String p) = Inr p"
  using ParseUDFPath_of_wf [of "raw (Module p)" "the (Function p)"]
  by (cases p; cases "Function p")
    (auto simp: wf_udf_def UDFPath_String_def ParseUDFPath_module ParseModulePath_id wf_module_no_colon)

text \<open>The printed form and the parser of UDF paths are a codec on parsed paths.\<close>

interpretation udf_path: codec "\<lambda>p. Inr (UDFPath_String p) :: unit + string" ParseUDFPath wf_udf
  by unfold_locales (simp add: UDFPath_String_round_trip)

section \<open>Canonical paths\<close>

lemma Split_snoc: "c \<notin> set e \<Longrightarrow> Split c (r @ e) = butlast (Split c r) @ [last (Split c r) @ e]"
  by (induction r) (auto simp: Split_id split: list.split)

lemma Split_last: "last (Split c r) = rev (takeWhile (\<lambda>x. x \<noteq> c) (rev r))"
proof (cases "c \<in> set r")
  case True
  then obtain a b where r: "r = a @ c # b" "c \<notin> set b"
    by (meson split_list_last)
  then have "takeWhile (\<lambda>x. x \<noteq> c) (rev b @ c # rev a) = rev b"
    by (subst takeWhile_append2) auto
  with r show ?thesis
    by (simp add: Split_append_sep Split_id)
next
  case False
  then have "takeWhile (\<lambda>x. x \<noteq> c) (rev r) = rev r"
    by (subst takeWhile_eq_all_conv) auto
  then show ?thesis
    by (simp only: Split_id [OF False] last.simps rev_rev_ident) simp
qed

lemma Ext_last: "Ext r = (case cut_last (CHR ''.'') (last (Split (CHR ''/'') r)) of
    None \<Rightarrow> [] | Some (a, b) \<Rightarrow> CHR ''.'' # b)"
  by (simp add: Ext_def Split_last)

lemma Ext_js [simp]: "Ext (r @ ''.js'') = ''.js''"
  using cut_last_Some [of "CHR ''.''" "last (Split (CHR ''/'') r) @ ''.js''" "last (Split (CHR ''/'') r)" "''js''"]
  by (simp add: Ext_last Split_snoc)

definition last_component :: "string \<Rightarrow> string" where
  "last_component r = last (Split (CHR ''/'') r)"

lemma valid_component_js:
  "valid_component q \<Longrightarrow> valid_component (q @ ''.js'') \<longleftrightarrow> length q \<le> 61"
  by (auto simp: valid_component_def isAlnum_def isASCIIAlpha_def less_eq_char_def)

lemma wf_module_js:
  assumes "wf_module r"
  shows "wf_module (r @ ''.js'') \<longleftrightarrow> length (last_component r) \<le> 61"
proof -
  have r: "valid_component p" if "p \<in> set (Split (CHR ''/'') r)" for p
    using assms that by (simp add: wf_module_def)
  have "wf_module (r @ ''.js'') \<longleftrightarrow> valid_component (last_component r @ ''.js'')"
    using r by (auto simp: wf_module_def Split_snoc last_component_def dest: in_set_butlastD)
  also have "valid_component (last_component r)"
    using r by (simp add: last_component_def)
  then have "valid_component (last_component r @ ''.js'') \<longleftrightarrow> length (last_component r) \<le> 61"
    by (rule valid_component_js)
  finally show ?thesis .
qed

text \<open>What \<open>Canonicalize\<close> does to the module: it has the extension afterwards.\<close>

lemma CanonicalizeModule_craw:
  "craw (CanonicalizeModule m) = (if Ext (raw m) = [] then raw m @ ''.js'' else raw m)"
  by (simp add: CanonicalizeModule_def)

lemma CanonicalizeModule_idem: "CanonicalizeModule \<lparr>raw = craw (CanonicalizeModule m)\<rparr> = CanonicalizeModule m"
  by (simp add: CanonicalizeModule_def)

lemma canonical_no_colon: "wf_module r \<Longrightarrow> CHR '':'' \<notin> set (craw (CanonicalizeModule \<lparr>raw = r\<rparr>))"
  using wf_module_no_colon by (simp add: CanonicalizeModule_craw)

lemma default_identifier: "isValidIdentifier ''default''"
  by (simp add: isValidIdentifier_def maxIdentifierLength_def isASCIIAlpha_def isASCIIDigit_def less_eq_char_def)

lemma wf_udf_CFunction: "wf_udf p \<Longrightarrow> isValidIdentifier (CFunction (Canonicalize p))"
  by (auto simp: wf_udf_def Canonicalize_def default_identifier split: option.splits)

text \<open>When the canonical string is a path again.\<close>

definition canonical_fits :: "UDFPath \<Rightarrow> bool" where
  "canonical_fits p \<longleftrightarrow> Ext (raw (Module p)) = ''.js'' \<or> length (last_component (raw (Module p))) \<le> 61"

lemma canonical_module_wf:
  assumes "wf_udf p"
  shows "wf_module (craw (CModule (Canonicalize p))) \<longleftrightarrow> canonical_fits p"
  using assms wf_module_js [of "raw (Module p)"]
  by (auto simp: wf_udf_def Canonicalize_def CanonicalizeModule_craw canonical_fits_def wf_module_def)

lemma canonical_reparse:
  assumes p: "wf_udf p" and fits: "canonical_fits p"
  shows "ParseUDFPath (CanonicalizedUDFPath_String (Canonicalize p)) =
    Inr \<lparr>Module = \<lparr>raw = craw (CModule (Canonicalize p))\<rparr>, Function = Some (CFunction (Canonicalize p))\<rparr>"
  unfolding CanonicalizedUDFPath_String_def
  using p fits by (intro ParseUDFPath_of_wf) (simp_all add: canonical_module_wf wf_udf_CFunction)

lemma canonical_reparse_only:
  assumes p: "wf_udf p" and q: "ParseUDFPath (CanonicalizedUDFPath_String (Canonicalize p)) = Inr q"
  shows "canonical_fits p"
proof (rule ccontr)
  assume n: "\<not> canonical_fits p"
  then have e: "craw (CModule (Canonicalize p)) = raw (Module p) @ ''.js''"
    using p by (auto simp: canonical_fits_def wf_udf_def wf_module_def Canonicalize_def CanonicalizeModule_craw)
  have f: "CHR '':'' \<notin> set (CFunction (Canonicalize p))"
    using p by (simp add: identifier_no_colon wf_udf_CFunction)
  obtain m where m: "ParseModulePath (raw (Module p) @ ''.js'') = Inr m"
    using q unfolding CanonicalizedUDFPath_String_def e ParseUDFPath_colon [OF f] by (auto simp: res_simps)
  let ?r = "raw (Module p) @ ''.js''"
  have w: "wf_module (raw (Module p))" and l: "\<not> length (last_component (raw (Module p))) \<le> 61"
    using p n by (auto simp: wf_udf_def canonical_fits_def)
  have parts: "\<forall>q\<in>set (Split (CHR ''/'') ?r). q \<noteq> [] \<and> q \<noteq> ''.'' \<and> q \<noteq> ''..''"
    using w by (auto simp: Split_snoc wf_module_def dest!: in_set_butlastD)
  have "CHR 0x5C \<notin> set ?r"
    using wf_module_chars [OF w, of "CHR 0x5C"] by auto
  moreover have "Clean ?r = ?r"
    using clean_parts_id [of "Split (CHR ''/'') ?r"] parts Join_Split [of "CHR ''/''" ?r] wf_module_start [OF w]
    by (simp add: Clean_def hd_append)
  ultimately have "raw m = ?r"
    using m unfolding ParseModulePath_def Let_def
    by (auto simp: res_simps replace_char_id split: if_splits)
  then show False
    using ParseModulePath_wf [OF m] wf_module_js [OF w] l by simp
qed

section \<open>Normalised function paths\<close>

lemma strip_front_id:
  "(\<And>q. q \<in> set seqs \<Longrightarrow> q \<noteq> [] \<Longrightarrow> s \<noteq> [] \<Longrightarrow> hd q \<noteq> hd s) \<Longrightarrow> strip_front seqs s = s"
proof -
  assume h: "\<And>q. q \<in> set seqs \<Longrightarrow> q \<noteq> [] \<Longrightarrow> s \<noteq> [] \<Longrightarrow> hd q \<noteq> hd s"
  have "find (\<lambda>q. q \<noteq> [] \<and> HasPrefix s q) seqs = None"
    unfolding find_None_iff by (metis h HasPrefix_iff append_is_Nil_conv hd_append2)
  then show ?thesis
    by (subst strip_front.simps) simp
qed

lemma identifier_not_space:
  assumes "isAlnum c \<or> c = CHR ''_''" and "q \<in> set space_seqs"
  shows "c \<noteq> hd q" "c \<noteq> last q"
  using assms
  by (auto simp: space_seqs_def isAlnum_def isASCIIAlpha_def isASCIIDigit_def less_eq_char_def)

lemma TrimSpace_identifier:
  assumes "isValidIdentifier f"
  shows "TrimSpace f = f"
proof -
  have c: "isAlnum c \<or> c = CHR ''_''" if "c \<in> set f" for c
    using assms that by (simp add: isValidIdentifier_iff)
  have "strip_front space_seqs f = f"
  proof (rule strip_front_id)
    fix q
    assume "q \<in> set space_seqs" "f \<noteq> []"
    then show "hd q \<noteq> hd f"
      using identifier_not_space(1) [of "hd f" q] c [of "hd f"] by simp
  qed
  moreover have "strip_front (map rev space_seqs) (rev f) = rev f"
  proof (rule strip_front_id)
    fix q
    assume q: "q \<in> set (map rev space_seqs)" and f: "rev f \<noteq> []"
    then obtain x where "x \<in> set space_seqs" "q = rev x"
      by auto
    with f show "hd q \<noteq> hd (rev f)"
      using identifier_not_space(2) [of "last f" x] c [of "last f"] by (simp add: hd_rev)
  qed
  ultimately show ?thesis
    by (simp add: TrimSpace_def)
qed

lemma HasPrefix_before_colon:
  "CHR '':'' \<notin> set p \<Longrightarrow> HasPrefix (m @ '':'' @ f) p \<Longrightarrow> HasPrefix m p"
  by (auto simp: HasPrefix_iff append_eq_append_conv2 Cons_eq_append_conv)

text \<open>The trimmed extensions: a dot and then letters.\<close>

lemma source_exts_shape:
  "e \<in> set source_exts \<Longrightarrow> \<exists>b. e = CHR ''.'' # b \<and> b \<noteq> [] \<and> b \<noteq> ''js'' \<and>
     CHR ''.'' \<notin> set b \<and> CHR ''/'' \<notin> set b \<and> CHR 0x5C \<notin> set b"
  by (auto simp: source_exts_def)

lemma clean_parts_last:
  "q \<noteq> [] \<Longrightarrow> q \<noteq> ''.'' \<Longrightarrow> q \<noteq> ''..'' \<Longrightarrow> \<exists>qs. clean_parts b out (ps @ [q]) = qs @ [q]"
  by (induction b out ps rule: clean_parts.induct) (auto split: list.splits)

lemma Join_snoc_last:
  "CHR ''/'' \<notin> set q \<Longrightarrow> last (Split (CHR ''/'') (Join ''/'' (qs @ [q]))) = q"
proof (induction "''/''" qs rule: Join.induct)
  case (3 p p' ps)
  then show ?case by (simp add: Split_append_sep)
qed (auto simp: Split_id Split_append_sep)

lemma Ext_Clean:
  assumes e: "e = CHR ''.'' # b" "CHR ''/'' \<notin> set b" "CHR ''.'' \<notin> set b" "b \<noteq> []"
  shows "Ext (Clean (x @ e)) = e"
proof -
  let ?q = "last (Split (CHR ''/'') x) @ e"
  have q: "?q \<noteq> []" "?q \<noteq> ''.''" "?q \<noteq> ''..''"
    using e by (auto simp: append_eq_Cons_conv)
  have qs: "CHR ''/'' \<notin> set ?q"
    using e Split_no_sep [of "last (Split (CHR ''/'') x)" "CHR ''/''" x] by auto
  define r where "r = (hd (x @ e) = CHR ''/'')"
  obtain qs' where c: "clean_parts r [] (Split (CHR ''/'') (x @ e)) = qs' @ [?q]"
    using clean_parts_last [OF q, of r "[]" "butlast (Split (CHR ''/'') x)"] e
    by (auto simp: Split_snoc)
  let ?j = "Join ''/'' (qs' @ [?q])"
  have l: "last (Split (CHR ''/'') ?j) = ?q"
    by (rule Join_snoc_last [OF qs])
  then have "?j \<noteq> []"
    using q(1) by force
  then have "Clean (x @ e) = (if r then CHR ''/'' # ?j else ?j)"
    using c e by (auto simp: Clean_def r_def)
  then have "last (Split (CHR ''/'') (Clean (x @ e))) = ?q"
    using l Split_append_sep [of "CHR ''/''" "[]" ?j] by auto
  then show ?thesis
    using cut_last_Some [of "CHR ''.''" ?q "last (Split (CHR ''/'') x)" b] e by (simp add: Ext_last)
qed

lemma ParseModulePath_no_source_ext:
  assumes p: "ParseModulePath s = Inr m" and e: "e \<in> set source_exts"
  shows "\<not> HasSuffix s e"
proof
  assume "HasSuffix s e"
  then obtain x where s: "s = x @ e"
    by (auto simp: HasSuffix_iff)
  obtain b where b: "e = CHR ''.'' # b" "b \<noteq> []" "b \<noteq> ''js''" "CHR ''.'' \<notin> set b" "CHR ''/'' \<notin> set b"
      "CHR 0x5C \<notin> set b"
    using source_exts_shape [OF e] by blast
  then have "replace_char (CHR 0x5C) (CHR ''/'') s = replace_char (CHR 0x5C) (CHR ''/'') x @ e"
    by (auto simp: s replace_char_def intro!: map_idI)
  then have "Ext (raw m) = e"
    using p Ext_Clean [OF b(1,5,4,2)] unfolding ParseModulePath_def Let_def
    by (auto simp: res_simps split: if_splits)
  then show False
    using ParseModulePath_wf [OF p] b by (auto simp: wf_module_def)
qed

lemma trim_exts_id:
  "(\<And>e. e \<in> set es \<Longrightarrow> \<not> HasSuffix p e) \<Longrightarrow> fold (\<lambda>ext p. TrimSuffix p ext) es p = p"
  by (induction es) (auto simp: TrimSuffix_id)

lemma identifier_nonempty: "isValidIdentifier f \<Longrightarrow> f \<noteq> []"
  by (simp add: isValidIdentifier_iff)

text \<open>A path in normal form is left alone.\<close>

lemma ParseFunctionPath_fix:
  assumes p: "ParseUDFPath (m @ '':'' @ f) = Inr u" and m: "CHR '':'' \<notin> set m" and f: "CHR '':'' \<notin> set f"
    and n: "\<not> HasPrefix m ''api.''" "\<not> HasPrefix m ''internal.''"
  shows "ParseFunctionPath (m @ '':'' @ f) = Inr (m @ '':'' @ f)"
proof -
  have v: "isValidIdentifier f" and "\<exists>x. ParseModulePath m = Inr x"
    using p unfolding ParseUDFPath_colon [OF f] by (auto simp: res_simps ParseFunctionName_Inr)
  then have "fold (\<lambda>ext p. TrimSuffix p ext) source_exts m = m"
    by (intro trim_exts_id) (auto dest: ParseModulePath_no_source_ext)
  moreover have "\<not> HasPrefix (m @ '':'' @ f) ''api.''" "\<not> HasPrefix (m @ '':'' @ f) ''internal.''"
    using n HasPrefix_before_colon [of "''api.''" m f] HasPrefix_before_colon [of "''internal.''" m f] by auto
  ultimately show ?thesis
    using p Cut_append [OF m, of f] TrimSpace_identifier [OF v] identifier_nonempty [OF v]
    by (simp add: ParseFunctionPath_def)
qed

lemma ParseFunctionPath_Inr_UDF: "ParseFunctionPath s = Inr r \<Longrightarrow> \<exists>u. ParseUDFPath r = Inr u"
  unfolding ParseFunctionPath_def Let_def by (auto simp: res_simps split: if_splits prod.splits)

lemma Join_Split_chars: "CHR ''.'' \<notin> set x \<Longrightarrow> (\<And>p. p \<in> set ps \<Longrightarrow> CHR ''.'' \<notin> set p) \<Longrightarrow>
    CHR ''.'' \<notin> set (Join x ps)"
  by (induction x ps rule: Join.induct) auto

lemma api_parts_no_dot:
  "CHR ''.'' \<notin> set (Join ''/'' (butlast (tl (Split (CHR ''.'') s))))"
  by (rule Join_Split_chars) (auto dest!: in_set_butlastD list.set_sel(2) [rotated] Split_no_sep)

lemma count_colon:
  assumes "count_list (m @ '':'' @ f) (CHR '':'') = 1"
  shows "CHR '':'' \<notin> set m" "CHR '':'' \<notin> set f"
  using assms by (auto simp: count_list_0_iff)

lemma TrimSuffix_prefix: "\<exists>y. x = TrimSuffix x e @ y"
  by (metis TrimSuffix_def append_Nil2 append_take_drop_id)

lemma trim_exts_prefix: "\<exists>y. x = fold (\<lambda>ext p. TrimSuffix p ext) es x @ y"
proof (induction es arbitrary: x)
  case (Cons e es)
  then show ?case
    using TrimSuffix_prefix [of x e] by simp (metis append.assoc)
qed simp

lemma ParseFunctionPath_idem:
  assumes r: "ParseFunctionPath s = Inr r" and one: "count_list r (CHR '':'') = 1"
  shows "ParseFunctionPath r = Inr r"
proof -
  obtain u where u: "ParseUDFPath r = Inr u"
    using ParseFunctionPath_Inr_UDF [OF r] by blast
  show ?thesis
  proof (cases "HasPrefix s ''api.'' \<or> HasPrefix s ''internal.''")
    case True
    let ?m = "Join ''/'' (butlast (tl (Split (CHR ''.'') s)))" and ?f = "last (Split (CHR ''.'') s)"
    have e: "r = ?m @ '':'' @ ?f"
      using r True by (auto simp: ParseFunctionPath_def Let_def res_simps split: if_splits)
    have "\<not> HasPrefix ?m ''api.''" "\<not> HasPrefix ?m ''internal.''"
      using api_parts_no_dot [of s] by (auto simp: HasPrefix_iff)
    then show ?thesis
      unfolding e by (rule ParseFunctionPath_fix [OF u [unfolded e] count_colon [OF one [unfolded e]]])
  next
    case False
    obtain a b c where cut: "Cut (CHR '':'') s = (a, b, c)"
      by (metis prod_cases3)
    define m where "m = fold (\<lambda>ext p. TrimSuffix p ext) source_exts a"
    define f where "f = (if TrimSpace b = [] then ''default'' else TrimSpace b)"
    have e: "r = m @ '':'' @ f"
      using r False cut by (auto simp: ParseFunctionPath_def Let_def res_simps m_def f_def split: if_splits)
    obtain y where "a = m @ y"
      using trim_exts_prefix unfolding m_def by blast
    moreover have "\<exists>z. s = a @ z"
      using Cut_spec [OF cut] by (auto split: if_splits)
    ultimately have "\<not> HasPrefix m ''api.''" "\<not> HasPrefix m ''internal.''"
      using False by (auto simp: HasPrefix_iff)
    then show ?thesis
      unfolding e by (rule ParseFunctionPath_fix [OF u [unfolded e] count_colon [OF one [unfolded e]]])
  qed
qed

text \<open>The dotted form of a reference in the generated API and the path form.\<close>

lemma Split_dotted:
  "ms \<noteq> [] \<Longrightarrow> (\<And>m. m \<in> set ms \<Longrightarrow> CHR ''.'' \<notin> set m) \<Longrightarrow> CHR ''.'' \<notin> set f \<Longrightarrow>
     Split (CHR ''.'') (Join ''.'' ms @ ''.'' @ f) = ms @ [f]"
  using Split_Join [of ms "CHR ''.''"] by (simp add: Split_append_sep Split_id)

lemma Join_no_char:
  "c \<notin> set x \<Longrightarrow> (\<And>p. p \<in> set ps \<Longrightarrow> c \<notin> set p) \<Longrightarrow> c \<notin> set (Join x ps)"
  by (induction x ps rule: Join.induct) auto

lemma ParseFunctionPath_dotted:
  assumes a: "a = ''api'' \<or> a = ''internal''" and ms: "ms \<noteq> []" and f: "CHR ''.'' \<notin> set f"
    and dots: "\<And>m. m \<in> set ms \<Longrightarrow> CHR ''.'' \<notin> set m"
  shows "ParseFunctionPath (a @ ''.'' @ Join ''.'' ms @ ''.'' @ f) =
    rbind (ParseUDFPath (Join ''/'' ms @ '':'' @ f)) (\<lambda>_. Inr (Join ''/'' ms @ '':'' @ f))"
proof -
  let ?s = "a @ ''.'' @ Join ''.'' ms @ ''.'' @ f"
  have "Split (CHR ''.'') ?s = a # ms @ [f]"
    using Split_append [of "CHR ''.''" a "Join ''.'' ms @ ''.'' @ f"] a Split_dotted [OF ms dots f] by auto
  moreover have "HasPrefix ?s ''api.'' \<or> HasPrefix ?s ''internal.''"
    using a by (auto simp: HasPrefix_def)
  moreover have "\<not> length (a # ms @ [f]) < 3"
    using ms by (cases ms) auto
  ultimately show ?thesis
    by (simp add: ParseFunctionPath_def butlast_append Let_def)
qed

lemma ParseFunctionPath_path:
  assumes f: "isValidIdentifier f" and ms: "\<And>m. m \<in> set ms \<Longrightarrow> CHR ''.'' \<notin> set m \<and> CHR '':'' \<notin> set m"
  shows "ParseFunctionPath (Join ''/'' ms @ '':'' @ f) =
    rbind (ParseUDFPath (Join ''/'' ms @ '':'' @ f)) (\<lambda>_. Inr (Join ''/'' ms @ '':'' @ f))"
proof -
  let ?m = "Join ''/'' ms"
  have d: "CHR ''.'' \<notin> set ?m" "CHR '':'' \<notin> set ?m"
    using ms by (intro Join_no_char; simp)+
  have "fold (\<lambda>ext p. TrimSuffix p ext) source_exts ?m = ?m"
    using d(1) by (intro trim_exts_id) (auto simp: HasSuffix_iff dest!: source_exts_shape)
  moreover have "\<not> HasPrefix ?m ''api.''" "\<not> HasPrefix ?m ''internal.''"
    using d(1) by (auto simp: HasPrefix_iff)
  then have "\<not> HasPrefix (?m @ '':'' @ f) ''api.''" "\<not> HasPrefix (?m @ '':'' @ f) ''internal.''"
    using HasPrefix_before_colon [of "''api.''" ?m f] HasPrefix_before_colon [of "''internal.''" ?m f] by auto
  ultimately show ?thesis
    using Cut_append [OF d(2), of f] TrimSpace_identifier [OF f] identifier_nonempty [OF f]
    by (simp add: ParseFunctionPath_def Let_def)
qed

section \<open>Properties\<close>

text \<open>
  \<open>ValidateIdentifier\<close> succeeds exactly on the strings of at most 64 ASCII letters,
  digits and underscores that start with a letter or an underscore and do not consist of
  underscores only; its last \<open>return nil\<close> adds nothing to the fast check before it.
\<close>

theorem identifier_validation:
  "ValidateIdentifier s = Inr () \<longleftrightarrow>
     s \<noteq> [] \<and> length s \<le> 64 \<and> \<not> isASCIIDigit (hd s) \<and>
     list_all (\<lambda>c. isASCIIAlpha c \<or> isASCIIDigit c \<or> c = CHR ''_'') s \<and> list_ex (\<lambda>c. c \<noteq> CHR ''_'') s"
proof -
  have h: "isASCIIAlpha c \<or> c = CHR ''_'' \<longleftrightarrow> \<not> isASCIIDigit c" if "isAlnum c \<or> c = CHR ''_''" for c
    using that by (auto simp: isAlnum_def isASCIIAlpha_def isASCIIDigit_def less_eq_char_def)
  have n: "(\<exists>c\<in>set s. isAlnum c) \<longleftrightarrow> (\<exists>c\<in>set s. c \<noteq> CHR ''_'')"
    if "\<forall>c\<in>set s. isAlnum c \<or> c = CHR ''_''"
    using that underscore_not_alnum(1) by metis
  have "isValidIdentifier s \<longleftrightarrow> s \<noteq> [] \<and> length s \<le> 64 \<and> \<not> isASCIIDigit (hd s) \<and>
      (\<forall>c\<in>set s. isAlnum c \<or> c = CHR ''_'') \<and> (\<exists>c\<in>set s. c \<noteq> CHR ''_'')"
    unfolding isValidIdentifier_iff using h [of "hd s"] n hd_in_set [of s] by meson
  then show ?thesis
    by (simp add: ValidateIdentifier_iff list_all_iff list_ex_iff isAlnum_def)
qed

text \<open>
  a parsed UDF path prints to a string that parses to the same path, and its module
  is a relative path of valid components without \<open>.\<close> and \<open>..\<close>.
\<close>

theorem udf_path_round_trip:
  assumes "ParseUDFPath s = Inr p"
  shows "ParseUDFPath (UDFPath_String p) = Inr p \<and>
    list_all (\<lambda>c. validatePathComponent c = Inr () \<and> c \<noteq> ''.'' \<and> c \<noteq> ''..'') (Split (CHR ''/'') (raw (Module p)))"
  using udf_path.dec_of_enc [OF ParseUDFPath_wf [OF assms] refl] ParseUDFPath_wf [OF assms]
  by (auto simp: wf_udf_def wf_module_def list_all_iff validatePathComponent_iff)

theorem udf_path_round_trip_witness:
  "ParseUDFPath (UDFPath_String \<lparr>Module = \<lparr>raw = ''a/b''\<rparr>, Function = Some ''f''\<rparr>) =
     Inr \<lparr>Module = \<lparr>raw = ''a/b''\<rparr>, Function = Some ''f''\<rparr>"
proof -
  have "ParseUDFPath ''./a//x/../b:f'' = Inr \<lparr>Module = \<lparr>raw = ''a/b''\<rparr>, Function = Some ''f''\<rparr>"
    by code_simp
  then show ?thesis
    using udf_path_round_trip by blast
qed

text \<open>
  the canonical string of a parsed path is one-to-one: it determines the canonical
  module and function.
\<close>

theorem canonical_one_to_one:
  assumes "ParseUDFPath s = Inr p" and "ParseUDFPath t = Inr q"
    and "CanonicalizedUDFPath_String (Canonicalize p) = CanonicalizedUDFPath_String (Canonicalize q)"
  shows "Canonicalize p = Canonicalize q"
proof -
  have w: "wf_udf p" "wf_udf q"
    using assms ParseUDFPath_wf by auto
  have "CHR '':'' \<notin> set (craw (CModule (Canonicalize x)))" if "wf_udf x" for x
    using that canonical_no_colon [of "raw (Module x)"]
    by (simp add: wf_udf_def Canonicalize_def CanonicalizeModule_def split: if_splits)
  note nc = this [OF w(1)] this [OF w(2)]
  have "Cut (CHR '':'') (CanonicalizedUDFPath_String c) = (craw (CModule c), CFunction c, True)"
    if "CHR '':'' \<notin> set (craw (CModule c))" for c
    using Cut_append [OF that] by (simp add: CanonicalizedUDFPath_String_def)
  then have "craw (CModule (Canonicalize p)) = craw (CModule (Canonicalize q))"
      "CFunction (Canonicalize p) = CFunction (Canonicalize q)"
    using nc assms(3) by (metis prod.inject)+
  then show ?thesis
    by simp
qed

theorem canonical_one_to_one_witness:
  "Canonicalize \<lparr>Module = \<lparr>raw = ''m.js''\<rparr>, Function = None\<rparr> =
   Canonicalize \<lparr>Module = \<lparr>raw = ''m''\<rparr>, Function = Some ''default''\<rparr>"
  by (rule canonical_one_to_one [of "''m.js''" _ "''m:default''"]) code_simp+

text \<open>
  the canonical string is itself a path, with the same canonical form, exactly when
  the last component of the module has room for the extension: with 62 to 64 characters
  and no extension its canonical string is rejected by \<open>ParseUDFPath\<close>.
\<close>

theorem canonical_reparses:
  assumes "ParseUDFPath s = Inr p"
  shows "(\<exists>q. ParseUDFPath (CanonicalizedUDFPath_String (Canonicalize p)) = Inr q \<and>
            Canonicalize q = Canonicalize p) \<longleftrightarrow>
    Ext (raw (Module p)) = ''.js'' \<or> length (last (Split (CHR ''/'') (raw (Module p)))) \<le> 61"
proof -
  have w: "wf_udf p"
    using assms by (rule ParseUDFPath_wf)
  have "Canonicalize \<lparr>Module = \<lparr>raw = craw (CModule (Canonicalize p))\<rparr>,
      Function = Some (CFunction (Canonicalize p))\<rparr> = Canonicalize p"
    using CanonicalizeModule_idem [of "Module p"] by (simp add: Canonicalize_def)
  then show ?thesis
    using canonical_reparse [OF w] canonical_reparse_only [OF w]
    by (auto simp: canonical_fits_def last_component_def)
qed

theorem canonical_reparses_witness:
  "\<exists>q. ParseUDFPath (CanonicalizedUDFPath_String (Canonicalize
      \<lparr>Module = \<lparr>raw = ''m''\<rparr>, Function = Some ''f''\<rparr>)) = Inr q"
proof -
  have "ParseUDFPath ''m:f'' = Inr \<lparr>Module = \<lparr>raw = ''m''\<rparr>, Function = Some ''f''\<rparr>"
    by code_simp
  from canonical_reparses [OF this] show ?thesis
    by auto
qed

text \<open>
  the normalised form of a function name is a parsable path, and normalising it again
  does not change it (when it has one colon, as the form \<open>module:function\<close> does).
\<close>

theorem function_path_normal_form:
  assumes "ParseFunctionPath s = Inr r" and "count_list r (CHR '':'') = 1"
  shows "ParseFunctionPath r = Inr r \<and> (\<exists>p. ParseUDFPath r = Inr p \<and> Function p \<noteq> None)"
proof -
  obtain p where p: "ParseUDFPath r = Inr p"
    using ParseFunctionPath_Inr_UDF assms(1) by blast
  have "CHR '':'' \<in> set r"
    using assms(2) count_notin [of "CHR '':''" r] by (metis zero_neq_one)
  then have "cut_last (CHR '':'') r \<noteq> None"
    by (simp only: cut_last_None not_not)
  then have "Function p \<noteq> None"
    using p unfolding ParseUDFPath_def by (auto simp: rbind_eq_Inr split: option.splits)
  with p show ?thesis
    using ParseFunctionPath_idem [OF assms] by blast
qed

theorem function_path_normal_form_witness:
  "ParseFunctionPath ''m:f'' = Inr ''m:f''"
proof -
  have "ParseUDFPath ''m:f'' = Inr \<lparr>Module = \<lparr>raw = ''m''\<rparr>, Function = Some ''f''\<rparr>"
    by code_simp
  then have "ParseFunctionPath ''api.m.f'' = Inr ''m:f''"
    using ParseFunctionPath_dotted [of "''api''" "[''m'']" "''f''"] by simp
  from function_path_normal_form [OF this] show ?thesis
    by simp
qed

text \<open>
  a reference of the generated JavaScript API (\<open>api.a.b.f\<close>, \<open>internal.a.b.f\<close>) and the
  path \<open>a/b:f\<close> normalise to the same thing, success or error.
\<close>

theorem api_reference_path:
  assumes "a = ''api'' \<or> a = ''internal''" and "ms \<noteq> []" and "isValidIdentifier f"
    and "list_all (\<lambda>m. CHR ''.'' \<notin> set m \<and> CHR '':'' \<notin> set m) ms"
  shows "ParseFunctionPath (a @ ''.'' @ Join ''.'' ms @ ''.'' @ f) = ParseFunctionPath (Join ''/'' ms @ '':'' @ f)"
proof -
  have "CHR ''.'' \<notin> set f"
    using assms(3) by (auto simp: isValidIdentifier_iff)
  then show ?thesis
    using assms ParseFunctionPath_dotted [of a ms f] ParseFunctionPath_path [of f ms]
    by (simp add: list_all_iff)
qed

theorem api_reference_path_witness:
  "ParseFunctionPath ''api.m.n.f'' = ParseFunctionPath ''m/n:f''"
  using api_reference_path [of "''api''" "[''m'', ''n'']" "''f''"]
  by (simp add: isValidIdentifier_def maxIdentifierLength_def isASCIIAlpha_def less_eq_char_def)

end
