(* ===== verification/Core_Result.thy ===== *)
theory Core_Result
  imports Core_Value
begin

text \<open>
  Function results: \<open>internal/core/function_result.go\<close>. A \<open>FunctionResult\<close> is a struct with
  a value, an error message and an optional application error; which of the three it
  means is decided by \<open>IsValue\<close> from the last two. A pointer to a struct is an option.
\<close>

type_synonym FunctionKind = string

definition QueryKind :: FunctionKind where
  "QueryKind = ''query''"

definition MutationKind :: FunctionKind where
  "MutationKind = ''mutation''"

definition ActionKind :: FunctionKind where
  "ActionKind = ''action''"

record ConvexError =
  Message :: string
  Data :: Value

record FunctionError =
  feKind :: FunctionKind
  fePath :: string
  feMessage :: string
  feData :: gval
  feDataValue :: Value
  feConvex :: "ConvexError option"
  feHasData :: bool
  feLogLines :: "string list"
  feStatusCode :: int
  feRawResponse :: string

text \<open>The zero \<open>FunctionError\<close>, which composite literals start from.\<close>

definition zero_FunctionError :: FunctionError where
  "zero_FunctionError =
     \<lparr>feKind = [], fePath = [], feMessage = [], feData = GInvalid, feDataValue = VNull, feConvex = None,
      feHasData = False, feLogLines = [], feStatusCode = 0, feRawResponse = []\<rparr>"

text \<open>The errors a result gives rise to.\<close>

datatype result_error = ConvexErr ConvexError | FunctionErr FunctionError

definition Unwrap :: "FunctionError \<Rightarrow> result_error option" where
  "Unwrap e = (case feConvex e of Some c \<Rightarrow> Some (ConvexErr c) | None \<Rightarrow> None)"

record FunctionResult =
  res_value :: Value
  errorMessage :: string
  convexError :: "ConvexError option"

definition ValueResult :: "Value \<Rightarrow> FunctionResult" where
  "ValueResult v = \<lparr>res_value = v, errorMessage = [], convexError = None\<rparr>"

definition ErrorMessageResult :: "string \<Rightarrow> FunctionResult" where
  "ErrorMessageResult msg = \<lparr>res_value = VNull, errorMessage = msg, convexError = None\<rparr>"

definition ConvexErrorResult :: "ConvexError \<Rightarrow> FunctionResult" where
  "ConvexErrorResult e = \<lparr>res_value = VNull, errorMessage = [], convexError = Some e\<rparr>"

definition IsValue :: "FunctionResult \<Rightarrow> bool" where
  "IsValue r \<longleftrightarrow> errorMessage r = [] \<and> convexError r = None"

definition Value_of :: "FunctionResult \<Rightarrow> Value option" where
  "Value_of r = (if \<not> IsValue r then None else Some (res_value r))"

definition ErrorMessage :: "FunctionResult \<Rightarrow> string option" where
  "ErrorMessage r = (if errorMessage r = [] then None else Some (errorMessage r))"

definition ConvexError_of :: "FunctionResult \<Rightarrow> ConvexError option" where
  "ConvexError_of r = convexError r"

definition Err :: "FunctionResult \<Rightarrow> result_error option" where
  "Err r =
     (if IsValue r then None
      else case convexError r of
        Some e \<Rightarrow> Some (ConvexErr e)
      | None \<Rightarrow> Some (FunctionErr (zero_FunctionError\<lparr>feMessage := errorMessage r\<rparr>)))"

section \<open>The three meanings of a result\<close>

text \<open>The sum a result stands for, and the accessors on it.\<close>

datatype outcome = OValue Value | OError string | OConvex ConvexError

fun result_of :: "outcome \<Rightarrow> FunctionResult" where
  "result_of (OValue v) = ValueResult v"
| "result_of (OError m) = ErrorMessageResult m"
| "result_of (OConvex e) = ConvexErrorResult e"

definition outcome_of :: "FunctionResult \<Rightarrow> outcome" where
  "outcome_of r =
     (case convexError r of Some e \<Rightarrow> OConvex e
      | None \<Rightarrow> if errorMessage r = [] then OValue (res_value r) else OError (errorMessage r))"

lemmas result_defs = ValueResult_def ErrorMessageResult_def ConvexErrorResult_def IsValue_def Value_of_def
  ErrorMessage_def ConvexError_of_def Err_def outcome_of_def

lemma outcome_of_result: "outcome_of (result_of out) = (if out = OError [] then OValue VNull else out)"
  by (cases out) (simp_all add: result_defs)

lemma Value_of_Some: "Value_of r = Some v \<longleftrightarrow> outcome_of r = OValue v"
  by (auto simp: result_defs split: option.splits)

lemma Err_None: "Err r = None \<longleftrightarrow> Value_of r \<noteq> None"
  by (auto simp: result_defs split: option.splits)

text \<open>
  a result keeps what it was built from: the accessors of a result tell the three
  constructors apart and return their argument, except that an error result with an empty
  message reads as the value null.
\<close>

theorem result_accessors:
  "(Value_of (result_of out), ErrorMessage (result_of out), ConvexError_of (result_of out)) =
     (case out of
        OValue v \<Rightarrow> (Some v, None, None)
      | OError m \<Rightarrow> if m = [] then (Some VNull, None, None) else (None, Some m, None)
      | OConvex e \<Rightarrow> (None, None, Some e)) \<and>
   (Err (result_of out) = None \<longleftrightarrow> (case out of OValue v \<Rightarrow> True | OError m \<Rightarrow> m = [] | OConvex e \<Rightarrow> False))"
  by (cases out) (auto simp: result_defs)

end
