(* ===== verification/Base_Canonical.thy ===== *)
theory Base_Canonical
  imports Core_Path Core_Result
begin

text \<open>
  Canonical queries: \<open>baseclient/canonical.go\<close>. The path and the arguments of a query are
  brought into a canonical form, and a token computed from both identifies the query.
\<close>

section \<open>Arguments\<close>

text \<open>The static type \<open>map[string]any\<close> of \<open>encodeArgs\<close>' result is a \<open>wire\<close> that is a map.\<close>

definition encodeArgs :: "gval \<Rightarrow> wire res" where
  "encodeArgs args =
     (if args = GInvalid then Inr (WMap [])
      else rbind (EncodeValue args) (\<lambda>encoded.
        case encoded of
          WMap m \<Rightarrow> Inr (WMap m)
        | WNilMap \<Rightarrow> Inr WNilMap
        | _ \<Rightarrow> Inl (ClientError ArgsNotObject)))"

definition valueFromWireJSON :: "wire \<Rightarrow> Value res" where
  "valueFromWireJSON w = rbind (json_Marshal w) ParseValueJSON"

definition syncQueryArgValue :: "gval \<Rightarrow> Value res" where
  "syncQueryArgValue args = rbind (encodeArgs args) valueFromWireJSON"

section \<open>Paths\<close>

definition syncWireUDFPath :: "CanonicalizedUDFPath \<Rightarrow> string" where
  "syncWireUDFPath path = TrimSuffix (craw (CModule path)) ''.js'' @ '':'' @ CFunction path"

definition canonicalQueryPath :: "string \<Rightarrow> string res" where
  "canonicalQueryPath path =
     rbind (ParseFunctionPath path) (\<lambda>normalized.
     rbind (ParseUDFPath normalized) (\<lambda>parsed.
     Inr (syncWireUDFPath (Canonicalize parsed))))"

section \<open>Tokens\<close>

fun stableJSONValue :: "wire \<Rightarrow> wire res" where
  "stableJSONValue (WMap m) =
     rbind (rmap (\<lambda>p. rbind (stableJSONValue (snd p)) (\<lambda>w. Inr (fst p, w))) m) (\<lambda>out. Inr (WMap (mof_list out)))"
| "stableJSONValue WNilMap = Inr (WMap [])"
| "stableJSONValue (WArr ws) = rbind (rmap stableJSONValue ws) (\<lambda>out. Inr (WArr out))"
| "stableJSONValue WNil = Inr WNil"
| "stableJSONValue (WBool b) = Inr (WBool b)"
| "stableJSONValue (WStr s) = Inr (WStr s)"
| "stableJSONValue (WFloat f) = Inr (WFloat f)"
| "stableJSONValue (WNumber n) = Inl (ClientError StableJSONUnsupported)"
| "stableJSONValue WOther = Inl (ClientError StableJSONUnsupported)"

definition stableJSON :: "wire \<Rightarrow> string res" where
  "stableJSON w =
     rbind (stableJSONValue w) (\<lambda>normalized.
     rbind (json_Marshal normalized) (\<lambda>j. Inr (json_text j)))"

text \<open>\<open>canonicalQuery\<close>: the canonical path, the encoded arguments and the token.\<close>

definition canonicalQuery :: "string \<Rightarrow> gval \<Rightarrow> (string \<times> Value list \<times> string) res" where
  "canonicalQuery path args =
     rbind (canonicalQueryPath path) (\<lambda>canonicalPath.
     rbind (syncQueryArgValue args) (\<lambda>encodedArg.
       let encodedArgs = [encodedArg]
       in rbind (rmap ConvexJSON encodedArgs) (\<lambda>wireArgs.
          rbind (stableJSON (WMap (mof_list [(''udfPath'', WStr canonicalPath), (''args'', WArr wireArgs)])))
            (\<lambda>tokenJSON. Inr (canonicalPath, encodedArgs, tokenJSON)))))"

definition canonicalRequest :: "string \<Rightarrow> gval \<Rightarrow> (string \<times> Value list) res" where
  "canonicalRequest path args =
     rbind (canonicalQueryPath path) (\<lambda>canonicalPath.
     rbind (syncQueryArgValue args) (\<lambda>encodedArg. Inr (canonicalPath, [encodedArg])))"

section \<open>Lemmas\<close>

lemma canonicalQuery_request:
  "canonicalQuery path args = Inr (p, vs, t) \<Longrightarrow> canonicalRequest path args = Inr (p, vs)"
  by (auto simp: canonicalQuery_def canonicalRequest_def res_simps Let_def)

lemma canonicalRequest_Inr:
  "canonicalRequest path args = Inr (p, vs) \<longleftrightarrow>
     canonicalQueryPath path = Inr p \<and> (\<exists>v. syncQueryArgValue args = Inr v \<and> vs = [v])"
  by (auto simp: canonicalRequest_def res_simps)

lemma canonicalRequest_wf: "canonicalRequest path args = Inr (p, vs) \<Longrightarrow> list_all wf_value vs"
  by (auto simp: canonicalRequest_Inr syncQueryArgValue_def valueFromWireJSON_def ParseValueJSON_def res_simps
      dest: valueFromWire_wf(1))

text \<open>The form of a path on the wire determines the canonical path.\<close>

lemma canonical_js: "wf_udf p \<Longrightarrow> \<exists>x. craw (CModule (Canonicalize p)) = x @ ''.js''"
proof -
  assume p: "wf_udf p"
  then have e: "Ext (raw (Module p)) = [] \<or> Ext (raw (Module p)) = ''.js''"
    by (simp add: wf_udf_def wf_module_def)
  have "\<exists>x. r = x @ ''.js''" if x: "Ext r = ''.js''" for r
  proof -
    obtain a where l: "last (Split (CHR ''/'') r) = a @ ''.js''"
      using x by (auto simp: Ext_last cut_last_Some split: option.splits)
    show ?thesis
    proof (cases "CHR ''/'' \<in> set r")
      case True
      then obtain u v where r: "r = u @ CHR ''/'' # v" "CHR ''/'' \<notin> set v"
        by (meson split_list_last)
      then have "v = a @ ''.js''"
        using l by (simp add: Split_append_sep Split_id)
      with r show ?thesis by simp
    next
      case False
      with l show ?thesis by (simp add: Split_id)
    qed
  qed
  with e show ?thesis
    by (auto simp: Canonicalize_def CanonicalizeModule_craw)
qed

lemma syncWireUDFPath_inj:
  assumes p: "wf_udf p" and q: "wf_udf q"
    and e: "syncWireUDFPath (Canonicalize p) = syncWireUDFPath (Canonicalize q)"
  shows "Canonicalize p = Canonicalize q"
proof -
  obtain x y where x: "craw (CModule (Canonicalize p)) = x @ ''.js''" and y: "craw (CModule (Canonicalize q)) = y @ ''.js''"
    using canonical_js [OF p] canonical_js [OF q] by blast
  have nc: "CHR '':'' \<notin> set (craw (CModule (Canonicalize u)))" if "wf_udf u" for u
    using that canonical_no_colon [of "raw (Module u)"]
    by (simp add: wf_udf_def Canonicalize_def CanonicalizeModule_def split: if_splits)
  have w: "syncWireUDFPath (Canonicalize p) = x @ '':'' @ CFunction (Canonicalize p)"
    "syncWireUDFPath (Canonicalize q) = y @ '':'' @ CFunction (Canonicalize q)"
    unfolding syncWireUDFPath_def x y by (simp_all only: TrimSuffix_append)
  have "CHR '':'' \<notin> set x" "CHR '':'' \<notin> set y"
    using nc [OF p] nc [OF q] x y by simp_all
  then have "x = y \<and> CFunction (Canonicalize p) = CFunction (Canonicalize q)"
    using w e Cut_append [of "CHR '':''" x "CFunction (Canonicalize p)"]
      Cut_append [of "CHR '':''" y "CFunction (Canonicalize q)"] by simp
  with x y show ?thesis
    by simp
qed

section \<open>Properties\<close>

text \<open>
  two function names have the same wire path only if they name the same canonical
  module and function.
\<close>

theorem canonical_query_path_inj:
  assumes "canonicalQueryPath s = Inr r" and "canonicalQueryPath t = Inr r"
  shows "\<exists>n m p q. ParseFunctionPath s = Inr n \<and> ParseUDFPath n = Inr p \<and>
    ParseFunctionPath t = Inr m \<and> ParseUDFPath m = Inr q \<and> Canonicalize p = Canonicalize q"
  using assms syncWireUDFPath_inj ParseUDFPath_wf unfolding canonicalQueryPath_def by (fastforce simp: res_simps)

theorem canonical_query_path_inj_witness:
  "\<exists>n m p q. ParseFunctionPath ''api.m.f'' = Inr n \<and> ParseUDFPath n = Inr p \<and>
    ParseFunctionPath ''internal.m.f'' = Inr m \<and> ParseUDFPath m = Inr q \<and> Canonicalize p = Canonicalize q"
proof -
  have "ParseUDFPath ''m:f'' = Inr \<lparr>Module = \<lparr>raw = ''m''\<rparr>, Function = Some ''f''\<rparr>"
    by code_simp
  then have "ParseFunctionPath ''api.m.f'' = Inr ''m:f''" "ParseFunctionPath ''internal.m.f'' = Inr ''m:f''"
    "ParseUDFPath ''m:f'' = Inr \<lparr>Module = \<lparr>raw = ''m''\<rparr>, Function = Some ''f''\<rparr>"
    using ParseFunctionPath_dotted [of "''api''" "[''m'']" "''f''"]
      ParseFunctionPath_dotted [of "''internal''" "[''m'']" "''f''"] by simp_all
  then show ?thesis
    by (intro canonical_query_path_inj) (simp_all add: canonicalQueryPath_def)
qed

text \<open>
  arguments that are a Go integer pass the check that arguments encode to an object,
  because the wire form of an integer is a map: the request is sent with the integer as
  its argument. A plain float, whose wire form is a number, is rejected.
\<close>

theorem integer_arguments_accepted:
  "syncQueryArgValue (GInt n) = Inr (VInt64 n) \<and>
   syncQueryArgValue (GFloat f) =
     (if isSpecialFloat f then Inr (VFloat64 f) else Inl (ClientError ArgsNotObject))"
proof -
  have "valueFromWireJSON (encodedInt64 n) = Inr (VInt64 n)"
    using valueFromWire_encoded(1) [of n]
    by (simp add: valueFromWireJSON_def ParseValueJSON_def encodedInt64_def)
  moreover have "valueFromWireJSON (encodedFloat64 f) = Inr (VFloat64 f)" if "isSpecialFloat f"
    using that valueFromWire_encoded(2) [of f]
    by (simp add: valueFromWireJSON_def ParseValueJSON_def encodedFloat64_def)
  ultimately show ?thesis
    by (simp add: syncQueryArgValue_def encodeArgs_def EncodeValue_def encodedInt64_def encodedFloat64_def)
qed

end
