(* ===== verification/Base_Optimistic.thy ===== *)
theory Base_Optimistic
  imports Base_Canonical Sync_Protocol
begin

text \<open>
  Optimistic updates: \<open>baseclient/optimistic_updates.go\<close>. The store an update works on holds
  a copy of the server's results and the active queries. An update is a Go callback; what
  it can do to the store is a sequence of calls of the store's four methods, each of which
  may depend on the replies to the calls before it, so a callback is a tree of such calls
  (a callback is documented to be synchronous and not to call the client).
\<close>

text \<open>
  The counter of subscribers is kept unbounded; \<open>Base_Requests.subscriber_count\<close> bounds it by
  the index given out last, so that the \<open>int\<close> of the code does not wrap.
\<close>

record localBaseQuery =
  lq_id :: QueryID
  lq_canonicalPath :: string
  lq_args :: "Value list"
  lq_numSubscribers :: int
  lq_nextSubscriberIdx :: "64 word"

record OptimisticQueryResult =
  oq_Path :: string
  oq_Args :: Value
  oq_Value :: Value
  oq_HasValue :: bool

record OptimisticLocalStore =
  st_results :: "(QueryID, FunctionResult) gomap"
  st_queries :: "(string, localBaseQuery) gomap"

definition optimisticResultValue :: "FunctionResult \<Rightarrow> Value option" where
  "optimisticResultValue r = (if \<not> IsValue r then None else Value_of r)"

definition Store_GetQuery :: "OptimisticLocalStore \<Rightarrow> string \<Rightarrow> gval \<Rightarrow> Value option res" where
  "Store_GetQuery s path args =
     rbind (canonicalQuery path args) (\<lambda>(_, _, token).
       case mget (st_queries s) token of
         None \<Rightarrow> Inr None
       | Some query \<Rightarrow>
           (case mget (st_results s) (lq_id query) of
              None \<Rightarrow> Inr None
            | Some result \<Rightarrow> Inr (optimisticResultValue result)))"

definition sortedBaseQueries :: "(string, localBaseQuery) gomap \<Rightarrow> localBaseQuery list" where
  "sortedBaseQueries qs = sort_key lq_id (map snd qs)"

definition optimistic_entry :: "OptimisticLocalStore \<Rightarrow> localBaseQuery \<Rightarrow> OptimisticQueryResult" where
  "optimistic_entry s query =
     (let entry = \<lparr>oq_Path = lq_canonicalPath query,
                   oq_Args = (case lq_args query of [] \<Rightarrow> VNull | a # _ \<Rightarrow> a),
                   oq_Value = VNull, oq_HasValue = False\<rparr>
      in case mget (st_results s) (lq_id query) of
           None \<Rightarrow> entry
         | Some result \<Rightarrow>
             (case optimisticResultValue result of
                None \<Rightarrow> entry
              | Some v \<Rightarrow> entry\<lparr>oq_Value := v, oq_HasValue := True\<rparr>))"

definition Store_GetAllQueries :: "OptimisticLocalStore \<Rightarrow> string \<Rightarrow> OptimisticQueryResult list res" where
  "Store_GetAllQueries s path =
     rbind (canonicalQueryPath path) (\<lambda>canonicalPath.
     Inr (map (optimistic_entry s)
       (filter (\<lambda>query. lq_canonicalPath query = canonicalPath) (sortedBaseQueries (st_queries s)))))"

definition Store_SetQuery :: "OptimisticLocalStore \<Rightarrow> string \<Rightarrow> gval \<Rightarrow> gval \<Rightarrow> unit res \<times> OptimisticLocalStore" where
  "Store_SetQuery s path args val =
     (case canonicalQuery path args of
        Inl e \<Rightarrow> (Inl e, s)
      | Inr (_, _, token) \<Rightarrow>
          (case mget (st_queries s) token of
             None \<Rightarrow> (Inr (), s)
           | Some query \<Rightarrow>
               (case ValueFromGo val of
                  Inl e \<Rightarrow> (Inl (Wrapped (ClientError EncodeOptimisticValue) e), s)
                | Inr v \<Rightarrow> (Inr (), s\<lparr>st_results := mput (lq_id query) (ValueResult v) (st_results s)\<rparr>))))"

definition Store_SetQueryLoading :: "OptimisticLocalStore \<Rightarrow> string \<Rightarrow> gval \<Rightarrow> unit res \<times> OptimisticLocalStore" where
  "Store_SetQueryLoading s path args =
     (case canonicalQuery path args of
        Inl e \<Rightarrow> (Inl e, s)
      | Inr (_, _, token) \<Rightarrow>
          (case mget (st_queries s) token of
             None \<Rightarrow> (Inr (), s)
           | Some query \<Rightarrow> (Inr (), s\<lparr>st_results := mdel (lq_id query) (st_results s)\<rparr>)))"

text \<open>An \<open>OptimisticUpdate\<close>.\<close>

datatype OptimisticUpdate =
    OReturn
  | OFail error
  | OGetQuery string gval "Value option res \<Rightarrow> OptimisticUpdate"
  | OGetAllQueries string "OptimisticQueryResult list res \<Rightarrow> OptimisticUpdate"
  | OSetQuery string gval gval "unit res \<Rightarrow> OptimisticUpdate"
  | OSetQueryLoading string gval "unit res \<Rightarrow> OptimisticUpdate"

primrec run_update :: "OptimisticUpdate \<Rightarrow> OptimisticLocalStore \<Rightarrow> unit res \<times> OptimisticLocalStore" where
  "run_update OReturn s = (Inr (), s)"
| "run_update (OFail e) s = (Inl e, s)"
| "run_update (OGetQuery path args k) s = run_update (k (Store_GetQuery s path args)) s"
| "run_update (OGetAllQueries path k) s = run_update (k (Store_GetAllQueries s path)) s"
| "run_update (OSetQuery path args val k) s =
     (case Store_SetQuery s path args val of (r, s') \<Rightarrow> run_update (k r) s')"
| "run_update (OSetQueryLoading path args k) s =
     (case Store_SetQueryLoading s path args of (r, s') \<Rightarrow> run_update (k r) s')"

text \<open>
  The options of a mutation: \<open>WithOptimisticUpdate\<close> of a callback that may be nil, or a
  nil option.
\<close>

type_synonym SyncMutationOption = "OptimisticUpdate option option"

definition syncMutationOptionsFrom :: "SyncMutationOption list \<Rightarrow> OptimisticUpdate option" where
  "syncMutationOptionsFrom opts = fold (\<lambda>opt out. case opt of None \<Rightarrow> out | Some u \<Rightarrow> u) opts None"

section \<open>What an update can change\<close>

definition active_ids :: "(string, localBaseQuery) gomap \<Rightarrow> QueryID set" where
  "active_ids qs = lq_id ` ran (mget qs)"

text \<open>A store that may have replaced another: the same queries, and results that differ in active queries only.\<close>

definition store_le :: "OptimisticLocalStore \<Rightarrow> OptimisticLocalStore \<Rightarrow> bool" where
  "store_le s t \<longleftrightarrow> st_queries t = st_queries s \<and> (mwf (st_results s) \<longrightarrow> mwf (st_results t)) \<and>
     (\<forall>i. i \<notin> active_ids (st_queries s) \<longrightarrow> mget (st_results t) i = mget (st_results s) i)"

lemma store_le_refl: "store_le s s"
  by (simp add: store_le_def)

lemma store_le_trans: "store_le s t \<Longrightarrow> store_le t u \<Longrightarrow> store_le s u"
  by (auto simp: store_le_def)

lemma active_ids_mget: "mget qs token = Some q \<Longrightarrow> lq_id q \<in> active_ids qs"
  by (auto simp: active_ids_def ran_def)

lemma Store_SetQuery_le: "store_le s (snd (Store_SetQuery s path args val))"
  by (auto simp: Store_SetQuery_def store_le_def active_ids_mget split: sum.split option.split)

lemma Store_SetQueryLoading_le: "store_le s (snd (Store_SetQueryLoading s path args))"
  by (auto simp: Store_SetQueryLoading_def store_le_def active_ids_mget split: sum.split option.split)

lemma run_update_le: "store_le s (snd (run_update u s))"
proof (induction u arbitrary: s)
  case (OSetQuery path args val k)
  obtain r s' where rs: "Store_SetQuery s path args val = (r, s')"
    by (meson surj_pair)
  then have "store_le s s'"
    using Store_SetQuery_le [of s path args val] by simp
  with rs show ?case
    using OSetQuery [of "k r" s'] by (auto intro: store_le_trans)
next
  case (OSetQueryLoading path args k)
  obtain r s' where rs: "Store_SetQueryLoading s path args = (r, s')"
    by (meson surj_pair)
  then have "store_le s s'"
    using Store_SetQueryLoading_le [of s path args] by simp
  with rs show ?case
    using OSetQueryLoading [of "k r" s'] by (auto intro: store_le_trans)
qed (auto simp: store_le_refl)

end
