(* ===== verification/Base_Client.thy ===== *)
theory Base_Client
  imports Base_Optimistic
begin

text \<open>
  The base client: \<open>baseclient/client_state.go\<close>, \<open>client_receive.go\<close> and the types of
  \<open>protocol_exports.go\<close>. The struct \<open>Client\<close> is a record of the same fields, and every
  method a function that returns its results and the new state, also when it fails: an
  error may leave the state changed. Pointers to queries and requests live in one map
  each, so an update through a pointer is an update of that map. Identifiers and versions
  are 32-bit words and wrap around.
\<close>

section \<open>Subscribers\<close>

datatype SubscriberID = SubscriberID (queryID: QueryID) (index: "64 word")

instantiation SubscriberID :: linorder
begin

definition less_eq_SubscriberID :: "SubscriberID \<Rightarrow> SubscriberID \<Rightarrow> bool" where
  "less_eq_SubscriberID a b \<longleftrightarrow> queryID a < queryID b \<or> (queryID a = queryID b \<and> index a \<le> index b)"

definition less_SubscriberID :: "SubscriberID \<Rightarrow> SubscriberID \<Rightarrow> bool" where
  "less_SubscriberID a b \<longleftrightarrow> queryID a < queryID b \<or> (queryID a = queryID b \<and> index a < index b)"

instance
  by standard (auto simp: less_eq_SubscriberID_def less_SubscriberID_def intro: SubscriberID.expand)

end

record QueryResults =
  qs_subscribers :: "(SubscriberID, unit) gomap"
  qs_results :: "(QueryID, FunctionResult) gomap"

record QueryResultEntry =
  en_SubscriberID :: SubscriberID
  en_Result :: "FunctionResult option"

definition QueryResults_Get :: "QueryResults \<Rightarrow> SubscriberID \<Rightarrow> FunctionResult option" where
  "QueryResults_Get r i =
     (case mget (qs_subscribers r) i of
        None \<Rightarrow> None
      | Some _ \<Rightarrow> mget (qs_results r) (queryID i))"

definition QueryResults_Len :: "QueryResults \<Rightarrow> nat" where
  "QueryResults_Len r = length (qs_subscribers r)"

definition QueryResults_IsEmpty :: "QueryResults \<Rightarrow> bool" where
  "QueryResults_IsEmpty r \<longleftrightarrow> length (qs_subscribers r) = 0"

text \<open>An entry's \<open>Result\<close> and \<open>HasResult\<close> are one option.\<close>

definition QueryResults_Iter :: "QueryResults \<Rightarrow> QueryResultEntry list" where
  "QueryResults_Iter r =
     map (\<lambda>i. \<lparr>en_SubscriberID = i, en_Result = mget (qs_results r) (queryID i)\<rparr>)
       (sort (mkeys (qs_subscribers r)))"

section \<open>Authentication tokens\<close>

record AuthToken =
  at_TokenType :: AuthTokenType
  at_Value :: string
  at_ActingAs :: "SyncUserIdentityAttributes option"

definition UserAuthToken :: "string \<Rightarrow> AuthToken" where
  "UserAuthToken token = \<lparr>at_TokenType = AuthTokenUser, at_Value = token, at_ActingAs = None\<rparr>"

definition complete_identity :: "SyncUserIdentityAttributes \<Rightarrow> SyncUserIdentityAttributes" where
  "complete_identity i =
     (if TokenIdentifier i = [] \<and> Issuer i \<noteq> [] \<and> Subject i \<noteq> []
      then i\<lparr>TokenIdentifier := Issuer i @ ''|'' @ Subject i\<rparr> else i)"

definition AdminAuthToken :: "string \<Rightarrow> SyncUserIdentityAttributes list \<Rightarrow> AuthToken" where
  "AdminAuthToken token actingAs =
     \<lparr>at_TokenType = AuthTokenAdmin, at_Value = token,
      at_ActingAs = (case actingAs of [] \<Rightarrow> None | i # _ \<Rightarrow> Some (complete_identity i))\<rparr>"

definition NoAuthToken :: AuthToken where
  "NoAuthToken = \<lparr>at_TokenType = AuthTokenNone, at_Value = [], at_ActingAs = None\<rparr>"

text \<open>
  An \<open>AuthTokenFetcher\<close> is a closure the client made over a token, or a callback of the
  user; what the callback with a given name returns when it is called with
  \<open>forceRefresh\<close> is given by the environment of the call.
\<close>

datatype AuthTokenFetcher = StaticFetcher AuthToken | CallbackFetcher nat

type_synonym fetch_env = "nat \<Rightarrow> bool \<Rightarrow> AuthToken res"

fun call_fetcher :: "fetch_env \<Rightarrow> AuthTokenFetcher \<Rightarrow> bool \<Rightarrow> AuthToken res" where
  "call_fetcher env (StaticFetcher token) forceRefresh = Inr token"
| "call_fetcher env (CallbackFetcher n) forceRefresh = env n forceRefresh"

section \<open>The state\<close>

datatype syncRequestKind = syncRequestMutation | syncRequestAction

definition actionReconnectErrorMessage :: string where
  "actionReconnectErrorMessage = ''Connection lost while action was in flight''"

definition completedRequestRetentionLimit :: int where
  "completedRequestRetentionLimit = 1024"

record trackedSyncRequest =
  rq_id :: RequestID
  rq_kind :: syncRequestKind
  rq_message :: ClientMessage
  rq_optimisticUpdate :: "OptimisticUpdate option"
  rq_result :: FunctionResult
  rq_hasResult :: bool
  rq_ts :: "SyncTimestamp option"

definition zero_FunctionResult :: FunctionResult where
  "zero_FunctionResult = \<lparr>res_value = VNull, errorMessage = [], convexError = None\<rparr>"

record Client =
  nextQueryID :: QueryID
  querySetVersion :: QuerySetVersion
  queries :: "(string, localBaseQuery) gomap"
  queryIDToToken :: "(QueryID, string) gomap"
  subscribers :: "(SubscriberID, unit) gomap"
  serverResults :: "(QueryID, FunctionResult) gomap"
  results :: "(QueryID, FunctionResult) gomap"
  remoteVersion :: StateVersion
  identityVersion :: IdentityVersion
  authFetcher :: "AuthTokenFetcher option"
  outgoing :: "ClientMessage list"
  maxObservedTimestamp :: "SyncTimestamp option"
  nextRequestID :: RequestID
  requests :: "(RequestID, trackedSyncRequest) gomap"
  completedMutations :: "(RequestID, unit) gomap"
  completedMutationOrder :: "RequestID list"
  mutationResults :: "(RequestID, FunctionResult) gomap"
  actionResults :: "(RequestID, FunctionResult) gomap"
  actionResultOrder :: "RequestID list"

definition New :: Client where
  "New =
     \<lparr>nextQueryID = 0, querySetVersion = 0, queries = [], queryIDToToken = [], subscribers = [],
      serverResults = [], results = [], remoteVersion = zero_StateVersion, identityVersion = 0,
      authFetcher = None, outgoing = [], maxObservedTimestamp = None, nextRequestID = 0, requests = [],
      completedMutations = [], completedMutationOrder = [], mutationResults = [], actionResults = [],
      actionResultOrder = []\<rparr>"

section \<open>Queries\<close>

definition zero_journal :: OptionalString where
  "zero_journal = \<lparr>os_Present = False, os_Value = None\<rparr>"

definition Subscribe :: "string \<Rightarrow> gval \<Rightarrow> Client \<Rightarrow> SubscriberID res \<times> Client" where
  "Subscribe path args c =
     (case canonicalQuery path args of
        Inl e \<Rightarrow> (Inl e, c)
      | Inr (canonicalPath, encodedArgs, token) \<Rightarrow>
          (case mget (queries c) token of
             Some query \<Rightarrow>
               let query = query\<lparr>lq_numSubscribers := lq_numSubscribers query + 1,
                                 lq_nextSubscriberIdx := lq_nextSubscriberIdx query + 1\<rparr>;
                   i = SubscriberID (lq_id query) (lq_nextSubscriberIdx query)
               in (Inr i, c\<lparr>queries := mput token query (queries c),
                            subscribers := mput i () (subscribers c)\<rparr>)
           | None \<Rightarrow>
               let qid = nextQueryID c;
                   baseVersion = querySetVersion c;
                   query = \<lparr>lq_id = qid, lq_canonicalPath = canonicalPath, lq_args = encodedArgs,
                            lq_numSubscribers = 1, lq_nextSubscriberIdx = 1\<rparr>;
                   i = SubscriberID qid (lq_nextSubscriberIdx query)
               in (Inr i, c\<lparr>nextQueryID := nextQueryID c + 1,
                            querySetVersion := querySetVersion c + 1,
                            queries := mput token query (queries c),
                            queryIDToToken := mput qid token (queryIDToToken c),
                            subscribers := mput i () (subscribers c),
                            outgoing := outgoing c @
                              [ModifyQuerySet \<lparr>mq_BaseVersion = baseVersion, mq_NewVersion = querySetVersion c + 1,
                                 mq_Modifications = Some [Add \<lparr>qa_QueryID = qid, qa_UDFPath = canonicalPath,
                                   qa_Args = Some encodedArgs, qa_Journal = zero_journal,
                                   qa_ComponentPath = []\<rparr>]\<rparr>]\<rparr>)))"

definition PopNextMessage :: "Client \<Rightarrow> ClientMessage option \<times> Client" where
  "PopNextMessage c =
     (case outgoing c of
        [] \<Rightarrow> (None, c)
      | msg # rest \<Rightarrow> (Some msg, c\<lparr>outgoing := rest\<rparr>))"

definition Unsubscribe :: "SubscriberID \<Rightarrow> Client \<Rightarrow> unit res \<times> Client" where
  "Unsubscribe i c =
     (case mget (subscribers c) i of
        None \<Rightarrow> (Inl (ClientError UnknownSubscriber), c)
      | Some _ \<Rightarrow>
          let c = c\<lparr>subscribers := mdel i (subscribers c)\<rparr>
          in case mget (queryIDToToken c) (queryID i) of
               None \<Rightarrow> (Inl (ClientError (UnknownQueryID (queryID i))), c)
             | Some token \<Rightarrow>
                 (case mget (queries c) token of
                    None \<Rightarrow> (Inl (ClientError (QueryTokenMissing (queryID i))), c)
                  | Some query \<Rightarrow>
                      if 1 < lq_numSubscribers query
                      then (Inr (), c\<lparr>queries := mput token
                              (query\<lparr>lq_numSubscribers := lq_numSubscribers query - 1\<rparr>) (queries c)\<rparr>)
                      else (Inr (), c\<lparr>queries := mdel token (queries c),
                              queryIDToToken := mdel (queryID i) (queryIDToToken c),
                              serverResults := mdel (queryID i) (serverResults c),
                              results := mdel (queryID i) (results c),
                              querySetVersion := querySetVersion c + 1,
                              outgoing := outgoing c @
                                [ModifyQuerySet \<lparr>mq_BaseVersion = querySetVersion c,
                                   mq_NewVersion = querySetVersion c + 1,
                                   mq_Modifications = Some [Remove \<lparr>qr_QueryID = queryID i\<rparr>]\<rparr>]\<rparr>)))"

definition isActiveQuery :: "Client \<Rightarrow> QueryID \<Rightarrow> bool" where
  "isActiveQuery c i \<longleftrightarrow> mget (queryIDToToken c) i \<noteq> None"

definition GetQuery :: "Client \<Rightarrow> QueryID \<Rightarrow> FunctionResult option" where
  "GetQuery c i = (case mget (queryIDToToken c) i of None \<Rightarrow> None | Some _ \<Rightarrow> mget (results c) i)"

definition queryResultsSnapshot :: "Client \<Rightarrow> QueryResults" where
  "queryResultsSnapshot c = \<lparr>qs_subscribers = mof_list (subscribers c), qs_results = mof_list (results c)\<rparr>"

definition LatestResults :: "Client \<Rightarrow> QueryResults" where
  "LatestResults c = queryResultsSnapshot c"

definition MaxObservedTimestamp :: "Client \<Rightarrow> SyncTimestamp option" where
  "MaxObservedTimestamp c = maxObservedTimestamp c"

definition MutationResult :: "Client \<Rightarrow> RequestID \<Rightarrow> FunctionResult option" where
  "MutationResult c i = mget (mutationResults c) i"

definition ActionResult :: "Client \<Rightarrow> RequestID \<Rightarrow> FunctionResult option" where
  "ActionResult c i = mget (actionResults c) i"

section \<open>Authentication\<close>

definition queueAuth :: "AuthToken \<Rightarrow> Client \<Rightarrow> unit res \<times> Client" where
  "queueAuth token c =
     (let token = (if at_TokenType token = [] then token\<lparr>at_TokenType := AuthTokenNone\<rparr> else token);
          token = (if at_TokenType token = AuthTokenAdmin
                   then token\<lparr>at_ActingAs := map_option complete_identity (at_ActingAs token)\<rparr> else token)
      in (Inr (), c\<lparr>identityVersion := identityVersion c + 1,
                    outgoing := outgoing c @
                      [Authenticate \<lparr>au_BaseVersion = identityVersion c, au_TokenType = at_TokenType token,
                         au_Value = at_Value token, au_ActingAs = at_ActingAs token\<rparr>]\<rparr>))"

definition SetAuth :: "string \<Rightarrow> Client \<Rightarrow> unit res \<times> Client" where
  "SetAuth token c =
     (let auth = UserAuthToken token
      in queueAuth auth (c\<lparr>authFetcher := Some (StaticFetcher auth)\<rparr>))"

definition SetAdminAuth :: "string \<Rightarrow> SyncUserIdentityAttributes list \<Rightarrow> Client \<Rightarrow> unit res \<times> Client" where
  "SetAdminAuth token actingAs c =
     (let auth = AdminAuthToken token actingAs
      in queueAuth auth (c\<lparr>authFetcher := Some (StaticFetcher auth)\<rparr>))"

definition ClearAuth :: "Client \<Rightarrow> unit res \<times> Client" where
  "ClearAuth c = queueAuth NoAuthToken (c\<lparr>authFetcher := None\<rparr>)"

definition SetAuthCallback :: "fetch_env \<Rightarrow> AuthTokenFetcher option \<Rightarrow> Client \<Rightarrow> unit res \<times> Client" where
  "SetAuthCallback env fetcher c =
     (case fetcher of
        None \<Rightarrow> queueAuth NoAuthToken (c\<lparr>authFetcher := None\<rparr>)
      | Some f \<Rightarrow>
          (case call_fetcher env f False of
             Inl e \<Rightarrow> (Inl e, c)
           | Inr token \<Rightarrow> queueAuth token (c\<lparr>authFetcher := Some f\<rparr>)))"

definition RefreshAuthForReconnect :: "fetch_env \<Rightarrow> Client \<Rightarrow> unit res \<times> Client" where
  "RefreshAuthForReconnect env c =
     (case authFetcher c of
        None \<Rightarrow> (Inl (ClientError NoAuthCallback), c)
      | Some f \<Rightarrow>
          (case call_fetcher env f True of
             Inl e \<Rightarrow> (Inl e, c)
           | Inr token \<Rightarrow> queueAuth token c))"

section \<open>Requests\<close>

definition optimisticRequests :: "trackedSyncRequest option \<Rightarrow> Client \<Rightarrow> trackedSyncRequest list" where
  "optimisticRequests candidate c =
     (let optimistic = (\<lambda>r. rq_kind r = syncRequestMutation \<and> rq_optimisticUpdate r \<noteq> None)
      in sort_key rq_id (filter optimistic (map snd (requests c)) @
           (case candidate of None \<Rightarrow> [] | Some r \<Rightarrow> if optimistic r then [r] else [])))"

fun apply_updates :: "trackedSyncRequest list \<Rightarrow> OptimisticLocalStore \<Rightarrow> OptimisticLocalStore res" where
  "apply_updates [] s = Inr s"
| "apply_updates (r # rs) s =
     (case rq_optimisticUpdate r of
        None \<Rightarrow> apply_updates rs s
      | Some u \<Rightarrow>
          (case run_update u s of
             (Inl e, _) \<Rightarrow> Inl (Wrapped (ClientError (OptimisticUpdateFailed (rq_id r))) e)
           | (Inr _, s') \<Rightarrow> apply_updates rs s'))"

definition copyFunctionResults :: "(QueryID, FunctionResult) gomap \<Rightarrow> (QueryID, FunctionResult) gomap" where
  "copyFunctionResults rs = mof_list rs"

definition optimisticResultsWith ::
  "trackedSyncRequest option \<Rightarrow> Client \<Rightarrow> (QueryID, FunctionResult) gomap res" where
  "optimisticResultsWith candidate c =
     (let rs = copyFunctionResults (serverResults c);
          reqs = optimisticRequests candidate c
      in if reqs = [] then Inr rs
         else rbind (apply_updates reqs \<lparr>st_results = rs, st_queries = queries c\<rparr>) (\<lambda>s. Inr (st_results s)))"

definition recomputeOptimisticResults :: "Client \<Rightarrow> unit res \<times> Client" where
  "recomputeOptimisticResults c =
     (case optimisticResultsWith None c of
        Inl e \<Rightarrow> (Inl e, c)
      | Inr rs \<Rightarrow> (Inr (), c\<lparr>results := rs\<rparr>))"

text \<open>\<open>mutation\<close>: the request id and, if there is an optimistic update, a snapshot.\<close>

definition mutation ::
  "string \<Rightarrow> gval \<Rightarrow> SyncMutationOption list \<Rightarrow> Client \<Rightarrow> (RequestID \<times> QueryResults option) res \<times> Client" where
  "mutation path args opts c =
     (case canonicalRequest path args of
        Inl e \<Rightarrow> (Inl e, c)
      | Inr (canonicalPath, encodedArgs) \<Rightarrow>
          let requestID = nextRequestID c;
              msg = Mutation \<lparr>mu_RequestID = requestID, mu_UDFPath = canonicalPath,
                              mu_Args = Some encodedArgs, mu_ComponentPath = []\<rparr>;
              request = \<lparr>rq_id = requestID, rq_kind = syncRequestMutation, rq_message = msg,
                         rq_optimisticUpdate = syncMutationOptionsFrom opts,
                         rq_result = zero_FunctionResult, rq_hasResult = False, rq_ts = None\<rparr>;
              finish = (\<lambda>c. c\<lparr>nextRequestID := nextRequestID c + 1,
                             requests := mput requestID request (requests c),
                             outgoing := outgoing c @ [msg]\<rparr>)
          in case syncMutationOptionsFrom opts of
               None \<Rightarrow> (Inr (requestID, None), finish c)
             | Some _ \<Rightarrow>
                 (case optimisticResultsWith (Some request) c of
                    Inl e \<Rightarrow> (Inl e, c)
                  | Inr rs \<Rightarrow>
                      let c = c\<lparr>results := rs\<rparr>
                      in (Inr (requestID, Some (queryResultsSnapshot c)), finish c)))"

definition Client_Mutation ::
  "string \<Rightarrow> gval \<Rightarrow> SyncMutationOption list \<Rightarrow> Client \<Rightarrow> RequestID res \<times> Client" where
  "Client_Mutation path args opts c =
     (case mutation path args opts c of (r, c') \<Rightarrow> (rbind r (\<lambda>(i, _). Inr i), c'))"

definition Client_Action :: "string \<Rightarrow> gval \<Rightarrow> Client \<Rightarrow> RequestID res \<times> Client" where
  "Client_Action path args c =
     (case canonicalRequest path args of
        Inl e \<Rightarrow> (Inl e, c)
      | Inr (canonicalPath, encodedArgs) \<Rightarrow>
          let requestID = nextRequestID c;
              msg = Action \<lparr>ac_RequestID = requestID, ac_UDFPath = canonicalPath,
                            ac_Args = Some encodedArgs, ac_ComponentPath = []\<rparr>
          in (Inr requestID, c\<lparr>nextRequestID := nextRequestID c + 1,
                requests := mput requestID
                  \<lparr>rq_id = requestID, rq_kind = syncRequestAction, rq_message = msg,
                   rq_optimisticUpdate = None, rq_result = zero_FunctionResult, rq_hasResult = False,
                   rq_ts = None\<rparr> (requests c),
                outgoing := outgoing c @ [msg]\<rparr>))"

subsection \<open>Remembering results\<close>

definition normalizedCompletedRequestRetentionLimit :: int where
  "normalizedCompletedRequestRetentionLimit =
     (if completedRequestRetentionLimit < 1 then 1 else completedRequestRetentionLimit)"

text \<open>The loops that evict the oldest results, over the order of completion.\<close>

fun evict_mutations :: "RequestID list \<Rightarrow> Client \<Rightarrow> Client" where
  "evict_mutations [] c = c\<lparr>completedMutationOrder := []\<rparr>"
| "evict_mutations (evict # order) c =
     (if normalizedCompletedRequestRetentionLimit < int (length (evict # order))
      then evict_mutations order (c\<lparr>mutationResults := mdel evict (mutationResults c),
                                     completedMutations := mdel evict (completedMutations c)\<rparr>)
      else c\<lparr>completedMutationOrder := evict # order\<rparr>)"

definition rememberMutationResult :: "RequestID \<Rightarrow> FunctionResult \<Rightarrow> Client \<Rightarrow> Client" where
  "rememberMutationResult i result c =
     evict_mutations (completedMutationOrder c @ [i])
       (c\<lparr>mutationResults := mput i result (mutationResults c),
          completedMutations := mput i () (completedMutations c)\<rparr>)"

fun evict_actions :: "RequestID list \<Rightarrow> Client \<Rightarrow> Client" where
  "evict_actions [] c = c\<lparr>actionResultOrder := []\<rparr>"
| "evict_actions (evict # order) c =
     (if normalizedCompletedRequestRetentionLimit < int (length (evict # order))
      then evict_actions order (c\<lparr>actionResults := mdel evict (actionResults c)\<rparr>)
      else c\<lparr>actionResultOrder := evict # order\<rparr>)"

definition rememberActionResult :: "RequestID \<Rightarrow> FunctionResult \<Rightarrow> Client \<Rightarrow> Client" where
  "rememberActionResult i result c =
     evict_actions (actionResultOrder c @ [i]) (c\<lparr>actionResults := mput i result (actionResults c)\<rparr>)"

text \<open>\<open>completeMutationRequest\<close>: whether the request had an optimistic update.\<close>

definition completeMutationRequest :: "RequestID \<Rightarrow> Client \<Rightarrow> bool \<times> Client" where
  "completeMutationRequest i c =
     (case mget (requests c) i of
        None \<Rightarrow> (False, c)
      | Some request \<Rightarrow>
          if \<not> rq_hasResult request then (False, c)
          else let c = rememberMutationResult i (rq_result request) c
               in (rq_optimisticUpdate request \<noteq> None, c\<lparr>requests := mdel i (requests c)\<rparr>))"

definition completed_through :: "SyncTimestamp \<Rightarrow> trackedSyncRequest \<Rightarrow> bool" where
  "completed_through ts request \<longleftrightarrow>
     rq_kind request = syncRequestMutation \<and> rq_hasResult request \<and>
     (case rq_ts request of None \<Rightarrow> False | Some t \<Rightarrow> t \<le> ts)"

definition completeMutationsThrough :: "SyncTimestamp \<Rightarrow> Client \<Rightarrow> Client" where
  "completeMutationsThrough ts c =
     fold (\<lambda>i c. snd (completeMutationRequest i c))
       (sort (map fst (filter (\<lambda>p. completed_through ts (snd p)) (requests c)))) c"

section \<open>Messages of the server\<close>

definition observeTimestamp :: "SyncTimestamp \<Rightarrow> Client \<Rightarrow> Client" where
  "observeTimestamp ts c =
     (case maxObservedTimestamp c of
        None \<Rightarrow> c\<lparr>maxObservedTimestamp := Some ts\<rparr>
      | Some t \<Rightarrow> if t < ts then c\<lparr>maxObservedTimestamp := Some ts\<rparr> else c)"

definition queryFailedResult :: "QueryFailed \<Rightarrow> FunctionResult" where
  "queryFailedResult m =
     (if ov_Present (qf_ErrorData m)
      then ConvexErrorResult \<lparr>Message = qf_ErrorMessage m, Data = ov_Value (qf_ErrorData m)\<rparr>
      else ErrorMessageResult (qf_ErrorMessage m))"

fun applyStateModification :: "StateModification \<Rightarrow> Client \<Rightarrow> Client" where
  "applyStateModification (Updated m) c =
     (if isActiveQuery c (qu_QueryID m)
      then c\<lparr>serverResults := mput (qu_QueryID m) (ValueResult (qu_Value m)) (serverResults c)\<rparr> else c)"
| "applyStateModification (Failed m) c =
     (if isActiveQuery c (qf_QueryID m)
      then c\<lparr>serverResults := mput (qf_QueryID m) (queryFailedResult m) (serverResults c)\<rparr> else c)"
| "applyStateModification (Removed m) c =
     c\<lparr>serverResults := mdel (qd_QueryID m) (serverResults c), results := mdel (qd_QueryID m) (results c)\<rparr>"

definition receiveTransition :: "TransitionMessage \<Rightarrow> Client \<Rightarrow> QueryResults option res \<times> Client" where
  "receiveTransition m c =
     (if tr_StartVersion m \<noteq> remoteVersion c then (Inl (ClientError TransitionVersionMismatch), c)
      else
        let c = fold applyStateModification (case tr_Modifications m of None \<Rightarrow> [] | Some ms \<Rightarrow> ms) c;
            c = c\<lparr>remoteVersion := tr_EndVersion m\<rparr>;
            c = observeTimestamp (sv_TS (tr_EndVersion m)) c;
            c = completeMutationsThrough (sv_TS (tr_EndVersion m)) c
        in case recomputeOptimisticResults c of
             (Inl e, c) \<Rightarrow> (Inl e, c)
           | (Inr _, c) \<Rightarrow> (Inr (Some (queryResultsSnapshot c)), c))"

definition functionResultFromResponse :: "bool \<Rightarrow> Value \<Rightarrow> string \<Rightarrow> OptionalValue \<Rightarrow> FunctionResult" where
  "functionResultFromResponse success val msg errdata =
     (if success then ValueResult val
      else if ov_Present errdata then ConvexErrorResult \<lparr>Message = msg, Data = ov_Value errdata\<rparr>
      else ErrorMessageResult msg)"

definition updateRequestFromMutationResponse :: "MutationResponseMessage \<Rightarrow> Client \<Rightarrow> unit res \<times> Client" where
  "updateRequestFromMutationResponse m c =
     (case mget (requests c) (mr_RequestID m) of
        None \<Rightarrow>
          (case mget (completedMutations c) (mr_RequestID m) of
             Some _ \<Rightarrow> (Inr (), c)
           | None \<Rightarrow> (Inl (ClientError (InvalidMutationRequest (mr_RequestID m))), c))
      | Some request \<Rightarrow>
          if rq_kind request \<noteq> syncRequestMutation
          then (Inl (ClientError (MismatchedMutationResponse (mr_RequestID m))), c)
          else
            let result = functionResultFromResponse (mr_Success m) (mr_Value m) (mr_ErrorMessage m) (mr_ErrorData m);
                c = c\<lparr>requests := mput (mr_RequestID m)
                        (request\<lparr>rq_result := result, rq_hasResult := True, rq_ts := mr_TS m\<rparr>) (requests c)\<rparr>
            in if \<not> mr_Success m
               then (case completeMutationRequest (mr_RequestID m) c of
                       (hadOptimistic, c) \<Rightarrow>
                         if hadOptimistic then recomputeOptimisticResults c else (Inr (), c))
               else if mr_TS m = None then (Inl (ClientError MutationMissingTimestamp), c)
               else (Inr (), c))"

definition receiveMutationResponse :: "MutationResponseMessage \<Rightarrow> Client \<Rightarrow> QueryResults option res \<times> Client" where
  "receiveMutationResponse m c =
     (let hadOptimistic = (case mget (requests c) (mr_RequestID m) of
                             None \<Rightarrow> False | Some request \<Rightarrow> rq_optimisticUpdate request \<noteq> None)
      in case updateRequestFromMutationResponse m c of
           (Inl e, c) \<Rightarrow> (Inl e, c)
         | (Inr _, c) \<Rightarrow>
             let c = (case mr_TS m of None \<Rightarrow> c | Some t \<Rightarrow> observeTimestamp t c)
             in if \<not> mr_Success m \<and> hadOptimistic then (Inr (Some (queryResultsSnapshot c)), c)
                else (Inr None, c))"

definition updateRequestFromActionResponse :: "ActionResponseMessage \<Rightarrow> Client \<Rightarrow> unit res \<times> Client" where
  "updateRequestFromActionResponse m c =
     (case mget (requests c) (ar_RequestID m) of
        None \<Rightarrow> (Inl (ClientError (InvalidActionRequest (ar_RequestID m))), c)
      | Some request \<Rightarrow>
          if rq_kind request \<noteq> syncRequestAction
          then (Inl (ClientError (MismatchedActionResponse (ar_RequestID m))), c)
          else
            let c = rememberActionResult (ar_RequestID m)
                      (functionResultFromResponse (ar_Success m) (ar_Value m) (ar_ErrorMessage m) (ar_ErrorData m)) c
            in (Inr (), c\<lparr>requests := mdel (ar_RequestID m) (requests c)\<rparr>))"

definition syncAuthErrorFromMessage :: "AuthErrorMessage \<Rightarrow> error" where
  "syncAuthErrorFromMessage m =
     ClientError (SyncAuthError (ae_Error m) (ae_BaseVersion m) (ae_AuthUpdateAttempted m))"

fun ReceiveMessage :: "ServerMessage \<Rightarrow> Client \<Rightarrow> QueryResults option res \<times> Client" where
  "ReceiveMessage (Transition m) c = receiveTransition m c"
| "ReceiveMessage (MutationResponse m) c = receiveMutationResponse m c"
| "ReceiveMessage (ActionResponse m) c =
     (case updateRequestFromActionResponse m c of (r, c) \<Rightarrow> (rbind r (\<lambda>_. Inr None), c))"
| "ReceiveMessage (AuthError m) c = (Inl (syncAuthErrorFromMessage m), c)"
| "ReceiveMessage (FatalError m) c = (Inl (ClientError (FatalServerError (fa_Error m))), c)"
| "ReceiveMessage Ping c = (Inr None, c)"
| "ReceiveMessage (TransitionChunk m) c = (Inl (ClientError UnexpectedTransitionChunk), c)"

section \<open>Reconnecting\<close>

text \<open>The order of \<open>ReplayOngoingRequests\<close>, and \<open>sort.Slice\<close> with it.\<close>

definition replay_less :: "trackedSyncRequest \<Rightarrow> trackedSyncRequest \<Rightarrow> bool" where
  "replay_less l r =
     (if rq_ts l \<noteq> None \<and> rq_ts r \<noteq> None \<and> the (rq_ts l) \<noteq> the (rq_ts r) then the (rq_ts r) < the (rq_ts l)
      else if (rq_ts l \<noteq> None) \<noteq> (rq_ts r \<noteq> None) then rq_ts l \<noteq> None
      else rq_id l < rq_id r)"

fun insert_by :: "('a \<Rightarrow> 'a \<Rightarrow> bool) \<Rightarrow> 'a \<Rightarrow> 'a list \<Rightarrow> 'a list" where
  "insert_by lt x [] = [x]"
| "insert_by lt x (y # ys) = (if lt y x then y # insert_by lt x ys else x # y # ys)"

definition sort_by :: "('a \<Rightarrow> 'a \<Rightarrow> bool) \<Rightarrow> 'a list \<Rightarrow> 'a list" where
  "sort_by lt xs = foldr (insert_by lt) xs []"

definition replay_requests :: "Client \<Rightarrow> trackedSyncRequest list" where
  "replay_requests c =
     sort_by replay_less (filter (\<lambda>r. rq_kind r = syncRequestMutation) (map snd (requests c)))"

definition ReplayOngoingRequests :: "Client \<Rightarrow> ClientMessage list" where
  "ReplayOngoingRequests c = map rq_message (replay_requests c)"

text \<open>\<open>append([]Value(nil), args...)\<close> is nil if there are no arguments.\<close>

definition replayQueryAdds :: "Client \<Rightarrow> QuerySetModification list" where
  "replayQueryAdds c =
     map (\<lambda>query. Add \<lparr>qa_QueryID = lq_id query, qa_UDFPath = lq_canonicalPath query,
                       qa_Args = (if lq_args query = [] then None else Some (lq_args query)),
                       qa_Journal = zero_journal, qa_ComponentPath = []\<rparr>)
       (sort_key lq_id (map snd (queries c)))"

definition cancelPendingActionsForReconnect :: "Client \<Rightarrow> Client" where
  "cancelPendingActionsForReconnect c =
     fold (\<lambda>i c. let c = rememberActionResult i (ErrorMessageResult actionReconnectErrorMessage) c
                 in c\<lparr>requests := mdel i (requests c)\<rparr>)
       (sort (map fst (filter (\<lambda>p. rq_kind (snd p) = syncRequestAction) (requests c)))) c"

definition RestartForReconnect :: "fetch_env \<Rightarrow> Client \<Rightarrow> unit res \<times> Client" where
  "RestartForReconnect env c =
     (let c = c\<lparr>outgoing := [], identityVersion := 0, querySetVersion := 0, remoteVersion := zero_StateVersion\<rparr>;
          c = cancelPendingActionsForReconnect c;
          finish = (\<lambda>c.
            let adds = replayQueryAdds c;
                c = (if adds \<noteq> []
                     then c\<lparr>querySetVersion := querySetVersion c + 1,
                            outgoing := outgoing c @
                              [ModifyQuerySet \<lparr>mq_BaseVersion = querySetVersion c,
                                 mq_NewVersion = querySetVersion c + 1, mq_Modifications = Some adds\<rparr>]\<rparr>
                     else c)
            in (Inr (), c\<lparr>outgoing := outgoing c @ ReplayOngoingRequests c\<rparr>))
      in case authFetcher c of
           None \<Rightarrow> finish c
         | Some _ \<Rightarrow>
             (case RefreshAuthForReconnect env c of
                (Inl e, c) \<Rightarrow> (Inl e, c)
              | (Inr _, c) \<Rightarrow> finish c))"

end
