(* ===== verification/Base_Invariant.thy ===== *)
theory Base_Invariant
  imports Base_Client
begin

text \<open>
  The invariant of the base client, kept by every operation whatever the server sends and
  whether the operation succeeds or fails, as long as no identifier wraps around.
\<close>

section \<open>The invariant\<close>

definition sub_ids :: "(SubscriberID, unit) gomap \<Rightarrow> QueryID \<Rightarrow> SubscriberID set" where
  "sub_ids subs k = {s. mget subs s \<noteq> None \<and> queryID s = k}"

text \<open>
  The three maps of queries agree: tokens and query ids are in bijection, ids are below
  the next one, and every query has the subscribers it counts, at least one.
\<close>

definition query_ok :: "Client \<Rightarrow> string \<Rightarrow> localBaseQuery \<Rightarrow> bool" where
  "query_ok c tok q \<longleftrightarrow>
     mget (queryIDToToken c) (lq_id q) = Some tok \<and> lq_id q < nextQueryID c \<and> lq_args q \<noteq> [] \<and>
     sub_ids (subscribers c) (lq_id q) \<noteq> {} \<and>
     lq_numSubscribers q = int (card (sub_ids (subscribers c) (lq_id q))) \<and>
     (\<forall>s\<in>sub_ids (subscribers c) (lq_id q). index s \<le> lq_nextSubscriberIdx q)"

definition wf_queries :: "Client \<Rightarrow> bool" where
  "wf_queries c \<longleftrightarrow> mwf (queries c) \<and> mwf (queryIDToToken c) \<and> mwf (subscribers c) \<and>
     (\<forall>tok q. mget (queries c) tok = Some q \<longrightarrow> query_ok c tok q) \<and>
     (\<forall>i tok. mget (queryIDToToken c) i = Some tok \<longrightarrow>
        (\<exists>q. mget (queries c) tok = Some q \<and> lq_id q = i)) \<and>
     (\<forall>s. mget (subscribers c) s \<noteq> None \<longrightarrow> mget (queryIDToToken c) (queryID s) \<noteq> None)"

text \<open>Results are kept for active queries only.\<close>

definition wf_results :: "Client \<Rightarrow> bool" where
  "wf_results c \<longleftrightarrow> mwf (serverResults c) \<and> mwf (results c) \<and>
     (\<forall>i r. mget (serverResults c) i = Some r \<longrightarrow> mget (queryIDToToken c) i \<noteq> None) \<and>
     (\<forall>i r. mget (results c) i = Some r \<longrightarrow> mget (queryIDToToken c) i \<noteq> None)"

text \<open>A pending request is stored under its id, with the message that was sent for it.\<close>

fun request_ok :: "RequestID \<Rightarrow> trackedSyncRequest \<Rightarrow> bool" where
  "request_ok i r =
     (rq_id r = i \<and>
      (case rq_kind r of
         syncRequestMutation \<Rightarrow> (case rq_message r of Mutation m \<Rightarrow> mu_RequestID m = i | _ \<Rightarrow> False)
       | syncRequestAction \<Rightarrow>
           (case rq_message r of Action m \<Rightarrow> ac_RequestID m = i | _ \<Rightarrow> False) \<and>
           rq_optimisticUpdate r = None \<and> \<not> rq_hasResult r))"

definition wf_requests :: "Client \<Rightarrow> bool" where
  "wf_requests c \<longleftrightarrow> mwf (requests c) \<and>
     (\<forall>i r. mget (requests c) i = Some r \<longrightarrow> request_ok i r \<and> i < nextRequestID c)"

text \<open>
  Remembered results: one per id in the order of completion, at most as many as are
  retained, and never for a pending request.
\<close>

definition remembered ::
  "RequestID list \<Rightarrow> (RequestID, FunctionResult) gomap \<Rightarrow> (RequestID, trackedSyncRequest) gomap \<Rightarrow> RequestID \<Rightarrow> bool" where
  "remembered order rs reqs bound \<longleftrightarrow> mwf rs \<and> distinct order \<and> (\<forall>i. i \<in> set order \<longleftrightarrow> mget rs i \<noteq> None) \<and>
     int (length order) \<le> normalizedCompletedRequestRetentionLimit \<and>
     (\<forall>i\<in>set order. mget reqs i = None \<and> i < bound)"

definition wf_completed :: "Client \<Rightarrow> bool" where
  "wf_completed c \<longleftrightarrow>
     remembered (completedMutationOrder c) (mutationResults c) (requests c) (nextRequestID c) \<and>
     mwf (completedMutations c) \<and>
     (\<forall>i. mget (completedMutations c) i = None \<longleftrightarrow> mget (mutationResults c) i = None) \<and>
     remembered (actionResultOrder c) (actionResults c) (requests c) (nextRequestID c)"

text \<open>The timestamps of the version of the server's state have been observed.\<close>

definition wf_versions :: "Client \<Rightarrow> bool" where
  "wf_versions c \<longleftrightarrow>
     (maxObservedTimestamp c = None \<longrightarrow> remoteVersion c = zero_StateVersion) \<and>
     (\<forall>t. maxObservedTimestamp c = Some t \<longrightarrow> sv_TS (remoteVersion c) \<le> t)"

definition client_inv :: "Client \<Rightarrow> bool" where
  "client_inv c \<longleftrightarrow> wf_queries c \<and> wf_results c \<and> wf_requests c \<and> wf_completed c \<and> wf_versions c"

lemmas inv_defs = wf_queries_def query_ok_def wf_results_def wf_requests_def wf_completed_def wf_versions_def

text \<open>No counter is about to wrap around.\<close>

definition room :: "Client \<Rightarrow> bool" where
  "room c \<longleftrightarrow> nextQueryID c < nextQueryID c + 1 \<and> nextRequestID c < nextRequestID c + 1 \<and>
     list_all (\<lambda>p. lq_nextSubscriberIdx (snd p) < lq_nextSubscriberIdx (snd p) + 1) (queries c)"

section \<open>Generic lemmas\<close>

lemma finite_sub_ids [simp]: "finite (sub_ids subs k)"
proof -
  have "sub_ids subs k \<subseteq> dom (mget subs)"
    by (auto simp: sub_ids_def)
  then show ?thesis
    using finite_dom_map_of finite_subset by blast
qed

lemma sub_ids_mput: "sub_ids (mput s u subs) k = (if queryID s = k then insert s (sub_ids subs k) else sub_ids subs k)"
  by (auto simp: sub_ids_def)

lemma sub_ids_mdel: "sub_ids (mdel s subs) k = sub_ids subs k - {s}"
  by (auto simp: sub_ids_def)

lemma limit_pos: "1 \<le> normalizedCompletedRequestRetentionLimit"
  by (simp add: normalizedCompletedRequestRetentionLimit_def)

lemma inv_New: "client_inv New"
  by (simp add: client_inv_def inv_defs New_def remembered_def limit_pos [THEN order_trans [rotated]])

lemma client_invD:
  assumes "client_inv c"
  shows "wf_queries c" "wf_results c" "wf_requests c" "wf_completed c" "wf_versions c"
  using assms by (simp_all add: client_inv_def)

text \<open>The parts of the invariant that an operation on other fields keeps.\<close>

lemma wf_queries_frame [simp]:
  "wf_queries (c\<lparr>querySetVersion := x0\<rparr>) = wf_queries c"
  "wf_queries (c\<lparr>serverResults := x1\<rparr>) = wf_queries c"
  "wf_queries (c\<lparr>results := x2\<rparr>) = wf_queries c"
  "wf_queries (c\<lparr>remoteVersion := x3\<rparr>) = wf_queries c"
  "wf_queries (c\<lparr>identityVersion := x4\<rparr>) = wf_queries c"
  "wf_queries (c\<lparr>authFetcher := x5\<rparr>) = wf_queries c"
  "wf_queries (c\<lparr>outgoing := x6\<rparr>) = wf_queries c"
  "wf_queries (c\<lparr>maxObservedTimestamp := x7\<rparr>) = wf_queries c"
  "wf_queries (c\<lparr>nextRequestID := x8\<rparr>) = wf_queries c"
  "wf_queries (c\<lparr>requests := x9\<rparr>) = wf_queries c"
  "wf_queries (c\<lparr>completedMutations := x10\<rparr>) = wf_queries c"
  "wf_queries (c\<lparr>completedMutationOrder := x11\<rparr>) = wf_queries c"
  "wf_queries (c\<lparr>mutationResults := x12\<rparr>) = wf_queries c"
  "wf_queries (c\<lparr>actionResults := x13\<rparr>) = wf_queries c"
  "wf_queries (c\<lparr>actionResultOrder := x14\<rparr>) = wf_queries c"
  by (simp_all add: wf_queries_def query_ok_def)

lemma wf_results_frame [simp]:
  "wf_results (c\<lparr>nextQueryID := x0\<rparr>) = wf_results c"
  "wf_results (c\<lparr>querySetVersion := x1\<rparr>) = wf_results c"
  "wf_results (c\<lparr>queries := x2\<rparr>) = wf_results c"
  "wf_results (c\<lparr>subscribers := x3\<rparr>) = wf_results c"
  "wf_results (c\<lparr>remoteVersion := x4\<rparr>) = wf_results c"
  "wf_results (c\<lparr>identityVersion := x5\<rparr>) = wf_results c"
  "wf_results (c\<lparr>authFetcher := x6\<rparr>) = wf_results c"
  "wf_results (c\<lparr>outgoing := x7\<rparr>) = wf_results c"
  "wf_results (c\<lparr>maxObservedTimestamp := x8\<rparr>) = wf_results c"
  "wf_results (c\<lparr>nextRequestID := x9\<rparr>) = wf_results c"
  "wf_results (c\<lparr>requests := x10\<rparr>) = wf_results c"
  "wf_results (c\<lparr>completedMutations := x11\<rparr>) = wf_results c"
  "wf_results (c\<lparr>completedMutationOrder := x12\<rparr>) = wf_results c"
  "wf_results (c\<lparr>mutationResults := x13\<rparr>) = wf_results c"
  "wf_results (c\<lparr>actionResults := x14\<rparr>) = wf_results c"
  "wf_results (c\<lparr>actionResultOrder := x15\<rparr>) = wf_results c"
  by (simp_all add: wf_results_def)

lemma wf_requests_frame [simp]:
  "wf_requests (c\<lparr>nextQueryID := x0\<rparr>) = wf_requests c"
  "wf_requests (c\<lparr>querySetVersion := x1\<rparr>) = wf_requests c"
  "wf_requests (c\<lparr>queries := x2\<rparr>) = wf_requests c"
  "wf_requests (c\<lparr>queryIDToToken := x3\<rparr>) = wf_requests c"
  "wf_requests (c\<lparr>subscribers := x4\<rparr>) = wf_requests c"
  "wf_requests (c\<lparr>serverResults := x5\<rparr>) = wf_requests c"
  "wf_requests (c\<lparr>results := x6\<rparr>) = wf_requests c"
  "wf_requests (c\<lparr>remoteVersion := x7\<rparr>) = wf_requests c"
  "wf_requests (c\<lparr>identityVersion := x8\<rparr>) = wf_requests c"
  "wf_requests (c\<lparr>authFetcher := x9\<rparr>) = wf_requests c"
  "wf_requests (c\<lparr>outgoing := x10\<rparr>) = wf_requests c"
  "wf_requests (c\<lparr>maxObservedTimestamp := x11\<rparr>) = wf_requests c"
  "wf_requests (c\<lparr>completedMutations := x12\<rparr>) = wf_requests c"
  "wf_requests (c\<lparr>completedMutationOrder := x13\<rparr>) = wf_requests c"
  "wf_requests (c\<lparr>mutationResults := x14\<rparr>) = wf_requests c"
  "wf_requests (c\<lparr>actionResults := x15\<rparr>) = wf_requests c"
  "wf_requests (c\<lparr>actionResultOrder := x16\<rparr>) = wf_requests c"
  by (simp_all add: wf_requests_def)

lemma wf_completed_frame [simp]:
  "wf_completed (c\<lparr>nextQueryID := x0\<rparr>) = wf_completed c"
  "wf_completed (c\<lparr>querySetVersion := x1\<rparr>) = wf_completed c"
  "wf_completed (c\<lparr>queries := x2\<rparr>) = wf_completed c"
  "wf_completed (c\<lparr>queryIDToToken := x3\<rparr>) = wf_completed c"
  "wf_completed (c\<lparr>subscribers := x4\<rparr>) = wf_completed c"
  "wf_completed (c\<lparr>serverResults := x5\<rparr>) = wf_completed c"
  "wf_completed (c\<lparr>results := x6\<rparr>) = wf_completed c"
  "wf_completed (c\<lparr>remoteVersion := x7\<rparr>) = wf_completed c"
  "wf_completed (c\<lparr>identityVersion := x8\<rparr>) = wf_completed c"
  "wf_completed (c\<lparr>authFetcher := x9\<rparr>) = wf_completed c"
  "wf_completed (c\<lparr>outgoing := x10\<rparr>) = wf_completed c"
  "wf_completed (c\<lparr>maxObservedTimestamp := x11\<rparr>) = wf_completed c"
  by (simp_all add: wf_completed_def)

lemma wf_versions_frame [simp]:
  "wf_versions (c\<lparr>nextQueryID := x0\<rparr>) = wf_versions c"
  "wf_versions (c\<lparr>querySetVersion := x1\<rparr>) = wf_versions c"
  "wf_versions (c\<lparr>queries := x2\<rparr>) = wf_versions c"
  "wf_versions (c\<lparr>queryIDToToken := x3\<rparr>) = wf_versions c"
  "wf_versions (c\<lparr>subscribers := x4\<rparr>) = wf_versions c"
  "wf_versions (c\<lparr>serverResults := x5\<rparr>) = wf_versions c"
  "wf_versions (c\<lparr>results := x6\<rparr>) = wf_versions c"
  "wf_versions (c\<lparr>identityVersion := x7\<rparr>) = wf_versions c"
  "wf_versions (c\<lparr>authFetcher := x8\<rparr>) = wf_versions c"
  "wf_versions (c\<lparr>outgoing := x9\<rparr>) = wf_versions c"
  "wf_versions (c\<lparr>nextRequestID := x10\<rparr>) = wf_versions c"
  "wf_versions (c\<lparr>requests := x11\<rparr>) = wf_versions c"
  "wf_versions (c\<lparr>completedMutations := x12\<rparr>) = wf_versions c"
  "wf_versions (c\<lparr>completedMutationOrder := x13\<rparr>) = wf_versions c"
  "wf_versions (c\<lparr>mutationResults := x14\<rparr>) = wf_versions c"
  "wf_versions (c\<lparr>actionResults := x15\<rparr>) = wf_versions c"
  "wf_versions (c\<lparr>actionResultOrder := x16\<rparr>) = wf_versions c"
  by (simp_all add: wf_versions_def)

text \<open>Each part is a condition on some of the fields only.\<close>

lemma wf_queries_eqI:
  "wf_queries c \<Longrightarrow> queries d = queries c \<Longrightarrow> queryIDToToken d = queryIDToToken c \<Longrightarrow> subscribers d = subscribers c \<Longrightarrow> nextQueryID d = nextQueryID c \<Longrightarrow> wf_queries d"
  by (simp add: wf_queries_def query_ok_def)

lemma wf_results_eqI:
  "wf_results c \<Longrightarrow> serverResults d = serverResults c \<Longrightarrow> results d = results c \<Longrightarrow> queryIDToToken d = queryIDToToken c \<Longrightarrow> wf_results d"
  by (simp add: wf_results_def)

lemma wf_requests_eqI:
  "wf_requests c \<Longrightarrow> requests d = requests c \<Longrightarrow> nextRequestID d = nextRequestID c \<Longrightarrow> wf_requests d"
  by (simp add: wf_requests_def)

lemma wf_completed_eqI:
  "wf_completed c \<Longrightarrow> requests d = requests c \<Longrightarrow> nextRequestID d = nextRequestID c \<Longrightarrow> completedMutations d = completedMutations c \<Longrightarrow> completedMutationOrder d = completedMutationOrder c \<Longrightarrow> mutationResults d = mutationResults c \<Longrightarrow> actionResults d = actionResults c \<Longrightarrow> actionResultOrder d = actionResultOrder c \<Longrightarrow> wf_completed d"
  by (simp add: wf_completed_def)

lemma wf_versions_eqI:
  "wf_versions c \<Longrightarrow> remoteVersion d = remoteVersion c \<Longrightarrow> maxObservedTimestamp d = maxObservedTimestamp c \<Longrightarrow> wf_versions d"
  by (simp add: wf_versions_def)

section \<open>Queries\<close>

lemma canonicalQuery_args: "canonicalQuery path args = Inr (p, vs, t) \<Longrightarrow> vs \<noteq> []"
  by (auto dest!: canonicalQuery_request simp: canonicalRequest_Inr)

lemma wf_queriesD:
  assumes "wf_queries c" and "mget (queries c) tok = Some q"
  shows "mget (queryIDToToken c) (lq_id q) = Some tok" "lq_id q < nextQueryID c" "lq_args q \<noteq> []"
    "sub_ids (subscribers c) (lq_id q) \<noteq> {}"
    "lq_numSubscribers q = int (card (sub_ids (subscribers c) (lq_id q)))"
    "s \<in> sub_ids (subscribers c) (lq_id q) \<Longrightarrow> index s \<le> lq_nextSubscriberIdx q"
  using assms by (auto simp: wf_queries_def query_ok_def)

lemma wf_queries_token:
  "wf_queries c \<Longrightarrow> mget (queryIDToToken c) i = Some tok \<Longrightarrow> \<exists>q. mget (queries c) tok = Some q \<and> lq_id q = i"
  by (auto simp: wf_queries_def)

lemma wf_queries_sub:
  "wf_queries c \<Longrightarrow> mget (subscribers c) s = Some u \<Longrightarrow> \<exists>tok. mget (queryIDToToken c) (queryID s) = Some tok"
  by (auto simp: wf_queries_def)

lemma wf_queries_unique:
  assumes "wf_queries c" "mget (queries c) tok = Some q" "mget (queries c) tok' = Some q'" "lq_id q = lq_id q'"
  shows "tok = tok'"
  using wf_queriesD(1) [OF assms(1,2)] wf_queriesD(1) [OF assms(1,3)] assms(4) by simp

lemma wf_queriesI:
  assumes "mwf (queries c)" "mwf (queryIDToToken c)" "mwf (subscribers c)"
    and "\<And>tok q. mget (queries c) tok = Some q \<Longrightarrow> query_ok c tok q"
    and "\<And>i tok. mget (queryIDToToken c) i = Some tok \<Longrightarrow> \<exists>q. mget (queries c) tok = Some q \<and> lq_id q = i"
    and "\<And>s u. mget (subscribers c) s = Some u \<Longrightarrow> mget (queryIDToToken c) (queryID s) \<noteq> None"
  shows "wf_queries c"
  using assms by (auto simp: wf_queries_def)

lemma wf_queries_mwf:
  "wf_queries c \<Longrightarrow> mwf (queries c)" "wf_queries c \<Longrightarrow> mwf (queryIDToToken c)" "wf_queries c \<Longrightarrow> mwf (subscribers c)"
  "wf_queries c \<Longrightarrow> mget (queries c) tok = Some q \<Longrightarrow> query_ok c tok q"
  by (simp_all add: wf_queries_def)

text \<open>One more subscriber of an active query.\<close>

lemma wf_queries_join:
  assumes c: "wf_queries c" and q: "mget (queries c) tok = Some q"
    and w: "lq_nextSubscriberIdx q < lq_nextSubscriberIdx q + 1"
  shows "wf_queries (c\<lparr>queries := mput tok (q\<lparr>lq_numSubscribers := lq_numSubscribers q + 1,
      lq_nextSubscriberIdx := lq_nextSubscriberIdx q + 1\<rparr>) (queries c),
    subscribers := mput (SubscriberID (lq_id q) (lq_nextSubscriberIdx q + 1)) () (subscribers c)\<rparr>)"
    (is "wf_queries ?d")
proof (rule wf_queriesI)
  let ?s = "SubscriberID (lq_id q) (lq_nextSubscriberIdx q + 1)"
  show "mwf (queries ?d)" "mwf (queryIDToToken ?d)" "mwf (subscribers ?d)"
    using wf_queries_mwf [OF c] by simp_all
  have "?s \<notin> sub_ids (subscribers c) (lq_id q)"
    using wf_queriesD(6) [OF c q, of ?s] w by auto
  moreover have "\<forall>s\<in>sub_ids (subscribers c) (lq_id q). index s \<le> lq_nextSubscriberIdx q + 1"
    using wf_queriesD(6) [OF c q] w by (meson le_less_trans less_imp_le)
  ultimately have "query_ok ?d tok (q\<lparr>lq_numSubscribers := lq_numSubscribers q + 1,
      lq_nextSubscriberIdx := lq_nextSubscriberIdx q + 1\<rparr>)"
    using wf_queriesD(1-5) [OF c q] by (simp add: query_ok_def sub_ids_mput)
  moreover have "query_ok ?d t q'" if "mget (queries c) t = Some q'" "t \<noteq> tok" for t q'
    using wf_queries_mwf(4) [OF c that(1)] wf_queries_unique [OF c that(1) q] that(2)
    by (auto simp: query_ok_def sub_ids_mput)
  ultimately show "query_ok ?d t q'" if "mget (queries ?d) t = Some q'" for t q'
    using that by (simp split: if_splits)
  show "\<exists>q'. mget (queries ?d) t = Some q' \<and> lq_id q' = i" if "mget (queryIDToToken ?d) i = Some t" for i t
    using wf_queries_token [OF c, of i t] that q by auto
  show "mget (queryIDToToken ?d) (queryID s) \<noteq> None" if "mget (subscribers ?d) s = Some u" for s u
    using that wf_queriesD(1) [OF c q] wf_queries_sub [OF c, of s u] by (auto split: if_splits)
qed

text \<open>The first subscriber of a new query.\<close>

lemma fresh_query:
  assumes "wf_queries c"
  shows "mget (queryIDToToken c) (nextQueryID c) = None" "sub_ids (subscribers c) (nextQueryID c) = {}"
proof -
  have "i < nextQueryID c" if "mget (queryIDToToken c) i = Some t" for i t
    using wf_queries_token [OF assms that] wf_queriesD(2) [OF assms] by auto
  then show n: "mget (queryIDToToken c) (nextQueryID c) = None"
    by (metis less_irrefl not_Some_eq)
  show "sub_ids (subscribers c) (nextQueryID c) = {}"
    using wf_queries_sub [OF assms] n by (fastforce simp: sub_ids_def)
qed

lemma wf_queries_open:
  assumes c: "wf_queries c" and tok: "mget (queries c) tok = None"
    and w: "nextQueryID c < nextQueryID c + 1" and a: "lq_args q \<noteq> []"
    and q: "lq_id q = nextQueryID c" "lq_numSubscribers q = 1" "lq_nextSubscriberIdx q = 1"
  shows "wf_queries (c\<lparr>nextQueryID := nextQueryID c + 1, queries := mput tok q (queries c),
    queryIDToToken := mput (nextQueryID c) tok (queryIDToToken c),
    subscribers := mput (SubscriberID (nextQueryID c) 1) () (subscribers c)\<rparr>)"
    (is "wf_queries ?d")
proof (rule wf_queriesI)
  show "mwf (queries ?d)" "mwf (queryIDToToken ?d)" "mwf (subscribers ?d)"
    using wf_queries_mwf [OF c] by simp_all
  have "query_ok ?d tok q"
    using fresh_query [OF c] w a q by (simp add: query_ok_def sub_ids_mput)
  moreover have "query_ok ?d t q'" if "mget (queries c) t = Some q'" for t q'
    using wf_queries_mwf(4) [OF c that] wf_queriesD(2) [OF c that] w
    by (auto simp: query_ok_def sub_ids_mput)
  ultimately show "query_ok ?d t q'" if "mget (queries ?d) t = Some q'" for t q'
    using that by (simp split: if_splits)
  show "\<exists>q'. mget (queries ?d) t = Some q' \<and> lq_id q' = i" if "mget (queryIDToToken ?d) i = Some t" for i t
    using that wf_queries_token [OF c, of i t] tok q by (auto split: if_splits)
  show "mget (queryIDToToken ?d) (queryID s) \<noteq> None" if "mget (subscribers ?d) s = Some u" for s u
    using that wf_queries_sub [OF c, of s u] by (auto split: if_splits)
qed

text \<open>The three outcomes of \<open>Subscribe\<close>.\<close>

lemma Subscribe_error: "canonicalQuery path args = Inl e \<Longrightarrow> Subscribe path args c = (Inl e, c)"
  by (simp add: Subscribe_def)

lemma Subscribe_join:
  assumes "canonicalQuery path args = Inr (p, vs, tok)" "mget (queries c) tok = Some q"
  shows "Subscribe path args c =
    (Inr (SubscriberID (lq_id q) (lq_nextSubscriberIdx q + 1)),
     c\<lparr>queries := mput tok (q\<lparr>lq_numSubscribers := lq_numSubscribers q + 1,
         lq_nextSubscriberIdx := lq_nextSubscriberIdx q + 1\<rparr>) (queries c),
       subscribers := mput (SubscriberID (lq_id q) (lq_nextSubscriberIdx q + 1)) () (subscribers c)\<rparr>)"
  using assms by (simp add: Subscribe_def Let_def)

lemma Subscribe_open:
  assumes "canonicalQuery path args = Inr (p, vs, tok)" "mget (queries c) tok = None"
  shows "Subscribe path args c =
    (Inr (SubscriberID (nextQueryID c) 1),
     c\<lparr>nextQueryID := nextQueryID c + 1, querySetVersion := querySetVersion c + 1,
       queries := mput tok \<lparr>lq_id = nextQueryID c, lq_canonicalPath = p, lq_args = vs,
         lq_numSubscribers = 1, lq_nextSubscriberIdx = 1\<rparr> (queries c),
       queryIDToToken := mput (nextQueryID c) tok (queryIDToToken c),
       subscribers := mput (SubscriberID (nextQueryID c) 1) () (subscribers c),
       outgoing := outgoing c @ [ModifyQuerySet \<lparr>mq_BaseVersion = querySetVersion c,
         mq_NewVersion = querySetVersion c + 1,
         mq_Modifications = Some [Add \<lparr>qa_QueryID = nextQueryID c, qa_UDFPath = p, qa_Args = Some vs,
           qa_Journal = zero_journal, qa_ComponentPath = []\<rparr>]\<rparr>]\<rparr>)"
  using assms by (simp add: Subscribe_def Let_def)

lemma inv_Subscribe:
  assumes c: "client_inv c" and r: "room c"
  shows "client_inv (snd (Subscribe path args c))"
proof -
  note [simp] = client_invD [OF c]
  consider (err) e where "canonicalQuery path args = Inl e"
    | (join) p vs tok q where "canonicalQuery path args = Inr (p, vs, tok)" "mget (queries c) tok = Some q"
    | (new) p vs tok where "canonicalQuery path args = Inr (p, vs, tok)" "mget (queries c) tok = None"
    by (metis not_Some_eq old.prod.exhaust sum.exhaust)
  then show ?thesis
  proof cases
    case err
    then show ?thesis using c by (simp add: Subscribe_error)
  next
    case (join p vs tok q)
    then have "lq_nextSubscriberIdx q < lq_nextSubscriberIdx q + 1"
      using r map_of_SomeD [OF join(2)] by (auto simp: room_def list_all_iff)
    then show ?thesis
      using wf_queries_join [OF client_invD(1) [OF c] join(2)] by (simp add: Subscribe_join [OF join] client_inv_def)
  next
    case (new p vs tok)
    have "wf_queries (snd (Subscribe path args c))"
      by (rule wf_queries_eqI [OF wf_queries_open [OF client_invD(1) [OF c] new(2), of
            "\<lparr>lq_id = nextQueryID c, lq_canonicalPath = p, lq_args = vs, lq_numSubscribers = 1,
              lq_nextSubscriberIdx = 1\<rparr>"]])
        (use r new canonicalQuery_args [OF new(1)] in \<open>simp_all add: Subscribe_open [OF new] room_def\<close>)
    moreover have "wf_results (snd (Subscribe path args c))"
      using client_invD(2) [OF c] by (auto simp: Subscribe_open [OF new] wf_results_def)
    ultimately show ?thesis
      by (simp add: Subscribe_open [OF new] client_inv_def)
  qed
qed

subsection \<open>Unsubscribe\<close>

text \<open>A subscriber of a query that has more.\<close>

lemma wf_queries_leave:
  assumes c: "wf_queries c" and s: "mget (subscribers c) s = Some u" and q: "mget (queries c) tok = Some q"
    and id: "lq_id q = queryID s" and n: "1 < lq_numSubscribers q"
  shows "wf_queries (c\<lparr>subscribers := mdel s (subscribers c),
    queries := mput tok (q\<lparr>lq_numSubscribers := lq_numSubscribers q - 1\<rparr>) (queries c)\<rparr>)"
    (is "wf_queries ?d")
proof (rule wf_queriesI)
  show "mwf (queries ?d)" "mwf (queryIDToToken ?d)" "mwf (subscribers ?d)"
    using wf_queries_mwf [OF c] by simp_all
  have mem: "s \<in> sub_ids (subscribers c) (lq_id q)"
    using s id by (simp add: sub_ids_def)
  have card: "int (card (sub_ids (subscribers c) (lq_id q) - {s})) = lq_numSubscribers q - 1"
    using mem wf_queriesD(5) [OF c q] n by (simp add: card_Diff_singleton)
  have "sub_ids (subscribers c) (lq_id q) - {s} \<noteq> {}"
  proof
    assume "sub_ids (subscribers c) (lq_id q) - {s} = {}"
    then have "int (card (sub_ids (subscribers c) (lq_id q) - {s})) = 0"
      by (simp only: card.empty of_nat_0)
    with card n show False by simp
  qed
  then have "query_ok ?d tok (q\<lparr>lq_numSubscribers := lq_numSubscribers q - 1\<rparr>)"
    using wf_queriesD(1-3) [OF c q] wf_queriesD(6) [OF c q] card by (simp add: query_ok_def sub_ids_mdel)
  moreover have "query_ok ?d t q'" if "mget (queries c) t = Some q'" "t \<noteq> tok" for t q'
  proof -
    have "s \<notin> sub_ids (subscribers c) (lq_id q')"
      using wf_queries_unique [OF c that(1) q] that(2) id by (auto simp: sub_ids_def)
    then show ?thesis
      using wf_queries_mwf(4) [OF c that(1)] by (simp add: query_ok_def sub_ids_mdel)
  qed
  ultimately show "query_ok ?d t q'" if "mget (queries ?d) t = Some q'" for t q'
    using that by (simp split: if_splits)
  show "\<exists>q'. mget (queries ?d) t = Some q' \<and> lq_id q' = i" if "mget (queryIDToToken ?d) i = Some t" for i t
    using wf_queries_token [OF c, of i t] that q by auto
  show "mget (queryIDToToken ?d) (queryID s') \<noteq> None" if "mget (subscribers ?d) s' = Some u'" for s' u'
    using that wf_queries_sub [OF c, of s' u'] by (auto split: if_splits)
qed

text \<open>The last subscriber of a query.\<close>

lemma wf_queries_close:
  assumes c: "wf_queries c" and s: "mget (subscribers c) s = Some u" and q: "mget (queries c) tok = Some q"
    and id: "lq_id q = queryID s" and n: "\<not> 1 < lq_numSubscribers q"
  shows "wf_queries (c\<lparr>subscribers := mdel s (subscribers c), queries := mdel tok (queries c),
    queryIDToToken := mdel (queryID s) (queryIDToToken c)\<rparr>)"
    (is "wf_queries ?d")
proof (rule wf_queriesI)
  show "mwf (queries ?d)" "mwf (queryIDToToken ?d)" "mwf (subscribers ?d)"
    using wf_queries_mwf [OF c] by simp_all
  have mem: "s \<in> sub_ids (subscribers c) (lq_id q)"
    using s id by (simp add: sub_ids_def)
  then have "card (sub_ids (subscribers c) (lq_id q)) > 0"
    by (metis card_gt_0_iff empty_iff finite_sub_ids)
  then have "card (sub_ids (subscribers c) (lq_id q)) = 1"
    using n wf_queriesD(5) [OF c q] by simp
  then have only: "sub_ids (subscribers c) (queryID s) = {s}"
    using mem id by (metis card_1_singletonE singletonD)
  have ne: "lq_id q' \<noteq> queryID s" if "mget (queries c) t = Some q'" "t \<noteq> tok" for t q'
    using wf_queries_unique [OF c that(1) q] that(2) id by auto
  show "query_ok ?d t q'" if a: "mget (queries ?d) t = Some q'" for t q'
  proof -
    have q': "mget (queries c) t = Some q'" "t \<noteq> tok"
      using a by (auto split: if_splits)
    then have "s \<notin> sub_ids (subscribers c) (lq_id q')"
      using ne [OF q'] by (auto simp: sub_ids_def)
    then show ?thesis
      using wf_queries_mwf(4) [OF c q'(1)] ne [OF q'] by (simp add: query_ok_def sub_ids_mdel)
  qed
  show "\<exists>q'. mget (queries ?d) t = Some q' \<and> lq_id q' = i" if a: "mget (queryIDToToken ?d) i = Some t" for i t
  proof -
    have i: "mget (queryIDToToken c) i = Some t" "i \<noteq> queryID s"
      using a by (auto split: if_splits)
    then obtain q' where "mget (queries c) t = Some q'" "lq_id q' = i"
      using wf_queries_token [OF c] by blast
    then show ?thesis
      using i(2) q id by auto
  qed
  show "mget (queryIDToToken ?d) (queryID s') \<noteq> None" if a: "mget (subscribers ?d) s' = Some u'" for s' u'
  proof -
    have s': "mget (subscribers c) s' = Some u'" "s' \<noteq> s"
      using a by (auto split: if_splits)
    then have "queryID s' \<noteq> queryID s"
      using only by (auto simp: sub_ids_def)
    then show ?thesis
      using wf_queries_sub [OF c s'(1)] by auto
  qed
qed

lemma Unsubscribe_unknown:
  "mget (subscribers c) i = None \<Longrightarrow> Unsubscribe i c = (Inl (ClientError UnknownSubscriber), c)"
  by (simp add: Unsubscribe_def)

text \<open>In a well-formed state only unknown subscribers are an error.\<close>

lemma Unsubscribe_known:
  assumes c: "wf_queries c" and s: "mget (subscribers c) i = Some u"
  obtains tok q where "mget (queryIDToToken c) (queryID i) = Some tok" "mget (queries c) tok = Some q"
    "lq_id q = queryID i"
    "Unsubscribe i c =
      (if 1 < lq_numSubscribers q
       then (Inr (), c\<lparr>subscribers := mdel i (subscribers c),
         queries := mput tok (q\<lparr>lq_numSubscribers := lq_numSubscribers q - 1\<rparr>) (queries c)\<rparr>)
       else (Inr (), c\<lparr>subscribers := mdel i (subscribers c), queries := mdel tok (queries c),
         queryIDToToken := mdel (queryID i) (queryIDToToken c),
         serverResults := mdel (queryID i) (serverResults c), results := mdel (queryID i) (results c),
         querySetVersion := querySetVersion c + 1,
         outgoing := outgoing c @ [ModifyQuerySet \<lparr>mq_BaseVersion = querySetVersion c,
           mq_NewVersion = querySetVersion c + 1,
           mq_Modifications = Some [Remove \<lparr>qr_QueryID = queryID i\<rparr>]\<rparr>]\<rparr>))"
proof -
  obtain tok q where t: "mget (queryIDToToken c) (queryID i) = Some tok" "mget (queries c) tok = Some q"
    "lq_id q = queryID i"
    using wf_queries_sub [OF c s] wf_queries_token [OF c] by blast
  then show ?thesis
    using s by (intro that [of tok q]) (simp_all add: Unsubscribe_def Let_def)
qed

lemma inv_Unsubscribe:
  assumes c: "client_inv c"
  shows "client_inv (snd (Unsubscribe i c))"
proof (cases "mget (subscribers c) i")
  case None
  then show ?thesis using c by (simp add: Unsubscribe_unknown)
next
  case (Some u)
  note [simp] = client_invD [OF c]
  obtain tok q where t: "mget (queryIDToToken c) (queryID i) = Some tok" "mget (queries c) tok = Some q"
    "lq_id q = queryID i" and U: "Unsubscribe i c =
      (if 1 < lq_numSubscribers q
       then (Inr (), c\<lparr>subscribers := mdel i (subscribers c),
         queries := mput tok (q\<lparr>lq_numSubscribers := lq_numSubscribers q - 1\<rparr>) (queries c)\<rparr>)
       else (Inr (), c\<lparr>subscribers := mdel i (subscribers c), queries := mdel tok (queries c),
         queryIDToToken := mdel (queryID i) (queryIDToToken c),
         serverResults := mdel (queryID i) (serverResults c), results := mdel (queryID i) (results c),
         querySetVersion := querySetVersion c + 1,
         outgoing := outgoing c @ [ModifyQuerySet \<lparr>mq_BaseVersion = querySetVersion c,
           mq_NewVersion = querySetVersion c + 1,
           mq_Modifications = Some [Remove \<lparr>qr_QueryID = queryID i\<rparr>]\<rparr>]\<rparr>))"
    by (rule Unsubscribe_known [OF client_invD(1) [OF c] Some])
  show ?thesis
  proof (cases "1 < lq_numSubscribers q")
    case True
    then show ?thesis
      using wf_queries_leave [OF _ Some t(2,3) True] by (simp add: U client_inv_def)
  next
    case False
    have "wf_queries (snd (Unsubscribe i c))"
      by (rule wf_queries_eqI [OF wf_queries_close [OF client_invD(1) [OF c] Some t(2,3) False]])
        (use False in \<open>simp_all add: U\<close>)
    moreover have "wf_results (snd (Unsubscribe i c))"
      using client_invD(2) [OF c] False by (auto simp: U wf_results_def)
    ultimately show ?thesis
      using False by (simp add: U client_inv_def)
  qed
qed

section \<open>Authentication and the queue\<close>

lemma client_inv_frame [simp]:
  "client_inv (c\<lparr>identityVersion := v\<rparr>) = client_inv c"
  "client_inv (c\<lparr>querySetVersion := w\<rparr>) = client_inv c"
  "client_inv (c\<lparr>authFetcher := f\<rparr>) = client_inv c"
  "client_inv (c\<lparr>outgoing := x\<rparr>) = client_inv c"
  by (simp_all add: client_inv_def)

lemma inv_PopNextMessage: "client_inv c \<Longrightarrow> client_inv (snd (PopNextMessage c))"
  by (auto simp: PopNextMessage_def split: list.split)

lemma inv_queueAuth: "client_inv c \<Longrightarrow> client_inv (snd (queueAuth token c))"
  by (simp add: queueAuth_def Let_def)

lemma inv_auth:
  assumes "client_inv c"
  shows "client_inv (snd (SetAuth token c))" "client_inv (snd (SetAdminAuth token actingAs c))"
    "client_inv (snd (ClearAuth c))" "client_inv (snd (SetAuthCallback env fetcher c))"
    "client_inv (snd (RefreshAuthForReconnect env c))"
  using assms inv_queueAuth
  by (auto simp: SetAuth_def SetAdminAuth_def ClearAuth_def SetAuthCallback_def RefreshAuthForReconnect_def Let_def
      split: option.split sum.split)

section \<open>Optimistic results\<close>

lemma apply_updates_le: "apply_updates rs s = Inr t \<Longrightarrow> store_le s t"
proof (induction rs arbitrary: s)
  case (Cons r rs)
  show ?case
  proof (cases "rq_optimisticUpdate r")
    case (Some u)
    then obtain x s' where r: "run_update u s = (Inr x, s')" "apply_updates rs s' = Inr t"
      using Cons.prems by (auto split: prod.splits sum.splits)
    then have "store_le s s'"
      using run_update_le [of s u] by simp
    with Cons.IH [OF r(2)] show ?thesis
      by (rule store_le_trans [rotated])
  qed (use Cons in simp)
qed (simp add: store_le_refl)

text \<open>What optimistic updates make of the server's results, in terms of active queries.\<close>

lemma optimisticResultsWith_Inr:
  assumes "optimisticResultsWith cand c = Inr rs" and "mwf (serverResults c)"
  shows "mwf rs" "i \<notin> active_ids (queries c) \<Longrightarrow> mget rs i = mget (serverResults c) i"
proof -
  have "store_le \<lparr>st_results = serverResults c, st_queries = queries c\<rparr> \<lparr>st_results = rs, st_queries = queries c\<rparr>"
  proof (cases "optimisticRequests cand c = []")
    case True
    then show ?thesis
      using assms by (simp add: optimisticResultsWith_def copyFunctionResults_def store_le_refl)
  next
    case False
    then obtain s where s: "apply_updates (optimisticRequests cand c)
        \<lparr>st_results = serverResults c, st_queries = queries c\<rparr> = Inr s" "rs = st_results s"
      using assms by (auto simp: optimisticResultsWith_def copyFunctionResults_def res_simps Let_def)
    from apply_updates_le [OF s(1)] show ?thesis
      by (simp add: s(2) store_le_def)
  qed
  with assms(2) show "mwf rs" "i \<notin> active_ids (queries c) \<Longrightarrow> mget rs i = mget (serverResults c) i"
    by (auto simp: store_le_def)
qed

lemma active_ids_dom: "wf_queries c \<Longrightarrow> active_ids (queries c) = dom (mget (queryIDToToken c))"
  using wf_queriesD(1) [of c] wf_queries_token [of c]
  by (auto simp: active_ids_def ran_def image_iff dom_def) blast+

lemma wf_results_optimistic:
  assumes c: "wf_queries c" "wf_results c" and rs: "optimisticResultsWith cand c = Inr rs"
  shows "wf_results (c\<lparr>results := rs\<rparr>)"
proof -
  have "mwf (serverResults c)"
    using c by (simp add: wf_results_def)
  note o = optimisticResultsWith_Inr [OF rs this]
  have "mget (queryIDToToken c) i \<noteq> None" if "mget rs i = Some r" for i r
  proof
    assume n: "mget (queryIDToToken c) i = None"
    then have "mget (serverResults c) i = Some r"
      using o(2) [of i] that by (simp add: active_ids_dom [OF c(1)] domIff)
    with n c(2) show False
      by (auto simp: wf_results_def)
  qed
  then show ?thesis
    using o(1) c(2) by (auto simp: wf_results_def)
qed

lemma inv_recompute: "client_inv c \<Longrightarrow> client_inv (snd (recomputeOptimisticResults c))"
  using wf_results_optimistic [of c None]
  by (auto simp: recomputeOptimisticResults_def client_inv_def split: sum.split)

section \<open>Requests\<close>

text \<open>The state after evicting: what is dropped and what is kept.\<close>

definition excess :: "RequestID list \<Rightarrow> nat" where
  "excess order = length order - nat normalizedCompletedRequestRetentionLimit"

lemma excess_Cons:
  "normalizedCompletedRequestRetentionLimit < int (length (i # order)) \<Longrightarrow> excess (i # order) = Suc (excess order)"
  "\<not> normalizedCompletedRequestRetentionLimit < int (length (i # order)) \<Longrightarrow> excess (i # order) = 0"
  using limit_pos by (auto simp: excess_def)

lemma evict_mutations_eq:
  "evict_mutations order c =
     c\<lparr>completedMutationOrder := drop (excess order) order,
       mutationResults := fold mdel (take (excess order) order) (mutationResults c),
       completedMutations := fold mdel (take (excess order) order) (completedMutations c)\<rparr>"
proof (induction order c rule: evict_mutations.induct)
  case (2 i order c)
  show ?case
  proof (cases "normalizedCompletedRequestRetentionLimit < int (length (i # order))")
    case True
    then show ?thesis
      using 2 [OF True] by (simp add: excess_Cons(1) [OF True] del: length_Cons of_nat_Suc)
  next
    case False
    then show ?thesis
      by (simp add: excess_Cons(2) [OF False] del: length_Cons of_nat_Suc)
  qed
qed (simp add: excess_def)

lemma evict_actions_eq:
  "evict_actions order c =
     c\<lparr>actionResultOrder := drop (excess order) order,
       actionResults := fold mdel (take (excess order) order) (actionResults c)\<rparr>"
proof (induction order c rule: evict_actions.induct)
  case (2 i order c)
  show ?case
  proof (cases "normalizedCompletedRequestRetentionLimit < int (length (i # order))")
    case True
    then show ?thesis
      using 2 [OF True] by (simp add: excess_Cons(1) [OF True] del: length_Cons of_nat_Suc)
  next
    case False
    then show ?thesis
      by (simp add: excess_Cons(2) [OF False] del: length_Cons of_nat_Suc)
  qed
qed (simp add: excess_def)

lemma mget_fold_mdel: "mget (fold mdel ks m) i = (if i \<in> set ks then None else mget m i)"
  by (induction ks arbitrary: m) auto

lemma mwf_fold_mdel: "mwf m \<Longrightarrow> mwf (fold mdel ks m)"
  by (induction ks arbitrary: m) auto

lemma remember_ok:
  assumes r: "remembered order rs reqs bound" and i: "i \<notin> set order" "i < bound"
  shows "remembered (drop (excess (order @ [i])) (order @ [i]))
    (fold mdel (take (excess (order @ [i])) (order @ [i])) (mput i res rs)) (mdel i reqs) bound"
proof -
  define ids k where "ids = order @ [i]" and "k = excess ids"
  have d: "distinct ids"
    using r i by (simp add: remembered_def ids_def)
  have split: "j \<in> set ids \<longleftrightarrow> j \<in> set (take k ids) \<or> j \<in> set (drop k ids)"
    "j \<in> set (take k ids) \<Longrightarrow> j \<notin> set (drop k ids)" for j
    using d by (metis Un_iff append_take_drop_id set_append)
      (use d in \<open>metis IntI append_take_drop_id distinct_append empty_iff\<close>)
  have ids: "j \<in> set ids \<longleftrightarrow> mget (mput i res rs) j \<noteq> None" for j
    using r by (auto simp: ids_def remembered_def)
  have "\<forall>j. j \<in> set (drop k ids) \<longleftrightarrow> mget (fold mdel (take k ids) (mput i res rs)) j \<noteq> None"
    unfolding mget_fold_mdel using split ids by metis
  moreover have "int (length (drop k ids)) \<le> normalizedCompletedRequestRetentionLimit"
    using limit_pos by (auto simp: k_def excess_def)
  moreover have "\<forall>j\<in>set (drop k ids). mget (mdel i reqs) j = None \<and> j < bound"
    using set_drop_subset [of k ids] r i by (auto simp: remembered_def ids_def)
  moreover have "mwf (fold mdel (take k ids) (mput i res rs))"
    using r by (simp add: remembered_def mwf_fold_mdel)
  ultimately show ?thesis
    using d unfolding remembered_def ids_def [symmetric] k_def [symmetric] by simp
qed

lemma remembered_mdel: "remembered order rs reqs bound \<Longrightarrow> remembered order rs (mdel i reqs) bound"
  by (auto simp: remembered_def)

lemma remembered_mput:
  "remembered order rs reqs bound \<Longrightarrow> mget reqs i \<noteq> None \<Longrightarrow> remembered order rs (mput i r reqs) bound"
  by (auto simp: remembered_def)

lemma remembered_new:
  "remembered order rs reqs bound \<Longrightarrow> bound < bound' \<Longrightarrow> remembered order rs (mput bound r reqs) bound'"
  by (fastforce simp: remembered_def)

lemma wf_requestsD:
  "wf_requests c \<Longrightarrow> mget (requests c) i = Some r \<Longrightarrow> request_ok i r \<and> i < nextRequestID c"
  by (simp add: wf_requests_def)

lemma remembered_pending: "remembered order rs reqs bound \<Longrightarrow> mget reqs i = Some r \<Longrightarrow> i \<notin> set order"
  unfolding remembered_def by force

lemma wf_completed_pending:
  assumes "wf_completed c" "mget (requests c) i = Some r"
  shows "i \<notin> set (completedMutationOrder c)" "i \<notin> set (actionResultOrder c)"
  using assms remembered_pending unfolding wf_completed_def by blast+

lemma wf_requests_mdel: "wf_requests c \<Longrightarrow> wf_requests (c\<lparr>requests := mdel i (requests c)\<rparr>)"
  by (simp add: wf_requests_def)

text \<open>Completing a mutation and an action.\<close>

lemma completeMutationRequest_eq:
  assumes "mget (requests c) i = Some r" "rq_hasResult r"
  shows "completeMutationRequest i c =
    (rq_optimisticUpdate r \<noteq> None,
     (rememberMutationResult i (rq_result r) c)\<lparr>requests := mdel i (requests c)\<rparr>)"
  using assms by (simp add: completeMutationRequest_def rememberMutationResult_def evict_mutations_eq Let_def)

lemma completeMutationRequest_none:
  "(\<And>r. mget (requests c) i = Some r \<Longrightarrow> \<not> rq_hasResult r) \<Longrightarrow> completeMutationRequest i c = (False, c)"
  by (auto simp: completeMutationRequest_def split: option.split)

lemma inv_complete:
  assumes c: "client_inv c"
  shows "client_inv (snd (completeMutationRequest i c))"
proof (cases "\<exists>r. mget (requests c) i = Some r \<and> rq_hasResult r")
  case True
  then obtain r where r: "mget (requests c) i = Some r" "rq_hasResult r"
    by blast
  note [simp] = client_invD [OF c]
  have i: "i < nextRequestID c" "i \<notin> set (completedMutationOrder c)" "i \<notin> set (actionResultOrder c)"
    using wf_requestsD [OF _ r(1)] wf_completed_pending [OF _ r(1)] by simp_all
  let ?d = "(rememberMutationResult i (rq_result r) c)\<lparr>requests := mdel i (requests c)\<rparr>"
  have w: "remembered (completedMutationOrder c) (mutationResults c) (requests c) (nextRequestID c)"
    "remembered (actionResultOrder c) (actionResults c) (requests c) (nextRequestID c)"
    "mwf (completedMutations c)"
    "\<forall>i. mget (completedMutations c) i = None \<longleftrightarrow> mget (mutationResults c) i = None"
    using client_invD(4) [OF c] by (simp_all add: wf_completed_def)
  have "\<forall>i. mget (completedMutations ?d) i = None \<longleftrightarrow> mget (mutationResults ?d) i = None"
    using w(4) by (simp add: rememberMutationResult_def evict_mutations_eq mget_fold_mdel)
  then have "wf_completed ?d"
    using remember_ok [OF w(1) i(2,1)] remembered_mdel [OF w(2)] w(3)
    by (simp add: wf_completed_def rememberMutationResult_def evict_mutations_eq mwf_fold_mdel)
  moreover have "wf_requests ?d"
    using client_invD(3) [OF c] by (simp add: wf_requests_def rememberMutationResult_def evict_mutations_eq)
  ultimately show ?thesis
    by (simp add: completeMutationRequest_eq [OF r] client_inv_def)
      (simp add: rememberMutationResult_def evict_mutations_eq)
next
  case False
  then show ?thesis
    using c by (subst completeMutationRequest_none) auto
qed

definition finishAction :: "RequestID \<Rightarrow> FunctionResult \<Rightarrow> Client \<Rightarrow> Client" where
  "finishAction i res c = (rememberActionResult i res c)\<lparr>requests := mdel i (requests c)\<rparr>"

lemma inv_finishAction:
  assumes c: "client_inv c" and r: "mget (requests c) i = Some r"
  shows "client_inv (finishAction i res c)"
proof -
  note [simp] = client_invD [OF c]
  have i: "i < nextRequestID c" "i \<notin> set (actionResultOrder c)"
    using wf_requestsD [OF _ r] wf_completed_pending [OF _ r] by simp_all
  have w: "remembered (completedMutationOrder c) (mutationResults c) (requests c) (nextRequestID c)"
    "remembered (actionResultOrder c) (actionResults c) (requests c) (nextRequestID c)"
    "mwf (completedMutations c)"
    "\<forall>i. mget (completedMutations c) i = None \<longleftrightarrow> mget (mutationResults c) i = None"
    using client_invD(4) [OF c] by (simp_all add: wf_completed_def)
  have "wf_completed (finishAction i res c)"
    using remember_ok [OF w(2) i(2,1)] remembered_mdel [OF w(1)] w(3,4)
    by (simp add: wf_completed_def finishAction_def rememberActionResult_def evict_actions_eq)
  moreover have "wf_requests (finishAction i res c)"
    using client_invD(3) [OF c] by (simp add: wf_requests_def finishAction_def rememberActionResult_def evict_actions_eq)
  ultimately show ?thesis
    by (simp add: client_inv_def) (simp add: finishAction_def rememberActionResult_def evict_actions_eq)
qed

subsection \<open>Mutations and actions\<close>

text \<open>A new request under the next id.\<close>

lemma inv_new_request:
  assumes c: "client_inv c" and w: "nextRequestID c < nextRequestID c + 1" and r: "request_ok (nextRequestID c) r"
  shows "client_inv (c\<lparr>nextRequestID := nextRequestID c + 1,
    requests := mput (nextRequestID c) r (requests c), outgoing := out\<rparr>)"
proof -
  note [simp] = client_invD [OF c]
  have "wf_requests (c\<lparr>nextRequestID := nextRequestID c + 1, requests := mput (nextRequestID c) r (requests c)\<rparr>)"
    using client_invD(3) [OF c] w r unfolding wf_requests_def
    by (auto split: if_splits simp del: request_ok.simps dest: order.strict_trans)
  moreover have "wf_completed (c\<lparr>nextRequestID := nextRequestID c + 1,
      requests := mput (nextRequestID c) r (requests c)\<rparr>)"
    using client_invD(4) [OF c] remembered_new [OF _ w] by (simp add: wf_completed_def)
  ultimately show ?thesis
    by (simp add: client_inv_def)
qed

lemma inv_results:
  "client_inv c \<Longrightarrow> optimisticResultsWith cand c = Inr rs \<Longrightarrow> client_inv (c\<lparr>results := rs\<rparr>)"
  using wf_results_optimistic [of c cand rs] by (simp add: client_inv_def)

lemma inv_mutation:
  assumes c: "client_inv c" and r: "room c"
  shows "client_inv (snd (mutation path args opts c))"
proof -
  have w: "nextRequestID c < nextRequestID c + 1"
    using r by (simp add: room_def)
  show ?thesis
    using inv_new_request [OF c w] inv_new_request [OF inv_results [OF c], simplified] c w
    by (auto simp: mutation_def Let_def split: sum.split option.split)
qed

lemma inv_Client_Mutation: "client_inv c \<Longrightarrow> room c \<Longrightarrow> client_inv (snd (Client_Mutation path args opts c))"
  using inv_mutation [of c path args opts] by (auto simp: Client_Mutation_def split: prod.splits)

lemma inv_Client_Action:
  assumes c: "client_inv c" and r: "room c"
  shows "client_inv (snd (Client_Action path args c))"
  using inv_new_request [OF c] r c
  by (auto simp: Client_Action_def Let_def room_def split: sum.split)

section \<open>Messages of the server\<close>

lemma isActive_mget: "isActiveQuery c i \<longleftrightarrow> mget (queryIDToToken c) i \<noteq> None"
  by (simp add: isActiveQuery_def)

lemma inv_applyStateModification: "client_inv c \<Longrightarrow> client_inv (applyStateModification m c)"
  by (cases m) (auto simp: client_inv_def wf_results_def isActive_mget)

lemma inv_fold:
  "(\<And>x c. x \<in> set xs \<Longrightarrow> client_inv c \<Longrightarrow> client_inv (f x c)) \<Longrightarrow> client_inv c \<Longrightarrow> client_inv (fold f xs c)"
  by (induction xs arbitrary: c) auto

lemma inv_completeMutationsThrough: "client_inv c \<Longrightarrow> client_inv (completeMutationsThrough ts c)"
  unfolding completeMutationsThrough_def by (rule inv_fold) (auto intro: inv_complete)

text \<open>The version of the server's state and the largest timestamp move together.\<close>

lemma inv_observe: "client_inv c \<Longrightarrow> client_inv (observeTimestamp ts c)"
  by (auto simp: observeTimestamp_def client_inv_def wf_versions_def zero_StateVersion_def split: option.split)

lemma inv_version:
  assumes "client_inv c"
  shows "client_inv (observeTimestamp (sv_TS v) (c\<lparr>remoteVersion := v\<rparr>))"
  using assms by (auto simp: observeTimestamp_def client_inv_def wf_versions_def not_less split: option.split)

lemma inv_receiveTransition: "client_inv c \<Longrightarrow> client_inv (snd (receiveTransition m c))"
  unfolding receiveTransition_def Let_def
  using inv_recompute [OF inv_completeMutationsThrough [OF inv_version [OF inv_fold
          [where f = applyStateModification, OF inv_applyStateModification, of _ c]]]]
  by (auto split: prod.split sum.split option.split simp: prod_eq_iff)

lemma inv_request_update:
  assumes c: "client_inv c" and r: "mget (requests c) i = Some r" and ok: "request_ok i r'"
  shows "client_inv (c\<lparr>requests := mput i r' (requests c)\<rparr>)"
proof -
  note [simp] = client_invD [OF c]
  have "wf_requests (c\<lparr>requests := mput i r' (requests c)\<rparr>)"
    using client_invD(3) [OF c] r ok unfolding wf_requests_def by (auto split: if_splits simp del: request_ok.simps)
  moreover have "wf_completed (c\<lparr>requests := mput i r' (requests c)\<rparr>)"
    using client_invD(4) [OF c] remembered_mput [of _ _ "requests c"] r by (simp add: wf_completed_def)
  ultimately show ?thesis
    by (simp add: client_inv_def)
qed

text \<open>The state once the response is stored in its request.\<close>

definition response_result :: "MutationResponseMessage \<Rightarrow> FunctionResult" where
  "response_result m = functionResultFromResponse (mr_Success m) (mr_Value m) (mr_ErrorMessage m) (mr_ErrorData m)"

definition answered :: "MutationResponseMessage \<Rightarrow> trackedSyncRequest \<Rightarrow> Client \<Rightarrow> Client" where
  "answered m r c = c\<lparr>requests := mput (mr_RequestID m)
     (r\<lparr>rq_result := response_result m, rq_hasResult := True, rq_ts := mr_TS m\<rparr>) (requests c)\<rparr>"

lemma updateMutation_eq:
  assumes "mget (requests c) (mr_RequestID m) = Some r" "rq_kind r = syncRequestMutation"
  shows "updateRequestFromMutationResponse m c =
    (if \<not> mr_Success m
     then (case completeMutationRequest (mr_RequestID m) (answered m r c) of
             (hadOptimistic, d) \<Rightarrow> if hadOptimistic then recomputeOptimisticResults d else (Inr (), d))
     else if mr_TS m = None then (Inl (ClientError MutationMissingTimestamp), answered m r c)
     else (Inr (), answered m r c))"
  using assms by (simp add: updateRequestFromMutationResponse_def answered_def response_result_def Let_def)

lemma inv_answered:
  assumes c: "client_inv c" and r: "mget (requests c) (mr_RequestID m) = Some r" "rq_kind r = syncRequestMutation"
  shows "client_inv (answered m r c)"
  unfolding answered_def using wf_requestsD [OF client_invD(3) [OF c] r(1)] r(2)
  by (intro inv_request_update [OF c r(1)]) (simp split: ClientMessage.splits)

lemma inv_updateMutation:
  assumes c: "client_inv c"
  shows "client_inv (snd (updateRequestFromMutationResponse m c))"
proof (cases "mget (requests c) (mr_RequestID m)")
  case None
  then show ?thesis
    using c by (auto simp: updateRequestFromMutationResponse_def split: option.split)
next
  case (Some r)
  show ?thesis
  proof (cases "rq_kind r = syncRequestMutation")
    case True
    note d = inv_answered [OF c Some True]
    obtain h e where e: "completeMutationRequest (mr_RequestID m) (answered m r c) = (h, e)"
      by (meson surj_pair)
    then have "client_inv e"
      using inv_complete [OF d, of "mr_RequestID m"] by simp
    with d show ?thesis
      using inv_recompute by (simp add: updateMutation_eq [OF Some True] e)
  qed (use c Some in \<open>simp add: updateRequestFromMutationResponse_def\<close>)
qed

lemma inv_receiveMutationResponse:
  assumes c: "client_inv c"
  shows "client_inv (snd (receiveMutationResponse m c))"
proof -
  obtain r d where u: "updateRequestFromMutationResponse m c = (r, d)"
    by (meson surj_pair)
  then have "client_inv d"
    using inv_updateMutation [OF c, of m] by simp
  then show ?thesis
    using inv_observe by (auto simp: receiveMutationResponse_def u Let_def split: sum.split option.split)
qed

lemma updateAction_eq:
  assumes "mget (requests c) (ar_RequestID m) = Some r" "rq_kind r = syncRequestAction"
  shows "updateRequestFromActionResponse m c = (Inr (), finishAction (ar_RequestID m)
    (functionResultFromResponse (ar_Success m) (ar_Value m) (ar_ErrorMessage m) (ar_ErrorData m)) c)"
  using assms by (simp add: updateRequestFromActionResponse_def finishAction_def rememberActionResult_def
      evict_actions_eq Let_def)

lemma inv_updateAction: "client_inv c \<Longrightarrow> client_inv (snd (updateRequestFromActionResponse m c))"
  using inv_finishAction [of c "ar_RequestID m"]
  by (cases "\<exists>r. mget (requests c) (ar_RequestID m) = Some r \<and> rq_kind r = syncRequestAction")
    (auto simp: updateAction_eq, auto simp: updateRequestFromActionResponse_def split: option.split)

lemma inv_ReceiveMessage: "client_inv c \<Longrightarrow> client_inv (snd (ReceiveMessage msg c))"
proof (cases msg)
  case (ActionResponse m)
  assume "client_inv c"
  with inv_updateAction [OF this, of m] ActionResponse show ?thesis
    by (auto split: prod.splits)
qed (simp_all add: inv_receiveTransition inv_receiveMutationResponse)

section \<open>Reconnecting\<close>

definition pending_actions :: "Client \<Rightarrow> RequestID list" where
  "pending_actions c = sort (map fst (filter (\<lambda>p. rq_kind (snd p) = syncRequestAction) (requests c)))"

lemma cancel_eq:
  "cancelPendingActionsForReconnect c =
     fold (\<lambda>i. finishAction i (ErrorMessageResult actionReconnectErrorMessage)) (pending_actions c) c"
  by (simp add: cancelPendingActionsForReconnect_def pending_actions_def Let_def finishAction_def [abs_def]
      rememberActionResult_def evict_actions_eq)

lemma finishAction_requests [simp]: "requests (finishAction i res c) = mdel i (requests c)"
  by (simp add: finishAction_def)

lemma inv_cancel_fold:
  "client_inv c \<Longrightarrow> distinct is \<Longrightarrow> (\<And>i. i \<in> set is \<Longrightarrow> mget (requests c) i \<noteq> None) \<Longrightarrow>
     client_inv (fold (\<lambda>i. finishAction i res) is c)"
proof (induction "is" arbitrary: c)
  case (Cons i "is")
  have "client_inv (finishAction i res c)"
    using Cons.prems inv_finishAction by fastforce
  moreover have "mget (requests (finishAction i res c)) j \<noteq> None" if "j \<in> set is" for j
    using Cons.prems(2) Cons.prems(3) [of j] that by auto
  ultimately show ?case
    using Cons.IH [of "finishAction i res c"] Cons.prems(2) by simp
qed simp

lemma pending_actions_props:
  assumes "mwf (requests c)"
  shows "distinct (pending_actions c)"
    "i \<in> set (pending_actions c) \<longleftrightarrow> (\<exists>r. mget (requests c) i = Some r \<and> rq_kind r = syncRequestAction)"
proof -
  have "distinct (map fst (requests c))"
    using assms by (rule mwf_distinct)
  then show "distinct (pending_actions c)"
    by (simp add: pending_actions_def distinct_map_filter)
  show "i \<in> set (pending_actions c) \<longleftrightarrow> (\<exists>r. mget (requests c) i = Some r \<and> rq_kind r = syncRequestAction)"
    using assms by (force simp: pending_actions_def mwf_mem_iff [symmetric])
qed

lemma inv_cancel: "client_inv c \<Longrightarrow> client_inv (cancelPendingActionsForReconnect c)"
  unfolding cancel_eq
  using pending_actions_props [of c] client_invD(3) [of c]
  by (intro inv_cancel_fold) (auto simp: wf_requests_def)

lemma inv_reset:
  "client_inv c \<Longrightarrow> client_inv (c\<lparr>outgoing := o', identityVersion := v, querySetVersion := w,
     remoteVersion := zero_StateVersion\<rparr>)"
  by (simp add: client_inv_def) (simp add: wf_versions_def zero_StateVersion_def)

lemma inv_RestartForReconnect:
  assumes c: "client_inv c"
  shows "client_inv (snd (RestartForReconnect env c))"
proof -
  let ?d = "cancelPendingActionsForReconnect (c\<lparr>outgoing := [], identityVersion := 0, querySetVersion := 0,
    remoteVersion := zero_StateVersion\<rparr>)"
  have d: "client_inv ?d"
    by (rule inv_cancel, rule inv_reset, rule c)
  obtain r e where e: "RefreshAuthForReconnect env ?d = (r, e)"
    by (meson surj_pair)
  then have "client_inv e"
    using inv_auth(5) [OF d, of env] by simp
  with d e show ?thesis
    by (auto simp: RestartForReconnect_def Let_def split: option.split sum.split)
qed

end
