(* ===== verification/Base_Session.thy ===== *)
theory Base_Session
  imports Base_Invariant
begin

text \<open>
  Runs of the base client. A session is a client with the messages it has sent since the
  connection was last restarted. Its steps are the operations of the client, in any order,
  with any messages from the server and any behaviour of the callbacks. The refinement
  shown is the purpose of the client: a server that has processed what was sent and what
  is still queued has exactly the client's active queries, at the client's versions.
\<close>

section \<open>Operations\<close>

datatype op =
    OpSubscribe string gval
  | OpUnsubscribe SubscriberID
  | OpPop
  | OpSetAuth string
  | OpSetAdminAuth string "SyncUserIdentityAttributes list"
  | OpClearAuth
  | OpSetAuthCallback fetch_env "AuthTokenFetcher option"
  | OpRefreshAuth fetch_env
  | OpMutation string gval "SyncMutationOption list"
  | OpAction string gval
  | OpReceive ServerMessage
  | OpRestart fetch_env

fun exec :: "op \<Rightarrow> Client \<Rightarrow> Client" where
  "exec (OpSubscribe path args) c = snd (Subscribe path args c)"
| "exec (OpUnsubscribe i) c = snd (Unsubscribe i c)"
| "exec OpPop c = snd (PopNextMessage c)"
| "exec (OpSetAuth token) c = snd (SetAuth token c)"
| "exec (OpSetAdminAuth token actingAs) c = snd (SetAdminAuth token actingAs c)"
| "exec OpClearAuth c = snd (ClearAuth c)"
| "exec (OpSetAuthCallback env f) c = snd (SetAuthCallback env f c)"
| "exec (OpRefreshAuth env) c = snd (RefreshAuthForReconnect env c)"
| "exec (OpMutation path args opts) c = snd (Client_Mutation path args opts c)"
| "exec (OpAction path args) c = snd (Client_Action path args c)"
| "exec (OpReceive msg) c = snd (ReceiveMessage msg c)"
| "exec (OpRestart env) c = snd (RestartForReconnect env c)"

lemma inv_exec: "client_inv c \<Longrightarrow> room c \<Longrightarrow> client_inv (exec x c)"
  by (cases x) (simp_all add: inv_Subscribe inv_Unsubscribe inv_PopNextMessage inv_auth inv_Client_Mutation
      inv_Client_Action inv_ReceiveMessage inv_RestartForReconnect)

section \<open>Sessions\<close>

text \<open>
  \<open>ss_synced\<close> says that the last restart, if there was one, succeeded; when the callback of
  the user fails, \<open>RestartForReconnect\<close> returns early, without replaying anything.
\<close>

record session =
  ss_client :: Client
  ss_sent :: "ClientMessage list"
  ss_synced :: bool

definition run_op :: "op \<Rightarrow> session \<Rightarrow> session" where
  "run_op x s =
     (let c = ss_client s
      in case x of
           OpPop \<Rightarrow> s\<lparr>ss_client := exec x c,
                     ss_sent := ss_sent s @ (case fst (PopNextMessage c) of None \<Rightarrow> [] | Some m \<Rightarrow> [m])\<rparr>
         | OpRestart env \<Rightarrow> s\<lparr>ss_client := exec x c, ss_sent := [],
                     ss_synced := (\<not> isl (fst (RestartForReconnect env c)))\<rparr>
         | _ \<Rightarrow> s\<lparr>ss_client := exec x c\<rparr>)"

definition new_session :: session where
  "new_session = \<lparr>ss_client = New, ss_sent = [], ss_synced = True\<rparr>"

inductive session_step :: "session \<Rightarrow> session \<Rightarrow> bool" where
  op: "room (ss_client s) \<Longrightarrow> session_step s (run_op x s)"

inductive_cases session_stepE: "session_step s t"

lemma ss_client_run_op [simp]: "ss_client (run_op x s) = exec x (ss_client s)"
  by (cases x) (simp_all add: run_op_def Let_def)

section \<open>The server's view\<close>

record view =
  vw_version :: QuerySetVersion
  vw_queries :: "QueryID \<rightharpoonup> string \<times> Value list"
  vw_identity :: IdentityVersion

definition empty_view :: view where
  "empty_view = \<lparr>vw_version = 0, vw_queries = Map.empty, vw_identity = 0\<rparr>"

fun apply_modification ::
  "QuerySetModification \<Rightarrow> (QueryID \<rightharpoonup> string \<times> Value list) \<Rightarrow> (QueryID \<rightharpoonup> string \<times> Value list)" where
  "apply_modification (Add m) qs =
     qs(qa_QueryID m \<mapsto> (qa_UDFPath m, case qa_Args m of None \<Rightarrow> [] | Some vs \<Rightarrow> vs))"
| "apply_modification (Remove m) qs = qs(qr_QueryID m := None)"

text \<open>A server accepts an edit only on top of the version it has.\<close>

fun server_apply :: "ClientMessage \<Rightarrow> view \<Rightarrow> view option" where
  "server_apply (ModifyQuerySet m) v =
     (if mq_BaseVersion m = vw_version v
      then Some (v\<lparr>vw_version := mq_NewVersion m,
                   vw_queries := fold apply_modification (case mq_Modifications m of None \<Rightarrow> [] | Some ms \<Rightarrow> ms)
                                   (vw_queries v)\<rparr>)
      else None)"
| "server_apply (Authenticate m) v =
     (if au_BaseVersion m = vw_identity v then Some (v\<lparr>vw_identity := vw_identity v + 1\<rparr>) else None)"
| "server_apply _ v = Some v"

fun server_run :: "ClientMessage list \<Rightarrow> view \<Rightarrow> view option" where
  "server_run [] v = Some v"
| "server_run (m # ms) v = (case server_apply m v of None \<Rightarrow> None | Some w \<Rightarrow> server_run ms w)"

text \<open>What the client has, in the same terms.\<close>

definition active_queries :: "Client \<Rightarrow> QueryID \<rightharpoonup> string \<times> Value list" where
  "active_queries c i =
     (case mget (queryIDToToken c) i of
        None \<Rightarrow> None
      | Some tok \<Rightarrow> map_option (\<lambda>q. (lq_canonicalPath q, lq_args q)) (mget (queries c) tok))"

definition client_view :: "Client \<Rightarrow> view" where
  "client_view c =
     \<lparr>vw_version = querySetVersion c, vw_queries = active_queries c, vw_identity = identityVersion c\<rparr>"

lemma server_run_append:
  "server_run (ms @ ns) v = (case server_run ms v of None \<Rightarrow> None | Some w \<Rightarrow> server_run ns w)"
  by (induction ms arbitrary: v) (auto split: option.split)

text \<open>One operation: it queues messages that take the server from the old view to the new one.\<close>

definition advances :: "Client \<Rightarrow> Client \<Rightarrow> bool" where
  "advances c d \<longleftrightarrow> (\<exists>ms. outgoing d = outgoing c @ ms \<and> server_run ms (client_view c) = Some (client_view d))"

lemma advances_refl:
  "outgoing d = outgoing c \<Longrightarrow> client_view d = client_view c \<Longrightarrow> advances c d"
  by (auto simp: advances_def intro: exI [of _ "[]"])

lemma advances_one:
  "outgoing d = outgoing c @ [m] \<Longrightarrow> server_apply m (client_view c) = Some (client_view d) \<Longrightarrow> advances c d"
  by (auto simp: advances_def intro: exI [of _ "[m]"])

lemma advances_trans: "advances c d \<Longrightarrow> advances d e \<Longrightarrow> advances c e"
  unfolding advances_def by (auto simp: server_run_append)

section \<open>Operations that leave the view alone\<close>

definition same_view :: "Client \<Rightarrow> Client \<Rightarrow> bool" where
  "same_view c d \<longleftrightarrow> queries d = queries c \<and> queryIDToToken d = queryIDToToken c \<and> outgoing d = outgoing c \<and>
     querySetVersion d = querySetVersion c \<and> identityVersion d = identityVersion c \<and>
     subscribers d = subscribers c \<and> authFetcher d = authFetcher c"

lemma same_view_refl [simp]: "same_view c c"
  by (simp add: same_view_def)

lemma same_view_trans: "same_view c d \<Longrightarrow> same_view d e \<Longrightarrow> same_view c e"
  by (simp add: same_view_def)

lemma same_view_advances: "same_view c d \<Longrightarrow> advances c d"
  by (rule advances_refl) (auto simp: same_view_def client_view_def active_queries_def fun_eq_iff split: option.split)

lemma same_view_fold: "(\<And>x c. same_view c (f x c)) \<Longrightarrow> same_view c (fold f xs c)"
  by (induction xs arbitrary: c) (auto intro: same_view_trans)

lemma same_view_recompute: "same_view c (snd (recomputeOptimisticResults c))"
  by (auto simp: recomputeOptimisticResults_def same_view_def split: sum.split)

lemma same_view_complete: "same_view c (snd (completeMutationRequest i c))"
  by (auto simp: completeMutationRequest_def rememberMutationResult_def evict_mutations_eq same_view_def
      Let_def split: option.split)

lemma same_view_observe: "same_view c (observeTimestamp ts c)"
  by (auto simp: observeTimestamp_def same_view_def split: option.split)

lemma same_view_apply: "same_view c (applyStateModification m c)"
  by (cases m) (auto simp: same_view_def)

lemma same_view_version: "same_view c (c\<lparr>remoteVersion := v\<rparr>)"
  by (simp add: same_view_def)

lemma same_view_finishAction: "same_view c (finishAction i res c)"
  by (simp add: same_view_def finishAction_def rememberActionResult_def evict_actions_eq)

lemma same_view_answered: "same_view c (answered m r c)"
  by (simp add: same_view_def answered_def)

lemma same_view_completeThrough: "same_view c (completeMutationsThrough ts c)"
  unfolding completeMutationsThrough_def by (rule same_view_fold) (rule same_view_complete)

text \<open>The state a transition leads to before the optimistic results are recomputed.\<close>

definition modifications :: "TransitionMessage \<Rightarrow> StateModification list" where
  "modifications m = (case tr_Modifications m of None \<Rightarrow> [] | Some ms \<Rightarrow> ms)"

definition transitioned :: "TransitionMessage \<Rightarrow> Client \<Rightarrow> Client" where
  "transitioned m c = completeMutationsThrough (sv_TS (tr_EndVersion m))
     (observeTimestamp (sv_TS (tr_EndVersion m))
       ((fold applyStateModification (modifications m) c)\<lparr>remoteVersion := tr_EndVersion m\<rparr>))"

lemma receiveTransition_eq:
  assumes "tr_StartVersion m = remoteVersion c" "recomputeOptimisticResults (transitioned m c) = (r, d)"
  shows "receiveTransition m c = (rbind r (\<lambda>_. Inr (Some (queryResultsSnapshot d))), d)"
  using assms by (cases r) (simp_all add: receiveTransition_def transitioned_def modifications_def)

lemma receiveTransition_mismatch:
  "tr_StartVersion m \<noteq> remoteVersion c \<Longrightarrow> receiveTransition m c = (Inl (ClientError TransitionVersionMismatch), c)"
  by (simp add: receiveTransition_def)

lemma same_view_transitioned: "same_view c (transitioned m c)"
proof -
  have "same_view c (fold applyStateModification (modifications m) c)"
    by (rule same_view_fold) (rule same_view_apply)
  then show ?thesis
    unfolding transitioned_def
    by (rule same_view_trans [OF same_view_trans [OF same_view_trans [OF _ same_view_version] same_view_observe]
          same_view_completeThrough])
qed

lemma same_view_receiveTransition: "same_view c (snd (receiveTransition m c))"
proof (cases "tr_StartVersion m = remoteVersion c")
  case True
  obtain r d where d: "recomputeOptimisticResults (transitioned m c) = (r, d)"
    by (meson surj_pair)
  then have "same_view c d"
    using same_view_trans [OF same_view_transitioned same_view_recompute [of "transitioned m c"]] by simp
  then show ?thesis
    by (simp add: receiveTransition_eq [OF True d])
qed (simp add: receiveTransition_mismatch)

lemma same_view_updateMutation: "same_view c (snd (updateRequestFromMutationResponse m c))"
proof (cases "\<exists>r. mget (requests c) (mr_RequestID m) = Some r \<and> rq_kind r = syncRequestMutation")
  case True
  then obtain r where r: "mget (requests c) (mr_RequestID m) = Some r" "rq_kind r = syncRequestMutation"
    by blast
  obtain h d where d: "completeMutationRequest (mr_RequestID m) (answered m r c) = (h, d)"
    by (meson surj_pair)
  then have "same_view c d"
    using same_view_trans [OF same_view_answered [of c m r] same_view_complete [of "answered m r c" "mr_RequestID m"]]
    by simp
  then show ?thesis
    using same_view_trans [OF _ same_view_recompute [of d]] same_view_answered
    by (simp add: updateMutation_eq [OF r] d)
qed (auto simp: updateRequestFromMutationResponse_def split: option.split)

lemma same_view_receiveMutation: "same_view c (snd (receiveMutationResponse m c))"
proof -
  obtain r d where u: "updateRequestFromMutationResponse m c = (r, d)"
    by (meson surj_pair)
  then have "same_view c d"
    using same_view_updateMutation [of c m] by simp
  then show ?thesis
    using same_view_trans [OF _ same_view_observe]
    by (auto simp: receiveMutationResponse_def u Let_def split: sum.split option.split)
qed

lemma same_view_updateAction: "same_view c (snd (updateRequestFromActionResponse m c))"
  by (cases "\<exists>r. mget (requests c) (ar_RequestID m) = Some r \<and> rq_kind r = syncRequestAction")
    (auto simp: updateAction_eq same_view_finishAction, auto simp: updateRequestFromActionResponse_def split: option.split)

lemma same_view_ReceiveMessage: "same_view c (snd (ReceiveMessage msg c))"
  using same_view_updateAction [of c]
  by (cases msg) (auto simp: same_view_receiveTransition same_view_receiveMutation split: prod.splits, (metis snd_conv)?)

section \<open>Operations that change it\<close>

lemma advances_Subscribe:
  assumes c: "wf_queries c"
  shows "advances c (snd (Subscribe path args c))"
proof -
  consider (err) e where "canonicalQuery path args = Inl e"
    | (join) p vs tok q where "canonicalQuery path args = Inr (p, vs, tok)" "mget (queries c) tok = Some q"
    | (new) p vs tok where "canonicalQuery path args = Inr (p, vs, tok)" "mget (queries c) tok = None"
    by (metis not_Some_eq old.prod.exhaust sum.exhaust)
  then show ?thesis
  proof cases
    case err
    then show ?thesis by (simp add: Subscribe_error advances_refl)
  next
    case (join p vs tok q)
    then show ?thesis
      by (intro advances_refl)
        (auto simp: Subscribe_join [OF join] client_view_def active_queries_def fun_eq_iff split: option.split)
  next
    case (new p vs tok)
    have "tok' \<noteq> tok" if "mget (queryIDToToken c) i = Some tok'" for i tok'
      using wf_queries_token [OF c that] new by auto
    then show ?thesis
      by (intro advances_one)
        (auto simp: Subscribe_open [OF new] client_view_def active_queries_def fun_eq_iff split: option.split)
  qed
qed

lemma advances_Unsubscribe:
  assumes c: "wf_queries c"
  shows "advances c (snd (Unsubscribe i c))"
proof (cases "mget (subscribers c) i")
  case None
  then show ?thesis by (simp add: Unsubscribe_unknown advances_refl)
next
  case (Some u)
  show ?thesis
  proof (rule Unsubscribe_known [OF c Some])
    fix tok q
    assume t: "mget (queryIDToToken c) (queryID i) = Some tok" "mget (queries c) tok = Some q" "lq_id q = queryID i"
    and U: "Unsubscribe i c =
      (if 1 < lq_numSubscribers q
       then (Inr (), c\<lparr>subscribers := mdel i (subscribers c),
         queries := mput tok (q\<lparr>lq_numSubscribers := lq_numSubscribers q - 1\<rparr>) (queries c)\<rparr>)
       else (Inr (), c\<lparr>subscribers := mdel i (subscribers c), queries := mdel tok (queries c),
         queryIDToToken := mdel (queryID i) (queryIDToToken c),
         serverResults := mdel (queryID i) (serverResults c), results := mdel (queryID i) (results c),
         querySetVersion := querySetVersion c + 1,
         outgoing := outgoing c @ [ModifyQuerySet \<lparr>mq_BaseVersion = querySetVersion c,
           mq_NewVersion = querySetVersion c + 1,
           mq_Modifications = Some [Remove \<lparr>qr_QueryID = queryID i\<rparr>]\<rparr>]\<rparr>))"
    have other: "tok' \<noteq> tok" if "mget (queryIDToToken c) j = Some tok'" "j \<noteq> queryID i" for j tok'
      using wf_queries_token [OF c that(1)] t that(2) by auto
    show "advances c (snd (Unsubscribe i c))"
    proof (cases "1 < lq_numSubscribers q")
      case True
      then show ?thesis
        using t by (intro advances_refl)
          (auto simp: U client_view_def active_queries_def fun_eq_iff split: option.split)
    next
      case False
      then show ?thesis
        using other by (intro advances_one)
          (auto simp: U client_view_def active_queries_def fun_eq_iff split: option.split)
    qed
  qed
qed

lemma advances_queueAuth: "advances c (snd (queueAuth token c))"
  by (rule advances_one) (auto simp: queueAuth_def Let_def client_view_def active_queries_def fun_eq_iff split: option.split)

lemma advances_authFetcher: "advances (c\<lparr>authFetcher := f\<rparr>) d \<Longrightarrow> advances c d"
proof -
  have "client_view (c\<lparr>authFetcher := f\<rparr>) = client_view c"
    by (auto simp: client_view_def active_queries_def fun_eq_iff split: option.split)
  then show "advances (c\<lparr>authFetcher := f\<rparr>) d \<Longrightarrow> advances c d"
    by (simp add: advances_def)
qed

lemma advances_auth:
  "advances c (snd (SetAuth token c))" "advances c (snd (SetAdminAuth token actingAs c))"
  "advances c (snd (ClearAuth c))" "advances c (snd (SetAuthCallback env fetcher c))"
  "advances c (snd (RefreshAuthForReconnect env c))"
  using advances_authFetcher [OF advances_queueAuth] advances_queueAuth
  by (auto simp: SetAuth_def SetAdminAuth_def ClearAuth_def SetAuthCallback_def RefreshAuthForReconnect_def Let_def
      advances_refl split: option.split sum.split)

text \<open>The two outcomes of \<open>mutation\<close>.\<close>

definition mutation_request :: "string \<Rightarrow> Value list \<Rightarrow> OptimisticUpdate option \<Rightarrow> Client \<Rightarrow> trackedSyncRequest" where
  "mutation_request p vs u c =
     \<lparr>rq_id = nextRequestID c, rq_kind = syncRequestMutation,
      rq_message = Mutation \<lparr>mu_RequestID = nextRequestID c, mu_UDFPath = p, mu_Args = Some vs, mu_ComponentPath = []\<rparr>,
      rq_optimisticUpdate = u, rq_result = zero_FunctionResult, rq_hasResult = False, rq_ts = None\<rparr>"

definition mutation_results ::
  "string \<Rightarrow> Value list \<Rightarrow> OptimisticUpdate option \<Rightarrow> Client \<Rightarrow> (QueryID, FunctionResult) gomap res" where
  "mutation_results p vs u c =
     (if u = None then Inr (results c) else optimisticResultsWith (Some (mutation_request p vs u c)) c)"

lemma mutation_Inr:
  assumes "canonicalRequest path args = Inr (p, vs)"
    and "mutation_results p vs (syncMutationOptionsFrom opts) c = Inr rs"
  shows "mutation path args opts c =
    (Inr (nextRequestID c, if syncMutationOptionsFrom opts = None then None
        else Some (queryResultsSnapshot (c\<lparr>results := rs\<rparr>))),
     c\<lparr>results := rs, nextRequestID := nextRequestID c + 1,
       requests := mput (nextRequestID c) (mutation_request p vs (syncMutationOptionsFrom opts) c) (requests c),
       outgoing := outgoing c @ [rq_message (mutation_request p vs (syncMutationOptionsFrom opts) c)]\<rparr>)"
  using assms by (cases "syncMutationOptionsFrom opts")
    (simp_all add: mutation_def mutation_request_def mutation_results_def Let_def)

lemma mutation_Inl:
  assumes "\<And>p vs rs. canonicalRequest path args = Inr (p, vs) \<Longrightarrow>
    mutation_results p vs (syncMutationOptionsFrom opts) c \<noteq> Inr rs"
  shows "isl (fst (mutation path args opts c))" "snd (mutation path args opts c) = c"
proof -
  have "isl (fst (mutation path args opts c)) \<and> snd (mutation path args opts c) = c"
  proof (cases "canonicalRequest path args")
    case (Inr x)
    then obtain p vs where x: "canonicalRequest path args = Inr (p, vs)"
      by (cases x) auto
    obtain e where e: "mutation_results p vs (syncMutationOptionsFrom opts) c = Inl e"
      using assms [OF x] by (metis sum.exhaust)
    then obtain u where u: "syncMutationOptionsFrom opts = Some u"
      by (auto simp: mutation_results_def split: if_splits)
    with x e show ?thesis
      by (simp add: mutation_def mutation_request_def mutation_results_def Let_def)
  qed (simp add: mutation_def)
  then show "isl (fst (mutation path args opts c))" "snd (mutation path args opts c) = c"
    by auto
qed

lemma advances_mutation: "advances c (snd (mutation path args opts c))"
proof (cases "\<exists>p vs rs. canonicalRequest path args = Inr (p, vs) \<and>
    mutation_results p vs (syncMutationOptionsFrom opts) c = Inr rs")
  case True
  then obtain p vs rs where m: "canonicalRequest path args = Inr (p, vs)"
    "mutation_results p vs (syncMutationOptionsFrom opts) c = Inr rs"
    by blast
  show ?thesis
    by (rule advances_one [where m = "rq_message (mutation_request p vs (syncMutationOptionsFrom opts) c)"])
      (auto simp: mutation_Inr [OF m] mutation_request_def client_view_def active_queries_def fun_eq_iff
        split: option.split)
next
  case False
  then have "snd (mutation path args opts c) = c"
    by (intro mutation_Inl(2)) blast
  then show ?thesis by (simp add: advances_refl)
qed

lemma advances_Client_Mutation: "advances c (snd (Client_Mutation path args opts c))"
  using advances_mutation [of c path args opts] by (auto simp: Client_Mutation_def split: prod.splits)

lemma advances_Client_Action: "advances c (snd (Client_Action path args c))"
proof (cases "canonicalRequest path args")
  case (Inl e)
  then show ?thesis by (simp add: Client_Action_def advances_refl)
next
  case (Inr x)
  then show ?thesis
    by (cases x, intro advances_one)
      (auto simp: Client_Action_def Let_def client_view_def active_queries_def fun_eq_iff split: option.split)
qed

section \<open>Restarting\<close>

lemma fold_adds:
  "fold apply_modification (map (\<lambda>q. Add \<lparr>qa_QueryID = lq_id q, qa_UDFPath = lq_canonicalPath q,
       qa_Args = (if lq_args q = [] then None else Some (lq_args q)), qa_Journal = j, qa_ComponentPath = []\<rparr>) qs) m =
     m ++ map_of (rev (map (\<lambda>q. (lq_id q, (lq_canonicalPath q, lq_args q))) qs))"
  by (induction qs arbitrary: m) (auto simp: fun_eq_iff map_add_def split: option.split)

lemma replay_adds_view:
  assumes c: "wf_queries c"
  shows "fold apply_modification (replayQueryAdds c) Map.empty = active_queries c"
proof -
  let ?e = "\<lambda>q. (lq_id q, (lq_canonicalPath q, lq_args q))"
  let ?qs = "sort_key lq_id (map snd (queries c))"
  have mem: "q \<in> set ?qs \<longleftrightarrow> (\<exists>tok. mget (queries c) tok = Some q)" for q
    using wf_queries_mwf(1) [OF c] by (force simp: mwf_mem_iff [symmetric])
  have q1: "active_queries c (lq_id q) = Some (lq_canonicalPath q, lq_args q)" if "q \<in> set ?qs" for q
    using that mem wf_queriesD(1) [OF c] by (auto simp: active_queries_def)
  have "map_of (rev (map ?e ?qs)) i = active_queries c i" for i
  proof (cases "map_of (rev (map ?e ?qs)) i")
    case None
    then have "i \<notin> lq_id ` set ?qs"
      by (auto simp: map_of_eq_None_iff image_iff)
    then have "mget (queryIDToToken c) i = None"
      using mem wf_queries_token [OF c, of i] by (metis image_eqI not_Some_eq)
    then have "active_queries c i = None"
      by (simp add: active_queries_def)
    with None show ?thesis by simp
  next
    case (Some x)
    then have "(i, x) \<in> ?e ` set ?qs"
      using map_of_SomeD [OF Some] by (simp only: set_rev set_map)
    then obtain q where "q \<in> set ?qs" "?e q = (i, x)"
      by (metis (no_types, lifting) imageE)
    with Some q1 [of q] show ?thesis
      by (simp del: set_sort)
  qed
  then show ?thesis
    by (auto simp: replayQueryAdds_def fold_adds fun_eq_iff)
qed

text \<open>The messages of a restart take a fresh server to the view of the client.\<close>

lemma server_run_requests:
  "(\<And>m. m \<in> set ms \<Longrightarrow> \<exists>x. m = Mutation x) \<Longrightarrow> server_run ms v = Some v"
  by (induction ms) fastforce+

lemma insert_by_set: "set (insert_by lt x xs) = insert x (set xs)"
  by (induction xs) auto

lemma sort_by_set: "set (sort_by lt xs) = set xs"
  by (induction xs) (auto simp: sort_by_def insert_by_set)

lemma replay_mutations:
  assumes "wf_requests c" "m \<in> set (ReplayOngoingRequests c)"
  shows "\<exists>x. m = Mutation x"
proof -
  obtain r where r: "r \<in> set (map snd (requests c))" "rq_kind r = syncRequestMutation" "m = rq_message r"
    using assms(2) by (auto simp: ReplayOngoingRequests_def replay_requests_def sort_by_set)
  then obtain i where "mget (requests c) i = Some r"
    using assms(1) by (auto simp: wf_requests_def mwf_mem_iff [symmetric])
  from wf_requestsD [OF assms(1) this] show ?thesis
    using r by (auto split: ClientMessage.splits)
qed

definition replay :: "Client \<Rightarrow> Client" where
  "replay c =
     (let d = (if replayQueryAdds c \<noteq> []
               then c\<lparr>querySetVersion := querySetVersion c + 1,
                      outgoing := outgoing c @ [ModifyQuerySet \<lparr>mq_BaseVersion = querySetVersion c,
                        mq_NewVersion = querySetVersion c + 1, mq_Modifications = Some (replayQueryAdds c)\<rparr>]\<rparr>
               else c)
      in d\<lparr>outgoing := outgoing d @ ReplayOngoingRequests c\<rparr>)"

definition restarted :: "Client \<Rightarrow> Client" where
  "restarted c = cancelPendingActionsForReconnect
     (c\<lparr>outgoing := [], identityVersion := 0, querySetVersion := 0, remoteVersion := zero_StateVersion\<rparr>)"

lemma RestartForReconnect_eq:
  "RestartForReconnect env c =
     (case authFetcher (restarted c) of
        None \<Rightarrow> (Inr (), replay (restarted c))
      | Some _ \<Rightarrow>
          (case RefreshAuthForReconnect env (restarted c) of
             (Inl e, d) \<Rightarrow> (Inl e, d)
           | (Inr _, d) \<Rightarrow> (Inr (), replay d)))"
  by (auto simp: RestartForReconnect_def restarted_def replay_def Let_def ReplayOngoingRequests_def
      replay_requests_def replayQueryAdds_def split: option.split prod.split sum.split)

lemma inv_restarted: "client_inv c \<Longrightarrow> client_inv (restarted c)"
  unfolding restarted_def by (rule inv_cancel, rule inv_reset)

lemma same_view_cancel: "same_view c (cancelPendingActionsForReconnect c)"
  unfolding cancel_eq by (rule same_view_fold) (rule same_view_finishAction)

lemma restarted_fields [simp]:
  "outgoing (restarted c) = []" "identityVersion (restarted c) = 0" "querySetVersion (restarted c) = 0"
  "queries (restarted c) = queries c" "queryIDToToken (restarted c) = queryIDToToken c"
  "subscribers (restarted c) = subscribers c" "authFetcher (restarted c) = authFetcher c"
  using same_view_cancel [of "c\<lparr>outgoing := [], identityVersion := 0, querySetVersion := 0,
    remoteVersion := zero_StateVersion\<rparr>"]
  by (simp_all add: restarted_def same_view_def)

lemma replay_view:
  assumes c: "client_inv c" and out: "outgoing c = ms" "querySetVersion c = 0"
    and run: "server_run ms empty_view = Some \<lparr>vw_version = 0, vw_queries = Map.empty, vw_identity = identityVersion c\<rparr>"
  shows "server_run (outgoing (replay c)) empty_view = Some (client_view (replay c))"
proof -
  have adds: "fold apply_modification (replayQueryAdds c) Map.empty = active_queries c"
    by (rule replay_adds_view) (rule client_invD(1) [OF c])
  have req: "server_run (ReplayOngoingRequests c) v = Some v" for v
    using replay_mutations [OF client_invD(3) [OF c]] by (rule server_run_requests)
  have a: "active_queries (replay c) = active_queries c"
    by (auto simp: replay_def Let_def active_queries_def fun_eq_iff split: option.split)
  show ?thesis
  proof (cases "replayQueryAdds c = []")
    case True
    then show ?thesis
      using run out adds a by (simp add: replay_def server_run_append req client_view_def)
  next
    case False
    then have "server_run (outgoing (replay c)) empty_view =
        Some \<lparr>vw_version = 1, vw_queries = active_queries c, vw_identity = identityVersion c\<rparr>"
      using run out adds by (simp add: replay_def server_run_append req Let_def)
    then show ?thesis
      using False out a by (simp add: client_view_def replay_def)
  qed
qed

lemma restart_view:
  assumes c: "client_inv c" and ok: "fst (RestartForReconnect env c) = Inr ()"
  shows "server_run (outgoing (snd (RestartForReconnect env c))) empty_view =
    Some (client_view (snd (RestartForReconnect env c)))"
proof (cases "authFetcher c")
  case None
  have "server_run [] empty_view = Some \<lparr>vw_version = 0, vw_queries = Map.empty, vw_identity = 0\<rparr>"
    by (simp add: empty_view_def)
  then show ?thesis
    using None replay_view [OF inv_restarted [OF c], of "[]"] by (simp add: RestartForReconnect_eq)
next
  case (Some f)
  obtain r d where d: "RefreshAuthForReconnect env (restarted c) = (r, d)"
    by (meson surj_pair)
  then have r: "r = Inr ()"
    using ok Some by (cases r) (auto simp: RestartForReconnect_eq)
  obtain tok where tok: "call_fetcher env f True = Inr tok" "d = snd (queueAuth tok (restarted c))"
    using d r Some by (auto simp: RefreshAuthForReconnect_def split: sum.splits)
  have "client_inv d"
    using inv_queueAuth [OF inv_restarted [OF c]] tok(2) by simp
  moreover have "server_run (outgoing d) empty_view =
      Some \<lparr>vw_version = 0, vw_queries = Map.empty, vw_identity = identityVersion d\<rparr>" "querySetVersion d = 0"
    using tok(2) by (simp_all add: queueAuth_def Let_def empty_view_def)
  ultimately have "server_run (outgoing (replay d)) empty_view = Some (client_view (replay d))"
    by (intro replay_view [OF _ refl])
  then show ?thesis
    using Some d r by (simp add: RestartForReconnect_eq)
qed

section \<open>The invariant of a session\<close>

definition in_sync :: "session \<Rightarrow> bool" where
  "in_sync s \<longleftrightarrow>
     server_run (ss_sent s @ outgoing (ss_client s)) empty_view = Some (client_view (ss_client s))"

definition session_inv :: "session \<Rightarrow> bool" where
  "session_inv s \<longleftrightarrow> client_inv (ss_client s) \<and> (ss_synced s \<longrightarrow> in_sync s)"

lemma in_sync_advances:
  assumes "in_sync s" "advances (ss_client s) d"
  shows "in_sync (s\<lparr>ss_client := d\<rparr>)"
  using assms by (auto simp: in_sync_def advances_def server_run_append simp flip: append_assoc split: option.splits)

lemma in_sync_pop:
  assumes "in_sync s"
  shows "in_sync (run_op OpPop s)"
proof (cases "outgoing (ss_client s)")
  case Nil
  with assms show ?thesis
    by (simp add: run_op_def PopNextMessage_def in_sync_def Let_def)
next
  case (Cons m ms)
  have "client_view (ss_client s\<lparr>outgoing := ms\<rparr>) = client_view (ss_client s)"
    by (auto simp: client_view_def active_queries_def fun_eq_iff split: option.split)
  with assms Cons show ?thesis
    by (simp add: run_op_def PopNextMessage_def in_sync_def Let_def)
qed

lemma advances_exec:
  assumes "client_inv c"
  shows "(case x of OpPop \<Rightarrow> True | OpRestart env \<Rightarrow> True | _ \<Rightarrow> advances c (exec x c))"
  using assms by (cases x) (simp_all add: advances_Subscribe advances_Unsubscribe advances_auth
      advances_Client_Mutation advances_Client_Action same_view_advances same_view_ReceiveMessage client_invD)

lemma session_inv_step:
  assumes s: "session_inv s" and r: "room (ss_client s)"
  shows "session_inv (run_op x s)"
proof -
  have c: "client_inv (ss_client s)"
    using s by (simp add: session_inv_def)
  have "in_sync (run_op x s)" if synced: "ss_synced (run_op x s)"
  proof (cases x)
    case OpPop
    then show ?thesis
      using s synced in_sync_pop by (auto simp: session_inv_def run_op_def Let_def)
  next
    case (OpRestart env)
    then have "fst (RestartForReconnect env (ss_client s)) = Inr ()"
      using synced by (cases "fst (RestartForReconnect env (ss_client s))") (auto simp: run_op_def Let_def)
    from restart_view [OF c this] OpRestart show ?thesis
      by (simp add: in_sync_def run_op_def Let_def)
  qed (use s synced advances_exec [OF c, of x] in_sync_advances in \<open>auto simp: session_inv_def run_op_def Let_def\<close>)
  then show ?thesis
    using inv_exec [OF c r] by (simp add: session_inv_def)
qed

interpretation base: machine "\<lambda>s. s = new_session" session_step session_inv
proof unfold_locales
  fix s
  assume "s = new_session"
  then show "session_inv s"
    using inv_New by (simp add: session_inv_def new_session_def in_sync_def)
      (simp add: New_def client_view_def empty_view_def active_queries_def fun_eq_iff)
next
  fix s t
  assume "session_inv s" "session_step s t"
  then show "session_inv t"
    by (auto elim!: session_stepE intro: session_inv_step)
qed

end
