(* ===== verification/Base_Behaviour.thy ===== *)
theory Base_Behaviour
  imports Base_Session
begin

text \<open>
  The behaviour of the operations of the base client: transitions, mutations and their
  completion, optimistic results, reconnecting and the retention of results.
\<close>

section \<open>Transitions\<close>

fun mod_id :: "StateModification \<Rightarrow> QueryID" where
  "mod_id (Updated m) = qu_QueryID m"
| "mod_id (Failed m) = qf_QueryID m"
| "mod_id (Removed m) = qd_QueryID m"

fun mod_result :: "StateModification \<Rightarrow> FunctionResult option" where
  "mod_result (Updated m) = Some (ValueResult (qu_Value m))"
| "mod_result (Failed m) = Some (queryFailedResult m)"
| "mod_result (Removed m) = None"

text \<open>The result of a query after a list of changes: that of the last one about it.\<close>

definition latest :: "StateModification list \<Rightarrow> QueryID \<Rightarrow> FunctionResult option \<Rightarrow> FunctionResult option" where
  "latest ms i old =
     (let about = filter (\<lambda>m. mod_id m = i) ms in if about = [] then old else mod_result (last about))"

lemma latest_snoc: "latest (ms @ [m]) i old = (if mod_id m = i then mod_result m else latest ms i old)"
  by (simp add: latest_def)

lemma apply_frame [simp]:
  "queryIDToToken (applyStateModification m c) = queryIDToToken c"
  "requests (applyStateModification m c) = requests c"
  "completedMutationOrder (applyStateModification m c) = completedMutationOrder c"
  "mutationResults (applyStateModification m c) = mutationResults c"
  by (cases m; simp)+

lemma fold_apply_frame [simp]:
  "queryIDToToken (fold applyStateModification ms c) = queryIDToToken c"
  "requests (fold applyStateModification ms c) = requests c"
  "completedMutationOrder (fold applyStateModification ms c) = completedMutationOrder c"
  "mutationResults (fold applyStateModification ms c) = mutationResults c"
  by (induction ms arbitrary: c) auto

lemma fold_apply_results:
  assumes "wf_results c"
  shows "mget (serverResults (fold applyStateModification ms c)) i =
    (if isActiveQuery c i then latest ms i (mget (serverResults c) i) else None)"
proof (induction ms rule: rev_induct)
  case Nil
  then show ?case
    using assms by (auto simp: latest_def isActive_mget wf_results_def)
next
  case (snoc m ms)
  have "isActiveQuery (fold applyStateModification ms c) k \<longleftrightarrow> isActiveQuery c k" for k
    by (simp add: isActive_mget)
  with snoc show ?case
    by (cases m) (auto simp: latest_snoc)
qed

lemma complete_frame [simp]:
  "serverResults (snd (completeMutationRequest i c)) = serverResults c"
  "remoteVersion (snd (completeMutationRequest i c)) = remoteVersion c"
  "maxObservedTimestamp (snd (completeMutationRequest i c)) = maxObservedTimestamp c"
  by (auto simp: completeMutationRequest_def rememberMutationResult_def evict_mutations_eq Let_def split: option.split)

lemma fold_complete_frame:
  "serverResults (fold (\<lambda>i c. snd (completeMutationRequest i c)) is c) = serverResults c"
  "remoteVersion (fold (\<lambda>i c. snd (completeMutationRequest i c)) is c) = remoteVersion c"
  "maxObservedTimestamp (fold (\<lambda>i c. snd (completeMutationRequest i c)) is c) = maxObservedTimestamp c"
  by (induction "is" arbitrary: c) auto

lemma completeThrough_frame [simp]:
  "serverResults (completeMutationsThrough ts c) = serverResults c"
  "remoteVersion (completeMutationsThrough ts c) = remoteVersion c"
  "maxObservedTimestamp (completeMutationsThrough ts c) = maxObservedTimestamp c"
  by (simp_all add: completeMutationsThrough_def fold_complete_frame)

lemma observe_frame [simp]:
  "serverResults (observeTimestamp ts c) = serverResults c"
  "remoteVersion (observeTimestamp ts c) = remoteVersion c"
  "requests (observeTimestamp ts c) = requests c"
  "completedMutationOrder (observeTimestamp ts c) = completedMutationOrder c"
  "mutationResults (observeTimestamp ts c) = mutationResults c"
  by (simp_all add: observeTimestamp_def split: option.split)

lemma recompute_frame [simp]:
  "serverResults (snd (recomputeOptimisticResults c)) = serverResults c"
  "remoteVersion (snd (recomputeOptimisticResults c)) = remoteVersion c"
  "requests (snd (recomputeOptimisticResults c)) = requests c"
  "mutationResults (snd (recomputeOptimisticResults c)) = mutationResults c"
  "maxObservedTimestamp (snd (recomputeOptimisticResults c)) = maxObservedTimestamp c"
  by (simp_all add: recomputeOptimisticResults_def split: sum.split)

text \<open>A transition that starts at the client's version, in terms of the state it leads to.\<close>

lemma receiveTransition_snd:
  assumes "tr_StartVersion m = remoteVersion c"
  shows "snd (receiveTransition m c) = snd (recomputeOptimisticResults (transitioned m c))"
  using receiveTransition_eq [OF assms] by (metis prod.collapse snd_conv)

lemma transition_server_results:
  assumes "wf_results c" "tr_StartVersion m = remoteVersion c"
  shows "mget (serverResults (snd (receiveTransition m c))) i =
    (if isActiveQuery c i then latest (modifications m) i (mget (serverResults c) i) else None)"
  by (simp add: receiveTransition_snd [OF assms(2)] transitioned_def fold_apply_results [OF assms(1)])

section \<open>Completion of mutations\<close>

text \<open>What completing a list of answered requests does to the requests and the results.\<close>

lemma complete_requests:
  assumes "mget (requests c) i = Some r" "rq_hasResult r"
  shows "requests (snd (completeMutationRequest i c)) = mdel i (requests c)"
  by (simp add: completeMutationRequest_eq [OF assms])

text \<open>
  Results are remembered in the order in which requests are finished, and of those the
  last ones, as many as are retained.
\<close>

definition retained :: "RequestID list \<Rightarrow> RequestID list" where
  "retained ids = drop (excess ids) ids"

lemma retained_retained [simp]: "retained (retained xs @ ys) = retained (xs @ ys)"
proof -
  have "excess (retained xs @ ys) + excess xs = excess (xs @ ys)"
    by (simp add: retained_def excess_def)
  moreover have "retained xs @ ys = drop (excess xs) (xs @ ys)"
    by (simp add: retained_def excess_def)
  ultimately show ?thesis
    by (metis drop_drop retained_def)
qed

lemma retained_prefix: "k \<in> set (retained (xs @ ys)) \<Longrightarrow> k \<notin> set ys \<Longrightarrow> k \<in> set (retained xs)"
  using set_drop_subset_set_drop [of "excess xs" "excess (xs @ ys)" xs] diff_le_mono [of "length xs" "length (xs @ ys)"]
  by (auto simp: retained_def excess_def dest: in_set_dropD)

lemma retained_all: "int (length ids) \<le> normalizedCompletedRequestRetentionLimit \<Longrightarrow> retained ids = ids"
  by (simp add: retained_def excess_def)

lemma remember_one:
  assumes "remembered order rs reqs bound" "i \<notin> set order" "i < bound"
  shows "mget (fold mdel (take (excess (order @ [i])) (order @ [i])) (mput i x rs)) k =
    (if k \<in> set (retained (order @ [i])) then if k = i then Some x else mget rs k else None)"
proof -
  have "k \<in> set (retained (order @ [i])) \<longleftrightarrow>
      mget (fold mdel (take (excess (order @ [i])) (order @ [i])) (mput i x rs)) k \<noteq> None"
    using remember_ok [OF assms, of x] unfolding remembered_def retained_def by blast
  then show ?thesis
    by (auto simp: mget_fold_mdel split: if_splits)
qed

text \<open>
  Finishing a request, as mutations and actions do it: the request is no longer pending
  and its outcome is remembered. What finishing several in a row leaves follows.
\<close>

locale finishing =
  fixes finish :: "RequestID \<Rightarrow> Client \<Rightarrow> Client" and due :: "trackedSyncRequest \<Rightarrow> bool"
    and outcome :: "trackedSyncRequest \<Rightarrow> FunctionResult"
    and order :: "Client \<Rightarrow> RequestID list" and outcomes :: "Client \<Rightarrow> (RequestID, FunctionResult) gomap"
  assumes finish_inv: "client_inv c \<Longrightarrow> mget (requests c) i = Some r \<Longrightarrow> due r \<Longrightarrow> client_inv (finish i c)"
    and finish_requests: "mget (requests c) i = Some r \<Longrightarrow> due r \<Longrightarrow> requests (finish i c) = mdel i (requests c)"
    and finish_order: "mget (requests c) i = Some r \<Longrightarrow> due r \<Longrightarrow> order (finish i c) = retained (order c @ [i])"
    and finish_outcomes: "client_inv c \<Longrightarrow> mget (requests c) i = Some r \<Longrightarrow> due r \<Longrightarrow>
      mget (outcomes (finish i c)) k =
        (if k \<in> set (retained (order c @ [i])) then if k = i then Some (outcome r) else mget (outcomes c) k else None)"
begin

lemma finish_due:
  assumes "distinct (i # is)" "\<And>j. j \<in> set (i # is) \<Longrightarrow> \<exists>r. mget (requests c) j = Some r \<and> due r"
  obtains r where "mget (requests c) i = Some r" "due r"
    "\<And>j. j \<in> set is \<Longrightarrow> mget (requests (finish i c)) j = mget (requests c) j"
    "\<And>j. j \<in> set is \<Longrightarrow> \<exists>r. mget (requests (finish i c)) j = Some r \<and> due r"
proof -
  obtain r where r: "mget (requests c) i = Some r" "due r"
    using assms(2) [of i] by auto
  then have "mget (requests (finish i c)) j = mget (requests c) j" if "j \<in> set is" for j
    using assms(1) that by (auto simp: finish_requests [OF r])
  with that [OF r] assms(2) show thesis
    by simp
qed

lemma fold_requests:
  assumes "distinct is" and "\<And>i. i \<in> set is \<Longrightarrow> \<exists>r. mget (requests c) i = Some r \<and> due r"
  shows "mget (requests (fold finish is c)) k = (if k \<in> set is then None else mget (requests c) k)"
  using assms
proof (induction "is" arbitrary: c)
  case (Cons i "is")
  obtain r where r: "mget (requests c) i = Some r" "due r"
    "\<And>j. j \<in> set is \<Longrightarrow> mget (requests (finish i c)) j = mget (requests c) j"
    "\<And>j. j \<in> set is \<Longrightarrow> \<exists>r. mget (requests (finish i c)) j = Some r \<and> due r"
    using finish_due [OF Cons.prems] by blast
  from Cons.IH [OF _ r(4)] Cons.prems(1) show ?case
    by (simp add: finish_requests [OF r(1,2)])
qed simp

lemma fold_outcomes:
  assumes "client_inv c" and "distinct is" and "\<And>i. i \<in> set is \<Longrightarrow> \<exists>r. mget (requests c) i = Some r \<and> due r"
    and "k \<in> set is"
  shows "mget (outcomes (fold finish is c)) k =
    (if k \<in> set (retained (order c @ is)) then Some (outcome (the (mget (requests c) k))) else None)"
proof -
  have "mget (outcomes (fold finish is c)) k =
    (if is = [] then mget (outcomes c) k
     else if k \<in> set (retained (order c @ is))
     then if k \<in> set is then Some (outcome (the (mget (requests c) k))) else mget (outcomes c) k else None)"
    using assms(1-3)
  proof (induction "is" arbitrary: c)
    case (Cons i "is")
    obtain r where r: "mget (requests c) i = Some r" "due r"
      "\<And>j. j \<in> set is \<Longrightarrow> mget (requests (finish i c)) j = mget (requests c) j"
      "\<And>j. j \<in> set is \<Longrightarrow> \<exists>r. mget (requests (finish i c)) j = Some r \<and> due r"
      using finish_due [OF Cons.prems(2,3)] by blast
    note f = finish_order [OF r(1,2)] finish_outcomes [OF Cons.prems(1) r(1,2)]
    have "retained (retained (order c @ [i]) @ is) = retained (order c @ i # is)"
      by simp
    moreover have "k \<in> set (retained (order c @ [i]))" if "k \<in> set (retained (order c @ i # is))" "k \<notin> set is"
      using that retained_prefix [of k "order c @ [i]" "is"] by simp
    ultimately show ?case
      using Cons.IH [OF finish_inv [OF Cons.prems(1) r(1,2)] _ r(4)] Cons.prems(2) r(1,3)
      by (cases "k \<in> set is") (auto simp: f)
  qed simp
  with assms(4) show ?thesis
    by auto
qed

end

interpretation mutations: finishing "\<lambda>i c. snd (completeMutationRequest i c)" rq_hasResult rq_result
  completedMutationOrder mutationResults
proof
  fix c :: Client and i r k
  assume r: "mget (requests c) i = Some r" "rq_hasResult r"
  show "requests (snd (completeMutationRequest i c)) = mdel i (requests c)"
    by (rule complete_requests [OF r])
  show "completedMutationOrder (snd (completeMutationRequest i c)) = retained (completedMutationOrder c @ [i])"
    by (simp add: completeMutationRequest_eq [OF r] rememberMutationResult_def evict_mutations_eq retained_def)
  assume c: "client_inv c"
  then show "client_inv (snd (completeMutationRequest i c))"
    by (rule inv_complete)
  have "remembered (completedMutationOrder c) (mutationResults c) (requests c) (nextRequestID c)"
    using client_invD(4) [OF c] by (simp add: wf_completed_def)
  from remember_one [OF this wf_completed_pending(1) [OF client_invD(4) [OF c] r(1)]]
    wf_requestsD [OF client_invD(3) [OF c] r(1)]
  show "mget (mutationResults (snd (completeMutationRequest i c))) k =
    (if k \<in> set (retained (completedMutationOrder c @ [i]))
     then if k = i then Some (rq_result r) else mget (mutationResults c) k else None)"
    by (simp add: completeMutationRequest_eq [OF r] rememberMutationResult_def evict_mutations_eq)
qed

interpretation actions: finishing "\<lambda>i. finishAction i x" "\<lambda>_. True" "\<lambda>_. x" actionResultOrder actionResults for x
proof
  fix c :: Client and i r k
  assume r: "mget (requests c) i = Some r"
  show "requests (finishAction i x c) = mdel i (requests c)"
    by (simp add: finishAction_def)
  show "actionResultOrder (finishAction i x c) = retained (actionResultOrder c @ [i])"
    by (simp add: finishAction_def rememberActionResult_def evict_actions_eq retained_def)
  assume c: "client_inv c"
  then show "client_inv (finishAction i x c)"
    by (rule inv_finishAction [OF _ r])
  have "remembered (actionResultOrder c) (actionResults c) (requests c) (nextRequestID c)"
    using client_invD(4) [OF c] by (simp add: wf_completed_def)
  from remember_one [OF this wf_completed_pending(2) [OF client_invD(4) [OF c] r]]
    wf_requestsD [OF client_invD(3) [OF c] r]
  show "mget (actionResults (finishAction i x c)) k =
    (if k \<in> set (retained (actionResultOrder c @ [i])) then if k = i then Some x else mget (actionResults c) k else None)"
    by (simp add: finishAction_def rememberActionResult_def evict_actions_eq)
qed

definition completing :: "SyncTimestamp \<Rightarrow> Client \<Rightarrow> RequestID list" where
  "completing ts c = sort (map fst (filter (\<lambda>p. completed_through ts (snd p)) (requests c)))"

lemma completing_props:
  assumes "mwf (requests c)"
  shows "distinct (completing ts c)"
    "i \<in> set (completing ts c) \<longleftrightarrow> (\<exists>r. mget (requests c) i = Some r \<and> completed_through ts r)"
proof -
  have "distinct (map fst (requests c))"
    using assms by (rule mwf_distinct)
  then show "distinct (completing ts c)"
    by (simp add: completing_def distinct_map_filter)
  show "i \<in> set (completing ts c) \<longleftrightarrow> (\<exists>r. mget (requests c) i = Some r \<and> completed_through ts r)"
    using assms by (force simp: completing_def mwf_mem_iff [symmetric])
qed

lemma completeThrough_requests:
  assumes "mwf (requests c)"
  shows "mget (requests (completeMutationsThrough ts c)) i =
    (case mget (requests c) i of None \<Rightarrow> None | Some r \<Rightarrow> if completed_through ts r then None else Some r)"
  unfolding completeMutationsThrough_def completing_def [symmetric]
  using completing_props [OF assms, where ts = ts]
  by (subst mutations.fold_requests) (auto simp: completed_through_def split: option.split)

lemma completeThrough_results:
  assumes "client_inv c" "mget (requests c) i = Some r" "completed_through ts r"
  shows "mget (mutationResults (completeMutationsThrough ts c)) i =
    (if i \<in> set (retained (completedMutationOrder c @ completing ts c)) then Some (rq_result r) else None)"
proof -
  have w: "mwf (requests c)"
    using client_invD(3) [OF assms(1)] by (simp add: wf_requests_def)
  show ?thesis
    unfolding completeMutationsThrough_def completing_def [symmetric]
    using completing_props [OF w, where ts = ts] assms
    by (subst mutations.fold_outcomes) (auto simp: completed_through_def)
qed

section \<open>The order of replayed mutations\<close>

text \<open>The comparison is a strict order that is total on requests with different ids.\<close>

lemma replay_less_irrefl: "\<not> replay_less r r"
  by (simp add: replay_less_def)

lemma replay_less_trans: "replay_less a b \<Longrightarrow> replay_less b c \<Longrightarrow> replay_less a c"
  by (auto simp: replay_less_def split: if_splits)

lemma replay_less_total: "rq_id a \<noteq> rq_id b \<Longrightarrow> replay_less a b \<or> replay_less b a"
  by (auto simp: replay_less_def)

lemma insert_by_sorted:
  assumes "sorted_wrt replay_less xs" "\<And>y. y \<in> set xs \<Longrightarrow> rq_id y \<noteq> rq_id x"
  shows "sorted_wrt replay_less (insert_by replay_less x xs)"
  using assms
proof (induction xs)
  case (Cons y ys)
  show ?case
  proof (cases "replay_less y x")
    case True
    with Cons show ?thesis
      by (auto simp: insert_by_set)
  next
    case False
    then have "replay_less x y"
      using Cons.prems(2) [of y] replay_less_total [of x y] by auto
    with Cons.prems(1) False show ?thesis
      by (auto intro: replay_less_trans)
  qed
qed simp

lemma sort_by_sorted: "distinct (map rq_id xs) \<Longrightarrow> sorted_wrt replay_less (sort_by replay_less xs)"
proof (induction xs)
  case (Cons a xs)
  have "sort_by replay_less (a # xs) = insert_by replay_less a (sort_by replay_less xs)"
    by (simp add: sort_by_def)
  moreover have "rq_id a \<notin> rq_id ` set xs"
    using Cons.prems by simp
  then have "rq_id y \<noteq> rq_id a" if "y \<in> set (sort_by replay_less xs)" for y
    using that by (metis image_eqI sort_by_set)
  ultimately show ?case
    using Cons insert_by_sorted [of "sort_by replay_less xs" a] by simp
qed (simp add: sort_by_def)

text \<open>A set of requests has one sorted list only, so the order does not depend on how it is found.\<close>

lemma sorted_replay_unique:
  "sorted_wrt replay_less xs \<Longrightarrow> sorted_wrt replay_less ys \<Longrightarrow> set xs = set ys \<Longrightarrow> xs = ys"
proof (induction xs arbitrary: ys)
  case (Cons x xs)
  then obtain y ys' where ys: "ys = y # ys'"
    by (cases ys) auto
  have "x = y"
  proof (rule ccontr)
    assume "x \<noteq> y"
    then have "replay_less y x" "replay_less x y"
      using Cons.prems ys by auto
    then show False
      using replay_less_trans replay_less_irrefl by blast
  qed
  moreover have "x \<notin> set xs" "y \<notin> set ys'"
    using Cons.prems ys replay_less_irrefl by auto
  ultimately show ?case
    using Cons.IH [of ys'] Cons.prems ys by (simp add: insert_ident)
qed simp

section \<open>Reconnecting\<close>

lemma fold_finish_requests: "requests (fold (\<lambda>i. finishAction i res) is c) = fold mdel is (requests c)"
  by (induction "is" arbitrary: c) auto

lemma fold_mdel_filter: "fold mdel is m = filter (\<lambda>p. fst p \<notin> set is) m"
proof (induction "is" arbitrary: m)
  case (Cons i "is")
  then show ?case
    by (simp add: mdel_def)
qed simp

lemma restarted_requests:
  assumes "mwf (requests c)"
  shows "requests (restarted c) = filter (\<lambda>p. rq_kind (snd p) = syncRequestMutation) (requests c)"
proof -
  let ?c = "c\<lparr>outgoing := [], identityVersion := 0, querySetVersion := 0, remoteVersion := zero_StateVersion\<rparr>"
  have "requests (restarted c) = filter (\<lambda>p. fst p \<notin> set (pending_actions ?c)) (requests c)"
    by (simp add: restarted_def cancel_eq fold_finish_requests fold_mdel_filter)
  also have "\<dots> = filter (\<lambda>p. rq_kind (snd p) = syncRequestMutation) (requests c)"
  proof (rule filter_cong [OF refl])
    fix p
    assume "p \<in> set (requests c)"
    then have "mget (requests c) (fst p) = Some (snd p)"
      using assms by (simp add: mwf_mem_iff [symmetric])
    then show "fst p \<notin> set (pending_actions ?c) \<longleftrightarrow> rq_kind (snd p) = syncRequestMutation"
      using pending_actions_props(2) [of ?c "fst p"] assms by (cases "rq_kind (snd p)") simp_all
  qed
  finally show ?thesis .
qed

lemma mget_filter:
  assumes "mwf m"
  shows "mget (filter (\<lambda>p. P (snd p)) m) i =
    (case mget m i of None \<Rightarrow> None | Some x \<Rightarrow> if P x then Some x else None)"
proof -
  let ?f = "filter (\<lambda>p. P (snd p)) m"
  have "distinct (mkeys ?f)"
    using mwf_distinct [OF assms] by (rule distinct_map_filter)
  then have f: "mget ?f i = Some x \<longleftrightarrow> (i, x) \<in> set m \<and> P x" for x
    by (auto simp: map_of_eq_Some_iff)
  have g: "mget m i = Some x \<longleftrightarrow> (i, x) \<in> set m" for x
    using mwf_mem_iff [OF assms] by blast
  show ?thesis
  proof (cases "mget m i")
    case None
    then have "mget ?f i \<noteq> Some x" for x
      using f [of x] g [of x] by simp
    then have "mget ?f i = None"
      by (rule not_Some_eq [THEN iffD1, OF allI])
    with None show ?thesis by simp
  next
    case (Some y)
    then have "mget ?f i = Some x \<longleftrightarrow> x = y \<and> P y" for x
      using f [of x] g [of x] by auto
    then have "mget ?f i = (if P y then Some y else None)"
      by (metis not_Some_eq)
    with Some show ?thesis by simp
  qed
qed

lemma replay_restarted:
  assumes "mwf (requests c)" "requests d = requests (restarted c)"
  shows "ReplayOngoingRequests d = ReplayOngoingRequests c"
  using assms by (simp add: ReplayOngoingRequests_def replay_requests_def restarted_requests filter_map comp_def)

text \<open>What a restart leaves, whether or not the authentication succeeds.\<close>

lemma queueAuth_frame [simp]:
  "requests (snd (queueAuth token c)) = requests c" "actionResults (snd (queueAuth token c)) = actionResults c"
  "maxObservedTimestamp (snd (queueAuth token c)) = maxObservedTimestamp c"
  "queries (snd (queueAuth token c)) = queries c" "querySetVersion (snd (queueAuth token c)) = querySetVersion c"
  by (simp_all add: queueAuth_def Let_def)

lemma refresh_frame [simp]:
  "requests (snd (RefreshAuthForReconnect env c)) = requests c"
  "actionResults (snd (RefreshAuthForReconnect env c)) = actionResults c"
  "maxObservedTimestamp (snd (RefreshAuthForReconnect env c)) = maxObservedTimestamp c"
  "queries (snd (RefreshAuthForReconnect env c)) = queries c"
  by (simp_all add: RefreshAuthForReconnect_def split: option.split sum.split)

lemma replay_frame [simp]:
  "requests (replay c) = requests c" "actionResults (replay c) = actionResults c"
  "maxObservedTimestamp (replay c) = maxObservedTimestamp c"
  by (simp_all add: replay_def Let_def)

lemma restart_frame:
  "requests (snd (RestartForReconnect env c)) = requests (restarted c)"
  "actionResults (snd (RestartForReconnect env c)) = actionResults (restarted c)"
  "maxObservedTimestamp (snd (RestartForReconnect env c)) = maxObservedTimestamp (restarted c)"
proof -
  obtain r d where d: "RefreshAuthForReconnect env (restarted c) = (r, d)"
    by (meson surj_pair)
  then have "requests d = requests (restarted c)" "actionResults d = actionResults (restarted c)"
    "maxObservedTimestamp d = maxObservedTimestamp (restarted c)"
    using refresh_frame(1-3) [of env "restarted c"] by simp_all
  then show "requests (snd (RestartForReconnect env c)) = requests (restarted c)"
    "actionResults (snd (RestartForReconnect env c)) = actionResults (restarted c)"
    "maxObservedTimestamp (snd (RestartForReconnect env c)) = maxObservedTimestamp (restarted c)"
    by (cases r; cases "authFetcher c"; simp add: RestartForReconnect_eq d)+
qed

section \<open>Timestamps\<close>

definition observed_le :: "SyncTimestamp option \<Rightarrow> SyncTimestamp option \<Rightarrow> bool" where
  "observed_le a b = (case a of None \<Rightarrow> True | Some t \<Rightarrow> (case b of None \<Rightarrow> False | Some u \<Rightarrow> t \<le> u))"

lemma observed_le_refl [simp]: "observed_le a a"
  by (simp add: observed_le_def split: option.split)

lemma observed_le_observe: "observed_le (maxObservedTimestamp c) (maxObservedTimestamp (observeTimestamp ts c))"
  by (auto simp: observed_le_def observeTimestamp_def split: option.split)

lemma apply_observed [simp]: "maxObservedTimestamp (applyStateModification m c) = maxObservedTimestamp c"
  by (cases m) auto

lemma fold_apply_observed [simp]: "maxObservedTimestamp (fold applyStateModification ms c) = maxObservedTimestamp c"
  by (induction ms arbitrary: c) auto

lemma finishAction_observed [simp]: "maxObservedTimestamp (finishAction i res c) = maxObservedTimestamp c"
  by (simp add: finishAction_def rememberActionResult_def evict_actions_eq)

lemma fold_finish_observed [simp]:
  "maxObservedTimestamp (fold (\<lambda>i. finishAction i res) is c) = maxObservedTimestamp c"
  by (induction "is" arbitrary: c) auto

lemma restarted_observed [simp]: "maxObservedTimestamp (restarted c) = maxObservedTimestamp c"
  by (simp add: restarted_def cancel_eq)

lemma transition_observed:
  "observed_le (maxObservedTimestamp c) (maxObservedTimestamp (snd (receiveTransition m c)))"
proof (cases "tr_StartVersion m = remoteVersion c")
  case True
  let ?d = "(fold applyStateModification (modifications m) c)\<lparr>remoteVersion := tr_EndVersion m\<rparr>"
  show ?thesis
    using observed_le_observe [of ?d] by (simp add: receiveTransition_snd [OF True] transitioned_def)
qed (simp add: receiveTransition_mismatch)

lemma updateMutation_observed [simp]:
  "maxObservedTimestamp (snd (updateRequestFromMutationResponse m c)) = maxObservedTimestamp c"
proof (cases "\<exists>r. mget (requests c) (mr_RequestID m) = Some r \<and> rq_kind r = syncRequestMutation")
  case True
  then obtain r where r: "mget (requests c) (mr_RequestID m) = Some r" "rq_kind r = syncRequestMutation"
    by blast
  obtain h d where d: "completeMutationRequest (mr_RequestID m) (answered m r c) = (h, d)"
    by (meson surj_pair)
  then have "maxObservedTimestamp d = maxObservedTimestamp (answered m r c)"
    by (metis complete_frame(3) snd_conv)
  moreover have "maxObservedTimestamp (answered m r c) = maxObservedTimestamp c"
    by (simp add: answered_def)
  ultimately show ?thesis
    by (simp add: updateMutation_eq [OF r] d)
qed (auto simp: updateRequestFromMutationResponse_def split: option.split)

lemma receiveMutation_observed:
  "observed_le (maxObservedTimestamp c) (maxObservedTimestamp (snd (receiveMutationResponse m c)))"
proof -
  obtain r d where u: "updateRequestFromMutationResponse m c = (r, d)"
    by (meson surj_pair)
  then have "maxObservedTimestamp d = maxObservedTimestamp c"
    by (metis updateMutation_observed snd_conv)
  then show ?thesis
    using observed_le_observe [of d] by (auto simp: receiveMutationResponse_def u Let_def split: sum.split option.split)
qed

lemma updateAction_observed [simp]:
  "maxObservedTimestamp (snd (updateRequestFromActionResponse m c)) = maxObservedTimestamp c"
  by (cases "\<exists>r. mget (requests c) (ar_RequestID m) = Some r \<and> rq_kind r = syncRequestAction")
    (auto simp: updateAction_eq, auto simp: updateRequestFromActionResponse_def split: option.split)

lemma mutation_observed [simp]: "maxObservedTimestamp (snd (mutation path args opts c)) = maxObservedTimestamp c"
proof (cases "\<exists>p vs rs. canonicalRequest path args = Inr (p, vs) \<and>
    mutation_results p vs (syncMutationOptionsFrom opts) c = Inr rs")
  case True
  then show ?thesis by (auto simp: mutation_Inr)
next
  case False
  then have "snd (mutation path args opts c) = c"
    by (intro mutation_Inl(2)) blast
  then show ?thesis by simp
qed

lemma receiveAction_observed:
  "observed_le (maxObservedTimestamp c) (maxObservedTimestamp (snd (ReceiveMessage (ActionResponse m) c)))"
proof -
  obtain r d where u: "updateRequestFromActionResponse m c = (r, d)"
    by (meson surj_pair)
  then have "maxObservedTimestamp d = maxObservedTimestamp c"
    by (metis updateAction_observed snd_conv)
  then show ?thesis
    by (simp add: u split: sum.split option.split)
qed

lemma exec_observed: "observed_le (maxObservedTimestamp c) (maxObservedTimestamp (exec x c))"
proof (cases x)
  case (OpSubscribe path args)
  then show ?thesis
    by (auto simp: Subscribe_def Let_def split: sum.split option.split)
next
  case (OpUnsubscribe i)
  then show ?thesis
    by (auto simp: Unsubscribe_def Let_def split: option.split)
next
  case (OpMutation path args opts)
  then show ?thesis
    by (cases "mutation path args opts c")
      (metis Client_Mutation_def case_prod_conv exec.simps(9) mutation_observed observed_le_refl snd_conv)
next
  case (OpReceive msg)
  then show ?thesis
    using receiveAction_observed [of c]
    by (cases msg) (simp_all add: transition_observed receiveMutation_observed)
qed (auto simp: PopNextMessage_def SetAuth_def SetAdminAuth_def ClearAuth_def SetAuthCallback_def Client_Action_def
    Let_def restart_frame split: list.split option.split sum.split)

end
