(* ===== verification/Base_Requests.thy ===== *)
theory Base_Requests
  imports Base_Behaviour
begin

text \<open>
  Lemmas on the requests of the base client: what a response of the server does to a
  pending request, which results are remembered, and what the optimistic updates of the
  pending mutations make of the server's results.
\<close>

section \<open>Remembered results\<close>

text \<open>At most the oldest result is forgotten when one more is remembered, and never the new one.\<close>

lemma excess_snoc:
  assumes "int (length order) \<le> normalizedCompletedRequestRetentionLimit"
  shows "excess (order @ [i]) = (if int (length order) = normalizedCompletedRequestRetentionLimit then 1 else 0)"
  using assms by (auto simp: excess_def)

lemma remember_results:
  assumes "int (length order) \<le> normalizedCompletedRequestRetentionLimit" and "i \<notin> set order"
  shows "mget (fold mdel (take (excess (order @ [i])) (order @ [i])) (mput i x rs)) k =
    (if k = i then Some x
     else if int (length order) = normalizedCompletedRequestRetentionLimit \<and> k = hd order then None
     else mget rs k)"
proof -
  have full: "order \<noteq> []" if "int (length order) = normalizedCompletedRequestRetentionLimit"
    using that limit_pos by auto
  have "take (excess (order @ [i])) (order @ [i]) =
      (if int (length order) = normalizedCompletedRequestRetentionLimit then [hd order] else [])"
    unfolding excess_snoc [OF assms(1)] using full by (cases order) auto
  then show ?thesis
    using full assms(2) by (auto simp: mget_fold_mdel simp del: take_append)
qed

section \<open>Optimistic results\<close>

lemma optimisticResultsWith_cong:
  assumes "requests c = requests d" "serverResults c = serverResults d" "queries c = queries d"
  shows "optimisticResultsWith x c = optimisticResultsWith x d"
  using assms by (simp add: optimisticResultsWith_def optimisticRequests_def Let_def)

text \<open>A new request has the largest id, so its update runs last.\<close>

lemma mput_last:
  assumes "\<And>k. k \<in> set (mkeys m) \<Longrightarrow> k < i"
  shows "mput i x m = m @ [(i, x)]"
  using assms
proof (induction i x m rule: mput.induct)
  case (2 k v k' v' m)
  have "k' < k"
    using "2.prems" [of k'] by simp
  moreover have "mput k v m = m @ [(k, v)]"
    using "2.prems" \<open>k' < k\<close> by (intro "2.IH") (auto dest: less_trans)
  ultimately show ?case
    by auto
qed simp

lemma optimisticResultsWith_candidate:
  assumes c: "wf_requests c" and new: "requests d = mput (nextRequestID c) r (requests c)"
    and same: "serverResults d = serverResults c" "queries d = queries c"
  shows "optimisticResultsWith None d = optimisticResultsWith (Some r) c"
proof -
  have "k < nextRequestID c" if "k \<in> set (mkeys (requests c))" for k
    using c that by (metis mget_None_iff not_Some_eq wf_requestsD)
  then have "requests d = requests c @ [(nextRequestID c, r)]"
    unfolding new by (rule mput_last)
  then have "optimisticRequests None d = optimisticRequests (Some r) c"
    by (auto simp: optimisticRequests_def Let_def)
  then show ?thesis
    by (simp add: optimisticResultsWith_def same Let_def)
qed

section \<open>Responses\<close>

text \<open>The state after the server has rejected a mutation.\<close>

definition rejected :: "MutationResponseMessage \<Rightarrow> Client \<Rightarrow> Client" where
  "rejected m c = (rememberMutationResult (mr_RequestID m) (response_result m) c)
     \<lparr>requests := mdel (mr_RequestID m) (requests c)\<rparr>"

lemma mdel_mput: "mwf m \<Longrightarrow> mdel i (mput i x m) = mdel i m"
  by (rule mwf_ext) (simp_all add: fun_eq_iff)

lemma complete_answered:
  assumes "mwf (requests c)"
  shows "completeMutationRequest (mr_RequestID m) (answered m r c) = (rq_optimisticUpdate r \<noteq> None, rejected m c)"
  using assms by (simp add: completeMutationRequest_def answered_def rejected_def rememberMutationResult_def
      evict_mutations_eq Let_def mdel_mput)

lemma rejected_fields [simp]:
  "requests (rejected m c) = mdel (mr_RequestID m) (requests c)" "serverResults (rejected m c) = serverResults c"
  "results (rejected m c) = results c" "queries (rejected m c) = queries c"
  "subscribers (rejected m c) = subscribers c"
  by (simp_all add: rejected_def rememberMutationResult_def evict_mutations_eq)

lemma rejected_result:
  assumes "client_inv c" "mget (requests c) (mr_RequestID m) = Some r"
  shows "mget (mutationResults (rejected m c)) k =
    (if k = mr_RequestID m then Some (response_result m)
     else if int (length (completedMutationOrder c)) = normalizedCompletedRequestRetentionLimit \<and>
       k = hd (completedMutationOrder c) then None
     else mget (mutationResults c) k)"
proof -
  have "int (length (completedMutationOrder c)) \<le> normalizedCompletedRequestRetentionLimit"
    using client_invD(4) [OF assms(1)] by (simp add: wf_completed_def remembered_def)
  moreover have "mr_RequestID m \<notin> set (completedMutationOrder c)"
    using wf_completed_pending(1) [OF client_invD(4) [OF assms(1)] assms(2)] .
  ultimately show ?thesis
    using remember_results [of "completedMutationOrder c" "mr_RequestID m" "response_result m" "mutationResults c" k]
    by (simp add: rejected_def rememberMutationResult_def evict_mutations_eq del: take_append)
qed

definition observe_response :: "MutationResponseMessage \<Rightarrow> Client \<Rightarrow> Client" where
  "observe_response m c = (case mr_TS m of None \<Rightarrow> c | Some t \<Rightarrow> observeTimestamp t c)"

lemma observe_response_fields [simp]:
  "requests (observe_response m c) = requests c" "serverResults (observe_response m c) = serverResults c"
  "results (observe_response m c) = results c" "mutationResults (observe_response m c) = mutationResults c"
  by (auto simp: observe_response_def observeTimestamp_def split: option.split)

lemma receive_rejection:
  assumes "mwf (requests c)" "mget (requests c) (mr_RequestID m) = Some r" "rq_kind r = syncRequestMutation"
    and "\<not> mr_Success m"
  shows "receiveMutationResponse m c =
    (if rq_optimisticUpdate r = None then (Inr None, observe_response m (rejected m c))
     else case optimisticResultsWith None (rejected m c) of
            Inl e \<Rightarrow> (Inl e, rejected m c)
          | Inr rs \<Rightarrow> (let d = observe_response m (rejected m c\<lparr>results := rs\<rparr>)
                       in (Inr (Some (queryResultsSnapshot d)), d)))"
  using assms by (auto simp: receiveMutationResponse_def updateMutation_eq complete_answered observe_response_def
      recomputeOptimisticResults_def Let_def split: sum.split)

lemma duplicate_response:
  assumes "wf_completed c" "mget (mutationResults c) (mr_RequestID m) \<noteq> None"
  shows "receiveMutationResponse m c = (Inr None, observe_response m c)"
proof -
  have "mr_RequestID m \<in> set (completedMutationOrder c)" "mget (completedMutations c) (mr_RequestID m) \<noteq> None"
    using assms by (auto simp: wf_completed_def remembered_def)
  moreover from this(1) have "mget (requests c) (mr_RequestID m) = None"
    using assms(1) by (auto simp: wf_completed_def remembered_def)
  ultimately show ?thesis
    by (auto simp: receiveMutationResponse_def updateRequestFromMutationResponse_def observe_response_def)
qed

lemma finishAction_result:
  assumes "client_inv c" "mget (requests c) i = Some r"
  shows "mget (actionResults (finishAction i x c)) k =
    (if k = i then Some x
     else if int (length (actionResultOrder c)) = normalizedCompletedRequestRetentionLimit \<and>
       k = hd (actionResultOrder c) then None
     else mget (actionResults c) k)"
proof -
  have "int (length (actionResultOrder c)) \<le> normalizedCompletedRequestRetentionLimit"
    using client_invD(4) [OF assms(1)] by (simp add: wf_completed_def remembered_def)
  moreover have "i \<notin> set (actionResultOrder c)"
    using wf_completed_pending(2) [OF client_invD(4) [OF assms(1)] assms(2)] .
  ultimately show ?thesis
    using remember_results [of "actionResultOrder c" i x "actionResults c" k]
    by (simp add: finishAction_def rememberActionResult_def evict_actions_eq del: take_append)
qed

section \<open>Restarting\<close>

lemma finishAction_frame [simp]:
  "remoteVersion (finishAction i x c) = remoteVersion c" "results (finishAction i x c) = results c"
  "serverResults (finishAction i x c) = serverResults c" "mutationResults (finishAction i x c) = mutationResults c"
  by (simp_all add: finishAction_def rememberActionResult_def evict_actions_eq)

lemma fold_finish_frame [simp]:
  "remoteVersion (fold (\<lambda>i. finishAction i x) is c) = remoteVersion c"
  "results (fold (\<lambda>i. finishAction i x) is c) = results c"
  "serverResults (fold (\<lambda>i. finishAction i x) is c) = serverResults c"
  "mutationResults (fold (\<lambda>i. finishAction i x) is c) = mutationResults c"
  by (induction "is" arbitrary: c) simp_all

lemma restarted_frame [simp]:
  "remoteVersion (restarted c) = zero_StateVersion" "results (restarted c) = results c"
  "serverResults (restarted c) = serverResults c" "mutationResults (restarted c) = mutationResults c"
  by (simp_all add: restarted_def cancel_eq)

lemma restarted_actions:
  assumes "client_inv c" "mget (requests c) i = Some r" "rq_kind r = syncRequestAction"
  shows "mget (actionResults (restarted c)) i =
    (if i \<in> set (retained (actionResultOrder c @ pending_actions c))
     then Some (ErrorMessageResult actionReconnectErrorMessage) else None)"
proof -
  let ?c = "c\<lparr>outgoing := [], identityVersion := 0, querySetVersion := 0, remoteVersion := zero_StateVersion\<rparr>"
  have w: "mwf (requests c)"
    using client_invD(3) [OF assms(1)] by (simp add: wf_requests_def)
  have c: "client_inv ?c"
    by (rule inv_reset [OF assms(1)])
  have p: "pending_actions ?c = pending_actions c"
    by (simp add: pending_actions_def)
  have "i \<in> set (pending_actions c)"
    using pending_actions_props(2) [OF w] assms(2,3) by blast
  then show ?thesis
    unfolding restarted_def cancel_eq p using c pending_actions_props [OF w]
    by (subst actions.fold_outcomes) auto
qed

text \<open>What is queued after a restart that succeeded: authentication, the queries, the mutations.\<close>

definition reauthentication :: "fetch_env \<Rightarrow> Client \<Rightarrow> ClientMessage list" where
  "reauthentication env c =
     (case authFetcher c of
        None \<Rightarrow> []
      | Some f \<Rightarrow> (case call_fetcher env f True of Inl e \<Rightarrow> [] | Inr token \<Rightarrow> outgoing (snd (queueAuth token New))))"

definition resubscription :: "Client \<Rightarrow> ClientMessage list" where
  "resubscription c =
     (if replayQueryAdds c = [] then []
      else [ModifyQuerySet \<lparr>mq_BaseVersion = 0, mq_NewVersion = 1, mq_Modifications = Some (replayQueryAdds c)\<rparr>])"

lemma replayQueryAdds_cong: "queries c = queries d \<Longrightarrow> replayQueryAdds c = replayQueryAdds d"
  by (simp add: replayQueryAdds_def)

lemma replay_outgoing:
  "querySetVersion c = 0 \<Longrightarrow> outgoing (replay c) = outgoing c @ resubscription c @ ReplayOngoingRequests c"
  by (simp add: replay_def resubscription_def Let_def)

lemma refresh_restarted:
  assumes "RefreshAuthForReconnect env (restarted c) = (Inr u, d)"
  shows "outgoing d = reauthentication env c" "querySetVersion d = 0" "queries d = queries c"
    "requests d = requests (restarted c)"
  using assms by (auto simp: RefreshAuthForReconnect_def reauthentication_def queueAuth_def Let_def New_def
      split: option.splits sum.splits)

lemma restart_outgoing:
  assumes c: "mwf (requests c)" and r: "RestartForReconnect env c = (Inr u, d)"
  shows "outgoing d = reauthentication env c @ resubscription c @ ReplayOngoingRequests c"
proof (cases "authFetcher c")
  case None
  then have "d = replay (restarted c)"
    using r by (simp add: RestartForReconnect_eq)
  then show ?thesis
    using None replay_restarted [OF c refl] replayQueryAdds_cong [of "restarted c" c]
    by (simp add: replay_outgoing reauthentication_def resubscription_def)
next
  case (Some f)
  then obtain e where e: "RefreshAuthForReconnect env (restarted c) = (Inr (), e)" "d = replay e"
    using r by (auto simp: RestartForReconnect_eq split: prod.splits sum.splits)
  show ?thesis
    using replay_restarted [OF c refresh_restarted(4) [OF e(1)]] replayQueryAdds_cong [OF refresh_restarted(3) [OF e(1)]]
    by (simp add: e(2) replay_outgoing refresh_restarted(1,2) [OF e(1)] resubscription_def)
qed

lemma restart_fails:
  assumes "RestartForReconnect env c = (Inl e, d)"
  shows "outgoing d = []" "\<exists>f. authFetcher c = Some f \<and> call_fetcher env f True = Inl e"
  using assms by (auto simp: RestartForReconnect_eq RefreshAuthForReconnect_def queueAuth_def Let_def
      split: option.splits sum.splits prod.splits)

text \<open>A restart keeps the results; it resets the version of the server's state.\<close>

lemma restart_keeps:
  "results (snd (RestartForReconnect env c)) = results c"
  "remoteVersion (snd (RestartForReconnect env c)) = zero_StateVersion"
  "subscribers (snd (RestartForReconnect env c)) = subscribers c"
  by (simp_all add: RestartForReconnect_eq RefreshAuthForReconnect_def queueAuth_def replay_def Let_def
      split: option.split sum.split)

lemma distinct_ids:
  assumes "wf_requests c"
  shows "distinct (map rq_id (filter P (map snd (requests c))))"
proof -
  have "map rq_id (map snd (requests c)) = map fst (requests c)"
    using assms wf_requestsD [OF assms] by (force simp: wf_requests_def mwf_mem_iff [symmetric])
  then have "distinct (map rq_id (map snd (requests c)))"
    using assms by (simp only: wf_requests_def mwf_distinct)
  then show ?thesis
    by (rule distinct_map_filter)
qed

lemma observed_le_trans: "observed_le a b \<Longrightarrow> observed_le b c \<Longrightarrow> observed_le a c"
  by (auto simp: observed_le_def split: option.splits)

section \<open>Subscriptions\<close>

lemma Subscribe_query:
  assumes "canonicalQuery path args = Inr (p, vs, tok)" "Subscribe path args c = (Inr s, d)"
  obtains q where "mget (queries d) tok = Some q" "s = SubscriberID (lq_id q) (lq_nextSubscriberIdx q)"
    "mget (subscribers d) s \<noteq> None"
proof (cases "mget (queries c) tok")
  case None
  show ?thesis
    by (rule that) (use Subscribe_open [OF assms(1) None] assms(2) in auto)
next
  case (Some q)
  show ?thesis
    by (rule that) (use Subscribe_join [OF assms(1) Some] assms(2) in auto)
qed

text \<open>The ids that a subscription takes are not in use.\<close>

lemma joined_fresh:
  assumes "wf_queries c" "room c" "mget (queries c) tok = Some q"
  shows "mget (subscribers c) (SubscriberID (lq_id q) (lq_nextSubscriberIdx q + 1)) = None"
proof (rule ccontr)
  assume "mget (subscribers c) (SubscriberID (lq_id q) (lq_nextSubscriberIdx q + 1)) \<noteq> None"
  then have "SubscriberID (lq_id q) (lq_nextSubscriberIdx q + 1) \<in> sub_ids (subscribers c) (lq_id q)"
    by (simp add: sub_ids_def)
  then have "lq_nextSubscriberIdx q + 1 \<le> lq_nextSubscriberIdx q"
    using assms(1,3) unfolding wf_queries_def query_ok_def by fastforce
  moreover have "lq_nextSubscriberIdx q < lq_nextSubscriberIdx q + 1"
    using assms(2) map_of_SomeD [OF assms(3)] by (auto simp: room_def list_all_iff)
  ultimately show False
    by simp
qed

lemma opened_fresh:
  assumes "client_inv c"
  shows "mget (queryIDToToken c) (nextQueryID c) = None" "mget (subscribers c) (SubscriberID (nextQueryID c) i) = None"
    "mget (results c) (nextQueryID c) = None" "mget (serverResults c) (nextQueryID c) = None"
proof -
  show n: "mget (queryIDToToken c) (nextQueryID c) = None"
    by (rule fresh_query(1) [OF client_invD(1) [OF assms]])
  have "SubscriberID (nextQueryID c) i \<notin> sub_ids (subscribers c) (nextQueryID c)"
    using fresh_query(2) [OF client_invD(1) [OF assms]] by simp
  then show "mget (subscribers c) (SubscriberID (nextQueryID c) i) = None"
    unfolding sub_ids_def by force
  show "mget (results c) (nextQueryID c) = None" "mget (serverResults c) (nextQueryID c) = None"
    using n client_invD(2) [OF assms] unfolding wf_results_def by (meson not_Some_eq)+
qed

lemma subscribed_query:
  assumes "wf_queries c" "mget (queries c) tok = Some q"
  shows "1 \<le> lq_numSubscribers q"
proof -
  have "sub_ids (subscribers c) (lq_id q) \<noteq> {}" "lq_numSubscribers q = int (card (sub_ids (subscribers c) (lq_id q)))"
    using wf_queriesD(4,5) [OF assms] by simp_all
  then show ?thesis
    by (simp add: card_gt_0_iff Suc_le_eq)
qed

text \<open>
  The number of subscribers is an \<open>int\<close> of 64 bits in the code and unbounded here; it is at
  most one more than the index given out last, a counter of 64 bits that starts at one for
  every query, so it cannot wrap before the query has been subscribed to \<open>2^63\<close> times.
\<close>

lemma subscriber_count:
  assumes "wf_queries c" "mget (queries c) tok = Some q"
  shows "lq_numSubscribers q \<le> int (unat (lq_nextSubscriberIdx q)) + 1"
proof -
  let ?subs = "sub_ids (subscribers c) (lq_id q)"
  have n: "lq_numSubscribers q = int (card ?subs)" and i: "\<forall>s\<in>?subs. index s \<le> lq_nextSubscriberIdx q"
    using assms by (auto simp: wf_queries_def query_ok_def)
  have "inj_on (\<lambda>s. unat (index s)) ?subs"
    by (auto simp: inj_on_def sub_ids_def word_unat_eq_iff [symmetric] intro: SubscriberID.expand)
  moreover have "(\<lambda>s. unat (index s)) ` ?subs \<subseteq> {..unat (lq_nextSubscriberIdx q)}"
    using i by (auto simp: word_le_nat_alt)
  ultimately have "card ?subs \<le> card {..unat (lq_nextSubscriberIdx q)}"
    by (intro card_inj_on_le) simp_all
  then have "int (card ?subs) \<le> int (unat (lq_nextSubscriberIdx q) + 1)"
    by (simp only: of_nat_le_iff) simp
  then show ?thesis
    by (simp add: n)
qed

lemma mdel_absent: "mget m k = None \<Longrightarrow> mdel k m = m"
  by (force simp: mdel_def mget_None_iff filter_id_conv)

section \<open>Pending mutations\<close>

lemma transitioned_requests:
  assumes "client_inv c"
  shows "mget (requests (transitioned m c)) i =
    (case mget (requests c) i of
       None \<Rightarrow> None
     | Some r \<Rightarrow> if completed_through (sv_TS (tr_EndVersion m)) r then None else Some r)"
proof -
  let ?d = "observeTimestamp (sv_TS (tr_EndVersion m))
    ((fold applyStateModification (modifications m) c)\<lparr>remoteVersion := tr_EndVersion m\<rparr>)"
  have "mwf (requests ?d)"
    using client_invD(3) [OF assms] by (simp add: wf_requests_def)
  from completeThrough_requests [OF this] show ?thesis
    by (simp add: transitioned_def)
qed

lemma transition_keeps:
  assumes "client_inv c" "mget (requests c) i = Some r" "\<not> completed_through (sv_TS (tr_EndVersion m)) r"
  shows "mget (requests (snd (ReceiveMessage (Transition m) c))) i = mget (requests c) i"
  using transitioned_requests [OF assms(1), of m i] assms(2,3)
  by (cases "tr_StartVersion m = remoteVersion c") (simp_all add: receiveTransition_snd receiveTransition_mismatch)

lemma pending_replayed:
  assumes "client_inv c" "mget (requests c) i = Some r" "rq_kind r = syncRequestMutation"
  shows "rq_message r \<in> set (ReplayOngoingRequests c)"
  using map_of_SomeD [OF assms(2)] assms(3)
  by (force simp: ReplayOngoingRequests_def replay_requests_def sort_by_set)

end
