(* ===== verification/Base_Properties.thy ===== *)
theory Base_Properties
  imports Base_Requests
begin

text \<open>
  The properties of the base client (\<open>baseclient/\<close>), over the lemmas of the theories
  \<open>Base_Invariant\<close>, \<open>Base_Session\<close> and \<open>Base_Behaviour\<close>: what a run of the client
  guarantees, and what each operation and each message of the server does. The clients
  at the beginning are the inputs at which the properties are applied.
\<close>

section \<open>Clients with a pending request\<close>

definition one_mutation :: "OptimisticUpdate option \<Rightarrow> bool \<Rightarrow> SyncTimestamp option \<Rightarrow> trackedSyncRequest" where
  "one_mutation u answer ts =
     \<lparr>rq_id = 0, rq_kind = syncRequestMutation,
      rq_message = Mutation \<lparr>mu_RequestID = 0, mu_UDFPath = ''m:f'', mu_Args = Some [VObject []], mu_ComponentPath = []\<rparr>,
      rq_optimisticUpdate = u, rq_result = ValueResult VNull, rq_hasResult = answer, rq_ts = ts\<rparr>"

definition one_action :: trackedSyncRequest where
  "one_action =
     \<lparr>rq_id = 0, rq_kind = syncRequestAction,
      rq_message = Action \<lparr>ac_RequestID = 0, ac_UDFPath = ''m:f'', ac_Args = Some [VObject []], ac_ComponentPath = []\<rparr>,
      rq_optimisticUpdate = None, rq_result = zero_FunctionResult, rq_hasResult = False, rq_ts = None\<rparr>"

definition client_with :: "trackedSyncRequest \<Rightarrow> Client" where
  "client_with r = New\<lparr>nextRequestID := 1, requests := [(0, r)]\<rparr>"

lemma inv_client_with [simp]:
  "client_inv (client_with (one_mutation u answer ts))" "client_inv (client_with one_action)"
  by (simp_all add: client_with_def New_def client_inv_def inv_defs remembered_def mwf_def one_mutation_def
      one_action_def normalizedCompletedRequestRetentionLimit_def completedRequestRetentionLimit_def)

lemma canonical_example:
  "canonicalRequest ''m:f'' GInvalid = Inr (''m:f'', [VObject []])"
  "canonicalQuery ''m:f'' GInvalid = Inr (''m:f'', [VObject []], ''{\"args\":[{}],\"udfPath\":\"m:f\"}'')"
  by code_simp+

lemma room_New [simp]: "room New"
  by (simp add: room_def New_def)

section \<open>Properties\<close>

text \<open>
  C1: in every run of the client, with any interleaving of its operations, any messages
  from the server and any behaviour of the auth callbacks, a server that has processed
  everything the client sent and has queued since the last restart accepts every edit (no
  version gap) and ends with exactly the client's active queries, with their paths and
  arguments, at the client's query set version and identity version; unless the last
  restart failed in the auth callback.
\<close>

theorem server_stays_in_sync:
  assumes "session_step\<^sup>*\<^sup>* new_session s" and "ss_synced s"
  shows "server_run (ss_sent s @ outgoing (ss_client s)) empty_view = Some (client_view (ss_client s))"
  using base.inv_reachable [OF refl assms(1)] assms(2) by (simp add: session_inv_def in_sync_def)

theorem server_stays_in_sync_witness:
  "server_run [Authenticate \<lparr>au_BaseVersion = 0, au_TokenType = ''User'', au_Value = ''t'', au_ActingAs = None\<rparr>]
     empty_view = Some (empty_view\<lparr>vw_identity := 1\<rparr>)"
proof -
  let ?s = "run_op OpPop (run_op (OpSetAuth ''t'') new_session)"
  have "room (ss_client new_session)" "room (ss_client (run_op (OpSetAuth ''t'') new_session))"
    by (simp_all add: room_def new_session_def New_def SetAuth_def queueAuth_def Let_def)
  then have "session_step\<^sup>*\<^sup>* new_session ?s"
    by (meson rtranclp.rtrancl_into_rtrancl rtranclp.rtrancl_refl session_step.op)
  moreover have "ss_synced ?s"
    by (simp add: run_op_def new_session_def Let_def)
  ultimately have "server_run (ss_sent ?s @ outgoing (ss_client ?s)) empty_view = Some (client_view (ss_client ?s))"
    by (rule server_stays_in_sync)
  moreover have "client_view (ss_client ?s) = empty_view\<lparr>vw_identity := 1\<rparr>"
    by (simp add: client_view_def new_session_def New_def SetAuth_def queueAuth_def Let_def PopNextMessage_def
        empty_view_def active_queries_def fun_eq_iff)
  moreover have "ss_sent ?s @ outgoing (ss_client ?s) =
      [Authenticate \<lparr>au_BaseVersion = 0, au_TokenType = ''User'', au_Value = ''t'', au_ActingAs = None\<rparr>]"
    by (simp add: run_op_def new_session_def New_def SetAuth_def queueAuth_def Let_def PopNextMessage_def
        UserAuthToken_def AuthTokenUser_def AuthTokenAdmin_def)
  ultimately show ?thesis
    by simp
qed

text \<open>
  C8: in every run the maps of the client agree with each other: tokens and query ids are in
  bijection, every query has as many subscribers as it counts and at least one, results
  are kept for active queries only, a pending request is stored under its id with its
  message, remembered results are those of the requests completed last, at most as many
  as are retained and never of a pending one, and the timestamps of the server's version
  have been observed.
\<close>

theorem client_state_consistent:
  assumes "session_step\<^sup>*\<^sup>* new_session s"
  shows "client_inv (ss_client s)"
  using base.inv_reachable [OF refl assms] by (simp add: session_inv_def)

theorem client_state_consistent_witness:
  "client_inv (exec (OpSetAuth ''t'') New)"
proof -
  have "room (ss_client new_session)"
    by (simp add: room_def new_session_def New_def)
  then have "session_step\<^sup>*\<^sup>* new_session (run_op (OpSetAuth ''t'') new_session)"
    by (meson rtranclp.rtrancl_into_rtrancl rtranclp.rtrancl_refl session_step.op)
  from client_state_consistent [OF this] show ?thesis
    by (simp add: new_session_def)
qed

text \<open>
  C4: a transition that does not start at the client's version of the server's state is
  rejected and changes nothing; one that does moves the version to its end, whether or
  not the optimistic updates can be replayed, and leaves for every active query the result
  of the last change about it, and for no other query a result.
\<close>

theorem transition_applies:
  assumes "client_inv c"
  shows "if tr_StartVersion m = remoteVersion c
    then remoteVersion (snd (ReceiveMessage (Transition m) c)) = tr_EndVersion m \<and>
      (\<forall>i. mget (serverResults (snd (ReceiveMessage (Transition m) c))) i =
        (if isActiveQuery c i then latest (modifications m) i (mget (serverResults c) i) else None))
    else ReceiveMessage (Transition m) c = (Inl (ClientError TransitionVersionMismatch), c)"
  using transition_server_results [OF client_invD(2) [OF assms]]
  by (simp add: receiveTransition_mismatch receiveTransition_snd transitioned_def)

theorem transition_applies_witness:
  "ReceiveMessage (Transition \<lparr>tr_StartVersion = zero_StateVersion\<lparr>sv_TS := 1\<rparr>, tr_EndVersion = zero_StateVersion,
     tr_Modifications = None, tr_ClientClockSkew = None, tr_ServerTS = None, tr_clientClockSkewPresent = False,
     tr_serverTSPresent = False\<rparr>) New = (Inl (ClientError TransitionVersionMismatch), New)"
  using transition_applies [OF inv_New, of "\<lparr>tr_StartVersion = zero_StateVersion\<lparr>sv_TS := 1\<rparr>,
     tr_EndVersion = zero_StateVersion, tr_Modifications = None, tr_ClientClockSkew = None, tr_ServerTS = None,
     tr_clientClockSkewPresent = False, tr_serverTSPresent = False\<rparr>"]
  by (simp add: New_def zero_StateVersion_def del: ReceiveMessage.simps)

text \<open>
  C9: a transition completes exactly the mutations that the server has answered with a
  timestamp the transition reaches: they are no longer pending, and the result of each can
  be read unless it is pushed out of the bounded memory, which keeps the results completed
  last, in the order of completion and within one transition in the order of the ids;
  every other request stays as it is.
\<close>

theorem transition_completes_mutations:
  assumes "client_inv c" and "tr_StartVersion m = remoteVersion c" and "mget (requests c) i = Some r"
  shows "if rq_kind r = syncRequestMutation \<and> rq_hasResult r \<and>
      (\<exists>t. rq_ts r = Some t \<and> t \<le> sv_TS (tr_EndVersion m))
    then mget (requests (snd (ReceiveMessage (Transition m) c))) i = None \<and>
      MutationResult (snd (ReceiveMessage (Transition m) c)) i =
        (if i \<in> set (retained (completedMutationOrder c @ completing (sv_TS (tr_EndVersion m)) c))
         then Some (rq_result r) else None)
    else mget (requests (snd (ReceiveMessage (Transition m) c))) i = Some r"
proof -
  define d where "d = observeTimestamp (sv_TS (tr_EndVersion m))
    ((fold applyStateModification (modifications m) c)\<lparr>remoteVersion := tr_EndVersion m\<rparr>)"
  have d: "requests d = requests c" "completedMutationOrder d = completedMutationOrder c"
    by (simp_all add: d_def)
  have inv: "client_inv d"
    unfolding d_def by (intro inv_version inv_fold inv_applyStateModification assms(1))
  then have w: "mwf (requests d)"
    by (simp add: client_inv_def wf_requests_def)
  have t: "completed_through (sv_TS (tr_EndVersion m)) r \<longleftrightarrow> rq_kind r = syncRequestMutation \<and> rq_hasResult r \<and>
      (\<exists>t. rq_ts r = Some t \<and> t \<le> sv_TS (tr_EndVersion m))"
    by (auto simp: completed_through_def split: option.split)
  have "completing ts d = completing ts c" for ts
    by (simp add: completing_def d)
  then show ?thesis
    using completeThrough_requests [OF w, of "sv_TS (tr_EndVersion m)" i]
      completeThrough_results [OF inv, of i r "sv_TS (tr_EndVersion m)"] assms(3)
    by (simp add: receiveTransition_snd [OF assms(2)] transitioned_def d_def [symmetric] MutationResult_def t d)
qed

theorem transition_completes_mutations_witness:
  "MutationResult (snd (ReceiveMessage (Transition \<lparr>tr_StartVersion = zero_StateVersion,
     tr_EndVersion = zero_StateVersion\<lparr>sv_TS := 7\<rparr>, tr_Modifications = None, tr_ClientClockSkew = None,
     tr_ServerTS = None, tr_clientClockSkewPresent = False, tr_serverTSPresent = False\<rparr>)
     (client_with (one_mutation None True (Some 5))))) 0 = Some (ValueResult VNull)"
proof -
  let ?m = "\<lparr>tr_StartVersion = zero_StateVersion, tr_EndVersion = zero_StateVersion\<lparr>sv_TS := 7\<rparr>,
    tr_Modifications = None, tr_ClientClockSkew = None, tr_ServerTS = None, tr_clientClockSkewPresent = False,
    tr_serverTSPresent = False\<rparr>"
  let ?c = "client_with (one_mutation None True (Some 5))"
  have "tr_StartVersion ?m = remoteVersion ?c" "mget (requests ?c) 0 = Some (one_mutation None True (Some 5))"
    by (simp_all add: client_with_def New_def)
  moreover have "0 \<in> set (retained (completedMutationOrder ?c @ completing (sv_TS (tr_EndVersion ?m)) ?c))"
    by (subst retained_all) (simp_all add: client_with_def New_def completing_def one_mutation_def
        completed_through_def normalizedCompletedRequestRetentionLimit_def completedRequestRetentionLimit_def)
  ultimately show ?thesis
    using transition_completes_mutations [OF inv_client_with(1), of ?m None True "Some 5" 0]
    by (simp add: one_mutation_def zero_StateVersion_def)
qed

text \<open>
  C12: when the server rejects a mutation, the mutation is no longer pending, its error is
  remembered, no other request changes, and the optimistic results become what the
  updates of the remaining mutations make of the server's results; only if one of those
  updates fails do the results stay as they are, and the failure is returned.
\<close>

theorem failed_mutation_rolls_back:
  assumes "client_inv c" and "mget (requests c) i = Some r" and "rq_kind r = syncRequestMutation"
    and "mr_RequestID m = i" and "\<not> mr_Success m" and "ReceiveMessage (MutationResponse m) c = (x, d)"
  shows "requests d = mdel i (requests c) \<and> MutationResult d i = Some (response_result m) \<and>
    serverResults d = serverResults c \<and>
    (if rq_optimisticUpdate r = None then results d = results c \<and> x = Inr None
     else case optimisticResultsWith None (c\<lparr>requests := mdel i (requests c)\<rparr>) of
            Inl e \<Rightarrow> results d = results c \<and> x = Inl e
          | Inr rs \<Rightarrow> results d = rs \<and> x = Inr (Some (queryResultsSnapshot d)))"
proof -
  have w: "mwf (requests c)" and r: "mget (requests c) (mr_RequestID m) = Some r"
    using client_invD(3) [OF assms(1)] assms(2,4) by (simp_all add: wf_requests_def)
  have o: "optimisticResultsWith None (rejected m c) = optimisticResultsWith None (c\<lparr>requests := mdel i (requests c)\<rparr>)"
    using assms(4) by (intro optimisticResultsWith_cong) simp_all
  have "(x, d) = receiveMutationResponse m c"
    using assms(6) by simp
  then show ?thesis
    unfolding receive_rejection [OF w r assms(3,5)] o
    using rejected_result [OF assms(1) r, of i] assms(4)
    by (auto simp: MutationResult_def Let_def split: sum.splits if_splits)
qed

theorem failed_mutation_rolls_back_witness:
  "MutationResult (snd (ReceiveMessage (MutationResponse \<lparr>mr_RequestID = 0, mr_Success = False, mr_Value = VNull,
     mr_ErrorMessage = ''no'', mr_TS = None, mr_LogLines = None,
     mr_ErrorData = \<lparr>ov_Present = False, ov_Value = VNull\<rparr>, mr_tsPresent = False\<rparr>) (client_with (one_mutation None False None)))) 0 = Some (ErrorMessageResult ''no'')"
proof -
  let ?m = "\<lparr>mr_RequestID = 0, mr_Success = False, mr_Value = VNull, mr_ErrorMessage = ''no'', mr_TS = None,
    mr_LogLines = None, mr_ErrorData = \<lparr>ov_Present = False, ov_Value = VNull\<rparr>, mr_tsPresent = False\<rparr>"
  let ?c = "client_with (one_mutation None False None)"
  have "mget (requests ?c) 0 = Some (one_mutation None False None)"
    "rq_kind (one_mutation None False None) = syncRequestMutation" "mr_RequestID ?m = 0" "\<not> mr_Success ?m"
    by (simp_all add: client_with_def one_mutation_def)
  from failed_mutation_rolls_back [OF inv_client_with(1) this prod.collapse [symmetric]] show ?thesis
    by (simp add: response_result_def functionResultFromResponse_def)
qed

text \<open>
  C11: a mutation that fails, for its path, its arguments or an optimistic update, changes
  nothing; one that succeeds gets the next request id, is pending with its message queued
  last, does not touch the server's results or any other request, and with an optimistic
  update leaves results that are what the updates of all pending mutations, in the order of
  their ids, make of the server's results; a query that is not active gets no result.
\<close>

theorem mutation_effect:
  assumes "client_inv c" and "mutation path args opts c = (x, d)"
  shows "case x of
      Inl e \<Rightarrow> d = c
    | Inr (i, snapshot) \<Rightarrow>
        i = nextRequestID c \<and> nextRequestID d = i + 1 \<and> serverResults d = serverResults c \<and>
        (\<exists>p vs. canonicalRequest path args = Inr (p, vs) \<and>
          requests d = mput i (mutation_request p vs (syncMutationOptionsFrom opts) c) (requests c) \<and>
          outgoing d = outgoing c @ [Mutation \<lparr>mu_RequestID = i, mu_UDFPath = p, mu_Args = Some vs, mu_ComponentPath = []\<rparr>]) \<and>
        (if syncMutationOptionsFrom opts = None then results d = results c \<and> snapshot = None
         else optimisticResultsWith None d = Inr (results d) \<and> snapshot = Some (queryResultsSnapshot d)) \<and>
        (\<forall>j. \<not> isActiveQuery d j \<longrightarrow> mget (results d) j = None)"
proof (cases "\<exists>p vs rs. canonicalRequest path args = Inr (p, vs) \<and>
    mutation_results p vs (syncMutationOptionsFrom opts) c = Inr rs")
  case True
  then obtain p vs rs where r: "canonicalRequest path args = Inr (p, vs)"
      "mutation_results p vs (syncMutationOptionsFrom opts) c = Inr rs"
    by blast
  let ?r = "mutation_request p vs (syncMutationOptionsFrom opts) c"
  have x: "x = Inr (nextRequestID c, if syncMutationOptionsFrom opts = None then None
        else Some (queryResultsSnapshot (c\<lparr>results := rs\<rparr>)))"
    and d: "d = c\<lparr>results := rs, nextRequestID := nextRequestID c + 1, requests := mput (nextRequestID c) ?r (requests c),
      outgoing := outgoing c @ [rq_message ?r]\<rparr>"
    using mutation_Inr [OF r] assms(2) by simp_all
  have o: "optimisticResultsWith None d = optimisticResultsWith (Some ?r) c"
    by (rule optimisticResultsWith_candidate [OF client_invD(3) [OF assms(1)]]) (simp_all add: d)
  have "wf_results (c\<lparr>results := rs\<rparr>)"
    using r(2) client_invD(1,2) [OF assms(1)] wf_results_optimistic
    by (auto simp: mutation_results_def split: if_splits)
  then have "mget (results d) j = None" if "\<not> isActiveQuery d j" for j
    using that by (auto simp: d wf_results_def isActiveQuery_def)
  with r o show ?thesis
    by (auto simp: x d mutation_results_def mutation_request_def queryResultsSnapshot_def split: if_splits)
next
  case False
  then have "isl x" "d = c"
    using mutation_Inl [of path args opts c] assms(2) by force+
  then show ?thesis
    by (cases x) simp_all
qed

theorem mutation_effect_witness:
  "outgoing (snd (mutation ''m:f'' GInvalid [Some (Some OReturn)] New)) =
     [Mutation \<lparr>mu_RequestID = 0, mu_UDFPath = ''m:f'', mu_Args = Some [VObject []], mu_ComponentPath = []\<rparr>]"
proof -
  have "fst (mutation ''m:f'' GInvalid [Some (Some OReturn)] New) = Inr (0, Some (queryResultsSnapshot New))"
    by (simp add: mutation_def canonical_example syncMutationOptionsFrom_def Let_def optimisticResultsWith_def
        optimisticRequests_def New_def copyFunctionResults_def)
  then have "mutation ''m:f'' GInvalid [Some (Some OReturn)] New =
      (Inr (0, Some (queryResultsSnapshot New)), snd (mutation ''m:f'' GInvalid [Some (Some OReturn)] New))"
    by (metis prod.collapse)
  from mutation_effect [OF inv_New this] show ?thesis
    by (auto simp: canonical_example New_def)
qed

text \<open>
  C10: a restart keeps the subscribers, the results and exactly the pending mutations; a
  pending action is finished, with the error that the connection was lost as its result,
  which can be read unless it is pushed out of the bounded memory of the results finished
  last; the server's version starts again at zero. If the token can be fetched, what is queued is the token,
  then one edit that adds all active queries, then the pending mutations; otherwise nothing
  is queued and the error is returned.
\<close>

theorem restart_replays:
  assumes "client_inv c" and "RestartForReconnect env c = (x, d)"
  shows "subscribers d = subscribers c \<and> results d = results c \<and> remoteVersion d = zero_StateVersion \<and>
    (\<forall>i. case mget (requests c) i of
           None \<Rightarrow> mget (requests d) i = None
         | Some r \<Rightarrow>
             (case rq_kind r of
                syncRequestMutation \<Rightarrow> mget (requests d) i = Some r
              | syncRequestAction \<Rightarrow> mget (requests d) i = None \<and>
                  ActionResult d i =
                    (if i \<in> set (retained (actionResultOrder c @ pending_actions c))
                     then Some (ErrorMessageResult actionReconnectErrorMessage) else None))) \<and>
    (case x of
       Inr _ \<Rightarrow> outgoing d = reauthentication env c @ resubscription c @ ReplayOngoingRequests c
     | Inl e \<Rightarrow> outgoing d = [] \<and> (\<exists>f. authFetcher c = Some f \<and> call_fetcher env f True = Inl e))"
proof -
  have w: "mwf (requests c)"
    using client_invD(3) [OF assms(1)] by (simp add: wf_requests_def)
  have d: "d = snd (RestartForReconnect env c)"
    by (simp add: assms(2))
  have q: "case mget (requests c) i of
           None \<Rightarrow> mget (requests d) i = None
         | Some r \<Rightarrow>
             (case rq_kind r of
                syncRequestMutation \<Rightarrow> mget (requests d) i = Some r
              | syncRequestAction \<Rightarrow> mget (requests d) i = None \<and>
                  ActionResult d i =
                    (if i \<in> set (retained (actionResultOrder c @ pending_actions c))
                     then Some (ErrorMessageResult actionReconnectErrorMessage) else None))" for i
    using restarted_actions [OF assms(1), of i] mget_filter [OF w, of "\<lambda>r. rq_kind r = syncRequestMutation" i]
    by (auto simp: d restart_frame restarted_requests [OF w] ActionResult_def split: option.split syncRequestKind.split)
  have o: "case x of
       Inr _ \<Rightarrow> outgoing d = reauthentication env c @ resubscription c @ ReplayOngoingRequests c
     | Inl e \<Rightarrow> outgoing d = [] \<and> (\<exists>f. authFetcher c = Some f \<and> call_fetcher env f True = Inl e)"
    using restart_outgoing [OF w] restart_fails assms(2) by (cases x) auto
  show ?thesis
    using q o restart_keeps [of env c] by (simp add: d)
qed

theorem restart_replays_witness:
  "ActionResult (snd (RestartForReconnect (\<lambda>_ _. Inr NoAuthToken) (client_with one_action))) 0 =
     Some (ErrorMessageResult actionReconnectErrorMessage)"
proof -
  let ?c = "client_with one_action"
  have "0 \<in> set (retained (actionResultOrder ?c @ pending_actions ?c))"
    by (subst retained_all) (simp_all add: client_with_def New_def pending_actions_def one_action_def
        normalizedCompletedRequestRetentionLimit_def completedRequestRetentionLimit_def)
  with restart_replays [OF inv_client_with(2) prod.collapse [symmetric], of "\<lambda>_ _. Inr NoAuthToken",
      THEN conjunct2, THEN conjunct2, THEN conjunct2, THEN conjunct1, THEN spec, of 0]
  show ?thesis
    by (simp add: client_with_def one_action_def)
qed



text \<open>
  the largest timestamp the client has observed never decreases and is never
  forgotten, whatever the operations, the messages and the restarts in between.
\<close>

theorem observed_timestamp_monotone:
  assumes "session_step\<^sup>*\<^sup>* s t"
  shows "observed_le (MaxObservedTimestamp (ss_client s)) (MaxObservedTimestamp (ss_client t))"
  using assms
proof (induction rule: rtranclp_induct)
  case (step t u)
  then have "observed_le (MaxObservedTimestamp (ss_client t)) (MaxObservedTimestamp (ss_client u))"
    using exec_observed by (auto elim!: session_stepE simp: MaxObservedTimestamp_def)
  with step.IH show ?case
    by (rule observed_le_trans)
qed simp

theorem observed_timestamp_monotone_witness:
  "observed_le None (MaxObservedTimestamp (exec (OpSetAuth ''t'') New))"
proof -
  have "session_step\<^sup>*\<^sup>* new_session (run_op (OpSetAuth ''t'') new_session)"
    by (metis new_session_def r_into_rtranclp room_New session.select_convs(1) session_step.op)
  from observed_timestamp_monotone [OF this] show ?thesis
    by (simp add: new_session_def MaxObservedTimestamp_def New_def)
qed

text \<open>
  a second response to a mutation whose result is remembered, whatever it says,
  changes no result and no request: at most its timestamp is observed.
\<close>

theorem duplicate_response_ignored:
  assumes "client_inv c" and "MutationResult c (mr_RequestID m) = Some x"
  shows "ReceiveMessage (MutationResponse m) c =
    (Inr None, case mr_TS m of None \<Rightarrow> c | Some t \<Rightarrow> observeTimestamp t c)"
  using duplicate_response [OF client_invD(4) [OF assms(1)], of m] assms(2)
  by (simp add: MutationResult_def observe_response_def)

theorem duplicate_response_ignored_witness:
  "\<exists>c. client_inv c \<and> MutationResult c 0 = Some (ErrorMessageResult ''no'') \<and>
     ReceiveMessage (MutationResponse \<lparr>mr_RequestID = 0, mr_Success = True, mr_Value = VNull, mr_ErrorMessage = [],
       mr_TS = None, mr_LogLines = None, mr_ErrorData = \<lparr>ov_Present = False, ov_Value = VNull\<rparr>,
       mr_tsPresent = False\<rparr>) c = (Inr None, c)"
proof -
  let ?no = "\<lparr>mr_RequestID = 0, mr_Success = False, mr_Value = VNull, mr_ErrorMessage = ''no'', mr_TS = None,
    mr_LogLines = None, mr_ErrorData = \<lparr>ov_Present = False, ov_Value = VNull\<rparr>, mr_tsPresent = False\<rparr>"
  let ?c = "client_with (one_mutation None False None)"
  let ?d = "snd (ReceiveMessage (MutationResponse ?no) ?c)"
  have d: "client_inv ?d"
    by (rule inv_ReceiveMessage) simp
  have r: "?d = rejected ?no ?c"
    using receive_rejection [of ?c ?no "one_mutation None False None"]
    by (simp add: client_with_def one_mutation_def mwf_def observe_response_def)
  have m: "MutationResult ?d 0 = Some (ErrorMessageResult ''no'')"
    unfolding r MutationResult_def by (simp add: client_with_def New_def rejected_def rememberMutationResult_def
        evict_mutations_eq excess_def normalizedCompletedRequestRetentionLimit_def completedRequestRetentionLimit_def
        response_result_def functionResultFromResponse_def)
  from duplicate_response_ignored [OF d, of "\<lparr>mr_RequestID = 0, mr_Success = True, mr_Value = VNull,
      mr_ErrorMessage = [], mr_TS = None, mr_LogLines = None, mr_ErrorData = \<lparr>ov_Present = False, ov_Value = VNull\<rparr>,
      mr_tsPresent = False\<rparr>"] m d
  show ?thesis
    by (intro exI [of _ ?d]) (simp del: ReceiveMessage.simps)
qed

text \<open>
  a second subscription to a query with the same canonical path and arguments shares
  the query of the first: it gets another subscriber id for the same query id, and neither
  a message nor a change of the query set's version, and the result is at once that of the
  first.
\<close>

theorem subscriptions_are_shared:
  assumes "client_inv c" and "room c" and "room d" and "canonicalQuery path args = Inr (p, vs, tok)"
    and "canonicalQuery path' args' = Inr (p', vs', tok)" and "Subscribe path args c = (Inr s, d)"
  shows "\<exists>t e. Subscribe path' args' d = (Inr t, e) \<and> queryID t = queryID s \<and>
    mget (subscribers d) t = None \<and> mget (subscribers e) s \<noteq> None \<and> mget (subscribers e) t \<noteq> None \<and>
    outgoing e = outgoing d \<and> querySetVersion e = querySetVersion d \<and>
    GetQuery e (queryID t) = GetQuery d (queryID s)"
proof -
  obtain q where q: "mget (queries d) tok = Some q" "s = SubscriberID (lq_id q) (lq_nextSubscriberIdx q)"
    "mget (subscribers d) s \<noteq> None"
    by (rule Subscribe_query [OF assms(4,6)])
  have "client_inv d"
    using inv_Subscribe [OF assms(1,2), of path args] assms(6) by simp
  then have "mget (subscribers d) (SubscriberID (lq_id q) (lq_nextSubscriberIdx q + 1)) = None"
    by (rule joined_fresh [OF client_invD(1) assms(3) q(1)])
  with q(3) show ?thesis
    by (auto simp: Subscribe_join [OF assms(5) q(1)] q(2) GetQuery_def split: option.split)
qed

theorem subscriptions_are_shared_witness:
  "\<exists>t e. Subscribe ''m:f'' GInvalid (snd (Subscribe ''m:f'' GInvalid New)) = (Inr t, e) \<and> queryID t = 0 \<and>
     length (outgoing e) = 1"
proof -
  have s: "Subscribe ''m:f'' GInvalid New = (Inr (SubscriberID 0 1), snd (Subscribe ''m:f'' GInvalid New))"
    and l: "length (outgoing (snd (Subscribe ''m:f'' GInvalid New))) = 1"
    and r: "room (snd (Subscribe ''m:f'' GInvalid New))"
    by (simp_all add: Subscribe_open [OF canonical_example(2)] New_def room_def)
  from subscriptions_are_shared [OF inv_New room_New r canonical_example(2) canonical_example(2) s] l show ?thesis
    by auto
qed



text \<open>
  the response to an action completes it: it is no longer pending, its result can be
  read, no other request changes, and at most the oldest remembered result is forgotten,
  when as many are remembered as are retained.
\<close>

theorem action_response_completes:
  assumes "client_inv c" and "mget (requests c) i = Some r" and "rq_kind r = syncRequestAction"
    and "ar_RequestID m = i" and "ReceiveMessage (ActionResponse m) c = (x, d)"
  shows "x = Inr None \<and> requests d = mdel i (requests c) \<and>
    (\<forall>k. ActionResult d k =
      (if k = i then Some (functionResultFromResponse (ar_Success m) (ar_Value m) (ar_ErrorMessage m) (ar_ErrorData m))
       else if int (length (actionResultOrder c)) = normalizedCompletedRequestRetentionLimit \<and>
         k = hd (actionResultOrder c) then None
       else ActionResult c k))"
  using assms updateAction_eq [of c m r] finishAction_result [OF assms(1,2)]
  by (auto simp: ActionResult_def)

theorem action_response_completes_witness:
  "ActionResult (snd (ReceiveMessage (ActionResponse \<lparr>ar_RequestID = 0, ar_Success = True, ar_Value = VNull,
     ar_ErrorMessage = [], ar_LogLines = None, ar_ErrorData = \<lparr>ov_Present = False, ov_Value = VNull\<rparr>\<rparr>)
     (client_with one_action))) 0 = Some (ValueResult VNull)"
proof -
  let ?m = "\<lparr>ar_RequestID = 0, ar_Success = True, ar_Value = VNull, ar_ErrorMessage = [], ar_LogLines = None,
    ar_ErrorData = \<lparr>ov_Present = False, ov_Value = VNull\<rparr>\<rparr>"
  have "mget (requests (client_with one_action)) 0 = Some one_action" "rq_kind one_action = syncRequestAction"
    "ar_RequestID ?m = 0"
    by (simp_all add: client_with_def one_action_def)
  from action_response_completes [OF inv_client_with(2) this prod.collapse [symmetric], THEN conjunct2, THEN conjunct2,
      THEN spec, of 0]
  show ?thesis
    by (simp add: functionResultFromResponse_def)
qed

text \<open>
  a response that says a mutation succeeded but gives no timestamp is an error, and
  the mutation is not lost: it stays pending in every later transition and is among the
  mutations replayed at the next restart.
\<close>

theorem missing_timestamp_keeps_pending:
  assumes "client_inv c" and "mget (requests c) i = Some r" and "rq_kind r = syncRequestMutation"
    and "mr_RequestID m = i" and "mr_Success m" and "mr_TS m = None"
    and "ReceiveMessage (MutationResponse m) c = (x, d)"
  shows "x = Inl (ClientError MutationMissingTimestamp) \<and>
    mget (requests (snd (ReceiveMessage (Transition t) d))) i = mget (requests d) i \<and>
    rq_message r \<in> set (ReplayOngoingRequests d)"
proof -
  have r: "mget (requests c) (mr_RequestID m) = Some r"
    using assms(2,4) by simp
  have d: "x = Inl (ClientError MutationMissingTimestamp)" "d = answered m r c"
    using assms(7) by (simp_all add: receiveMutationResponse_def updateMutation_eq [OF r assms(3)] assms(5,6) Let_def)
  have inv: "client_inv d"
    unfolding d by (rule inv_answered [OF assms(1) r assms(3)])
  let ?r = "r\<lparr>rq_result := response_result m, rq_hasResult := True, rq_ts := None\<rparr>"
  have i: "mget (requests d) i = Some ?r"
    by (simp add: d answered_def assms(4,6))
  have "mget (requests (snd (ReceiveMessage (Transition t) d))) i = mget (requests d) i"
    by (rule transition_keeps [OF inv i]) (simp add: completed_through_def)
  moreover have "rq_message ?r \<in> set (ReplayOngoingRequests d)"
    by (rule pending_replayed [OF inv i]) (simp add: assms(3))
  ultimately show ?thesis
    using d(1) by simp
qed

theorem missing_timestamp_keeps_pending_witness:
  "fst (ReceiveMessage (MutationResponse \<lparr>mr_RequestID = 0, mr_Success = True, mr_Value = VNull, mr_ErrorMessage = [],
     mr_TS = None, mr_LogLines = None, mr_ErrorData = \<lparr>ov_Present = False, ov_Value = VNull\<rparr>, mr_tsPresent = False\<rparr>)
     (client_with (one_mutation None False None))) = Inl (ClientError MutationMissingTimestamp)"
proof -
  let ?m = "\<lparr>mr_RequestID = 0, mr_Success = True, mr_Value = VNull, mr_ErrorMessage = [], mr_TS = None,
    mr_LogLines = None, mr_ErrorData = \<lparr>ov_Present = False, ov_Value = VNull\<rparr>, mr_tsPresent = False\<rparr>"
  let ?c = "client_with (one_mutation None False None)"
  have "mget (requests ?c) 0 = Some (one_mutation None False None)"
    "rq_kind (one_mutation None False None) = syncRequestMutation" "mr_RequestID ?m = 0" "mr_Success ?m" "mr_TS ?m = None"
    by (simp_all add: client_with_def one_mutation_def)
  from missing_timestamp_keeps_pending [OF inv_client_with(1) this prod.collapse [symmetric]] show ?thesis
    by simp
qed

end
