(* ===== verification/Sync_Connection.thy ===== *)
theory Sync_Connection
  imports Go_Prelude
begin

text \<open>
  The connection state that a sync manager publishes:
  \<open>internal/syncclient/connection_state.go\<close>. The fields of the struct \<open>Manager\<close> that
  \<open>stateMu\<close> guards are the record \<open>StateHub\<close>, which the record of the manager extends. A
  callback is known by a number; an operation returns the calls it makes after it has
  released the lock, in the order of the observers' ids, where Go ranges over the map.
\<close>

section \<open>The state\<close>

type_synonym ConnectionPhase = string

definition ConnectionPhaseDisconnected :: ConnectionPhase where
  "ConnectionPhaseDisconnected = ''Disconnected''"

definition ConnectionPhaseConnecting :: ConnectionPhase where
  "ConnectionPhaseConnecting = ''Connecting''"

definition ConnectionPhaseConnected :: ConnectionPhase where
  "ConnectionPhaseConnected = ''Connected''"

definition ConnectionPhaseReconnecting :: ConnectionPhase where
  "ConnectionPhaseReconnecting = ''Reconnecting''"

lemmas phase_defs = ConnectionPhaseDisconnected_def ConnectionPhaseConnecting_def ConnectionPhaseConnected_def
  ConnectionPhaseReconnecting_def

record ConnectionState =
  cs_Phase :: ConnectionPhase
  cs_HasEverConnected :: bool
  cs_ConnectionCount :: "64 word"
  cs_ConnectionRetries :: "64 word"
  cs_LastChange :: int

type_synonym callback = nat

type_synonym notification = "callback \<times> ConnectionState"

record StateHub =
  connectionState :: ConnectionState
  connectionStateSubscribers :: "(64 word, callback) gomap"
  nextConnectionStateSubscriberID :: "64 word"

definition initial_ConnectionState :: ConnectionState where
  "initial_ConnectionState =
     \<lparr>cs_Phase = ConnectionPhaseDisconnected, cs_HasEverConnected = False, cs_ConnectionCount = 0,
      cs_ConnectionRetries = 0, cs_LastChange = 0\<rparr>"

section \<open>Operations\<close>

definition connectionStateEqual :: "ConnectionState \<Rightarrow> ConnectionState \<Rightarrow> bool" where
  "connectionStateEqual l r \<longleftrightarrow>
     cs_Phase l = cs_Phase r \<and> cs_HasEverConnected l = cs_HasEverConnected r \<and>
     cs_ConnectionCount l = cs_ConnectionCount r \<and> cs_ConnectionRetries l = cs_ConnectionRetries r"

text \<open>\<open>time.Now()\<close> is an argument.\<close>

definition updateConnectionState ::
  "(ConnectionState \<Rightarrow> ConnectionState) \<Rightarrow> int \<Rightarrow> 'a StateHub_scheme \<Rightarrow> notification list \<times> 'a StateHub_scheme" where
  "updateConnectionState update now m =
     (let next = update (connectionState m);
          next = (if cs_Phase next = [] then next\<lparr>cs_Phase := ConnectionPhaseDisconnected\<rparr> else next)
      in if connectionStateEqual (connectionState m) next then ([], m)
         else let next = next\<lparr>cs_LastChange := now\<rparr>
              in (map (\<lambda>(i, cb). (cb, next)) (connectionStateSubscribers m), m\<lparr>connectionState := next\<rparr>))"

definition markConnecting :: "int \<Rightarrow> 'a StateHub_scheme \<Rightarrow> notification list \<times> 'a StateHub_scheme" where
  "markConnecting = updateConnectionState (\<lambda>state. state\<lparr>cs_Phase := ConnectionPhaseConnecting\<rparr>)"

definition markConnected :: "int \<Rightarrow> 'a StateHub_scheme \<Rightarrow> notification list \<times> 'a StateHub_scheme" where
  "markConnected = updateConnectionState
     (\<lambda>state. state\<lparr>cs_Phase := ConnectionPhaseConnected, cs_HasEverConnected := True,
                    cs_ConnectionCount := cs_ConnectionCount state + 1\<rparr>)"

definition markReconnecting :: "int \<Rightarrow> 'a StateHub_scheme \<Rightarrow> notification list \<times> 'a StateHub_scheme" where
  "markReconnecting = updateConnectionState
     (\<lambda>state. state\<lparr>cs_Phase := ConnectionPhaseReconnecting,
                    cs_ConnectionRetries := cs_ConnectionRetries state + 1\<rparr>)"

definition markDisconnected :: "int \<Rightarrow> 'a StateHub_scheme \<Rightarrow> notification list \<times> 'a StateHub_scheme" where
  "markDisconnected = updateConnectionState (\<lambda>state. state\<lparr>cs_Phase := ConnectionPhaseDisconnected\<rparr>)"

text \<open>
  A subscription returns the id under which its \<open>unsubscribe\<close> function deletes it; with
  no callback nothing is stored and that function does nothing.
\<close>

definition SubscribeToConnectionState ::
  "callback option \<Rightarrow> 'a StateHub_scheme \<Rightarrow> 64 word option \<times> notification list \<times> 'a StateHub_scheme" where
  "SubscribeToConnectionState cb m =
     (case cb of
        None \<Rightarrow> (None, [], m)
      | Some cb \<Rightarrow>
          let i = nextConnectionStateSubscriberID m
          in (Some i, [(cb, connectionState m)],
              m\<lparr>nextConnectionStateSubscriberID := nextConnectionStateSubscriberID m + 1,
                connectionStateSubscribers := mput i cb (connectionStateSubscribers m)\<rparr>))"

definition unsubscribe_state :: "64 word option \<Rightarrow> 'a StateHub_scheme \<Rightarrow> 'a StateHub_scheme" where
  "unsubscribe_state h m =
     (case h of None \<Rightarrow> m | Some i \<Rightarrow> m\<lparr>connectionStateSubscribers := mdel i (connectionStateSubscribers m)\<rparr>)"

lemmas mark_defs = markConnecting_def markConnected_def markReconnecting_def markDisconnected_def
  updateConnectionState_def

section \<open>What the operations do\<close>

text \<open>Connecting and reconnecting always count, so they always change the state.\<close>

lemma mark_connected:
  "markConnected now m =
     (let next = (connectionState m)\<lparr>cs_Phase := ConnectionPhaseConnected, cs_HasEverConnected := True,
        cs_ConnectionCount := cs_ConnectionCount (connectionState m) + 1, cs_LastChange := now\<rparr>
      in (map (\<lambda>(i, cb). (cb, next)) (connectionStateSubscribers m), m\<lparr>connectionState := next\<rparr>))"
  by (simp add: mark_defs Let_def phase_defs connectionStateEqual_def)

lemma mark_reconnecting:
  "markReconnecting now m =
     (let next = (connectionState m)\<lparr>cs_Phase := ConnectionPhaseReconnecting,
        cs_ConnectionRetries := cs_ConnectionRetries (connectionState m) + 1, cs_LastChange := now\<rparr>
      in (map (\<lambda>(i, cb). (cb, next)) (connectionStateSubscribers m), m\<lparr>connectionState := next\<rparr>))"
  by (simp add: mark_defs Let_def phase_defs connectionStateEqual_def)

text \<open>Nothing else of the record changes.\<close>

lemma update_more:
  "snd (updateConnectionState f now m) =
     m\<lparr>connectionState := connectionState (snd (updateConnectionState f now m))\<rparr>"
  by (simp add: updateConnectionState_def Let_def)

lemma update_subscribers [simp]:
  "connectionStateSubscribers (snd (updateConnectionState f now m)) = connectionStateSubscribers m"
  by (simp add: updateConnectionState_def Let_def)

text \<open>An update either keeps the state, or tells every observer the new one.\<close>

lemma update_notifies:
  assumes "connectionState (snd (updateConnectionState f now m)) \<noteq> connectionState m"
    and "mget (connectionStateSubscribers m) i = Some cb"
  shows "(cb, connectionState (snd (updateConnectionState f now m))) \<in> set (fst (updateConnectionState f now m))"
  using assms map_of_SomeD [OF assms(2)] by (force simp: updateConnectionState_def Let_def split: if_splits)

section \<open>Observers\<close>

text \<open>
  The run goroutine updates the state, and any number of other goroutines subscribe and
  unsubscribe; each makes its calls after it has released the lock, so the calls of all of
  them interleave. A subscription makes at most one call, so \<open>user_calls\<close> are calls of different
  goroutines, of which any can be next. \<open>seen\<close> is what has been delivered so far.
\<close>

record hub_run =
  hub :: StateHub
  user_calls :: "notification list"
  run_calls :: "notification list"
  seen :: "notification list"

definition new_hub :: hub_run where
  "new_hub =
     \<lparr>hub = \<lparr>connectionState = initial_ConnectionState, connectionStateSubscribers = [],
        nextConnectionStateSubscriberID = 0\<rparr>, user_calls = [], run_calls = [], seen = []\<rparr>"

datatype mark = MConnecting | MConnected | MReconnecting | MDisconnected

fun mark_fun :: "mark \<Rightarrow> ConnectionState \<Rightarrow> ConnectionState" where
  "mark_fun MConnecting state = state\<lparr>cs_Phase := ConnectionPhaseConnecting\<rparr>"
| "mark_fun MConnected state = state\<lparr>cs_Phase := ConnectionPhaseConnected, cs_HasEverConnected := True,
     cs_ConnectionCount := cs_ConnectionCount state + 1\<rparr>"
| "mark_fun MReconnecting state = state\<lparr>cs_Phase := ConnectionPhaseReconnecting,
     cs_ConnectionRetries := cs_ConnectionRetries state + 1\<rparr>"
| "mark_fun MDisconnected state = state\<lparr>cs_Phase := ConnectionPhaseDisconnected\<rparr>"

definition apply_mark :: "mark \<Rightarrow> int \<Rightarrow> 'a StateHub_scheme \<Rightarrow> notification list \<times> 'a StateHub_scheme" where
  "apply_mark k now =
     (case k of MConnecting \<Rightarrow> markConnecting now | MConnected \<Rightarrow> markConnected now
      | MReconnecting \<Rightarrow> markReconnecting now | MDisconnected \<Rightarrow> markDisconnected now)"

lemma apply_mark_eq: "apply_mark k now = updateConnectionState (mark_fun k) now"
  by (cases k) (simp_all add: apply_mark_def mark_defs mark_fun.simps [abs_def] fun_eq_iff Let_def)

inductive hub_step :: "hub_run \<Rightarrow> hub_run \<Rightarrow> bool" where
  subscribe: "SubscribeToConnectionState cb (hub s) = (h, ns, m) \<Longrightarrow>
    hub_step s (s\<lparr>hub := m, user_calls := user_calls s @ ns\<rparr>)"
| unsubscribe: "hub_step s (s\<lparr>hub := unsubscribe_state h (hub s)\<rparr>)"
| mark: "run_calls s = [] \<Longrightarrow> apply_mark k now (hub s) = (ns, m) \<Longrightarrow> hub_step s (s\<lparr>hub := m, run_calls := ns\<rparr>)"
| deliver_user: "user_calls s = xs @ n # ys \<Longrightarrow> hub_step s (s\<lparr>user_calls := xs @ ys, seen := seen s @ [n]\<rparr>)"
| deliver_run: "run_calls s = n # ns \<Longrightarrow> hub_step s (s\<lparr>run_calls := ns, seen := seen s @ [n]\<rparr>)"

text \<open>Every observer has been told the current state, or is about to be.\<close>

definition told :: "hub_run \<Rightarrow> notification set" where
  "told s = set (seen s) \<union> set (user_calls s) \<union> set (run_calls s)"

definition phase_ok :: "ConnectionState \<Rightarrow> bool" where
  "phase_ok c \<longleftrightarrow>
     cs_Phase c \<in> {ConnectionPhaseDisconnected, ConnectionPhaseConnecting, ConnectionPhaseConnected,
       ConnectionPhaseReconnecting} \<and>
     (cs_Phase c = ConnectionPhaseConnected \<longrightarrow> cs_HasEverConnected c) \<and>
     (cs_HasEverConnected c \<or> cs_ConnectionCount c = 0)"

definition hub_inv :: "hub_run \<Rightarrow> bool" where
  "hub_inv s \<longleftrightarrow> phase_ok (connectionState (hub s)) \<and>
     (\<forall>i cb. mget (connectionStateSubscribers (hub s)) i = Some cb \<longrightarrow> (cb, connectionState (hub s)) \<in> told s)"

lemma phase_ok_mark:
  assumes "phase_ok (connectionState m)"
  shows "phase_ok (connectionState (snd (apply_mark k now m)))"
  using assms by (cases k)
    (auto simp: apply_mark_eq updateConnectionState_def Let_def phase_ok_def phase_defs split: if_splits)

lemma hub_inv_step: "hub_step s t \<Longrightarrow> hub_inv s \<Longrightarrow> hub_inv t"
proof (induction rule: hub_step.induct)
  case (subscribe s cb h ns m)
  then show ?case
    by (fastforce simp: hub_inv_def told_def SubscribeToConnectionState_def Let_def split: option.splits if_splits)
next
  case (unsubscribe s h)
  then show ?case
    by (auto simp: hub_inv_def told_def unsubscribe_state_def split: option.splits if_splits)
next
  case (mark s k now ns m)
  have m: "m = snd (updateConnectionState (mark_fun k) now (hub s))" "ns = fst (updateConnectionState (mark_fun k) now (hub s))"
    using mark.hyps(2) by (simp_all add: apply_mark_eq)
  have "phase_ok (connectionState m)"
    using phase_ok_mark [of "hub s" k now] mark by (simp add: hub_inv_def)
  moreover have "(cb, connectionState m) \<in> told (s\<lparr>hub := m, run_calls := ns\<rparr>)"
    if "mget (connectionStateSubscribers m) i = Some cb" for i cb
    using update_notifies [of "mark_fun k" now "hub s" i cb] mark that
    by (cases "connectionState m = connectionState (hub s)") (auto simp: m hub_inv_def told_def)
  ultimately show ?case
    by (simp add: hub_inv_def)
qed (auto simp: hub_inv_def told_def)

interpretation hub: machine "\<lambda>s. s = new_hub" hub_step hub_inv
proof unfold_locales
  fix s
  assume "s = new_hub"
  then show "hub_inv s"
    by (simp add: hub_inv_def new_hub_def initial_ConnectionState_def phase_ok_def phase_defs)
qed (rule hub_inv_step)

section \<open>Properties\<close>

text \<open>
  C29: whatever the interleaving of subscriptions, updates and the calls they make, every
  observer has been called with the current connection state or its call is about to be
  made; the phase is one of the four, connected only if the client has ever been
  connected, and no connection is counted before the first.
\<close>

theorem observers_are_told:
  assumes "hub_step\<^sup>*\<^sup>* new_hub s" and "mget (connectionStateSubscribers (hub s)) i = Some cb"
  shows "(cb, connectionState (hub s)) \<in> set (seen s) \<union> set (user_calls s) \<union> set (run_calls s) \<and>
    phase_ok (connectionState (hub s))"
  using hub.inv_reachable [OF refl assms(1)] assms(2) by (auto simp: hub_inv_def told_def)

definition subscribed_hub :: hub_run where
  "subscribed_hub = (let (h, ns, m) = SubscribeToConnectionState (Some 0) (hub new_hub) in new_hub\<lparr>hub := m, user_calls := ns\<rparr>)"

lemma subscribed_hub_step: "hub_step new_hub subscribed_hub"
  using hub_step.subscribe [of "Some 0" new_hub]
  by (simp add: subscribed_hub_def SubscribeToConnectionState_def Let_def) (simp add: new_hub_def)

theorem observers_are_told_witness:
  "(0, initial_ConnectionState) \<in> set (user_calls subscribed_hub) \<union> set (seen subscribed_hub)"
proof -
  have "mget (connectionStateSubscribers (hub subscribed_hub)) 0 = Some 0"
    by (simp add: subscribed_hub_def SubscribeToConnectionState_def new_hub_def Let_def)
  from observers_are_told [OF r_into_rtranclp [of hub_step, OF subscribed_hub_step] this] show ?thesis
    by (auto simp: subscribed_hub_def SubscribeToConnectionState_def new_hub_def Let_def)
qed

text \<open>
  because the calls are made outside the lock, an observer that subscribes while the
  state changes can be called with the old state after the new one, and be left with it
  although no call is outstanding.
\<close>

theorem observer_left_stale:
  "\<exists>s. hub_step\<^sup>*\<^sup>* new_hub s \<and> user_calls s = [] \<and> run_calls s = [] \<and>
     mget (connectionStateSubscribers (hub s)) 0 = Some 0 \<and>
     (\<exists>old. last (seen s) = (0, old) \<and> cs_Phase old = ConnectionPhaseDisconnected) \<and>
     cs_Phase (connectionState (hub s)) = ConnectionPhaseConnecting"
proof -
  let ?n = "snd (apply_mark MConnecting 1 (hub subscribed_hub))"
  let ?new = "(0, initial_ConnectionState\<lparr>cs_Phase := ConnectionPhaseConnecting, cs_LastChange := 1\<rparr>)"
  let ?old = "(0, initial_ConnectionState)"
  have m: "apply_mark MConnecting 1 (hub subscribed_hub) = ([?new], ?n)"
    by (simp add: subscribed_hub_def SubscribeToConnectionState_def new_hub_def Let_def apply_mark_eq
        updateConnectionState_def initial_ConnectionState_def phase_defs connectionStateEqual_def)
  have u: "user_calls subscribed_hub = [?old]" "run_calls subscribed_hub = []" "seen subscribed_hub = []"
    by (simp_all add: subscribed_hub_def SubscribeToConnectionState_def new_hub_def Let_def)
  let ?s1 = "subscribed_hub\<lparr>hub := ?n, run_calls := [?new]\<rparr>"
  let ?s2 = "?s1\<lparr>run_calls := [], seen := seen ?s1 @ [?new]\<rparr>"
  let ?s3 = "?s2\<lparr>user_calls := [], seen := seen ?s2 @ [?old]\<rparr>"
  have "hub_step subscribed_hub ?s1"
    by (rule hub_step.mark [OF u(2) m])
  moreover have "hub_step ?s1 ?s2"
    by (rule hub_step.deliver_run) simp
  moreover have "hub_step ?s2 ?s3"
    using hub_step.deliver_user [of ?s2 "[]" ?old "[]"] by (simp add: u)
  ultimately have "hub_step\<^sup>*\<^sup>* new_hub ?s3"
    using subscribed_hub_step by (meson converse_rtranclp_into_rtranclp rtranclp.rtrancl_refl)
  then show ?thesis
    by (intro exI [of _ ?s3]) (simp add: subscribed_hub_def SubscribeToConnectionState_def new_hub_def Let_def
        apply_mark_eq updateConnectionState_def initial_ConnectionState_def phase_defs connectionStateEqual_def)
qed

end
