(* ===== verification/Sync_Manager.thy ===== *)
theory Sync_Manager
  imports Base_Session Sync_Connection
begin

text \<open>
  The sync manager: \<open>internal/syncclient/websocket_manager.go\<close> and
  \<open>websocket_manager_runtime.go\<close>. The struct \<open>Manager\<close> is a record that extends the hub of
  the connection state. The goroutines of a running manager are one step relation,
  \<open>mstep\<close>: a step is a section under a lock, an operation on a channel, or an answer of the
  network. The network (the dialer and the connection), the clock and the contexts are the
  environment: dialing, reading, writing and the timers may succeed or fail at any time.
\<close>

section \<open>The manager\<close>

text \<open>A channel is the list of what is buffered in it; \<open>done\<close> is closed or not.\<close>

record Manager = StateHub +
  mg_url :: string
  mg_client :: Client
  mg_clientID :: string
  mg_dialer :: nat
  mg_reconnectBackoff :: int
  mg_inactivityTimeout :: int
  mg_results :: "QueryResults list"
  mg_flushCh :: "nat list"
  mg_done :: bool
  mg_runStarted :: bool
  mg_runErr :: "error option"

definition results_cap :: nat where
  "results_cap = 16"

definition flush_cap :: nat where
  "flush_cap = 16"

text \<open>
  \<open>sendLatest\<close> on a channel of the given capacity is up to three operations on the channel:
  the value is sent if there is room; else the oldest value, if there is one, is received;
  then the value is sent if there is room now. Other goroutines may use the channel in
  between. A function gives what one operation makes of the channel, and which is next.
\<close>

datatype sending = TrySend | MakeRoom | SendAgain

fun send_section :: "nat \<Rightarrow> sending \<Rightarrow> 'a list \<Rightarrow> 'a \<Rightarrow> 'a list \<times> sending option" where
  "send_section cap TrySend ch v = (if length ch < cap then (ch @ [v], None) else (ch, Some MakeRoom))"
| "send_section cap MakeRoom ch v = (tl ch, Some SendAgain)"
| "send_section cap SendAgain ch v = (if length ch < cap then ch @ [v] else ch, None)"

text \<open>
  Without another sender in between, as under the lock of a client of the realtime
  connection: a receiver that takes a value in between only makes the room.
\<close>

definition sendLatest :: "nat \<Rightarrow> 'a list \<Rightarrow> 'a \<Rightarrow> 'a list" where
  "sendLatest cap ch v =
     (if length ch < cap then ch @ [v]
      else let ch = tl ch in if length ch < cap then ch @ [v] else ch)"

lemma sendLatest_sections:
  "sendLatest cap ch v =
     (case send_section cap TrySend ch v of
        (ch, None) \<Rightarrow> ch
      | (ch, Some next) \<Rightarrow> fst (send_section cap SendAgain (fst (send_section cap next ch v)) v))"
  by (simp add: sendLatest_def Let_def)

text \<open>
  \<open>reflect.DeepEqual\<close> on results. Numbers are compared with \<open>==\<close>, so a not-a-number differs
  from itself; two slices, maps or pointers that share their memory are equal without a
  look at their elements, and a nil one differs from an empty one. Memory is not in the
  model: \<open>same\<close> says of every place in the results whether the two slices, maps or
  pointers there share their memory, or, if they are empty, are both nil or both not.
\<close>

definition float_equal :: "f64 \<Rightarrow> f64 \<Rightarrow> bool" where
  "float_equal x y \<longleftrightarrow> \<not> IsNaN x \<and> \<not> IsNaN y \<and> (x = y \<or> f64_is_zero x \<and> f64_is_zero y)"

type_synonym sharing = "nat list \<Rightarrow> bool"

fun DeepEqual :: "sharing \<Rightarrow> nat list \<Rightarrow> Value \<Rightarrow> Value \<Rightarrow> bool"
  and DeepEqual_slice :: "sharing \<Rightarrow> nat list \<Rightarrow> nat \<Rightarrow> Value list \<Rightarrow> Value list \<Rightarrow> bool"
  and DeepEqual_map :: "sharing \<Rightarrow> nat list \<Rightarrow> nat \<Rightarrow> (string \<times> Value) list \<Rightarrow> (string \<times> Value) list \<Rightarrow> bool" where
  "DeepEqual same p (VFloat64 x) r = (case r of VFloat64 y \<Rightarrow> float_equal x y | _ \<Rightarrow> False)"
| "DeepEqual same p (VBytes xs) r = (case r of VBytes ys \<Rightarrow> xs = ys \<and> (xs = [] \<longrightarrow> same p) | _ \<Rightarrow> False)"
| "DeepEqual same p (VArray xs) r =
     (case r of
        VArray ys \<Rightarrow> if xs = ys \<and> (same p \<or> xs = []) then same p else DeepEqual_slice same p 0 xs ys
      | _ \<Rightarrow> False)"
| "DeepEqual same p (VObject xs) r =
     (case r of
        VObject ys \<Rightarrow> if xs = ys \<and> (same p \<or> xs = []) then same p else DeepEqual_map same p 0 xs ys
      | _ \<Rightarrow> False)"
| "DeepEqual same p l r = (l = r)"
| "DeepEqual_slice same p i [] ys = (ys = [])"
| "DeepEqual_slice same p i (x # xs) ys =
     (case ys of [] \<Rightarrow> False | y # ys \<Rightarrow> DeepEqual same (i # p) x y \<and> DeepEqual_slice same p (Suc i) xs ys)"
| "DeepEqual_map same p i [] ys = (ys = [])"
| "DeepEqual_map same p i ((k, x) # xs) ys =
     (case ys of
        [] \<Rightarrow> False
      | (k', y) # ys \<Rightarrow> k = k' \<and> DeepEqual same (i # p) x y \<and> DeepEqual_map same p (Suc i) xs ys)"

definition DeepEqual_error :: "sharing \<Rightarrow> nat list \<Rightarrow> ConvexError option \<Rightarrow> ConvexError option \<Rightarrow> bool" where
  "DeepEqual_error same p l r \<longleftrightarrow>
     (case (l, r) of
        (None, None) \<Rightarrow> True
      | (Some e, Some f) \<Rightarrow> e = f \<and> same p \<or> Message e = Message f \<and> DeepEqual same (0 # p) (Data e) (Data f)
      | _ \<Rightarrow> False)"

definition DeepEqual_result :: "sharing \<Rightarrow> nat list \<Rightarrow> FunctionResult option \<Rightarrow> FunctionResult option \<Rightarrow> bool" where
  "DeepEqual_result same p l r \<longleftrightarrow>
     (case (l, r) of
        (None, None) \<Rightarrow> True
      | (Some x, Some y) \<Rightarrow>
          DeepEqual same (0 # p) (res_value x) (res_value y) \<and> errorMessage x = errorMessage y \<and>
          DeepEqual_error same (1 # p) (convexError x) (convexError y)
      | _ \<Rightarrow> False)"

definition queryResultsEqual :: "sharing \<Rightarrow> QueryResults \<Rightarrow> QueryResults \<Rightarrow> bool" where
  "queryResultsEqual same l r \<longleftrightarrow>
     list_all2 (\<lambda>(i, x) y. en_SubscriberID x = en_SubscriberID y \<and> DeepEqual_result same [i] (en_Result x) (en_Result y))
       (enumerate 0 (QueryResults_Iter l)) (QueryResults_Iter r)"

text \<open>
  \<open>startRun\<close>, its section under \<open>runMu\<close>; the call of \<open>markConnecting\<close> that follows has a lock of
  its own and is a step of its own.
\<close>

definition startRun :: "Manager \<Rightarrow> unit res \<times> Manager" where
  "startRun m =
     (if mg_runStarted m then (Inl (SyncError AlreadyRunning), m) else (Inr (), m\<lparr>mg_runStarted := True\<rparr>))"

text \<open>\<open>finishRun\<close>, section by section: what each does, and which is next.\<close>

datatype finish_stage = RecordErr error | MarkDown | CloseDone

fun finishRun :: "int \<Rightarrow> finish_stage \<Rightarrow> Manager \<Rightarrow> Manager \<times> finish_stage option" where
  "finishRun now (RecordErr err) m = (m\<lparr>mg_runErr := Some err\<rparr>, Some MarkDown)"
| "finishRun now MarkDown m = (snd (markDisconnected now m), Some CloseDone)"
| "finishRun now CloseDone m = (m\<lparr>mg_done := True\<rparr>, None)"

definition Manager_doneErr :: "Manager \<Rightarrow> error" where
  "Manager_doneErr m = (case mg_runErr m of Some e \<Rightarrow> e | None \<Rightarrow> CtxError Canceled)"

section \<open>Session identifiers\<close>

definition hex_digit :: "nat \<Rightarrow> char" where
  "hex_digit n = ''0123456789abcdef'' ! n"

definition hex_EncodeToString :: "byte list \<Rightarrow> string" where
  "hex_EncodeToString bs = concat (map (\<lambda>b. [hex_digit (unat b div 16), hex_digit (unat b mod 16)]) bs)"

definition slice :: "nat \<Rightarrow> nat \<Rightarrow> 'a list \<Rightarrow> 'a list" where
  "slice i j xs = take (j - i) (drop i xs)"

unbundle bit_operations_syntax

definition formatSyncSessionID :: "byte list \<Rightarrow> string" where
  "formatSyncSessionID bytes =
     (let bytes = bytes[6 := (bytes ! 6 AND 0x0f) OR 0x40];
          bytes = bytes[8 := (bytes ! 8 AND 0x3f) OR 0x80];
          encoded = hex_EncodeToString bytes
      in slice 0 8 encoded @ ''-'' @ slice 8 12 encoded @ ''-'' @ slice 12 16 encoded @ ''-'' @
         slice 16 20 encoded @ ''-'' @ slice 20 32 encoded)"

section \<open>A connection\<close>

record websocketRunState =
  rs_sessionID :: string
  rs_connectionCount :: "32 word"
  rs_lastCloseReason :: string
  rs_needsRestart :: bool

definition newWebSocketRunState :: "byte list \<Rightarrow> websocketRunState" where
  "newWebSocketRunState bytes =
     \<lparr>rs_sessionID = formatSyncSessionID bytes, rs_connectionCount = 0, rs_lastCloseReason = ''InitialConnect'',
      rs_needsRestart = False\<rparr>"

text \<open>An acknowledgement channel is known by a number; the first request has none.\<close>

record flushRequest =
  fl_ack :: "nat option"
  fl_replay :: bool

record writeResult =
  wr_err :: error
  wr_replay :: bool

text \<open>
  Where the goroutine \<open>writeLoop\<close> stands: waiting for a request; in \<open>flushQueued\<close>, before
  it takes a message or with one in its hands; after \<open>flushQueued\<close>, with its error;
  acknowledging what else is queued, after an error; returned.
\<close>

datatype writer =
    WIdle
  | WFlush flushRequest
  | WSend flushRequest ClientMessage
  | WAck flushRequest "error option"
  | WDrain flushRequest error
  | WStopped

text \<open>\<open>co_written\<close> is not in the program: what the connection has accepted so far.\<close>

record connection =
  co_reading :: bool
  co_readCh :: "(error + json option) list"
  co_flushRequests :: "flushRequest list"
  co_writer :: writer
  co_writeErr :: "writeResult option"
  co_written :: "ClientMessage list"

type_synonym acks = "(nat, error option) gomap"

definition sendFlushAck :: "nat option \<Rightarrow> error option \<Rightarrow> acks \<Rightarrow> acks" where
  "sendFlushAck ack err acks =
     (case ack of
        None \<Rightarrow> acks
      | Some k \<Rightarrow> (case mget acks k of None \<Rightarrow> mput k err acks | Some _ \<Rightarrow> acks))"

definition ackPendingFlushRequests :: "flushRequest list \<Rightarrow> error option \<Rightarrow> acks \<Rightarrow> acks" where
  "ackPendingFlushRequests reqs err acks = fold (\<lambda>r. sendFlushAck (fl_ack r) err) reqs acks"

text \<open>
  \<open>writeClientMessage\<close>: the message is encoded and written; \<open>w\<close> is the answer of the connection.
\<close>

definition writeClientMessage :: "error option \<Rightarrow> ClientMessage \<Rightarrow> error option" where
  "writeClientMessage w msg = (case EncodeClientMessage msg of Inl e \<Rightarrow> Some e | Inr data \<Rightarrow> w)"

text \<open>
  The steps of \<open>writeLoop\<close>, over its connection, the client and the acknowledgements.
  \<open>cancelled\<close> says that its context is done.
\<close>

inductive writer_step ::
  "bool \<Rightarrow> connection \<times> Client \<times> acks \<Rightarrow> connection \<times> Client \<times> acks \<Rightarrow> bool" where
  take_request: "co_writer co = WIdle \<Longrightarrow> co_flushRequests co = r # rs \<Longrightarrow>
    writer_step cancelled (co, c, as) (co\<lparr>co_writer := WFlush r, co_flushRequests := rs\<rparr>, c, as)"
| stop: "co_writer co = WIdle \<Longrightarrow> cancelled \<Longrightarrow>
    writer_step cancelled (co, c, as) (co\<lparr>co_writer := WStopped\<rparr>, c, as)"
| pop: "co_writer co = WFlush r \<Longrightarrow> PopNextMessage c = (Some msg, c') \<Longrightarrow>
    writer_step cancelled (co, c, as) (co\<lparr>co_writer := WSend r msg\<rparr>, c', as)"
| pop_none: "co_writer co = WFlush r \<Longrightarrow> PopNextMessage c = (None, c') \<Longrightarrow>
    writer_step cancelled (co, c, as) (co\<lparr>co_writer := WAck r None\<rparr>, c', as)"
| sent: "co_writer co = WSend r msg \<Longrightarrow> writeClientMessage w msg = None \<Longrightarrow>
    writer_step cancelled (co, c, as) (co\<lparr>co_writer := WFlush r, co_written := co_written co @ [msg]\<rparr>, c, as)"
| not_sent: "co_writer co = WSend r msg \<Longrightarrow> writeClientMessage w msg = Some e \<Longrightarrow>
    writer_step cancelled (co, c, as) (co\<lparr>co_writer := WAck r (Some e)\<rparr>, c, as)"
| ack: "co_writer co = WAck r err \<Longrightarrow>
    writer_step cancelled (co, c, as)
      (co\<lparr>co_writer := (case err of None \<Rightarrow> WIdle | Some e \<Rightarrow> WDrain r e)\<rparr>, c, sendFlushAck (fl_ack r) err as)"
| drain: "co_writer co = WDrain r e \<Longrightarrow> co_flushRequests co = q # qs \<Longrightarrow>
    writer_step cancelled (co, c, as)
      (co\<lparr>co_flushRequests := qs\<rparr>, c, sendFlushAck (fl_ack q) (Some e) as)"
| report: "co_writer co = WDrain r e \<Longrightarrow> co_flushRequests co = [] \<Longrightarrow>
    writer_step cancelled (co, c, as)
      (co\<lparr>co_writer := WStopped, co_writeErr := (case co_writeErr co of
            None \<Rightarrow> Some \<lparr>wr_err = e, wr_replay = fl_replay r\<rparr> | Some x \<Rightarrow> Some x)\<rparr>, c, as)"

text \<open>The message \<open>runConnection\<close> writes first.\<close>

definition connect_message :: "websocketRunState \<Rightarrow> SyncTimestamp option \<Rightarrow> 64 word \<Rightarrow> ClientMessage" where
  "connect_message rs maxObserved clientTS =
     Connect \<lparr>cn_SessionID = rs_sessionID rs, cn_ConnectionCount = rs_connectionCount rs,
       cn_LastCloseReason = rs_lastCloseReason rs, cn_MaxObservedTimestamp = maxObserved,
       cn_ClientTS = Some clientTS, cn_lastCloseReasonPresent = False, cn_lastCloseReasonNull = False\<rparr>"

definition new_connection :: "ClientMessage \<Rightarrow> connection" where
  "new_connection msg =
     \<lparr>co_reading = True, co_readCh = [], co_flushRequests = [], co_writer = WIdle, co_writeErr = None,
      co_written = [msg]\<rparr>"

section \<open>Receiving\<close>

text \<open>
  \<open>receiveServerMessage\<close>, up to the point where it may wait for room in \<open>results\<close>: the
  error it returns, or the snapshot it has to send, if any. Bytes that are no JSON
  document are \<open>None\<close>.
\<close>

definition receiveServerMessage :: "json option \<Rightarrow> Client \<Rightarrow> QueryResults option res \<times> Client" where
  "receiveServerMessage data c =
     (case (case data of None \<Rightarrow> Inl (StdError ''encoding/json'') | Some j \<Rightarrow> DecodeServerMessage j) of
        Inl e \<Rightarrow> (Inl e, c)
      | Inr msg \<Rightarrow> if msg = Ping then (Inr None, c) else ReceiveMessage msg c)"

section \<open>The running manager\<close>

text \<open>
  Why \<open>runConnection\<close> returned: with a \<open>reconnectableWebSocketError\<close>, or with any other error.
\<close>

datatype run_end = Reconnect error bool | Fatal error

text \<open>
  Where the goroutine that called \<open>Run\<close> stands: not called yet; in \<open>startRun\<close>, after its first
  section, and up to the first state; at the head of the loop; in
  \<open>prepareReconnect\<close>, before a restart or asleep after a failed one; dialing, or asleep
  after a failure; before the \<open>Connect\<close> message; before the first flush request; in the
  \<open>select\<close> of \<open>runConnection\<close>; passing on an acknowledgement channel; waiting for room in
  \<open>results\<close>; after \<open>runConnection\<close>; asleep before the next attempt; in the deferred
  \<open>finishRun\<close>; returned.
\<close>

datatype run_pc =
    NotStarted
  | Starting
  | Top websocketRunState
  | Restart websocketRunState
  | RestartSleep websocketRunState
  | Dial websocketRunState
  | DialSleep websocketRunState error
  | Greet websocketRunState
  | FirstFlush websocketRunState
  | Select websocketRunState
  | Forward websocketRunState nat
  | Publish websocketRunState QueryResults
  | Ended websocketRunState run_end
  | Backoff websocketRunState
  | Finish finish_stage
  | Finished

text \<open>
  A manager with its goroutines. \<open>w_old\<close> are the connections that \<open>runConnection\<close> has left
  while their writers may still be running; \<open>w_publishing\<close> are the snapshots that calls of
  \<open>Mutation\<close> are publishing, with the operation of \<open>sendLatest\<close> that is next. \<open>w_sent\<close> and
  \<open>w_synced\<close> are not in the program: the messages taken from the queue since the last
  restart of the client, each with the mark whether the writer of a connection that had
  been left took it, and whether that restart succeeded.
\<close>

record world =
  w_mgr :: Manager
  w_pc :: run_pc
  w_conn :: "connection option"
  w_old :: "connection list"
  w_cancelled :: "ctx_error option"
  w_acks :: acks
  w_nextAck :: nat
  w_publishing :: "(sending \<times> QueryResults) list"
  w_sent :: "(bool \<times> ClientMessage) list"
  w_synced :: bool

abbreviation w_client :: "world \<Rightarrow> Client" where
  "w_client s \<equiv> mg_client (w_mgr s)"

abbreviation set_client :: "Client \<Rightarrow> world \<Rightarrow> world" where
  "set_client c s \<equiv> s\<lparr>w_mgr := (w_mgr s)\<lparr>mg_client := c\<rparr>\<rparr>"

abbreviation set_hub :: "(Manager \<Rightarrow> 'a \<times> Manager) \<Rightarrow> world \<Rightarrow> world" where
  "set_hub f s \<equiv> s\<lparr>w_mgr := snd (f (w_mgr s))\<rparr>"

text \<open>\<open>sleepContext\<close> may return nil: without a delay only if the context is not done.\<close>

definition sleep_over :: "world \<Rightarrow> bool" where
  "sleep_over s \<longleftrightarrow> mg_reconnectBackoff (w_mgr s) = 0 \<longrightarrow> w_cancelled s = None"

text \<open>The operations of the manager that change the client under its lock.\<close>

fun api_op :: "op \<Rightarrow> bool" where
  "api_op OpPop = False"
| "api_op (OpReceive m) = False"
| "api_op (OpRestart env) = False"
| "api_op (OpRefreshAuth env) = False"
| "api_op _ = True"

text \<open>What a call of \<open>Mutation\<close> is about to publish: the snapshot after it, if it differs.\<close>

definition mutation_publishes :: "sharing \<Rightarrow> op \<Rightarrow> Client \<Rightarrow> (sending \<times> QueryResults) list" where
  "mutation_publishes same x c =
     (case x of
        OpMutation path args opts \<Rightarrow>
          (case Client_Mutation path args opts c of
             (Inr _, d) \<Rightarrow>
               if queryResultsEqual same (Base_Client.LatestResults c) (Base_Client.LatestResults d) then []
               else [(TrySend, Base_Client.LatestResults d)]
           | (Inl _, d) \<Rightarrow> [])
      | _ \<Rightarrow> [])"

text \<open>
  The state after \<open>runConnection\<close> has returned with an error that lets the manager
  reconnect, in \<open>runConnectedConnection\<close>; \<open>text\<close> gives the texts of errors.
\<close>

definition lost_connection :: "(error \<Rightarrow> string) \<Rightarrow> error \<Rightarrow> bool \<Rightarrow> websocketRunState \<Rightarrow> websocketRunState" where
  "lost_connection text e again rs =
     rs\<lparr>rs_connectionCount := rs_connectionCount rs + 1, rs_lastCloseReason := text e, rs_needsRestart := again\<rparr>"

definition failed_dial :: "(error \<Rightarrow> string) \<Rightarrow> error \<Rightarrow> websocketRunState \<Rightarrow> websocketRunState" where
  "failed_dial text e rs = rs\<lparr>rs_connectionCount := rs_connectionCount rs + 1, rs_lastCloseReason := text e\<rparr>"

text \<open>The message that a step has taken from the queue of the client.\<close>

definition taken :: "Client \<Rightarrow> Client \<Rightarrow> ClientMessage list" where
  "taken c c' =
     (if c' = c then [] else case fst (PopNextMessage c) of None \<Rightarrow> [] | Some msg \<Rightarrow> [msg])"

text \<open>
  The steps. \<open>Run\<close> does not wait for the writer of a connection that it leaves, which may
  still take messages from the client.
\<close>

inductive mstep :: "(error \<Rightarrow> string) \<Rightarrow> world \<Rightarrow> world \<Rightarrow> bool" for texts :: "error \<Rightarrow> string" where
\<comment> \<open>other goroutines\<close>
  api: "api_op x \<Longrightarrow>
    mstep texts s ((set_client (exec x (w_client s)) s)\<lparr>w_publishing := w_publishing s @ mutation_publishes same x (w_client s)\<rparr>)"
| publish_latest: "w_publishing s = ps @ (st, q) # qs \<Longrightarrow>
    send_section results_cap st (mg_results (w_mgr s)) q = (ch, next) \<Longrightarrow>
    mstep texts s (s\<lparr>w_mgr := (w_mgr s)\<lparr>mg_results := ch\<rparr>,
      w_publishing := ps @ (case next of None \<Rightarrow> [] | Some st' \<Rightarrow> [(st', q)]) @ qs\<rparr>)"
| consume: "mg_results (w_mgr s) = q # qs \<Longrightarrow> mstep texts s (s\<lparr>w_mgr := (w_mgr s)\<lparr>mg_results := qs\<rparr>\<rparr>)"
| flush: "length (mg_flushCh (w_mgr s)) < flush_cap \<Longrightarrow>
    mstep texts s (s\<lparr>w_mgr := (w_mgr s)\<lparr>mg_flushCh := mg_flushCh (w_mgr s) @ [w_nextAck s]\<rparr>,
      w_nextAck := Suc (w_nextAck s)\<rparr>)"
| cancel: "w_cancelled s = None \<Longrightarrow> mstep texts s (s\<lparr>w_cancelled := Some e\<rparr>)"
\<comment> \<open>\<open>Run\<close>, before a connection\<close>
| claim: "w_pc s = NotStarted \<Longrightarrow> startRun (w_mgr s) = (Inr (), m) \<Longrightarrow>
    mstep texts s (s\<lparr>w_mgr := m, w_pc := Starting\<rparr>)"
| start: "w_pc s = Starting \<Longrightarrow> length bytes = 16 \<Longrightarrow>
    mstep texts s ((set_hub (markConnecting now) s)\<lparr>w_pc := Top (newWebSocketRunState bytes)\<rparr>)"
| start_fails: "w_pc s = Starting \<Longrightarrow>
    mstep texts s ((set_hub (markConnecting now) s)\<lparr>w_pc := Finish (RecordErr (StdError ''crypto/rand''))\<rparr>)"
| top: "w_pc s = Top rs \<Longrightarrow> w_cancelled s = None \<Longrightarrow>
    mstep texts s (s\<lparr>w_pc := (if rs_needsRestart rs then Restart rs else Dial rs)\<rparr>)"
| top_done: "w_pc s = Top rs \<Longrightarrow> w_cancelled s = Some e \<Longrightarrow> mstep texts s (s\<lparr>w_pc := Finish (RecordErr (CtxError e))\<rparr>)"
| restart: "w_pc s = Restart rs \<Longrightarrow> RestartForReconnect env (w_client s) = (r, c) \<Longrightarrow>
    mstep texts s ((set_client c s)\<lparr>w_pc := (if isl r then RestartSleep rs else Dial rs),
      w_sent := [], w_synced := (\<not> isl r)\<rparr>)"
| restart_again: "w_pc s = RestartSleep rs \<Longrightarrow> sleep_over s \<Longrightarrow> mstep texts s (s\<lparr>w_pc := Restart rs\<rparr>)"
| restart_done: "w_pc s = RestartSleep rs \<Longrightarrow> w_cancelled s = Some e \<Longrightarrow>
    mstep texts s (s\<lparr>w_pc := Finish (RecordErr (CtxError e))\<rparr>)"
| dialed: "w_pc s = Dial rs \<Longrightarrow> mstep texts s (s\<lparr>w_pc := Greet rs\<rparr>)"
| dial_fails: "w_pc s = Dial rs \<Longrightarrow>
    mstep texts s ((set_hub (markReconnecting now) s)\<lparr>w_pc := DialSleep rs e\<rparr>)"
| dial_again: "w_pc s = DialSleep rs e \<Longrightarrow> sleep_over s \<Longrightarrow> mstep texts s (s\<lparr>w_pc := Top (failed_dial texts e rs)\<rparr>)"
| dial_done: "w_pc s = DialSleep rs e \<Longrightarrow> w_cancelled s = Some ce \<Longrightarrow>
    mstep texts s (s\<lparr>w_pc := Finish (RecordErr (CtxError ce))\<rparr>)"
\<comment> \<open>\<open>runConnection\<close>\<close>
| greeted: "w_pc s = Greet rs \<Longrightarrow> msg = connect_message rs (MaxObservedTimestamp (w_client s)) ts \<Longrightarrow>
    writeClientMessage w msg = None \<Longrightarrow>
    mstep texts s ((set_hub (markConnected now) s)\<lparr>w_pc := FirstFlush rs, w_conn := Some (new_connection msg)\<rparr>)"
| greet_fails: "w_pc s = Greet rs \<Longrightarrow>
    writeClientMessage w (connect_message rs (MaxObservedTimestamp (w_client s)) ts) = Some e \<Longrightarrow>
    mstep texts s (s\<lparr>w_pc := Ended rs (Reconnect e False)\<rparr>)"
| first_flush: "w_pc s = FirstFlush rs \<Longrightarrow> w_conn s = Some co \<Longrightarrow>
    mstep texts s (s\<lparr>w_pc := Select rs, w_conn := Some (co\<lparr>co_flushRequests := co_flushRequests co @
      [\<lparr>fl_ack = None, fl_replay = True\<rparr>]\<rparr>)\<rparr>)"
| first_flush_done: "w_pc s = FirstFlush rs \<Longrightarrow> w_cancelled s = Some e \<Longrightarrow>
    mstep texts s (s\<lparr>w_pc := Ended rs (Fatal (CtxError e))\<rparr>)"
| read_fails: "w_pc s = Select rs \<Longrightarrow> w_conn s = Some co \<Longrightarrow> co_readCh co = Inl e # xs \<Longrightarrow>
    mstep texts s (s\<lparr>w_pc := Ended rs (Reconnect e True), w_conn := Some (co\<lparr>co_readCh := xs\<rparr>)\<rparr>)"
| received: "w_pc s = Select rs \<Longrightarrow> w_conn s = Some co \<Longrightarrow> co_readCh co = Inr data # xs \<Longrightarrow>
    receiveServerMessage data (w_client s) = (r, c) \<Longrightarrow>
    mstep texts s ((set_client c s)\<lparr>w_conn := Some (co\<lparr>co_readCh := xs\<rparr>),
      w_pc := (case r of Inl e \<Rightarrow> Ended rs (Fatal e) | Inr None \<Rightarrow> Select rs | Inr (Some q) \<Rightarrow> Publish rs q)\<rparr>)"
| published: "w_pc s = Publish rs q \<Longrightarrow> length (mg_results (w_mgr s)) < results_cap \<Longrightarrow>
    mstep texts s (s\<lparr>w_mgr := (w_mgr s)\<lparr>mg_results := mg_results (w_mgr s) @ [q]\<rparr>, w_pc := Select rs\<rparr>)"
| publish_done: "w_pc s = Publish rs q \<Longrightarrow> w_cancelled s = Some e \<Longrightarrow>
    mstep texts s (s\<lparr>w_pc := Ended rs (Fatal (CtxError e))\<rparr>)"
| flush_taken: "w_pc s = Select rs \<Longrightarrow> mg_flushCh (w_mgr s) = k # ks \<Longrightarrow>
    mstep texts s (s\<lparr>w_mgr := (w_mgr s)\<lparr>mg_flushCh := ks\<rparr>, w_pc := Forward rs k\<rparr>)"
| flush_forwarded: "w_pc s = Forward rs k \<Longrightarrow> w_conn s = Some co \<Longrightarrow> length (co_flushRequests co) < flush_cap \<Longrightarrow>
    mstep texts s (s\<lparr>w_pc := Select rs, w_conn := Some (co\<lparr>co_flushRequests := co_flushRequests co @
      [\<lparr>fl_ack = Some k, fl_replay = True\<rparr>]\<rparr>)\<rparr>)"
| flush_done: "w_pc s = Forward rs k \<Longrightarrow> w_cancelled s = Some e \<Longrightarrow>
    mstep texts s (s\<lparr>w_pc := Ended rs (Fatal (CtxError e)), w_acks := sendFlushAck (Some k) (Some (CtxError e)) (w_acks s)\<rparr>)"
| write_failed: "w_pc s = Select rs \<Longrightarrow> w_conn s = Some co \<Longrightarrow> co_writeErr co = Some wr \<Longrightarrow>
    mstep texts s (s\<lparr>w_pc := Ended rs (Reconnect (wr_err wr) (wr_replay wr)),
      w_conn := Some (co\<lparr>co_writeErr := None, co_flushRequests := []\<rparr>),
      w_acks := ackPendingFlushRequests (co_flushRequests co) (Some (wr_err wr)) (w_acks s)\<rparr>)"
| inactive: "w_pc s = Select rs \<Longrightarrow> mstep texts s (s\<lparr>w_pc := Ended rs (Reconnect (SyncError InactiveServer) True)\<rparr>)"
| select_done: "w_pc s = Select rs \<Longrightarrow> w_cancelled s = Some e \<Longrightarrow>
    mstep texts s (s\<lparr>w_pc := Ended rs (Fatal (CtxError e))\<rparr>)"
\<comment> \<open>the goroutines of the connection, and those of earlier ones\<close>
| read: "w_conn s = Some co \<Longrightarrow> co_reading co \<Longrightarrow> co_readCh co = [] \<Longrightarrow>
    mstep texts s (s\<lparr>w_conn := Some (co\<lparr>co_readCh := [x], co_reading := \<not> isl x\<rparr>)\<rparr>)"
| wrote: "w_conn s = Some co \<Longrightarrow> writer_step (w_cancelled s \<noteq> None) (co, w_client s, w_acks s) (co', c, as) \<Longrightarrow>
    mstep texts s ((set_client c s)\<lparr>w_conn := Some co', w_acks := as,
      w_sent := w_sent s @ map (Pair False) (taken (w_client s) c)\<rparr>)"
| wrote_old: "w_old s = os @ co # ps \<Longrightarrow> writer_step True (co, w_client s, w_acks s) (co', c, as) \<Longrightarrow>
    mstep texts s ((set_client c s)\<lparr>w_old := os @ co' # ps, w_acks := as,
      w_sent := w_sent s @ map (Pair True) (taken (w_client s) c)\<rparr>)"
\<comment> \<open>\<open>Run\<close>, after a connection\<close>
| ended_done: "w_pc s = Ended rs x \<Longrightarrow> w_cancelled s = Some e \<Longrightarrow>
    mstep texts s (s\<lparr>w_pc := Finish (RecordErr (CtxError e)), w_conn := None,
      w_old := w_old s @ (case w_conn s of None \<Rightarrow> [] | Some co \<Rightarrow> [co])\<rparr>)"
| ended_fatal: "w_pc s = Ended rs (Fatal e) \<Longrightarrow> w_cancelled s = None \<Longrightarrow>
    mstep texts s (s\<lparr>w_pc := Finish (RecordErr e), w_conn := None,
      w_old := w_old s @ (case w_conn s of None \<Rightarrow> [] | Some co \<Rightarrow> [co])\<rparr>)"
| ended_reconnect: "w_pc s = Ended rs (Reconnect e again) \<Longrightarrow> w_cancelled s = None \<Longrightarrow>
    mstep texts s ((set_hub (markReconnecting now) s)\<lparr>w_pc := Backoff (lost_connection texts e again rs), w_conn := None,
      w_old := w_old s @ (case w_conn s of None \<Rightarrow> [] | Some co \<Rightarrow> [co])\<rparr>)"
| backoff_over: "w_pc s = Backoff rs \<Longrightarrow> sleep_over s \<Longrightarrow> mstep texts s (s\<lparr>w_pc := Top rs\<rparr>)"
| backoff_done: "w_pc s = Backoff rs \<Longrightarrow> w_cancelled s = Some e \<Longrightarrow>
    mstep texts s (s\<lparr>w_pc := Finish (RecordErr (CtxError e))\<rparr>)"
| finish: "w_pc s = Finish x \<Longrightarrow> finishRun now x (w_mgr s) = (m, next) \<Longrightarrow>
    mstep texts s (s\<lparr>w_mgr := m, w_pc := (case next of None \<Rightarrow> Finished | Some y \<Rightarrow> Finish y)\<rparr>)"

text \<open>
  A step of a run in which no counter of the client is about to wrap around, and the
  state before a call of \<open>Run\<close>.
\<close>

definition good_step :: "(error \<Rightarrow> string) \<Rightarrow> world \<Rightarrow> world \<Rightarrow> bool" where
  "good_step texts s t \<longleftrightarrow> mstep texts s t \<and> room (w_client s)"

definition new_world :: "Manager \<Rightarrow> world" where
  "new_world m =
     \<lparr>w_mgr = m, w_pc = NotStarted, w_conn = None, w_old = [], w_cancelled = None, w_acks = [], w_nextAck = 0,
      w_publishing = [], w_sent = [], w_synced = True\<rparr>"

end
