(* ===== verification/Sync_Api.thy ===== *)
theory Sync_Api
  imports Sync_Manager Go_Strings
begin

text \<open>
  The methods of a manager that its owner calls (\<open>internal/syncclient/websocket_manager.go\<close>),
  each as one section under the lock of the base client.
\<close>

section \<open>Construction\<close>

text \<open>
  The options of a manager; \<open>None\<close> is a nil base client or dialer. A dialer is known by a
  number, the default one is 0.
\<close>

datatype manager_option =
    MBaseClient "Client option"
  | MClientID string
  | MDialer "nat option"
  | MReconnectBackoff int
  | MInactivityTimeout int

fun apply_manager_option :: "Manager \<Rightarrow> manager_option \<Rightarrow> Manager res" where
  "apply_manager_option m (MBaseClient c) =
     (case c of None \<Rightarrow> Inl (SyncError NilBaseClient) | Some c \<Rightarrow> Inr (m\<lparr>mg_client := c\<rparr>))"
| "apply_manager_option m (MClientID clientID) =
     (if TrimSpace clientID = [] then Inl (SyncError EmptyClientID) else Inr (m\<lparr>mg_clientID := clientID\<rparr>))"
| "apply_manager_option m (MDialer d) =
     (case d of None \<Rightarrow> Inl (SyncError NilDialer) | Some d \<Rightarrow> Inr (m\<lparr>mg_dialer := d\<rparr>))"
| "apply_manager_option m (MReconnectBackoff backoff) =
     (if backoff < 0 then Inl (SyncError NegativeBackoff) else Inr (m\<lparr>mg_reconnectBackoff := backoff\<rparr>))"
| "apply_manager_option m (MInactivityTimeout timeout) =
     (if timeout \<le> 0 then Inl (SyncError NonPositiveTimeout) else Inr (m\<lparr>mg_inactivityTimeout := timeout\<rparr>))"

fun apply_manager_options :: "manager_option list \<Rightarrow> Manager \<Rightarrow> Manager res" where
  "apply_manager_options [] m = Inr m"
| "apply_manager_options (opt # opts) m = rbind (apply_manager_option m opt) (apply_manager_options opts)"

text \<open>\<open>New\<close>, for the URL that \<open>WebSocketURL\<close> returns.\<close>

definition Manager_New :: "string res \<Rightarrow> manager_option list \<Rightarrow> Manager res" where
  "Manager_New syncURL opts =
     rbind syncURL (\<lambda>syncURL.
     apply_manager_options opts
       \<lparr>connectionState = initial_ConnectionState, connectionStateSubscribers = [], nextConnectionStateSubscriberID = 0,
        mg_url = syncURL, mg_client = New, mg_clientID = ''go-0.1.0'', mg_dialer = 0,
        mg_reconnectBackoff = 100000000, mg_inactivityTimeout = 30000000000, mg_results = [], mg_flushCh = [],
        mg_done = False, mg_runStarted = False, mg_runErr = None\<rparr>)"

section \<open>Methods\<close>

definition under_lock :: "(Client \<Rightarrow> 'a \<times> Client) \<Rightarrow> Manager \<Rightarrow> 'a \<times> Manager" where
  "under_lock f m = (case f (mg_client m) of (r, c) \<Rightarrow> (r, m\<lparr>mg_client := c\<rparr>))"

definition Manager_LatestResults :: "Manager \<Rightarrow> QueryResults" where
  "Manager_LatestResults m = LatestResults (mg_client m)"

definition Manager_Subscribe :: "string \<Rightarrow> gval \<Rightarrow> Manager \<Rightarrow> SubscriberID res \<times> Manager" where
  "Manager_Subscribe path args = under_lock (Subscribe path args)"

definition Manager_Unsubscribe :: "SubscriberID \<Rightarrow> Manager \<Rightarrow> unit res \<times> Manager" where
  "Manager_Unsubscribe i = under_lock (Unsubscribe i)"

text \<open>
  \<open>Mutation\<close> publishes the snapshot after the lock is released; the section under the lock
  returns what it has to publish, which \<open>publishLatest\<close> does operation by operation.
\<close>

definition Manager_Mutation ::
  "sharing \<Rightarrow> string \<Rightarrow> gval \<Rightarrow> SyncMutationOption list \<Rightarrow> Manager \<Rightarrow> (RequestID res \<times> QueryResults option) \<times> Manager" where
  "Manager_Mutation same path args opts m =
     (let before = Manager_LatestResults m;
          (r, m) = under_lock (Client_Mutation path args opts) m;
          after = Manager_LatestResults m
      in ((r, if \<not> isl r \<and> \<not> queryResultsEqual same before after then Some after else None), m))"

definition Manager_publishLatest :: "sending \<Rightarrow> QueryResults \<Rightarrow> Manager \<Rightarrow> Manager \<times> sending option" where
  "Manager_publishLatest st r m =
     (case send_section results_cap st (mg_results m) r of (ch, next) \<Rightarrow> (m\<lparr>mg_results := ch\<rparr>, next))"

definition Manager_Action :: "string \<Rightarrow> gval \<Rightarrow> Manager \<Rightarrow> RequestID res \<times> Manager" where
  "Manager_Action path args = under_lock (Client_Action path args)"

definition Manager_SetAuth :: "string \<Rightarrow> Manager \<Rightarrow> unit res \<times> Manager" where
  "Manager_SetAuth token = under_lock (SetAuth token)"

definition Manager_SetAdminAuth :: "string \<Rightarrow> SyncUserIdentityAttributes list \<Rightarrow> Manager \<Rightarrow> unit res \<times> Manager" where
  "Manager_SetAdminAuth token actingAs = under_lock (SetAdminAuth token actingAs)"

definition Manager_ClearAuth :: "Manager \<Rightarrow> unit res \<times> Manager" where
  "Manager_ClearAuth = under_lock ClearAuth"

definition Manager_SetAuthCallback :: "fetch_env \<Rightarrow> AuthTokenFetcher option \<Rightarrow> Manager \<Rightarrow> unit res \<times> Manager" where
  "Manager_SetAuthCallback env fetcher = under_lock (SetAuthCallback env fetcher)"

text \<open>
  What the second \<open>select\<close> of \<open>Flush\<close> may return, for a request with the given
  acknowledgement channel: what it was acknowledged with, the error of a manager that is
  done, or the error of the caller's context.
\<close>

definition Flush_returns :: "world \<Rightarrow> nat \<Rightarrow> error option \<Rightarrow> bool" where
  "Flush_returns w k r \<longleftrightarrow>
     mget (w_acks w) k = Some r \<or> (mg_done (w_mgr w) \<and> r = Some (Manager_doneErr (w_mgr w))) \<or>
     (\<exists>e. r = Some (CtxError e))"

lemmas manager_api = under_lock_def Manager_LatestResults_def Manager_Subscribe_def Manager_Unsubscribe_def
  Manager_Mutation_def Manager_publishLatest_def Manager_Action_def Manager_SetAuth_def Manager_SetAdminAuth_def
  Manager_ClearAuth_def Manager_SetAuthCallback_def

text \<open>Each section is a step of the running manager.\<close>

lemma mutation_publishes_eq:
  "mutation_publishes same (OpMutation path args opts) (mg_client m) =
     (case snd (fst (Manager_Mutation same path args opts m)) of None \<Rightarrow> [] | Some q \<Rightarrow> [(TrySend, q)])"
  by (auto simp: mutation_publishes_def manager_api Let_def split: prod.splits sum.splits)

lemma api_steps:
  "mstep texts w (w\<lparr>w_mgr := snd (Manager_Subscribe path args (w_mgr w))\<rparr>)"
  "mstep texts w (w\<lparr>w_mgr := snd (Manager_Unsubscribe i (w_mgr w))\<rparr>)"
  "mstep texts w (w\<lparr>w_mgr := snd (Manager_Action path args (w_mgr w))\<rparr>)"
  "mstep texts w (w\<lparr>w_mgr := snd (Manager_SetAuth token (w_mgr w))\<rparr>)"
  "mstep texts w (w\<lparr>w_mgr := snd (Manager_SetAdminAuth token actingAs (w_mgr w))\<rparr>)"
  "mstep texts w (w\<lparr>w_mgr := snd (Manager_ClearAuth (w_mgr w))\<rparr>)"
  "mstep texts w (w\<lparr>w_mgr := snd (Manager_SetAuthCallback env fetcher (w_mgr w))\<rparr>)"
  "mstep texts w (w\<lparr>w_mgr := snd (Manager_Mutation same path args opts (w_mgr w)),
     w_publishing := w_publishing w @
       (case snd (fst (Manager_Mutation same path args opts (w_mgr w))) of None \<Rightarrow> [] | Some q \<Rightarrow> [(TrySend, q)])\<rparr>)"
proof -
  note api = mstep.api [of _ texts w]
  show "mstep texts w (w\<lparr>w_mgr := snd (Manager_Subscribe path args (w_mgr w))\<rparr>)"
    using api [of "OpSubscribe path args"] by (simp add: manager_api mutation_publishes_def case_prod_beta)
  show "mstep texts w (w\<lparr>w_mgr := snd (Manager_Unsubscribe i (w_mgr w))\<rparr>)"
    using api [of "OpUnsubscribe i"] by (simp add: manager_api mutation_publishes_def case_prod_beta)
  show "mstep texts w (w\<lparr>w_mgr := snd (Manager_Action path args (w_mgr w))\<rparr>)"
    using api [of "OpAction path args"] by (simp add: manager_api mutation_publishes_def case_prod_beta)
  show "mstep texts w (w\<lparr>w_mgr := snd (Manager_SetAuth token (w_mgr w))\<rparr>)"
    using api [of "OpSetAuth token"] by (simp add: manager_api mutation_publishes_def case_prod_beta)
  show "mstep texts w (w\<lparr>w_mgr := snd (Manager_SetAdminAuth token actingAs (w_mgr w))\<rparr>)"
    using api [of "OpSetAdminAuth token actingAs"] by (simp add: manager_api mutation_publishes_def case_prod_beta)
  show "mstep texts w (w\<lparr>w_mgr := snd (Manager_ClearAuth (w_mgr w))\<rparr>)"
    using api [of OpClearAuth] by (simp add: manager_api mutation_publishes_def case_prod_beta)
  show "mstep texts w (w\<lparr>w_mgr := snd (Manager_SetAuthCallback env fetcher (w_mgr w))\<rparr>)"
    using api [of "OpSetAuthCallback env fetcher"] by (simp add: manager_api mutation_publishes_def case_prod_beta)
  show "mstep texts w (w\<lparr>w_mgr := snd (Manager_Mutation same path args opts (w_mgr w)),
     w_publishing := w_publishing w @
       (case snd (fst (Manager_Mutation same path args opts (w_mgr w))) of None \<Rightarrow> [] | Some q \<Rightarrow> [(TrySend, q)])\<rparr>)"
    using api [of "OpMutation path args opts" same]
    by (simp add: mutation_publishes_eq [symmetric]) (simp add: manager_api Let_def case_prod_beta)
qed

end
