(* ===== verification/Sync_Running.thy ===== *)
theory Sync_Running
  imports Sync_Manager
begin

text \<open>
  A running manager. Every step of its goroutines is a run of the base client, so what the
  base client guarantees holds inside a manager. On top of that: the messages a connection
  has accepted are a \<open>Connect\<close> message and then what the client had queued, so a server that
  has processed them, and what is still to come, has the client's active queries.
\<close>

section \<open>The manager runs the client\<close>

text \<open>The client inside a manager, as a session of the base client.\<close>

definition session_of :: "world \<Rightarrow> session" where
  "session_of s = \<lparr>ss_client = w_client s, ss_sent = map snd (w_sent s), ss_synced = w_synced s\<rparr>"

lemma session_of_simps [simp]:
  "ss_client (session_of s) = w_client s" "ss_sent (session_of s) = map snd (w_sent s)" "ss_synced (session_of s) = w_synced s"
  by (simp_all add: session_of_def)

lemma snd_Pair [simp]: "snd \<circ> Pair b = id"
  by auto

text \<open>What a step of a writer does to the client: nothing, or taking the next message.\<close>

lemma pop_changes: "PopNextMessage c = (Some msg, c') \<Longrightarrow> c' \<noteq> c"
  by (auto simp: PopNextMessage_def split: list.splits dest: arg_cong [of _ _ outgoing])

lemma pop_keeps: "PopNextMessage c = (None, c') \<Longrightarrow> c' = c"
  by (auto simp: PopNextMessage_def split: list.splits)

lemma writer_step_client:
  assumes "writer_step b (co, c, as) (co', c', as')"
  shows "c' = c \<or> PopNextMessage c = (Some (hd (outgoing c)), c')"
  using assms by cases (auto simp: PopNextMessage_def split: list.splits)

lemma taken_same [simp]: "taken c c = []"
  by (simp add: taken_def)

lemma taken_pop: "PopNextMessage c = (Some msg, c') \<Longrightarrow> taken c c' = [msg]"
  using pop_changes by (auto simp: taken_def)

lemma session_pop:
  assumes "writer_step b (co, w_client s, as) (co', c, as')" and "room (w_client s)"
    and "w_client t = c" "map snd (w_sent t) = map snd (w_sent s) @ taken (w_client s) c" "w_synced t = w_synced s"
  shows "session_step\<^sup>*\<^sup>* (session_of s) (session_of t)"
  using writer_step_client [OF assms(1)]
proof
  assume "c = w_client s"
  with assms(3-5) have "session_of t = session_of s"
    by (simp add: session_of_def)
  then show ?thesis by simp
next
  assume p: "PopNextMessage (w_client s) = (Some (hd (outgoing (w_client s))), c)"
  have "run_op OpPop (session_of s) = session_of t"
    using assms(3-5) by (simp add: run_op_def session_of_def p taken_pop [OF p])
  then show ?thesis
    using session_step.op [of "session_of s" OpPop] assms(2) by auto
qed

lemma session_exec:
  assumes "room (w_client s)" and "w_client t = exec x (w_client s)" "w_sent t = w_sent s" "w_synced t = w_synced s"
    and "case x of OpPop \<Rightarrow> False | OpRestart env \<Rightarrow> False | _ \<Rightarrow> True"
  shows "session_step\<^sup>*\<^sup>* (session_of s) (session_of t)"
proof -
  have "run_op x (session_of s) = session_of t"
    using assms(2-5) by (cases x) (simp_all add: run_op_def session_of_def)
  then show ?thesis
    using session_step.op [of "session_of s" x] assms(1) by auto
qed

lemma hub_client [simp]:
  "mg_client (snd (updateConnectionState f now m)) = mg_client m"
  "mg_client (snd (markConnecting now m)) = mg_client m" "mg_client (snd (markConnected now m)) = mg_client m"
  "mg_client (snd (markReconnecting now m)) = mg_client m" "mg_client (snd (markDisconnected now m)) = mg_client m"
  by (simp_all add: mark_defs Let_def)

lemma start_client: "startRun m = (Inr (), m') \<Longrightarrow> mg_client m' = mg_client m"
  by (auto simp: startRun_def split: if_splits)

lemma finish_client: "finishRun now x m = (m', next) \<Longrightarrow> mg_client m' = mg_client m"
  by (cases x) auto

lemma receive_exec:
  assumes "receiveServerMessage data c = (r, d)"
  shows "d = c \<or> (\<exists>msg. d = exec (OpReceive msg) c)"
  using assms by (auto simp: receiveServerMessage_def split: sum.splits if_splits) (metis snd_conv)

lemma session_stutter:
  assumes "w_client t = w_client s" "w_sent t = w_sent s" "w_synced t = w_synced s"
  shows "session_step\<^sup>*\<^sup>* (session_of s) (session_of t)"
  using assms by (simp add: session_of_def)

lemma session_restart:
  assumes "room (w_client s)" and "RestartForReconnect env (w_client s) = (r, c)"
    and "w_client t = c" "w_sent t = []" "w_synced t = (\<not> isl r)"
  shows "session_step\<^sup>*\<^sup>* (session_of s) (session_of t)"
proof -
  have "run_op (OpRestart env) (session_of s) = session_of t"
    using assms(2-5) by (simp add: run_op_def session_of_def)
  then show ?thesis
    using session_step.op [of "session_of s" "OpRestart env"] assms(1) by auto
qed

text \<open>Every step of the manager is a run of the client, mostly none or one operation.\<close>

lemma mstep_session:
  assumes "mstep texts s t" and "room (w_client s)"
  shows "session_step\<^sup>*\<^sup>* (session_of s) (session_of t)"
  using assms
proof (induction rule: mstep.induct)
  case (api x s)
  then show ?case
    by (intro session_exec [where x = x]) (cases x; simp)+
next
  case (restart s rs env r c)
  then show ?case
    by (intro session_restart) auto
next
  case (received s rs co data xs r c)
  from receive_exec [OF received(4)] show ?case
  proof
    assume "\<exists>msg. c = exec (OpReceive msg) (w_client s)"
    then obtain msg where "c = exec (OpReceive msg) (w_client s)" ..
    with received(5) show ?case
      by (intro session_exec [where x = "OpReceive msg"]) auto
  qed (simp add: session_stutter)
next
  case (wrote s co co' c as)
  then show ?case
    by (intro session_pop [OF wrote(2)]) auto
next
  case (wrote_old s os co ps co' c as)
  then show ?case
    by (intro session_pop [OF wrote_old(2)]) auto
next
  case (claim s m)
  then show ?case
    by (auto simp: start_client [OF claim(2)] intro: session_stutter)
next
  case (finish s x now m "next")
  then show ?case
    by (auto simp: finish_client [OF finish(2)] intro: session_stutter)
qed (auto intro: session_stutter)

interpretation sync: machine "\<lambda>s. w_pc s = NotStarted \<and> session_step\<^sup>*\<^sup>* new_session (session_of s)"
  "good_step texts" "\<lambda>s. session_step\<^sup>*\<^sup>* new_session (session_of s)"
  by unfold_locales (auto simp: good_step_def intro: mstep_session rtranclp_trans)

lemma session_new_world [simp]: "mg_client m = New \<Longrightarrow> session_of (new_world m) = new_session"
  by (simp add: session_of_def new_world_def new_session_def)

lemma runs_session:
  assumes "(good_step texts)\<^sup>*\<^sup>* (new_world m) s" and "mg_client m = New"
  shows "session_step\<^sup>*\<^sup>* new_session (session_of s)"
proof -
  have "w_pc (new_world m) = NotStarted"
    by (simp add: new_world_def)
  with assms show ?thesis
    by (intro sync.inv_reachable [OF _ assms(1)]) simp
qed

section \<open>The messages of a connection\<close>

text \<open>The message in the hands of a writer that has not failed.\<close>

fun in_hand :: "writer \<Rightarrow> ClientMessage list" where
  "in_hand (WSend r msg) = [msg]"
| "in_hand _ = []"

fun healthy :: "writer \<Rightarrow> bool" where
  "healthy WIdle = True"
| "healthy (WFlush r) = True"
| "healthy (WSend r msg) = True"
| "healthy (WAck r err) = (err = None)"
| "healthy _ = False"

text \<open>Every flush request asks for a replay, so a lost connection always leads to a restart.\<close>

fun writer_replays :: "writer \<Rightarrow> bool" where
  "writer_replays (WFlush r) = fl_replay r"
| "writer_replays (WSend r msg) = fl_replay r"
| "writer_replays (WAck r err) = fl_replay r"
| "writer_replays (WDrain r e) = fl_replay r"
| "writer_replays _ = True"

definition greeting :: "ClientMessage \<Rightarrow> bool" where
  "greeting msg \<longleftrightarrow> (\<exists>rs maxObserved ts. msg = connect_message rs maxObserved ts)"

lemma greeting_connect [simp]: "greeting (connect_message rs maxObserved ts)"
  unfolding greeting_def by blast

text \<open>
  Of the messages taken since the last restart those that the writer of the connection
  itself took; the others went to the writer of a connection that had been left before.
\<close>

definition own_sent :: "world \<Rightarrow> ClientMessage list" where
  "own_sent s = map snd (filter (\<lambda>p. \<not> fst p) (w_sent s))"

lemma own_sent_all: "list_all (\<lambda>p. \<not> fst p) (w_sent s) \<Longrightarrow> own_sent s = map snd (w_sent s)"
  by (simp add: own_sent_def list_all_iff filter_id_conv)

definition live :: "world \<Rightarrow> connection \<Rightarrow> bool" where
  "live s co \<longleftrightarrow> w_synced s \<and> writer_replays (co_writer co) \<and> list_all fl_replay (co_flushRequests co) \<and>
     (\<forall>wr. co_writeErr co = Some wr \<longrightarrow> wr_replay wr) \<and>
     (\<exists>hello rest. co_written co = hello # rest \<and> greeting hello \<and>
        (healthy (co_writer co) \<longrightarrow> own_sent s = rest @ in_hand (co_writer co)))"

abbreviation quiet :: "world \<Rightarrow> bool" where
  "quiet s \<equiv> w_synced s \<and> own_sent s = []"

definition conn_inv :: "world \<Rightarrow> bool" where
  "conn_inv s \<longleftrightarrow>
     (case w_pc s of
        NotStarted \<Rightarrow> w_conn s = None \<and> quiet s
      | Starting \<Rightarrow> w_conn s = None \<and> quiet s
      | Top rs \<Rightarrow> w_conn s = None \<and> (rs_needsRestart rs \<or> quiet s)
      | DialSleep rs e \<Rightarrow> w_conn s = None \<and> quiet s
      | Backoff rs \<Rightarrow> w_conn s = None \<and> (rs_needsRestart rs \<or> quiet s)
      | Restart rs \<Rightarrow> w_conn s = None
      | RestartSleep rs \<Rightarrow> w_conn s = None
      | Dial rs \<Rightarrow> w_conn s = None \<and> quiet s
      | Greet rs \<Rightarrow> w_conn s = None \<and> quiet s
      | Ended rs (Reconnect e again) \<Rightarrow>
          (case w_conn s of None \<Rightarrow> quiet s | Some co \<Rightarrow> again \<and> live s co)
      | Ended rs (Fatal e) \<Rightarrow> (case w_conn s of None \<Rightarrow> False | Some co \<Rightarrow> live s co)
      | Finish e \<Rightarrow> w_conn s = None
      | Finished \<Rightarrow> w_conn s = None
      | _ \<Rightarrow> (case w_conn s of None \<Rightarrow> False | Some co \<Rightarrow> live s co))"

text \<open>A step of the writer keeps the connection alive.\<close>

lemma writer_step_live:
  assumes "writer_step b (co, w_client s, as) (co', c, as')" and "live s co"
    and "own_sent t = own_sent s @ taken (w_client s) c" "w_synced t = w_synced s"
  shows "live t co'"
  using assms(1)
proof cases
  case (pop r msg)
  then show ?thesis
    using assms(2-4) by (auto simp: live_def taken_pop)
next
  case (pop_none r)
  then have "c = w_client s"
    by (simp add: pop_keeps)
  with pop_none show ?thesis
    using assms(2-4) by (auto simp: live_def)
qed (use assms(2-4) in \<open>auto simp: live_def split: option.split\<close>)

lemma live_cong:
  "w_synced t = w_synced s \<Longrightarrow> own_sent t = own_sent s \<Longrightarrow> live t co = live s co"
  by (simp add: live_def)

lemma live_flush:
  "live s (co\<lparr>co_flushRequests := rs\<rparr>) \<longleftrightarrow> live s (co\<lparr>co_flushRequests := []\<rparr>) \<and> list_all fl_replay rs"
  by (auto simp: live_def)

text \<open>The invariant depends on a few fields only.\<close>

lemma conn_inv_cong:
  assumes "conn_inv s" "w_pc t = w_pc s" "w_conn t = w_conn s" "w_synced t = w_synced s" "own_sent t = own_sent s"
  shows "conn_inv t"
proof -
  have "live t co = live s co" for co
    using assms(4,5) by (rule live_cong)
  with assms show ?thesis
    by (simp add: conn_inv_def cong: run_pc.case_cong run_end.case_cong option.case_cong)
qed

lemma own_sent_frame [simp]:
  "own_sent (s\<lparr>w_mgr := m\<rparr>) = own_sent s" "own_sent (s\<lparr>w_pc := x\<rparr>) = own_sent s" "own_sent (s\<lparr>w_conn := co\<rparr>) = own_sent s"
  "own_sent (s\<lparr>w_old := os\<rparr>) = own_sent s" "own_sent (s\<lparr>w_cancelled := e\<rparr>) = own_sent s" "own_sent (s\<lparr>w_acks := as\<rparr>) = own_sent s"
  "own_sent (s\<lparr>w_nextAck := n\<rparr>) = own_sent s" "own_sent (s\<lparr>w_publishing := qs\<rparr>) = own_sent s"
  "own_sent (s\<lparr>w_synced := b\<rparr>) = own_sent s" "own_sent (s\<lparr>w_sent := []\<rparr>) = []"
  by (simp_all add: own_sent_def)

lemma conn_inv_step:
  assumes "mstep texts s t" and "conn_inv s"
  shows "conn_inv t"
  using assms
proof (induction rule: mstep.induct)
  case (wrote s co co' c as)
  let ?t = "(set_client c s)\<lparr>w_conn := Some co', w_acks := as, w_sent := w_sent s @ map (Pair False) (taken (w_client s) c)\<rparr>"
  have "live s co \<Longrightarrow> live ?t co'"
    by (rule writer_step_live [OF wrote(2)]) (simp_all add: own_sent_def filter_map comp_def)
  with wrote show ?case
    by (auto simp: conn_inv_def split: run_pc.splits run_end.splits)
next
  case (wrote_old s os co ps co' c as)
  from wrote_old(3) show ?case
    by (rule conn_inv_cong) (simp_all add: own_sent_def filter_map comp_def)
qed (auto simp: conn_inv_def live_def lost_connection_def failed_dial_def newWebSocketRunState_def new_connection_def
    split: run_pc.splits run_end.splits option.splits sum.splits)

lemma conn_inv_new: "conn_inv (new_world m)"
  by (simp add: conn_inv_def new_world_def own_sent_def)

interpretation conn: machine "\<lambda>s. s = new_world m" "good_step texts" conn_inv
  by unfold_locales (auto simp: good_step_def conn_inv_new intro: conn_inv_step)

lemma conn_inv_live: "conn_inv s \<Longrightarrow> w_conn s = Some co \<Longrightarrow> live s co"
  by (auto simp: conn_inv_def split: run_pc.splits run_end.splits)

end
