(* ===== verification/Http_Client.thy ===== *)
theory Http_Client
  imports Base_Canonical
begin

text \<open>
  The HTTP client: the type \<open>HTTPClient\<close> of \<open>client_options.go\<close>, its calls in
  \<open>client_http.go\<close> and its authentication in \<open>client_facade.go\<close>. The package
  \<open>net/http\<close>, the server and the callback that fetches tokens are an environment with a
  state of its own: every request and every call of the callback may change it. A body is
  its text together with the JSON document it is, if it is one.
\<close>

section \<open>The environment\<close>

record http_request =
  hq_URL :: string
  hq_Header :: "(string, string) gomap"
  hq_Body :: "json option"

record http_body =
  bd_text :: string
  bd_json :: "json option"

record http_response =
  hp_StatusCode :: int
  hp_Body :: "http_body res"

text \<open>
  \<open>he_NewRequest\<close> is the error of \<open>http.NewRequestWithContext\<close> for an URL, \<open>he_Do\<close> is
  \<open>http.Client.Do\<close>, and \<open>he_fetch\<close> calls the callback of the given name. Another goroutine
  may set the credentials of the client at any time: \<open>he_credentials\<close> is what has been set
  (the token, the admin token and the callback) since the call began, if anything has.
\<close>

record 's http_env =
  he_NewRequest :: "string \<Rightarrow> error option"
  he_Do :: "http_request \<Rightarrow> 's \<Rightarrow> http_response res \<times> 's"
  he_fetch :: "nat \<Rightarrow> bool \<Rightarrow> 's \<Rightarrow> string res \<times> 's"
  he_credentials :: "'s \<Rightarrow> (string \<times> string \<times> nat option) option"

section \<open>The client\<close>

text \<open>A queue of mutation turns is a channel with its capacity and its number of tokens.\<close>

record turn_queue =
  tq_cap :: nat
  tq_len :: nat

record HTTPClient =
  hc_address :: string
  hc_clientID :: string
  hc_skipDeploymentURLCheck :: bool
  hc_mutationQueue :: "turn_queue option"
  hc_auth :: string
  hc_adminAuth :: string
  hc_authCallback :: "nat option"

text \<open>The client as a call finds it when it comes back to it for a second request.\<close>

definition meanwhile :: "'s http_env \<Rightarrow> 's \<Rightarrow> HTTPClient \<Rightarrow> HTTPClient" where
  "meanwhile env s c =
     (case he_credentials env s of
        None \<Rightarrow> c
      | Some (auth, adminAuth, cb) \<Rightarrow> c\<lparr>hc_auth := auth, hc_adminAuth := adminAuth, hc_authCallback := cb\<rparr>)"

definition newReadyMutationQueue :: turn_queue where
  "newReadyMutationQueue = \<lparr>tq_cap = 1, tq_len = 1\<rparr>"

section \<open>Authentication\<close>

text \<open>\<open>UserIdentityAttributes\<close> is a map of claims; a nil one is \<open>None\<close>.\<close>

type_synonym UserIdentityAttributes = "(string, wire) gomap option"

definition encodeAdminAuth :: "string \<Rightarrow> UserIdentityAttributes list \<Rightarrow> string res" where
  "encodeAdminAuth token actingAs =
     (case actingAs of
        [] \<Rightarrow> Inr token
      | None # _ \<Rightarrow> Inr token
      | Some claims # rest \<Rightarrow>
          if rest \<noteq> [] then Inl (AppError ManyIdentities)
          else rbind (rerr (Wrapped (AppError EncodeIdentity)) (json_Marshal (WMap claims))) (\<lambda>identityJSON.
            Inr (token @ '':'' @ b64_encode std_alphabet (map (\<lambda>ch. of_char ch) (json_text identityJSON)))))"

definition HTTP_SetAuth :: "string \<Rightarrow> HTTPClient \<Rightarrow> HTTPClient" where
  "HTTP_SetAuth token c =
     (let c = c\<lparr>hc_auth := token\<rparr>;
          c = (if token \<noteq> [] then c\<lparr>hc_adminAuth := []\<rparr> else c)
      in c\<lparr>hc_authCallback := None\<rparr>)"

definition HTTP_ClearAuth :: "HTTPClient \<Rightarrow> HTTPClient" where
  "HTTP_ClearAuth c = c\<lparr>hc_auth := [], hc_adminAuth := [], hc_authCallback := None\<rparr>"

definition HTTP_SetAdminAuth :: "string \<Rightarrow> UserIdentityAttributes list \<Rightarrow> HTTPClient \<Rightarrow> unit res \<times> HTTPClient" where
  "HTTP_SetAdminAuth token actingAs c =
     (case encodeAdminAuth token actingAs of
        Inl e \<Rightarrow> (Inl e, c)
      | Inr adminAuth \<Rightarrow>
          let c = c\<lparr>hc_adminAuth := adminAuth\<rparr>;
              c = (if adminAuth \<noteq> [] then c\<lparr>hc_auth := []\<rparr> else c)
          in (Inr (), c\<lparr>hc_authCallback := None\<rparr>))"

definition HTTP_setAuthCallback :: "nat option \<Rightarrow> HTTPClient \<Rightarrow> HTTPClient" where
  "HTTP_setAuthCallback fetcher c = c\<lparr>hc_authCallback := fetcher, hc_auth := [], hc_adminAuth := []\<rparr>"

text \<open>The value of the header, whether the callback was used, and the error of the callback.\<close>

definition authHeaderValue :: "'s http_env \<Rightarrow> bool \<Rightarrow> HTTPClient \<Rightarrow> 's \<Rightarrow> string res \<times> bool \<times> 's" where
  "authHeaderValue env forceRefresh c s =
     (case hc_authCallback c of
        Some cb \<Rightarrow>
          (case he_fetch env cb forceRefresh s of
             (Inl e, s) \<Rightarrow> (Inl e, True, s)
           | (Inr token, s) \<Rightarrow> (Inr (if token = [] then [] else ''Bearer '' @ token), True, s))
      | None \<Rightarrow>
          (Inr (if hc_adminAuth c \<noteq> [] then ''Convex '' @ hc_adminAuth c
                else if hc_auth c \<noteq> [] then ''Bearer '' @ hc_auth c else []), False, s))"

section \<open>Requests\<close>

definition request_header :: "HTTPClient \<Rightarrow> string \<Rightarrow> (string, string) gomap" where
  "request_header c authHeader =
     (let h = mput ''Convex-Client'' (hc_clientID c) (mput ''Content-Type'' ''application/json'' [])
      in if authHeader \<noteq> [] then mput ''Authorization'' authHeader h else h)"

definition doAuthenticatedRequest ::
  "'s http_env \<Rightarrow> string \<Rightarrow> json option \<Rightarrow> bool \<Rightarrow> HTTPClient \<Rightarrow> 's \<Rightarrow> (http_response res \<times> bool) \<times> 's" where
  "doAuthenticatedRequest env endpoint body forceRefresh c s =
     (case he_NewRequest env endpoint of
        Some e \<Rightarrow> ((Inl e, False), s)
      | None \<Rightarrow>
          (case authHeaderValue env forceRefresh c s of
             (Inl e, usedCallback, s) \<Rightarrow> ((Inl e, usedCallback), s)
           | (Inr authHeader, usedCallback, s) \<Rightarrow>
               (case he_Do env \<lparr>hq_URL = endpoint, hq_Header = request_header c authHeader, hq_Body = body\<rparr> s of
                  (r, s) \<Rightarrow> ((r, usedCallback), s))))"

definition doRequestWithAuthRetry ::
  "'s http_env \<Rightarrow> string \<Rightarrow> json option \<Rightarrow> HTTPClient \<Rightarrow> 's \<Rightarrow> http_response res \<times> 's" where
  "doRequestWithAuthRetry env endpoint body c s =
     (case doAuthenticatedRequest env endpoint body False c s of
        ((Inl e, _), s) \<Rightarrow> (Inl e, s)
      | ((Inr resp, usedCallback), s) \<Rightarrow>
          if \<not> usedCallback \<or> (hp_StatusCode resp \<noteq> 401 \<and> hp_StatusCode resp \<noteq> 403) then (Inr resp, s)
          else (case doAuthenticatedRequest env endpoint body True (meanwhile env s c) s of ((r, _), s) \<Rightarrow> (r, s)))"

section \<open>Responses\<close>

text \<open>
  The errors of a call: a Go error of another kind, or a \<open>FunctionError\<close>.
\<close>

datatype call_error = PlainError error | FunctionFailed FunctionError

record functionResponse =
  fr_Status :: string
  fr_Value :: "json option"
  fr_ErrorMessage :: string
  fr_ErrorData :: "json option"
  fr_LogLines :: "string list"

text \<open>
  \<open>json.Unmarshal\<close> into a struct takes the members of an object in their order, and finds
  the field for a key exactly or else without regard to case; a member without a field is
  skipped, and null leaves a field of a basic type as it is.
\<close>

fun fold_name :: "string \<Rightarrow> string" where
  "fold_name [] = []"
| "fold_name (c # cs) =
     (if c = CHR 0xC5 \<and> take 1 cs = [CHR 0xBF] then CHR ''s'' # fold_name (drop 1 cs)
      else if c = CHR 0xE2 \<and> take 2 cs = [CHR 0x84, CHR 0xAA] then CHR ''k'' # fold_name (drop 2 cs)
      else to_lower c # fold_name cs)"

definition field_for :: "string list \<Rightarrow> string \<Rightarrow> string option" where
  "field_for names k =
     (if k \<in> set names then Some k else find (\<lambda>f. fold_name f = fold_name k) names)"

definition um_keep :: "(json \<Rightarrow> 'a res) \<Rightarrow> 'a \<Rightarrow> json \<Rightarrow> 'a res" where
  "um_keep um old j = (if j = JNull then Inr old else um j)"

definition um_lines :: "string list \<Rightarrow> json \<Rightarrow> string list res" where
  "um_lines old j =
     (case j of
        JNull \<Rightarrow> Inr []
      | JArr js \<Rightarrow> rmap (\<lambda>(i, j). um_keep um_string (if i < length old then old ! i else []) j) (enumerate 0 js)
      | _ \<Rightarrow> Inl json_error)"

definition functionResponse_member :: "functionResponse \<Rightarrow> string \<times> json \<Rightarrow> functionResponse res" where
  "functionResponse_member r m =
     (case field_for [''status'', ''value'', ''errorMessage'', ''errorData'', ''logLines''] (fst m) of
        None \<Rightarrow> Inr r
      | Some f \<Rightarrow>
          if f = ''status'' then rbind (um_keep um_string (fr_Status r) (snd m)) (\<lambda>x. Inr (r\<lparr>fr_Status := x\<rparr>))
          else if f = ''value'' then Inr (r\<lparr>fr_Value := Some (snd m)\<rparr>)
          else if f = ''errorMessage''
            then rbind (um_keep um_string (fr_ErrorMessage r) (snd m)) (\<lambda>x. Inr (r\<lparr>fr_ErrorMessage := x\<rparr>))
          else if f = ''errorData'' then Inr (r\<lparr>fr_ErrorData := Some (snd m)\<rparr>)
          else rbind (um_lines (fr_LogLines r) (snd m)) (\<lambda>x. Inr (r\<lparr>fr_LogLines := x\<rparr>)))"

fun rfold :: "('b \<Rightarrow> 'a \<Rightarrow> 'e + 'b) \<Rightarrow> 'a list \<Rightarrow> 'b \<Rightarrow> 'e + 'b" where
  "rfold f [] y = Inr y"
| "rfold f (x # xs) y = rbind (f y x) (rfold f xs)"

fun um_struct :: "('b \<Rightarrow> string \<times> json \<Rightarrow> 'b res) \<Rightarrow> 'b \<Rightarrow> json option \<Rightarrow> 'b res" where
  "um_struct member zero (Some JNull) = Inr zero"
| "um_struct member zero (Some (JObj ms)) = rfold member ms zero"
| "um_struct member zero _ = Inl json_error"

definition functionResponse_Unmarshal :: "json option \<Rightarrow> functionResponse res" where
  "functionResponse_Unmarshal =
     um_struct functionResponse_member
       \<lparr>fr_Status = [], fr_Value = None, fr_ErrorMessage = [], fr_ErrorData = None, fr_LogLines = []\<rparr>"

definition timestampResponse_Unmarshal :: "json option \<Rightarrow> string res" where
  "timestampResponse_Unmarshal =
     um_struct (\<lambda>ts m. if field_for [''ts''] (fst m) = None then Inr ts else um_keep um_string ts (snd m)) []"

text \<open>\<open>ParseValueJSON\<close> of a raw message, which is empty when the member is missing.\<close>

definition parse_raw :: "json option \<Rightarrow> Value res" where
  "parse_raw msg = (case msg of None \<Rightarrow> Inl json_error | Some j \<Rightarrow> ParseValueJSON j)"

definition statusCodeUDFFailed :: int where
  "statusCodeUDFFailed = 560"

abbreviation plain :: "'a res \<Rightarrow> call_error + 'a" where
  "plain r \<equiv> rerr PlainError r"

definition is_2xx :: "int \<Rightarrow> bool" where
  "is_2xx status \<longleftrightarrow> 200 \<le> status \<and> status < 300"

text \<open>The part of \<open>doFunctionRequest\<close> that follows the request.\<close>

definition function_outcome :: "FunctionKind \<Rightarrow> string \<Rightarrow> int \<Rightarrow> http_body \<Rightarrow> call_error + Value" where
  "function_outcome kind path status body =
     (if \<not> is_2xx status \<and> status \<noteq> statusCodeUDFFailed
      then Inl (PlainError (AppError (HTTPError status (TrimSpace (bd_text body)))))
      else
        rbind (plain (rerr (Wrapped (AppError DecodeResponse)) (functionResponse_Unmarshal (bd_json body)))) (\<lambda>decoded.
        if fr_Status decoded = ''success'' then plain (parse_raw (fr_Value decoded))
        else if fr_Status decoded = ''error'' then
          let functionErr = zero_FunctionError\<lparr>feKind := kind, fePath := path, feMessage := fr_ErrorMessage decoded,
                feLogLines := fr_LogLines decoded, feStatusCode := status, feRawResponse := bd_text body\<rparr>
          in (case fr_ErrorData decoded of
                None \<Rightarrow> Inl (FunctionFailed functionErr)
              | Some msg \<Rightarrow>
                  rbind (plain (rerr (Wrapped (AppError DecodeErrorData)) (ParseValueJSON msg))) (\<lambda>data.
                  Inl (FunctionFailed (functionErr\<lparr>feDataValue := data, feData := GoValue data,
                    feConvex := Some \<lparr>Message = fr_ErrorMessage decoded, Data = data\<rparr>, feHasData := True\<rparr>))))
        else Inl (PlainError (AppError (InvalidStatus (fr_Status decoded))))))"

definition doFunctionRequest ::
  "'s http_env \<Rightarrow> FunctionKind \<Rightarrow> string \<Rightarrow> string \<Rightarrow> json \<Rightarrow> HTTPClient \<Rightarrow> 's \<Rightarrow> (call_error + Value) \<times> 's" where
  "doFunctionRequest env kind path endpoint body c s =
     (case doRequestWithAuthRetry env endpoint (Some body) c s of
        (Inl e, s) \<Rightarrow> (Inl (PlainError e), s)
      | (Inr resp, s) \<Rightarrow>
          (rbind (plain (hp_Body resp)) (function_outcome kind path (hp_StatusCode resp)), s))"

section \<open>Calls\<close>

text \<open>The documents \<open>json.Marshal\<close> makes of a \<open>functionRequest\<close>, of the map of a query at a timestamp, and of an \<open>anyFunctionRequest\<close>.\<close>

definition functionRequest :: "string \<Rightarrow> json \<Rightarrow> json" where
  "functionRequest path args =
     JObj [(''path'', ms_string path), (''format'', ms_string ''convex_encoded_json''), (''args'', JArr [args])]"

definition timestampRequest :: "string \<Rightarrow> json \<Rightarrow> string \<Rightarrow> json" where
  "timestampRequest path args ts =
     JObj [(''args'', JArr [args]), (''format'', ms_string ''convex_encoded_json''), (''path'', ms_string path),
           (''ts'', ms_string ts)]"

definition anyFunctionRequest :: "string \<Rightarrow> string \<Rightarrow> json \<Rightarrow> json" where
  "anyFunctionRequest componentPath path args =
     JObj ((if componentPath = [] then [] else [(''componentPath'', ms_string componentPath)]) @
       [(''path'', ms_string path), (''format'', ms_string ''convex_encoded_json''), (''args'', args)])"

text \<open>The checks and the encoding that precede the request.\<close>

definition encode_call :: "string \<Rightarrow> gval \<Rightarrow> json res" where
  "encode_call path args =
     (if TrimSpace path = [] then Inl (AppError EmptyFunctionPath)
      else rbind (encodeArgs args) json_Marshal)"

definition call ::
  "'s http_env \<Rightarrow> FunctionKind \<Rightarrow> string \<Rightarrow> gval \<Rightarrow> string \<Rightarrow> HTTPClient \<Rightarrow> 's \<Rightarrow> (call_error + Value) \<times> 's" where
  "call env kind path args timestamp c s =
     (case encode_call path args of
        Inl e \<Rightarrow> (Inl (PlainError e), s)
      | Inr encodedArgs \<Rightarrow>
          if kind = QueryKind \<and> timestamp \<noteq> []
          then doFunctionRequest env kind path (hc_address c @ ''/api/query_at_ts'')
                 (timestampRequest path encodedArgs timestamp) c s
          else doFunctionRequest env kind path (hc_address c @ ''/api/'' @ kind) (functionRequest path encodedArgs) c s)"

definition callAnyFunction ::
  "'s http_env \<Rightarrow> string \<Rightarrow> gval \<Rightarrow> string \<Rightarrow> HTTPClient \<Rightarrow> 's \<Rightarrow> (call_error + Value) \<times> 's" where
  "callAnyFunction env path args componentPath c s =
     (case encode_call path args of
        Inl e \<Rightarrow> (Inl (PlainError e), s)
      | Inr encodedArgs \<Rightarrow>
          doFunctionRequest env ''function'' path (hc_address c @ ''/api/function'')
            (anyFunctionRequest componentPath path encodedArgs) c s)"

definition HTTP_QueryValue :: "'s http_env \<Rightarrow> string \<Rightarrow> gval \<Rightarrow> HTTPClient \<Rightarrow> 's \<Rightarrow> (call_error + Value) \<times> 's" where
  "HTTP_QueryValue env path args = call env QueryKind path args []"

definition HTTP_ActionValue :: "'s http_env \<Rightarrow> string \<Rightarrow> gval \<Rightarrow> HTTPClient \<Rightarrow> 's \<Rightarrow> (call_error + Value) \<times> 's" where
  "HTTP_ActionValue env path args = call env ActionKind path args []"

definition HTTP_FunctionValue ::
  "'s http_env \<Rightarrow> string \<Rightarrow> gval \<Rightarrow> string \<Rightarrow> HTTPClient \<Rightarrow> 's \<Rightarrow> (call_error + Value) \<times> 's" where
  "HTTP_FunctionValue env path args componentPath = callAnyFunction env path args componentPath"

definition HTTP_GetTimestamp :: "'s http_env \<Rightarrow> HTTPClient \<Rightarrow> 's \<Rightarrow> string res \<times> 's" where
  "HTTP_GetTimestamp env c s =
     (case doRequestWithAuthRetry env (hc_address c @ ''/api/query_ts'') None c s of
        (Inl e, s) \<Rightarrow> (Inl e, s)
      | (Inr resp, s) \<Rightarrow>
          (rbind (hp_Body resp) (\<lambda>body.
             if \<not> is_2xx (hp_StatusCode resp)
             then Inl (AppError (HTTPError (hp_StatusCode resp) (TrimSpace (bd_text body))))
             else rerr (Wrapped (AppError DecodeTimestamp)) (timestampResponse_Unmarshal (bd_json body))), s))"

definition HTTP_QueryAtTimestamp ::
  "'s http_env \<Rightarrow> string \<Rightarrow> gval \<Rightarrow> string \<Rightarrow> HTTPClient \<Rightarrow> 's \<Rightarrow> (call_error + Value) \<times> 's" where
  "HTTP_QueryAtTimestamp env path args timestamp c s =
     (if TrimSpace timestamp = [] then (Inl (PlainError (AppError EmptyTimestamp)), s)
      else call env QueryKind path args timestamp c s)"

definition HTTP_ConsistentQuery :: "'s http_env \<Rightarrow> string \<Rightarrow> gval \<Rightarrow> HTTPClient \<Rightarrow> 's \<Rightarrow> (call_error + Value) \<times> 's" where
  "HTTP_ConsistentQuery env path args c s =
     (case HTTP_GetTimestamp env c s of
        (Inl e, s) \<Rightarrow> (Inl (PlainError e), s)
      | (Inr timestamp, s) \<Rightarrow> HTTP_QueryAtTimestamp env path args timestamp (meanwhile env s c) s)"

text \<open>The calls that return plain Go data.\<close>

definition go_result :: "(call_error + Value) \<times> 's \<Rightarrow> (call_error + gval) \<times> 's" where
  "go_result r = (rbind (fst r) (\<lambda>v. Inr (GoValue v)), snd r)"

definition HTTP_Query :: "'s http_env \<Rightarrow> string \<Rightarrow> gval \<Rightarrow> HTTPClient \<Rightarrow> 's \<Rightarrow> (call_error + gval) \<times> 's" where
  "HTTP_Query env path args c s = go_result (HTTP_QueryValue env path args c s)"

definition HTTP_Action :: "'s http_env \<Rightarrow> string \<Rightarrow> gval \<Rightarrow> HTTPClient \<Rightarrow> 's \<Rightarrow> (call_error + gval) \<times> 's" where
  "HTTP_Action env path args c s = go_result (HTTP_ActionValue env path args c s)"

definition HTTP_Function ::
  "'s http_env \<Rightarrow> string \<Rightarrow> gval \<Rightarrow> string \<Rightarrow> HTTPClient \<Rightarrow> 's \<Rightarrow> (call_error + gval) \<times> 's" where
  "HTTP_Function env path args componentPath c s = go_result (HTTP_FunctionValue env path args componentPath c s)"

section \<open>Mutations\<close>

text \<open>
  Where a call of \<open>MutationValue\<close> stands: waiting for its turn, or sending with or
  without a turn; it returns after the request, and the deferred release gives its turn
  back on every way out. \<open>acquireMutationTurn\<close> fails at once, or waits.
\<close>

definition acquireMutationTurn :: "ctx_error option \<Rightarrow> HTTPClient \<Rightarrow> turn_queue res" where
  "acquireMutationTurn cancelled c =
     (case cancelled of
        Some e \<Rightarrow> Inl (CtxError e)
      | None \<Rightarrow>
          (case hc_mutationQueue c of
             None \<Rightarrow> Inl (AppError UninitializedClient)
           | Some q \<Rightarrow> if tq_cap q = 0 then Inl (AppError UnreadyQueue) else Inr q))"

type_synonym mutationOptions = "bool option list"

text \<open>A nil option is \<open>None\<close>; the only option there is, \<open>WithSkipMutationQueue\<close>, sets the flag.\<close>

definition mutationOptionsFrom :: "mutationOptions \<Rightarrow> bool" where
  "mutationOptionsFrom opts = fold (\<lambda>opt skipQueue. case opt of None \<Rightarrow> skipQueue | Some b \<Rightarrow> b) opts False"

text \<open>
  \<open>MutationValue\<close>: \<open>cancelled\<close> says whether the context is done when it starts, and
  \<open>turn\<close> whether it is done before a turn comes.
\<close>

definition HTTP_MutationValue ::
  "'s http_env \<Rightarrow> ctx_error option \<Rightarrow> ctx_error option \<Rightarrow> string \<Rightarrow> gval \<Rightarrow> mutationOptions \<Rightarrow> HTTPClient \<Rightarrow> 's \<Rightarrow>
   (call_error + Value) \<times> 's" where
  "HTTP_MutationValue env cancelled turn path args opts c s =
     (if mutationOptionsFrom opts then call env MutationKind path args [] c s
      else case acquireMutationTurn cancelled c of
        Inl e \<Rightarrow> (Inl (PlainError e), s)
      | Inr q \<Rightarrow>
          (case turn of
             Some e \<Rightarrow> (Inl (PlainError (CtxError e)), s)
           | None \<Rightarrow> call env MutationKind path args [] c s))"

definition HTTP_Mutation ::
  "'s http_env \<Rightarrow> ctx_error option \<Rightarrow> ctx_error option \<Rightarrow> string \<Rightarrow> gval \<Rightarrow> mutationOptions \<Rightarrow> HTTPClient \<Rightarrow> 's \<Rightarrow>
   (call_error + gval) \<times> 's" where
  "HTTP_Mutation env cancelled turn path args opts c s =
     go_result (HTTP_MutationValue env cancelled turn path args opts c s)"

text \<open>
  Concurrent calls: how many wait for a turn, send with a turn, and send without one. A
  turn is taken from the channel, and put back when the call returns, which would wait if
  the channel were full.
\<close>

record turns =
  tn_client :: HTTPClient
  tn_waiting :: nat
  tn_holding :: nat
  tn_direct :: nat

abbreviation set_queue :: "turn_queue \<Rightarrow> turns \<Rightarrow> turns" where
  "set_queue q t \<equiv> t\<lparr>tn_client := (tn_client t)\<lparr>hc_mutationQueue := Some q\<rparr>\<rparr>"

inductive turn_step :: "turns \<Rightarrow> turns \<Rightarrow> bool" where
  enter: "acquireMutationTurn None (tn_client t) = Inr q \<Longrightarrow> turn_step t (t\<lparr>tn_waiting := tn_waiting t + 1\<rparr>)"
| skip: "turn_step t (t\<lparr>tn_direct := tn_direct t + 1\<rparr>)"
| take_turn: "tn_waiting t = Suc n \<Longrightarrow> hc_mutationQueue (tn_client t) = Some q \<Longrightarrow> tq_len q = Suc k \<Longrightarrow>
    turn_step t ((set_queue (q\<lparr>tq_len := k\<rparr>) t)\<lparr>tn_waiting := n, tn_holding := tn_holding t + 1\<rparr>)"
| give_up: "tn_waiting t = Suc n \<Longrightarrow> turn_step t (t\<lparr>tn_waiting := n\<rparr>)"
| release: "tn_holding t = Suc n \<Longrightarrow> hc_mutationQueue (tn_client t) = Some q \<Longrightarrow> tq_len q < tq_cap q \<Longrightarrow>
    turn_step t ((set_queue (q\<lparr>tq_len := tq_len q + 1\<rparr>) t)\<lparr>tn_holding := n\<rparr>)"
| done_direct: "tn_direct t = Suc n \<Longrightarrow> turn_step t (t\<lparr>tn_direct := n\<rparr>)"

end
