(* ===== verification/Http_Properties.thy ===== *)
theory Http_Properties
  imports Http_Client
begin

text \<open>
  The properties of the HTTP client: what a call sends and returns, when it is repeated
  with a fresh token, and that queued mutations take turns.
\<close>

section \<open>Turns\<close>

text \<open>There is one turn: it is in the channel, or one call holds it.\<close>

definition turn_inv :: "turns \<Rightarrow> bool" where
  "turn_inv t \<longleftrightarrow> (\<exists>q. hc_mutationQueue (tn_client t) = Some q \<and> tq_cap q = 1 \<and> tq_len q + tn_holding t = 1)"

definition new_turns :: "HTTPClient \<Rightarrow> turns" where
  "new_turns c = \<lparr>tn_client = c\<lparr>hc_mutationQueue := Some newReadyMutationQueue\<rparr>, tn_waiting = 0, tn_holding = 0, tn_direct = 0\<rparr>"

lemma turn_inv_step: "turn_step t u \<Longrightarrow> turn_inv t \<Longrightarrow> turn_inv u"
  by (induction rule: turn_step.induct) (auto simp: turn_inv_def)

interpretation turn: machine "\<lambda>t. t = new_turns c" turn_step turn_inv
proof unfold_locales
  fix t
  assume "t = new_turns c"
  then show "turn_inv t"
    by (simp add: turn_inv_def new_turns_def newReadyMutationQueue_def)
qed (rule turn_inv_step)

text \<open>
  C27: mutations of one client that use its queue are sent one at a time, whatever calls
  overlap and are given up: at most one holds the turn, giving the turn back never blocks,
  and while nobody holds it every waiting call can take it.
\<close>

theorem mutations_take_turns:
  assumes "turn_step\<^sup>*\<^sup>* (new_turns c) t"
  shows "tn_holding t \<le> 1 \<and>
    (tn_holding t = 1 \<longrightarrow> (\<exists>u. turn_step t u \<and> tn_holding u = 0 \<and> tn_waiting u = tn_waiting t)) \<and>
    (tn_holding t = 0 \<and> 0 < tn_waiting t \<longrightarrow> (\<exists>u. turn_step t u \<and> tn_holding u = 1 \<and> tn_waiting t = Suc (tn_waiting u)))"
proof -
  from turn.inv_reachable [OF refl assms] obtain q where q: "hc_mutationQueue (tn_client t) = Some q" "tq_cap q = 1"
      "tq_len q + tn_holding t = 1"
    by (auto simp: turn_inv_def)
  have "\<exists>u. turn_step t u \<and> tn_holding u = 0 \<and> tn_waiting u = tn_waiting t" if "tn_holding t = 1"
    using turn_step.release [of t 0 q] q that by fastforce
  moreover have "\<exists>u. turn_step t u \<and> tn_holding u = 1 \<and> tn_waiting t = Suc (tn_waiting u)"
    if "tn_holding t = 0" "0 < tn_waiting t"
    using turn_step.take_turn [of t _ q 0] q that by (cases "tn_waiting t") fastforce+
  ultimately show ?thesis
    using q(3) by auto
qed

definition example_client :: HTTPClient where
  "example_client =
     \<lparr>hc_address = ''https://happy-animal-123.convex.cloud'', hc_clientID = ''go-0.1.0'', hc_skipDeploymentURLCheck = False,
      hc_mutationQueue = Some newReadyMutationQueue, hc_auth = [], hc_adminAuth = [], hc_authCallback = None\<rparr>"

theorem mutations_take_turns_witness:
  "\<exists>t u. turn_step\<^sup>*\<^sup>* (new_turns example_client) t \<and> tn_waiting t = 1 \<and> turn_step t u \<and> tn_holding u = 1"
proof -
  let ?t = "(new_turns example_client)\<lparr>tn_waiting := 1\<rparr>"
  have "acquireMutationTurn None (tn_client (new_turns example_client)) = Inr newReadyMutationQueue"
    by (simp add: acquireMutationTurn_def new_turns_def newReadyMutationQueue_def)
  from turn_step.enter [OF this] have "turn_step\<^sup>*\<^sup>* (new_turns example_client) ?t"
    by (simp add: new_turns_def)
  from mutations_take_turns [OF this] this show ?thesis
    by (fastforce simp: new_turns_def)
qed

section \<open>Requests\<close>

text \<open>The environment with a record of what happens in it.\<close>

datatype http_event = Fetched nat bool "string res" | Sent http_request "http_response res"

definition logged :: "'s http_env \<Rightarrow> (http_event list \<times> 's) http_env" where
  "logged env =
     \<lparr>he_NewRequest = he_NewRequest env,
      he_Do = (\<lambda>q (log, s). case he_Do env q s of (r, s') \<Rightarrow> (r, log @ [Sent q r], s')),
      he_fetch = (\<lambda>cb force (log, s). case he_fetch env cb force s of (r, s') \<Rightarrow> (r, log @ [Fetched cb force r], s')),
      he_credentials = (\<lambda>(log, s). he_credentials env s)\<rparr>"

text \<open>The request that carries a token of the callback.\<close>

definition bearer :: "string \<Rightarrow> string" where
  "bearer token = (if token = [] then [] else ''Bearer '' @ token)"

definition request_of :: "HTTPClient \<Rightarrow> string \<Rightarrow> json option \<Rightarrow> string \<Rightarrow> http_request" where
  "request_of c endpoint body authHeader =
     \<lparr>hq_URL = endpoint, hq_Header = request_header c authHeader, hq_Body = body\<rparr>"

fun rejected :: "http_response res \<Rightarrow> bool" where
  "rejected (Inl e) = False"
| "rejected (Inr resp) = (hp_StatusCode resp = 401 \<or> hp_StatusCode resp = 403)"

text \<open>The header of a client without a callback.\<close>

definition static_header :: "HTTPClient \<Rightarrow> string" where
  "static_header c =
     (if hc_adminAuth c \<noteq> [] then ''Convex '' @ hc_adminAuth c
      else if hc_auth c \<noteq> [] then ''Bearer '' @ hc_auth c else [])"

text \<open>
  One attempt: without a callback the request with the static token; with one a call of it,
  and if it returns a token the request with this token.
\<close>

inductive attempt ::
  "'s http_env \<Rightarrow> string \<Rightarrow> json option \<Rightarrow> bool \<Rightarrow> HTTPClient \<Rightarrow> 's \<Rightarrow> http_event list \<Rightarrow> http_response res \<Rightarrow> 's \<Rightarrow> bool"
  for env endpoint body force c s where
  static: "hc_authCallback c = None \<Longrightarrow> he_Do env (request_of c endpoint body (static_header c)) s = (r, s') \<Longrightarrow>
    attempt env endpoint body force c s [Sent (request_of c endpoint body (static_header c)) r] r s'"
| no_token: "hc_authCallback c = Some cb \<Longrightarrow> he_fetch env cb force s = (Inl e, s') \<Longrightarrow>
    attempt env endpoint body force c s [Fetched cb force (Inl e)] (Inl e) s'"
| sent: "hc_authCallback c = Some cb \<Longrightarrow> he_fetch env cb force s = (Inr token, s1) \<Longrightarrow>
    he_Do env (request_of c endpoint body (bearer token)) s1 = (r, s') \<Longrightarrow>
    attempt env endpoint body force c s
      [Fetched cb force (Inr token), Sent (request_of c endpoint body (bearer token)) r] r s'"

lemma attempt_logged:
  assumes "he_NewRequest env endpoint = None"
  shows "\<exists>events r s'.
    doAuthenticatedRequest (logged env) endpoint body force c (log, s) = ((r, hc_authCallback c \<noteq> None), log @ events, s') \<and>
    attempt env endpoint body force c s events r s'"
proof (cases "hc_authCallback c")
  case None
  obtain r s' where r: "he_Do env (request_of c endpoint body (static_header c)) s = (r, s')"
    by fastforce
  from attempt.static [OF None r] r None assms show ?thesis
    by (fastforce simp: doAuthenticatedRequest_def authHeaderValue_def logged_def request_of_def static_header_def)
next
  case (Some cb)
  obtain fetched s1 where f: "he_fetch env cb force s = (fetched, s1)"
    by fastforce
  show ?thesis
  proof (cases fetched)
    case (Inl e)
    with f Some assms attempt.no_token [OF Some] show ?thesis
      by (fastforce simp: doAuthenticatedRequest_def authHeaderValue_def logged_def)
  next
    case (Inr token)
    obtain r s' where r: "he_Do env (request_of c endpoint body (bearer token)) s1 = (r, s')"
      by fastforce
    from attempt.sent [OF Some _ r] f Inr r Some assms show ?thesis
      by (fastforce simp: doAuthenticatedRequest_def authHeaderValue_def logged_def request_of_def bearer_def)
  qed
qed

text \<open>
  C5: a request is attempted once, with the static token of the client or, if it has a
  callback, with the token the callback returns; it is attempted again exactly when the
  callback was used and the server answered 401 or 403, and then exactly once: with the
  credentials the client has by then, and if these still have a callback with the fresh
  token that the callback is asked for. The result is that of the last attempt; an URL that
  is not one makes no attempt.
\<close>

theorem retried_once_with_fresh_token:
  "case he_NewRequest env endpoint of
     Some e \<Rightarrow> doRequestWithAuthRetry (logged env) endpoint body c ([], s) = (Inl e, [], s)
   | None \<Rightarrow>
       (\<exists>first r1 s1. attempt env endpoint body False c s first r1 s1 \<and>
          (if hc_authCallback c \<noteq> None \<and> rejected r1
           then \<exists>second r2 s2. attempt env endpoint body True (meanwhile env s1 c) s1 second r2 s2 \<and>
             doRequestWithAuthRetry (logged env) endpoint body c ([], s) = (r2, first @ second, s2)
           else doRequestWithAuthRetry (logged env) endpoint body c ([], s) = (r1, first, s1)))"
proof (cases "he_NewRequest env endpoint")
  case (Some e)
  then show ?thesis
    by (simp add: doRequestWithAuthRetry_def doAuthenticatedRequest_def logged_def)
next
  case None
  obtain first r1 s1 where one: "attempt env endpoint body False c s first r1 s1"
    "doAuthenticatedRequest (logged env) endpoint body False c ([], s) = ((r1, hc_authCallback c \<noteq> None), first, s1)"
    using attempt_logged [OF None, of body False c "[]" s] by auto
  obtain second r2 s2 where two: "attempt env endpoint body True (meanwhile env s1 c) s1 second r2 s2"
    "\<exists>used. doAuthenticatedRequest (logged env) endpoint body True (meanwhile env s1 c) (first, s1) = ((r2, used), first @ second, s2)"
    using attempt_logged [OF None, of body True "meanwhile env s1 c" first s1] by blast
  have m: "meanwhile (logged env) (first, s1) c = meanwhile env s1 c"
    by (simp add: meanwhile_def logged_def)
  show ?thesis
  proof (cases "hc_authCallback c \<noteq> None \<and> rejected r1")
    case True
    then have "doRequestWithAuthRetry (logged env) endpoint body c ([], s) = (r2, first @ second, s2)"
      using two(2) by (cases r1) (auto simp: doRequestWithAuthRetry_def one(2) m)
    with True None one(1) two(1) show ?thesis
      by auto
  next
    case False
    then have "doRequestWithAuthRetry (logged env) endpoint body c ([], s) = (r1, first, s1)"
      by (cases r1) (auto simp: doRequestWithAuthRetry_def one(2))
    with False None one(1) show ?thesis
      by auto
  qed
qed

text \<open>A server that rejects every token but a fresh one.\<close>

definition stale_env :: "unit http_env" where
  "stale_env =
     \<lparr>he_NewRequest = (\<lambda>_. None),
      he_Do = (\<lambda>q _. (Inr \<lparr>hp_StatusCode = (if mget (hq_Header q) ''Authorization'' = Some ''Bearer new'' then 200 else 401),
        hp_Body = Inr \<lparr>bd_text = [], bd_json = None\<rparr>\<rparr>, ())),
      he_fetch = (\<lambda>_ force _. (Inr (if force then ''new'' else ''old''), ())),
      he_credentials = (\<lambda>_. None)\<rparr>"

lemma stale_attempt:
  assumes "attempt stale_env ''u'' None force (example_client\<lparr>hc_authCallback := Some 0\<rparr>) () events r s'"
  shows "length events = 2 \<and> (\<exists>resp. r = Inr resp \<and> hp_StatusCode resp = (if force then 200 else 401))"
  using assms by cases (auto simp: stale_env_def request_of_def request_header_def bearer_def)

theorem retried_once_with_fresh_token_witness:
  "\<exists>resp events s'. doRequestWithAuthRetry (logged stale_env) ''u'' None (example_client\<lparr>hc_authCallback := Some 0\<rparr>) ([], ()) =
     (Inr resp, events, s') \<and> hp_StatusCode resp = 200 \<and> length events = 4"
proof -
  let ?c = "example_client\<lparr>hc_authCallback := Some 0\<rparr>"
  have n: "he_NewRequest stale_env ''u'' = None" and m: "meanwhile stale_env s c = c" for s c
    by (simp_all add: stale_env_def meanwhile_def)
  obtain first r1 s1 where one: "attempt stale_env ''u'' None False ?c () first r1 s1" and
    "if rejected r1 then \<exists>second r2 s2. attempt stale_env ''u'' None True ?c s1 second r2 s2 \<and>
         doRequestWithAuthRetry (logged stale_env) ''u'' None ?c ([], ()) = (r2, first @ second, s2)
     else doRequestWithAuthRetry (logged stale_env) ''u'' None ?c ([], ()) = (r1, first, s1)"
    using retried_once_with_fresh_token [of stale_env "''u''" None ?c "()"] unfolding n m by auto
  moreover from stale_attempt [OF one] have "rejected r1" "length first = 2"
    by auto
  ultimately obtain second r2 s2 where two: "attempt stale_env ''u'' None True ?c () second r2 s2"
    "doRequestWithAuthRetry (logged stale_env) ''u'' None ?c ([], ()) = (r2, first @ second, s2)"
    by auto
  from stale_attempt [OF two(1)] two(2) \<open>length first = 2\<close> show ?thesis
    by auto
qed

section \<open>Calls\<close>

lemma request_static:
  assumes "he_NewRequest env endpoint = None" and "hc_authCallback c = None"
  shows "doRequestWithAuthRetry env endpoint body c s = he_Do env (request_of c endpoint body (static_header c)) s"
proof -
  obtain r s' where "he_Do env (request_of c endpoint body (static_header c)) s = (r, s')"
    by fastforce
  with assms show ?thesis
    by (cases r) (simp_all add: doRequestWithAuthRetry_def doAuthenticatedRequest_def authHeaderValue_def request_of_def
        static_header_def)
qed

lemma encode_call_arg:
  assumes "syncQueryArgValue args = Inr a" and "TrimSpace path \<noteq> []"
  obtains j where "encode_call path args = Inr j" "ParseValueJSON j = Inr a"
  using assms that by (auto simp: encode_call_def syncQueryArgValue_def valueFromWireJSON_def res_simps)

text \<open>
  A deployment that runs the function \<open>f\<close>: it takes path and argument from the body of a
  request to the given endpoint, and answers with the value of the function.
\<close>

definition success_body :: "string \<Rightarrow> json \<Rightarrow> http_body" where
  "success_body t j = \<lparr>bd_text = t, bd_json = Some (JObj [(''status'', JStr ''success''), (''value'', j)])\<rparr>"

definition serves :: "'s http_env \<Rightarrow> string \<Rightarrow> (string \<Rightarrow> Value \<Rightarrow> Value) \<Rightarrow> bool" where
  "serves env endpoint f \<longleftrightarrow> he_NewRequest env endpoint = None \<and>
     (\<forall>q s p j a. hq_URL q = endpoint \<longrightarrow>
        hq_Body q = Some (JObj [(''path'', JStr p), (''format'', JStr ''convex_encoded_json''), (''args'', JArr [j])]) \<longrightarrow>
        ParseValueJSON j = Inr a \<longrightarrow>
        (\<exists>j' t s'. MarshalJSON (f p a) = Inr j' \<and>
           he_Do env q s = (Inr \<lparr>hp_StatusCode = 200, hp_Body = Inr (success_body t j')\<rparr>, s')))"

lemma fold_names [simp]:
  "field_for [''status'', ''value'', ''errorMessage'', ''errorData'', ''logLines''] ''status'' = Some ''status''"
  "field_for [''status'', ''value'', ''errorMessage'', ''errorData'', ''logLines''] ''value'' = Some ''value''"
  by (simp_all add: field_for_def)

lemma outcome_success:
  assumes "MarshalJSON v = Inr j" and "wf_value v" "text_ok v" and "is_2xx status"
  shows "function_outcome kind path status (success_body t j) = Inr v"
proof -
  have "ParseValueJSON j = Inr v"
    using value_doc.round_trip [of v] assms(1-3) by (auto simp: UnmarshalJSON_def)
  then show ?thesis
    using assms(4) by (simp add: function_outcome_def success_body_def functionResponse_Unmarshal_def
        functionResponse_member_def um_keep_def parse_raw_def)
qed

lemma call_returns:
  assumes "serves env (hc_address c @ ''/api/'' @ kind) f" and "hc_authCallback c = None"
    and "syncQueryArgValue args = Inr a" and "TrimSpace path \<noteq> []"
    and "wf_value (f (utf8_sanitize path) a)" and "text_ok (f (utf8_sanitize path) a)"
  shows "\<exists>s'. call env kind path args [] c s = (Inr (f (utf8_sanitize path) a), s')"
proof -
  obtain j where j: "encode_call path args = Inr j" "ParseValueJSON j = Inr a"
    using assms(3,4) by (rule encode_call_arg)
  let ?q = "request_of c (hc_address c @ ''/api/'' @ kind) (Some (functionRequest path j)) (static_header c)"
  have format: "utf8_sanitize ''convex_encoded_json'' = ''convex_encoded_json''"
    by (rule valid_utf8_sanitize, rule valid_utf8_ascii) auto
  have "hq_URL ?q = hc_address c @ ''/api/'' @ kind" "hq_Body ?q = Some (JObj [(''path'', JStr (utf8_sanitize path)),
      (''format'', JStr ''convex_encoded_json''), (''args'', JArr [j])])"
    by (simp_all add: request_of_def functionRequest_def ms_string_def format)
  with assms(1) j(2) obtain j' t s' where "MarshalJSON (f (utf8_sanitize path) a) = Inr j'"
      "he_Do env ?q s = (Inr \<lparr>hp_StatusCode = 200, hp_Body = Inr (success_body t j')\<rparr>, s')"
    unfolding serves_def by blast
  moreover have "he_NewRequest env (hc_address c @ ''/api/'' @ kind) = None"
    using assms(1) by (simp add: serves_def)
  ultimately show ?thesis
    using assms(2,5,6) j(1)
    by (simp add: call_def doFunctionRequest_def request_static outcome_success is_2xx_def)
qed

text \<open>
  C13: a call reaches the function and comes back: whatever function the deployment runs, a
  query or an action with arguments that denote a Convex value returns the value of the
  function at that argument, through the encoding of the arguments, the request with its
  static token, the answer and its decoding.
\<close>

theorem call_end_to_end:
  assumes "serves env (hc_address c @ ''/api/'' @ kind) f" and "hc_authCallback c = None"
    and "syncQueryArgValue args = Inr a" and "TrimSpace path \<noteq> []"
    and "wf_value (f (utf8_sanitize path) a)" and "text_ok (f (utf8_sanitize path) a)"
  shows "\<exists>s'. call env kind path args [] c s = (Inr (f (utf8_sanitize path) a), s')"
  using assms by (rule call_returns)

text \<open>A deployment whose only function returns true.\<close>

definition yes_env :: "unit http_env" where
  "yes_env =
     \<lparr>he_NewRequest = (\<lambda>_. None),
      he_Do = (\<lambda>q _. (Inr \<lparr>hp_StatusCode = 200, hp_Body = Inr (success_body ''{...}'' (JBool True))\<rparr>, ())),
      he_fetch = (\<lambda>_ _ _. (Inl json_error, ())), he_credentials = (\<lambda>_. None)\<rparr>"

theorem call_end_to_end_witness:
  "\<exists>s'. call yes_env QueryKind ''messages:list'' GInvalid [] (example_client\<lparr>hc_auth := ''t''\<rparr>) () = (Inr (VBoolean True), s')"
proof -
  have "serves yes_env (hc_address (example_client\<lparr>hc_auth := ''t''\<rparr>) @ ''/api/'' @ QueryKind) (\<lambda>_ _. VBoolean True)"
    by (auto simp: serves_def yes_env_def MarshalJSON_def)
  moreover have "syncQueryArgValue GInvalid = Inr (VObject [])"
    by code_simp
  moreover have "TrimSpace ''messages:list'' \<noteq> []"
    by code_simp
  ultimately show ?thesis
    using call_end_to_end [of yes_env "example_client\<lparr>hc_auth := ''t''\<rparr>" QueryKind "\<lambda>_ _. VBoolean True" GInvalid
      "VObject []" "''messages:list''" "()"] by (simp add: example_client_def)
qed

section \<open>Errors of functions\<close>

text \<open>
  an error of a function is never taken for a value or for a failure of the transport: a
  call returns a \<open>FunctionError\<close> only for a response with a status of the 200s or 560
  whose document says so; the error has the kind and path of the call and the status and
  text of the response, and it carries data exactly when the document has the member
  \<open>errorData\<close>, in which case it unwraps to a \<open>ConvexError\<close> with the same message and data.
\<close>

theorem function_error_faithful:
  assumes "function_outcome kind path status body = Inl (FunctionFailed e)"
  shows "(is_2xx status \<or> status = statusCodeUDFFailed) \<and>
    (\<exists>decoded. functionResponse_Unmarshal (bd_json body) = Inr decoded \<and> fr_Status decoded = ''error'' \<and>
       feKind e = kind \<and> fePath e = path \<and> feStatusCode e = status \<and> feRawResponse e = bd_text body \<and>
       feMessage e = fr_ErrorMessage decoded \<and> feLogLines e = fr_LogLines decoded \<and>
       (case fr_ErrorData decoded of
          None \<Rightarrow> \<not> feHasData e \<and> Unwrap e = None
        | Some j \<Rightarrow> feHasData e \<and> ParseValueJSON j = Inr (feDataValue e) \<and> feData e = GoValue (feDataValue e) \<and>
            Unwrap e = Some (ConvexErr \<lparr>Message = feMessage e, Data = feDataValue e\<rparr>)))"
proof (cases "functionResponse_Unmarshal (bd_json body)")
  case (Inl x)
  with assms show ?thesis
    by (simp add: function_outcome_def split: if_splits)
next
  case (Inr decoded)
  with assms show ?thesis
    by (auto simp: function_outcome_def Let_def res_simps zero_FunctionError_def Unwrap_def split: if_splits option.splits)
qed

theorem function_error_faithful_witness:
  "\<exists>e. function_outcome QueryKind ''messages:list'' 560
      \<lparr>bd_text = [], bd_json = Some (JObj [(''status'', JStr ''error''), (''errorData'', JNull)])\<rparr> = Inl (FunctionFailed e) \<and>
    feHasData e \<and> Unwrap e = Some (ConvexErr \<lparr>Message = [], Data = VNull\<rparr>)"
proof -
  let ?b = "\<lparr>bd_text = [], bd_json = Some (JObj [(''status'', JStr ''error''), (''errorData'', JNull)])\<rparr>"
  have u: "functionResponse_Unmarshal (bd_json ?b) = Inr \<lparr>fr_Status = ''error'', fr_Value = None, fr_ErrorMessage = [],
      fr_ErrorData = Some JNull, fr_LogLines = []\<rparr>"
    by (simp add: functionResponse_Unmarshal_def functionResponse_member_def field_for_def um_keep_def)
  then obtain e where e: "function_outcome QueryKind ''messages:list'' 560 ?b = Inl (FunctionFailed e)"
    by (simp add: function_outcome_def is_2xx_def statusCodeUDFFailed_def Let_def ParseValueJSON_def)
  from function_error_faithful [OF this] u show ?thesis
    by (auto simp: e ParseValueJSON_def)
qed

end
