(* ===== verification/Live_Client.thy ===== *)
theory Live_Client
  imports Sync_Api
begin

text \<open>
  The realtime client: \<open>subscription_client.go\<close>, \<open>subscription_handles.go\<close> and
  \<open>subscription_options.go\<close>. The struct \<open>WebSocketClient\<close> is a record over the running
  manager; the handles it gives out are numbered. Every section under one of its locks is
  a function, and the calls that are made of several sections are interleaved by a step
  relation.
\<close>

section \<open>Handles\<close>

text \<open>
  \<open>sb_sent\<close> and \<open>sb_received\<close> are not in the program: the last result put into the
  channel, and the last one that \<open>Next\<close> returned.
\<close>

record QuerySubscription =
  sb_id :: SubscriberID
  sb_updates :: "FunctionResult list"
  sb_closed :: bool
  sb_closedOK :: bool
  sb_unsubscribeQueued :: bool
  sb_closeErr :: "error option"
  sb_sent :: "FunctionResult option"
  sb_received :: "FunctionResult option"

record QuerySetSubscription =
  wt_updates :: "QueryResults list"
  wt_closed :: bool
  wt_sent :: "QueryResults option"
  wt_received :: "QueryResults option"

definition new_subscription :: "SubscriberID \<Rightarrow> QuerySubscription" where
  "new_subscription i =
     \<lparr>sb_id = i, sb_updates = [], sb_closed = False, sb_closedOK = False, sb_unsubscribeQueued = False,
      sb_closeErr = None, sb_sent = None, sb_received = None\<rparr>"

definition new_watcher :: QuerySetSubscription where
  "new_watcher = \<lparr>wt_updates = [], wt_closed = False, wt_sent = None, wt_received = None\<rparr>"

definition send_result :: "FunctionResult \<Rightarrow> QuerySubscription \<Rightarrow> QuerySubscription" where
  "send_result r b = b\<lparr>sb_updates := sendLatest 1 (sb_updates b) r, sb_sent := Some r\<rparr>"

definition send_results :: "QueryResults \<Rightarrow> QuerySetSubscription \<Rightarrow> QuerySetSubscription" where
  "send_results r w = w\<lparr>wt_updates := sendLatest 1 (wt_updates w) r, wt_sent := Some r\<rparr>"

section \<open>The client\<close>

text \<open>
  A context that a caller passes: its identity, and its error if it is done. The one of
  \<open>context.Background()\<close>, which also stands for nil, is never done.
\<close>

record Context =
  cx_id :: nat
  cx_err :: "ctx_error option"

definition context_Background :: Context where
  "context_Background = \<lparr>cx_id = 0, cx_err = None\<rparr>"

text \<open>
  A nil map is \<open>None\<close>. The context of the client is derived from one that was passed to
  \<open>NewWebSocketClient\<close>, with the identity \<open>ws_ctx\<close>; whether it is done is \<open>w_cancelled\<close> of the
  running manager. \<open>ws_panicked\<close> says that a goroutine has panicked, which ends the
  program.
\<close>

record WebSocketClient =
  ws_ctx :: nat
  ws_world :: world
  ws_done :: bool
  ws_runErr :: "error option"
  ws_subscriptions :: "(SubscriberID, nat) gomap option"
  ws_watchers :: "nat list option"
  ws_latest :: QueryResults
  ws_hasLatest :: bool
  ws_handles :: "QuerySubscription list"
  ws_sets :: "QuerySetSubscription list"
  ws_panicked :: bool

abbreviation ws_manager :: "WebSocketClient \<Rightarrow> Manager" where
  "ws_manager c \<equiv> w_mgr (ws_world c)"

abbreviation set_manager :: "Manager \<Rightarrow> WebSocketClient \<Rightarrow> WebSocketClient" where
  "set_manager m c \<equiv> c\<lparr>ws_world := (ws_world c)\<lparr>w_mgr := m\<rparr>\<rparr>"

definition no_results :: QueryResults where
  "no_results = \<lparr>qs_subscribers = [], qs_results = []\<rparr>"

text \<open>\<open>context.WithCancel\<close> of a context that is done is done from the start.\<close>

definition NewWebSocketClient :: "Context \<Rightarrow> Manager \<Rightarrow> WebSocketClient" where
  "NewWebSocketClient ctx m =
     \<lparr>ws_ctx = cx_id ctx, ws_world = (new_world m)\<lparr>w_cancelled := cx_err ctx\<rparr>, ws_done = False, ws_runErr = None, ws_subscriptions = Some [], ws_watchers = Some [],
      ws_latest = Manager_LatestResults m, ws_hasLatest = True, ws_handles = [], ws_sets = [], ws_panicked = False\<rparr>"

text \<open>The end of a context ends the context derived from it, unless that is done already.\<close>

definition end_context :: "nat \<Rightarrow> ctx_error \<Rightarrow> WebSocketClient \<Rightarrow> WebSocketClient" where
  "end_context n e c =
     (if ws_ctx c = n \<and> w_cancelled (ws_world c) = None
      then c\<lparr>ws_world := (ws_world c)\<lparr>w_cancelled := Some e\<rparr>\<rparr> else c)"

text \<open>\<open>errors.Is(err, context.Canceled)\<close>.\<close>

fun is_canceled :: "error \<Rightarrow> bool" where
  "is_canceled (CtxError e) = (e = Canceled)"
| "is_canceled (Wrapped a b) = is_canceled b"
| "is_canceled _ = False"

definition ws_doneErr :: "WebSocketClient \<Rightarrow> error option" where
  "ws_doneErr c =
     (if ws_done c
      then (case ws_runErr c of
              Some e \<Rightarrow> if \<not> is_canceled e then Some e else Some (CtxError Canceled)
            | None \<Rightarrow> Some (CtxError Canceled))
      else map_option CtxError (w_cancelled (ws_world c)))"

text \<open>What \<open>flush\<close> makes of the result of the manager's \<open>Flush\<close>.\<close>

definition ws_flush :: "error option \<Rightarrow> WebSocketClient \<Rightarrow> error option" where
  "ws_flush r c =
     (case r of
        None \<Rightarrow> None
      | Some e \<Rightarrow> if w_cancelled (ws_world c) \<noteq> None then ws_doneErr c else Some e)"

text \<open>The result of \<open>Close\<close> once \<open>done\<close> is closed.\<close>

definition ws_Close :: "WebSocketClient \<Rightarrow> error option" where
  "ws_Close c = (case ws_runErr c of None \<Rightarrow> None | Some e \<Rightarrow> if is_canceled e then None else Some e)"

section \<open>Sections under the lock\<close>

definition update_nth :: "('a \<Rightarrow> 'a) \<Rightarrow> nat \<Rightarrow> 'a list \<Rightarrow> 'a list" where
  "update_nth f n xs = (if n < length xs then xs[n := f (xs ! n)] else xs)"

abbreviation update_handle :: "(QuerySubscription \<Rightarrow> QuerySubscription) \<Rightarrow> nat \<Rightarrow> WebSocketClient \<Rightarrow> WebSocketClient" where
  "update_handle f h c \<equiv> c\<lparr>ws_handles := update_nth f h (ws_handles c)\<rparr>"

definition send_all :: "QueryResults \<Rightarrow> (SubscriberID, nat) gomap \<Rightarrow> QuerySubscription list \<Rightarrow> QuerySubscription list" where
  "send_all r m hs =
     fold (\<lambda>(i, h) hs. case QueryResults_Get r i of None \<Rightarrow> hs | Some x \<Rightarrow> update_nth (send_result x) h hs) m hs"

definition publishLatest :: "QueryResults \<Rightarrow> WebSocketClient \<Rightarrow> WebSocketClient" where
  "publishLatest r c =
     c\<lparr>ws_latest := r, ws_hasLatest := True,
       ws_handles := send_all r (case ws_subscriptions c of None \<Rightarrow> [] | Some m \<Rightarrow> m) (ws_handles c),
       ws_sets := fold (update_nth (send_results r)) (case ws_watchers c of None \<Rightarrow> [] | Some l \<Rightarrow> l) (ws_sets c)\<rparr>"

text \<open>
  The section of \<open>Subscribe\<close> that registers a new handle: a write to a nil map panics.
\<close>

definition register :: "SubscriberID \<Rightarrow> WebSocketClient \<Rightarrow> WebSocketClient" where
  "register i c =
     (let h = length (ws_handles c);
          c = c\<lparr>ws_handles := ws_handles c @ [new_subscription i]\<rparr>
      in case ws_subscriptions c of
           None \<Rightarrow> c\<lparr>ws_panicked := True\<rparr>
         | Some m \<Rightarrow>
             let c = c\<lparr>ws_subscriptions := Some (mput i h m)\<rparr>
             in if ws_hasLatest c
                then (case QueryResults_Get (ws_latest c) i of None \<Rightarrow> c | Some x \<Rightarrow> update_handle (send_result x) h c)
                else c)"

definition WatchAll :: "WebSocketClient \<Rightarrow> WebSocketClient" where
  "WatchAll c =
     (let w = length (ws_sets c);
          c = c\<lparr>ws_sets := ws_sets c @ [new_watcher]\<rparr>
      in case ws_watchers c of
           None \<Rightarrow> c\<lparr>ws_panicked := True\<rparr>
         | Some l \<Rightarrow>
             let c = c\<lparr>ws_watchers := Some (l @ [w])\<rparr>
             in if ws_hasLatest c then c\<lparr>ws_sets := update_nth (send_results (ws_latest c)) w (ws_sets c)\<rparr> else c)"

definition forget :: "SubscriberID \<Rightarrow> WebSocketClient \<Rightarrow> WebSocketClient" where
  "forget i c = c\<lparr>ws_subscriptions := map_option (mdel i) (ws_subscriptions c)\<rparr>"

definition unwatch :: "nat \<Rightarrow> WebSocketClient \<Rightarrow> WebSocketClient" where
  "unwatch w c =
     c\<lparr>ws_watchers := map_option (removeAll w) (ws_watchers c),
       ws_panicked := (ws_panicked c \<or> wt_closed (ws_sets c ! w)),
       ws_sets := update_nth (\<lambda>b. b\<lparr>wt_closed := True\<rparr>) w (ws_sets c)\<rparr>"

definition releaseRuntimeState :: "WebSocketClient \<Rightarrow> WebSocketClient" where
  "releaseRuntimeState c =
     c\<lparr>ws_subscriptions := None, ws_watchers := None, ws_latest := no_results, ws_hasLatest := False\<rparr>"

text \<open>The end of \<open>Unsubscribe\<close>: the handle is forgotten and closed; closing a closed channel panics.\<close>

definition close_handle :: "error option \<Rightarrow> nat \<Rightarrow> WebSocketClient \<Rightarrow> WebSocketClient" where
  "close_handle err h c =
     update_handle (\<lambda>b. b\<lparr>sb_closed := True, sb_closedOK := True, sb_closeErr := err\<rparr>) h
       ((forget (sb_id (ws_handles c ! h)) c)\<lparr>ws_panicked := (ws_panicked c \<or> sb_closed (ws_handles c ! h))\<rparr>)"

text \<open>
  What \<open>Next\<close> returns without waiting, if anything; \<open>cancelled\<close> is the error of its context.
\<close>

definition Next :: "ctx_error option \<Rightarrow> nat \<Rightarrow> WebSocketClient \<Rightarrow> FunctionResult res option" where
  "Next cancelled h c =
     (let b = ws_handles c ! h
      in case cancelled of
           Some e \<Rightarrow> Some (Inl (CtxError e))
         | None \<Rightarrow>
             if sb_closed b then Some (Inl (AppError SubscriptionClosed))
             else if ws_done c then map_option Inl (ws_doneErr c)
             else (case sb_updates b of [] \<Rightarrow> None | r # _ \<Rightarrow> Some (Inr r)))"

definition watch_Next :: "ctx_error option \<Rightarrow> nat \<Rightarrow> WebSocketClient \<Rightarrow> QueryResults res option" where
  "watch_Next cancelled w c =
     (let b = ws_sets c ! w
      in case cancelled of
           Some e \<Rightarrow> Some (Inl (CtxError e))
         | None \<Rightarrow>
             if wt_closed b then Some (Inl (AppError SubscriptionClosed))
             else if ws_done c then map_option Inl (ws_doneErr c)
             else (case wt_updates b of [] \<Rightarrow> None | r # _ \<Rightarrow> Some (Inr r)))"

definition functionResultError :: "FunctionKind \<Rightarrow> string \<Rightarrow> FunctionResult \<Rightarrow> result_error option" where
  "functionResultError kind path r =
     (case ConvexError_of r of
        Some e \<Rightarrow>
          Some (FunctionErr (zero_FunctionError\<lparr>feKind := kind, fePath := path, feMessage := Message e,
            feData := GoValue (Data e), feDataValue := Data e, feConvex := Some e, feHasData := True\<rparr>))
      | None \<Rightarrow>
          (case ErrorMessage r of
             Some msg \<Rightarrow> Some (FunctionErr (zero_FunctionError\<lparr>feKind := kind, fePath := path, feMessage := msg\<rparr>))
           | None \<Rightarrow> Err r))"

text \<open>
  \<open>QueryValue\<close> subscribes, waits for one result with \<open>Next\<close>, unsubscribes and returns what
  the result means.
\<close>

definition query_outcome :: "string \<Rightarrow> FunctionResult \<Rightarrow> result_error + Value" where
  "query_outcome path r =
     (case Err r of
        Some e \<Rightarrow> (case functionResultError QueryKind path r of Some e' \<Rightarrow> Inl e' | None \<Rightarrow> Inl e)
      | None \<Rightarrow> (case Value_of r of Some v \<Rightarrow> Inr v | None \<Rightarrow> Inr VNull))"

section \<open>Calls\<close>

text \<open>
  What a call does after it has published the current results: \<open>Subscribe\<close> flushes, and
  undoes its work if that fails; \<open>Unsubscribe\<close> flushes and closes the handle; a mutation or
  a change of authentication flushes and returns.
\<close>

datatype cont = AfterSubscribe nat | AfterUndo | AfterUnsubscribe nat | AfterOther

text \<open>Where a call stands, and the goroutine \<open>pumpResults\<close> with a snapshot it has taken.\<close>

datatype live_call =
    CSubscribe string gval
  | CRegister SubscriberID
  | CUndo SubscriberID
  | CMutation string gval "SyncMutationOption list"
  | CManagerPublish sending QueryResults
  | CWatch
  | CRead cont
  | CPublish QueryResults cont
  | CFlush cont
  | CWait nat cont
  | CPump QueryResults

text \<open>\<open>lv_tail\<close> is how far the goroutine \<open>run\<close> is after the manager's \<open>Run\<close> has returned.\<close>

record live =
  lv_ws :: WebSocketClient
  lv_calls :: "live_call list"
  lv_tail :: nat

abbreviation lv_world :: "live \<Rightarrow> world" where
  "lv_world s \<equiv> ws_world (lv_ws s)"

definition new_live :: "Manager \<Rightarrow> live" where
  "new_live m = \<lparr>lv_ws = NewWebSocketClient context_Background m, lv_calls = [], lv_tail = 0\<rparr>"

text \<open>The handles that are being unsubscribed, which holds their locks.\<close>

fun call_handle :: "live_call \<Rightarrow> nat list" where
  "call_handle (CRead (AfterUnsubscribe h)) = [h]"
| "call_handle (CPublish r (AfterUnsubscribe h)) = [h]"
| "call_handle (CFlush (AfterUnsubscribe h)) = [h]"
| "call_handle (CWait k (AfterUnsubscribe h)) = [h]"
| "call_handle _ = []"

abbreviation unsubscribing :: "live_call list \<Rightarrow> nat list" where
  "unsubscribing cs \<equiv> concat (map call_handle cs)"

text \<open>After the publication, and after the flush with its result.\<close>

fun after_publish :: "cont \<Rightarrow> WebSocketClient \<Rightarrow> live_call list \<times> WebSocketClient" where
  "after_publish AfterUndo c = ([], c)"
| "after_publish (AfterUnsubscribe h) c =
     ([CFlush (AfterUnsubscribe h)], update_handle (\<lambda>b. b\<lparr>sb_unsubscribeQueued := True\<rparr>) h c)"
| "after_publish k c = ([CFlush k], c)"

fun after_flush :: "cont \<Rightarrow> error option \<Rightarrow> WebSocketClient \<Rightarrow> live_call list \<times> WebSocketClient" where
  "after_flush (AfterSubscribe h) err c =
     (case err of
        None \<Rightarrow> ([], c)
      | Some e \<Rightarrow> let i = sb_id (ws_handles c ! h) in ([CUndo i], forget i c))"
| "after_flush (AfterUnsubscribe h) err c =
     (case err of
        None \<Rightarrow> ([], close_handle None h c)
      | Some e \<Rightarrow> if w_cancelled (ws_world c) \<noteq> None then ([], close_handle (Some e) h c) else ([], c))"
| "after_flush k err c = ([], c)"

text \<open>The calls that only change the authentication.\<close>

fun auth_call :: "op \<Rightarrow> Manager \<Rightarrow> (unit res \<times> Manager) option" where
  "auth_call (OpSetAuth token) m = Some (Manager_SetAuth token m)"
| "auth_call (OpSetAdminAuth token actingAs) m = Some (Manager_SetAdminAuth token actingAs m)"
| "auth_call OpClearAuth m = Some (Manager_ClearAuth m)"
| "auth_call (OpSetAuthCallback env f) m = Some (Manager_SetAuthCallback env f m)"
| "auth_call _ m = None"

inductive live_step :: "(error \<Rightarrow> string) \<Rightarrow> live \<Rightarrow> live \<Rightarrow> bool" for texts :: "error \<Rightarrow> string" where
\<comment> \<open>the goroutines of the manager, which receive from \<open>Results\<close> only to make room\<close>
  manager: "mstep texts (lv_world s) w \<Longrightarrow>
    length (mg_results (w_mgr (lv_world s))) \<le> length (mg_results (w_mgr w)) \<or>
      w_publishing w \<noteq> w_publishing (lv_world s) \<Longrightarrow>
    live_step texts s (s\<lparr>lv_ws := (lv_ws s)\<lparr>ws_world := w\<rparr>\<rparr>)"
\<comment> \<open>calls begin, after their checks\<close>
| begin_subscribe: "ws_doneErr (lv_ws s) = None \<Longrightarrow> live_step texts s (s\<lparr>lv_calls := lv_calls s @ [CSubscribe path args]\<rparr>)"
| begin_mutation: "ws_doneErr (lv_ws s) = None \<Longrightarrow>
    live_step texts s (s\<lparr>lv_calls := lv_calls s @ [CMutation path args opts]\<rparr>)"
| begin_watch: "ws_doneErr (lv_ws s) = None \<Longrightarrow> live_step texts s (s\<lparr>lv_calls := lv_calls s @ [CWatch]\<rparr>)"
| begin_auth: "ws_doneErr (lv_ws s) = None \<Longrightarrow> auth_call x (w_mgr (lv_world s)) = Some (r, m) \<Longrightarrow>
    live_step texts s (s\<lparr>lv_ws := set_manager m (lv_ws s),
      lv_calls := lv_calls s @ (if isl r then [] else [CFlush AfterOther])\<rparr>)"
| begin_unsubscribe: "h < length (ws_handles (lv_ws s)) \<Longrightarrow> h \<notin> set (unsubscribing (lv_calls s)) \<Longrightarrow>
    ws_handles (lv_ws s) ! h = b \<Longrightarrow> \<not> sb_closedOK b \<Longrightarrow> \<not> sb_unsubscribeQueued b \<Longrightarrow>
    Manager_Unsubscribe (sb_id b) (w_mgr (lv_world s)) = (r, m) \<Longrightarrow>
    live_step texts s (s\<lparr>lv_ws := set_manager m (lv_ws s),
      lv_calls := lv_calls s @ (if isl r then [] else [CRead (AfterUnsubscribe h)])\<rparr>)"
| retry_unsubscribe: "h < length (ws_handles (lv_ws s)) \<Longrightarrow> h \<notin> set (unsubscribing (lv_calls s)) \<Longrightarrow>
    ws_handles (lv_ws s) ! h = b \<Longrightarrow> \<not> sb_closedOK b \<Longrightarrow> sb_unsubscribeQueued b \<Longrightarrow>
    live_step texts s (s\<lparr>lv_calls := lv_calls s @ [CFlush (AfterUnsubscribe h)]\<rparr>)"
\<comment> \<open>the sections of calls\<close>
| subscribe: "lv_calls s = xs @ CSubscribe path args # ys \<Longrightarrow> Manager_Subscribe path args (w_mgr (lv_world s)) = (r, m) \<Longrightarrow>
    live_step texts s (s\<lparr>lv_ws := set_manager m (lv_ws s),
      lv_calls := xs @ (case r of Inl e \<Rightarrow> [] | Inr i \<Rightarrow> [CRegister i]) @ ys\<rparr>)"
| register: "lv_calls s = xs @ CRegister i # ys \<Longrightarrow>
    live_step texts s (s\<lparr>lv_ws := register i (lv_ws s),
      lv_calls := xs @ CRead (AfterSubscribe (length (ws_handles (lv_ws s)))) # ys\<rparr>)"
| undo: "lv_calls s = xs @ CUndo i # ys \<Longrightarrow>
    live_step texts s (s\<lparr>lv_ws := set_manager (snd (Manager_Unsubscribe i (w_mgr (lv_world s)))) (lv_ws s),
      lv_calls := xs @ CRead AfterUndo # ys\<rparr>)"
| mutation: "lv_calls s = xs @ CMutation path args opts # ys \<Longrightarrow>
    Manager_Mutation same path args opts (w_mgr (lv_world s)) = ((r, p), m) \<Longrightarrow>
    live_step texts s (s\<lparr>lv_ws := set_manager m (lv_ws s),
      lv_calls := xs @ (if isl r then [] else case p of None \<Rightarrow> [CRead AfterOther] | Some q \<Rightarrow> [CManagerPublish TrySend q]) @ ys\<rparr>)"
| manager_publish: "lv_calls s = xs @ CManagerPublish st q # ys \<Longrightarrow>
    Manager_publishLatest st q (w_mgr (lv_world s)) = (m, next) \<Longrightarrow>
    live_step texts s (s\<lparr>lv_ws := set_manager m (lv_ws s),
      lv_calls := xs @ (case next of None \<Rightarrow> CRead AfterOther | Some st' \<Rightarrow> CManagerPublish st' q) # ys\<rparr>)"
| watch: "lv_calls s = xs @ CWatch # ys \<Longrightarrow> live_step texts s (s\<lparr>lv_ws := WatchAll (lv_ws s), lv_calls := xs @ ys\<rparr>)"
| read: "lv_calls s = xs @ CRead k # ys \<Longrightarrow>
    live_step texts s (s\<lparr>lv_calls := xs @ CPublish (Manager_LatestResults (w_mgr (lv_world s))) k # ys\<rparr>)"
| publish: "lv_calls s = xs @ CPublish q k # ys \<Longrightarrow> after_publish k (publishLatest q (lv_ws s)) = (cs, c) \<Longrightarrow>
    live_step texts s (s\<lparr>lv_ws := c, lv_calls := xs @ cs @ ys\<rparr>)"
| flush: "lv_calls s = xs @ CFlush k # ys \<Longrightarrow> length (mg_flushCh (w_mgr (lv_world s))) < flush_cap \<Longrightarrow>
    live_step texts s (s\<lparr>lv_ws := (lv_ws s)\<lparr>ws_world := (lv_world s)\<lparr>w_mgr := (w_mgr (lv_world s))\<lparr>mg_flushCh :=
        mg_flushCh (w_mgr (lv_world s)) @ [w_nextAck (lv_world s)]\<rparr>, w_nextAck := Suc (w_nextAck (lv_world s))\<rparr>\<rparr>,
      lv_calls := xs @ CWait (w_nextAck (lv_world s)) k # ys\<rparr>)"
| no_flush: "lv_calls s = xs @ CFlush k # ys \<Longrightarrow>
    r = CtxError e \<or> mg_done (w_mgr (lv_world s)) \<and> r = Manager_doneErr (w_mgr (lv_world s)) \<Longrightarrow>
    after_flush k (ws_flush (Some r) (lv_ws s)) (lv_ws s) = (cs, c) \<Longrightarrow>
    live_step texts s (s\<lparr>lv_ws := c, lv_calls := xs @ cs @ ys\<rparr>)"
| flushed: "lv_calls s = xs @ CWait n k # ys \<Longrightarrow> Flush_returns (lv_world s) n r \<Longrightarrow>
    after_flush k (ws_flush r (lv_ws s)) (lv_ws s) = (cs, c) \<Longrightarrow>
    live_step texts s (s\<lparr>lv_ws := c, lv_calls := xs @ cs @ ys\<rparr>)"
\<comment> \<open>handles\<close>
| deliver: "h < length (ws_handles (lv_ws s)) \<Longrightarrow> sb_updates (ws_handles (lv_ws s) ! h) = r # rs \<Longrightarrow>
    live_step texts s (s\<lparr>lv_ws := update_handle (\<lambda>b. b\<lparr>sb_updates := rs, sb_received := Some r\<rparr>) h (lv_ws s)\<rparr>)"
| deliver_set: "w < length (ws_sets (lv_ws s)) \<Longrightarrow> wt_updates (ws_sets (lv_ws s) ! w) = r # rs \<Longrightarrow>
    live_step texts s (s\<lparr>lv_ws := (lv_ws s)\<lparr>ws_sets :=
      update_nth (\<lambda>b. b\<lparr>wt_updates := rs, wt_received := Some r\<rparr>) w (ws_sets (lv_ws s))\<rparr>\<rparr>)"
| close_set: "w < length (ws_sets (lv_ws s)) \<Longrightarrow> \<not> wt_closed (ws_sets (lv_ws s) ! w) \<Longrightarrow>
    live_step texts s (s\<lparr>lv_ws := unwatch w (lv_ws s)\<rparr>)"
\<comment> \<open>\<open>pumpResults\<close> and \<open>run\<close>\<close>
| pump: "mg_results (w_mgr (lv_world s)) = q # qs \<Longrightarrow> (\<forall>p. CPump p \<notin> set (lv_calls s)) \<Longrightarrow>
    live_step texts s (s\<lparr>lv_ws := set_manager ((w_mgr (lv_world s))\<lparr>mg_results := qs\<rparr>) (lv_ws s),
      lv_calls := lv_calls s @ [CPump q]\<rparr>)"
| pumped: "lv_calls s = xs @ CPump q # ys \<Longrightarrow>
    live_step texts s (s\<lparr>lv_ws := publishLatest q (lv_ws s), lv_calls := xs @ ys\<rparr>)"
| run_returned: "lv_tail s = 0 \<Longrightarrow> w_pc (lv_world s) = Finished \<Longrightarrow>
    live_step texts s (s\<lparr>lv_tail := 1, lv_ws := (lv_ws s)\<lparr>ws_runErr := mg_runErr (w_mgr (lv_world s)),
      ws_world := (lv_world s)\<lparr>w_cancelled := (case w_cancelled (lv_world s) of None \<Rightarrow> Some Canceled | Some e \<Rightarrow> Some e)\<rparr>\<rparr>\<rparr>)"
| released: "lv_tail s = 1 \<Longrightarrow> live_step texts s (s\<lparr>lv_tail := 2, lv_ws := releaseRuntimeState (lv_ws s)\<rparr>)"
| closed_done: "lv_tail s = 2 \<Longrightarrow> live_step texts s (s\<lparr>lv_tail := 3, lv_ws := (lv_ws s)\<lparr>ws_done := True\<rparr>\<rparr>)"

definition live_run :: "(error \<Rightarrow> string) \<Rightarrow> live \<Rightarrow> live \<Rightarrow> bool" where
  "live_run texts s t \<longleftrightarrow> live_step texts s t \<and> \<not> ws_panicked (lv_ws s)"

end
