(* ===== verification/Live_Properties.thy ===== *)
theory Live_Properties
  imports Live_Client
begin

text \<open>
  The properties of the realtime client: what its handles deliver, and when its goroutines
  can go wrong.
\<close>

section \<open>Channels of one element\<close>

lemma sendLatest_one: "length ch \<le> 1 \<Longrightarrow> sendLatest (Suc 0) ch v = [v]"
  by (cases ch) (auto simp: sendLatest_def)

text \<open>A handle holds the last result that was sent to it, or has delivered it.\<close>

definition handle_ok :: "QuerySubscription \<Rightarrow> bool" where
  "handle_ok b \<longleftrightarrow> sb_closed b = sb_closedOK b \<and>
     (case sb_sent b of
        None \<Rightarrow> sb_updates b = [] \<and> sb_received b = None
      | Some r \<Rightarrow> sb_updates b = [r] \<or> (sb_updates b = [] \<and> sb_received b = Some r))"

definition set_ok :: "QuerySetSubscription \<Rightarrow> bool" where
  "set_ok w \<longleftrightarrow>
     (case wt_sent w of
        None \<Rightarrow> wt_updates w = [] \<and> wt_received w = None
      | Some r \<Rightarrow> wt_updates w = [r] \<or> (wt_updates w = [] \<and> wt_received w = Some r))"

lemma handle_ok_new [simp]: "handle_ok (new_subscription i)"
  by (simp add: handle_ok_def new_subscription_def)

lemma set_ok_new [simp]: "set_ok new_watcher"
  by (simp add: set_ok_def new_watcher_def)

lemma handle_ok_queued [simp]: "handle_ok (b\<lparr>sb_unsubscribeQueued := x\<rparr>) = handle_ok b"
  by (simp add: handle_ok_def cong: option.case_cong)

lemma handle_ok_length: "handle_ok b \<Longrightarrow> length (sb_updates b) \<le> 1"
  by (auto simp: handle_ok_def split: option.splits)

lemma set_ok_length: "set_ok w \<Longrightarrow> length (wt_updates w) \<le> 1"
  by (auto simp: set_ok_def split: option.splits)

lemma handle_ok_send [simp]: "handle_ok b \<Longrightarrow> handle_ok (send_result r b)"
  using handle_ok_length [of b] by (simp add: handle_ok_def send_result_def sendLatest_one)

lemma set_ok_send [simp]: "set_ok w \<Longrightarrow> set_ok (send_results r w)"
  using set_ok_length [of w] by (simp add: set_ok_def send_results_def sendLatest_one)

lemma send_result_frame [simp]:
  "sb_id (send_result r b) = sb_id b" "sb_closed (send_result r b) = sb_closed b" "sb_sent (send_result r b) = Some r"
  by (simp_all add: send_result_def)

lemma send_results_frame [simp]: "wt_sent (send_results r w) = Some r"
  by (simp add: send_results_def)

lemma update_nth_length [simp]: "length (update_nth f n xs) = length xs"
  by (simp add: update_nth_def)

lemma update_nth_nth: "m < length xs \<Longrightarrow> update_nth f n xs ! m = (if m = n then f (xs ! m) else xs ! m)"
  by (simp add: update_nth_def nth_list_update)

lemma update_nth_all: "(\<And>x. x \<in> set xs \<Longrightarrow> P x) \<Longrightarrow> (\<And>x. x \<in> set xs \<Longrightarrow> P (f x)) \<Longrightarrow> y \<in> set (update_nth f n xs) \<Longrightarrow> P y"
  by (auto simp: update_nth_def split: if_splits dest!: set_update_subset_insert [THEN subsetD])

section \<open>Publishing\<close>

definition same_handle :: "QuerySubscription \<Rightarrow> QuerySubscription \<Rightarrow> bool" where
  "same_handle b b' \<longleftrightarrow> sb_id b' = sb_id b \<and> sb_closed b' = sb_closed b"

lemma send_all_Cons:
  "send_all r ((i, h) # m) hs =
     send_all r m (case QueryResults_Get r i of None \<Rightarrow> hs | Some x \<Rightarrow> update_nth (send_result x) h hs)"
  by (simp add: send_all_def)

lemma send_all_Nil [simp]: "send_all r [] hs = hs"
  by (simp add: send_all_def)

lemma send_all_frame:
  "length (send_all r m hs) = length hs \<and>
   (list_all handle_ok hs \<longrightarrow> list_all handle_ok (send_all r m hs)) \<and>
   (\<forall>h < length hs. same_handle (hs ! h) (send_all r m hs ! h))"
proof (induction m arbitrary: hs)
  case (Cons p m)
  obtain i h where p: "p = (i, h)"
    by fastforce
  let ?hs = "case QueryResults_Get r i of None \<Rightarrow> hs | Some x \<Rightarrow> update_nth (send_result x) h hs"
  have "length ?hs = length hs" "list_all handle_ok hs \<longrightarrow> list_all handle_ok ?hs"
    by (auto simp: list_all_iff split: option.split elim: update_nth_all [rotated 2])
  moreover have "\<forall>k < length hs. same_handle (hs ! k) (?hs ! k)"
    by (auto simp: same_handle_def update_nth_nth split: option.split)
  ultimately show ?case
    using Cons.IH [of ?hs] by (auto simp: p send_all_Cons same_handle_def)
qed (simp add: same_handle_def)

lemma send_all_keeps:
  assumes "\<forall>p \<in> set m. sb_id (hs ! snd p) = fst p" and "h < length hs" and "sb_sent (hs ! h) = Some x"
    and "QueryResults_Get r (sb_id (hs ! h)) = Some x"
  shows "sb_sent (send_all r m hs ! h) = Some x"
  using assms
proof (induction m arbitrary: hs)
  case (Cons p m)
  obtain i k where p: "p = (i, k)"
    by fastforce
  let ?hs = "case QueryResults_Get r i of None \<Rightarrow> hs | Some y \<Rightarrow> update_nth (send_result y) k hs"
  have ids: "sb_id (?hs ! j) = sb_id (hs ! j)" for j
    by (cases "j < length hs") (auto simp: update_nth_def nth_list_update split: option.split)
  have "sb_sent (?hs ! h) = Some x"
    using Cons.prems by (auto simp: p update_nth_nth split: option.split)
  moreover have "h < length ?hs"
    using Cons.prems by (simp split: option.split)
  ultimately show ?case
    using Cons.IH [of ?hs] Cons.prems by (simp add: p send_all_Cons ids)
qed simp

lemma send_all_sent:
  assumes "\<forall>p \<in> set m. snd p < length hs \<and> sb_id (hs ! snd p) = fst p" and "(i, h) \<in> set m"
    and "QueryResults_Get r i = Some x"
  shows "sb_sent (send_all r m hs ! h) = Some x"
  using assms
proof (induction m arbitrary: hs)
  case (Cons p m)
  obtain j k where p: "p = (j, k)"
    by fastforce
  let ?hs = "case QueryResults_Get r j of None \<Rightarrow> hs | Some y \<Rightarrow> update_nth (send_result y) k hs"
  have rest: "\<forall>q \<in> set m. snd q < length ?hs \<and> sb_id (?hs ! snd q) = fst q"
    using Cons.prems(1) by (auto simp: update_nth_nth split: option.split)
  show ?case
  proof (cases "(i, h) = p")
    case True
    then have "sb_sent (?hs ! h) = Some x" "h < length ?hs" "sb_id (?hs ! h) = i"
      using Cons.prems by (auto simp: p update_nth_nth)
    then show ?thesis
      using send_all_keeps [of m ?hs h x r] rest Cons.prems(3) by (simp add: p send_all_Cons)
  next
    case False
    then show ?thesis
      using Cons.IH [OF rest] Cons.prems by (auto simp: p send_all_Cons)
  qed
qed simp

lemma send_sets_frame:
  "length (fold (update_nth (send_results r)) l ws) = length ws \<and>
   (list_all set_ok ws \<longrightarrow> list_all set_ok (fold (update_nth (send_results r)) l ws))"
proof (induction l arbitrary: ws)
  case (Cons w l)
  have "list_all set_ok ws \<longrightarrow> list_all set_ok (update_nth (send_results r) w ws)"
    by (auto simp: list_all_iff elim: update_nth_all [rotated 2])
  with Cons.IH [of "update_nth (send_results r) w ws"] show ?case
    by simp
qed simp

lemma send_sets_keeps:
  "w < length ws \<Longrightarrow> wt_sent (ws ! w) = Some r \<Longrightarrow> wt_sent (fold (update_nth (send_results r)) l ws ! w) = Some r"
proof (induction l arbitrary: ws)
  case (Cons v l)
  show ?case
    using Cons.IH [of "update_nth (send_results r) v ws"] Cons.prems by (simp add: update_nth_nth)
qed simp

lemma send_sets_sent:
  "w \<in> set l \<Longrightarrow> w < length ws \<Longrightarrow> wt_sent (fold (update_nth (send_results r)) l ws ! w) = Some r"
proof (induction l arbitrary: ws)
  case (Cons v l)
  show ?case
  proof (cases "w = v")
    case True
    then show ?thesis
      using send_sets_keeps [of w "update_nth (send_results r) v ws" r l] Cons.prems by (simp add: update_nth_nth)
  next
    case False
    then show ?thesis
      using Cons.IH [of "update_nth (send_results r) v ws"] Cons.prems by simp
  qed
qed simp

section \<open>The invariant\<close>

text \<open>A registered handle has been sent the result that the published snapshot has for it.\<close>

definition told_result :: "WebSocketClient \<Rightarrow> SubscriberID \<Rightarrow> QuerySubscription \<Rightarrow> bool" where
  "told_result c i b \<longleftrightarrow> sb_id b = i \<and>
     (ws_hasLatest c \<longrightarrow> (case QueryResults_Get (ws_latest c) i of None \<Rightarrow> True | Some r \<Rightarrow> sb_sent b = Some r))"

definition subs_inv :: "WebSocketClient \<Rightarrow> bool" where
  "subs_inv c \<longleftrightarrow> list_all handle_ok (ws_handles c) \<and>
     (\<forall>m i h. ws_subscriptions c = Some m \<longrightarrow> (i, h) \<in> set m \<longrightarrow>
        h < length (ws_handles c) \<and> told_result c i (ws_handles c ! h))"

definition sets_inv :: "WebSocketClient \<Rightarrow> bool" where
  "sets_inv c \<longleftrightarrow> list_all set_ok (ws_sets c) \<and>
     (\<forall>l w. ws_watchers c = Some l \<longrightarrow> w \<in> set l \<longrightarrow>
        w < length (ws_sets c) \<and> (ws_hasLatest c \<longrightarrow> wt_sent (ws_sets c ! w) = Some (ws_latest c)))"

definition calls_inv :: "live_call list \<Rightarrow> QuerySubscription list \<Rightarrow> bool" where
  "calls_inv cs hs \<longleftrightarrow> distinct (unsubscribing cs) \<and>
     (\<forall>h \<in> set (unsubscribing cs). h < length hs \<and> \<not> sb_closed (hs ! h))"

definition tail_inv :: "live \<Rightarrow> bool" where
  "tail_inv s \<longleftrightarrow> (lv_tail s < 2 \<longrightarrow> ws_subscriptions (lv_ws s) \<noteq> None \<and> ws_watchers (lv_ws s) \<noteq> None \<and> \<not> ws_panicked (lv_ws s)) \<and>
     (ws_done (lv_ws s) \<longleftrightarrow> 3 \<le> lv_tail s)"

definition live_inv :: "live \<Rightarrow> bool" where
  "live_inv s \<longleftrightarrow> subs_inv (lv_ws s) \<and> sets_inv (lv_ws s) \<and> calls_inv (lv_calls s) (ws_handles (lv_ws s)) \<and> tail_inv s"

lemma subs_inv_publish: "subs_inv c \<Longrightarrow> subs_inv (publishLatest r c)"
proof -
  assume inv: "subs_inv c"
  show "subs_inv (publishLatest r c)"
  proof (cases "ws_subscriptions c")
    case None
    with inv show ?thesis
      by (simp add: subs_inv_def publishLatest_def)
  next
    case (Some m)
    note frame = send_all_frame [of r m "ws_handles c"]
    have m: "\<forall>p \<in> set m. snd p < length (ws_handles c) \<and> sb_id (ws_handles c ! snd p) = fst p"
      using inv Some by (auto simp: subs_inv_def told_result_def)
    have "told_result (publishLatest r c) i (send_all r m (ws_handles c) ! h)" if "(i, h) \<in> set m" for i h
      using m that frame send_all_sent [OF m that, of r]
      by (auto simp: told_result_def publishLatest_def same_handle_def split: option.split)
    with inv Some m frame show ?thesis
      by (auto simp: subs_inv_def publishLatest_def)
  qed
qed

lemma sets_inv_publish: "sets_inv c \<Longrightarrow> sets_inv (publishLatest r c)"
  using send_sets_frame [of r "case ws_watchers c of None \<Rightarrow> [] | Some l \<Rightarrow> l" "ws_sets c"]
  by (auto simp: sets_inv_def publishLatest_def send_sets_sent)

lemma publish_frame [simp]:
  "ws_subscriptions (publishLatest r c) = ws_subscriptions c" "ws_watchers (publishLatest r c) = ws_watchers c"
  "ws_panicked (publishLatest r c) = ws_panicked c" "ws_done (publishLatest r c) = ws_done c"
  "ws_world (publishLatest r c) = ws_world c"
  "length (ws_handles (publishLatest r c)) = length (ws_handles c)"
  by (simp_all add: publishLatest_def send_all_frame)

lemma publish_closed: "h < length (ws_handles c) \<Longrightarrow> sb_closed (ws_handles (publishLatest r c) ! h) = sb_closed (ws_handles c ! h)"
  using send_all_frame by (simp add: publishLatest_def same_handle_def)

lemma calls_inv_publish: "calls_inv cs (ws_handles c) \<Longrightarrow> calls_inv cs (ws_handles (publishLatest r c))"
  by (simp add: calls_inv_def publish_closed)

text \<open>The other sections.\<close>

lemma told_result_cong: "ws_latest d = ws_latest c \<Longrightarrow> ws_hasLatest d = ws_hasLatest c \<Longrightarrow> told_result d = told_result c"
  by (simp add: told_result_def fun_eq_iff)

lemma subs_inv_update:
  assumes "subs_inv c" and "\<And>b. handle_ok b \<Longrightarrow> b = ws_handles c ! h \<Longrightarrow> handle_ok (f b) \<and> sb_id (f b) = sb_id b \<and> sb_sent (f b) = sb_sent b"
  shows "subs_inv (update_handle f h c)"
proof -
  have ok: "handle_ok (ws_handles c ! k)" if "k < length (ws_handles c)" for k
    using assms(1) that by (simp add: subs_inv_def list_all_length)
  have "handle_ok (update_nth f h (ws_handles c) ! k)" if "k < length (ws_handles c)" for k
    using that ok assms(2) by (auto simp: update_nth_nth)
  moreover have "told_result c i (update_nth f h (ws_handles c) ! k)"
    if "k < length (ws_handles c)" "told_result c i (ws_handles c ! k)" for i k
    using that ok assms(2) by (auto simp: update_nth_nth told_result_def split: option.splits)
  moreover have "told_result (update_handle f h c) = told_result c"
    by (rule told_result_cong) simp_all
  ultimately show ?thesis
    using assms(1) by (simp add: subs_inv_def list_all_length)
qed

lemma subs_inv_forget: "subs_inv c \<Longrightarrow> subs_inv (forget i c)"
  by (auto simp: subs_inv_def forget_def told_result_def mdel_def)

lemma subs_inv_cong:
  "subs_inv c \<Longrightarrow> ws_handles d = ws_handles c \<Longrightarrow> ws_subscriptions d = ws_subscriptions c \<or> ws_subscriptions d = None \<Longrightarrow>
   ws_latest d = ws_latest c \<Longrightarrow> ws_hasLatest d = ws_hasLatest c \<Longrightarrow> subs_inv d"
  by (auto simp: subs_inv_def told_result_def)

lemma sets_inv_cong:
  "sets_inv c \<Longrightarrow> ws_sets d = ws_sets c \<Longrightarrow> ws_watchers d = ws_watchers c \<or> ws_watchers d = None \<Longrightarrow>
   ws_latest d = ws_latest c \<Longrightarrow> ws_hasLatest d = ws_hasLatest c \<Longrightarrow> sets_inv d"
  by (auto simp: sets_inv_def)

lemma subs_inv_register:
  assumes "subs_inv c"
  shows "subs_inv (register i c)"
proof (cases "ws_subscriptions c")
  case None
  with assms show ?thesis
    by (simp add: subs_inv_def register_def Let_def)
next
  case (Some m)
  let ?h = "length (ws_handles c)"
  have m: "(j, k) \<in> set m \<Longrightarrow> k < ?h \<and> told_result c j (ws_handles c ! k)" for j k
    using assms Some by (simp add: subs_inv_def)
  have new: "(j, k) \<in> set (mput i ?h m) \<Longrightarrow> (j, k) = (i, ?h) \<or> (j, k) \<in> set m" for j k
    by (induction i ?h m rule: mput.induct) (auto split: if_splits)
  let ?b = "case QueryResults_Get (ws_latest c) i of None \<Rightarrow> new_subscription i | Some x \<Rightarrow> send_result x (new_subscription i)"
  let ?b' = "if ws_hasLatest c then ?b else new_subscription i"
  have "sb_id (new_subscription i) = i"
    by (simp add: new_subscription_def)
  then have "handle_ok ?b'" "told_result c i ?b'"
    by (auto simp: told_result_def split: option.split)
  moreover have eq: "register i c = c\<lparr>ws_handles := ws_handles c @ [?b'], ws_subscriptions := Some (mput i ?h m)\<rparr>"
    by (simp add: register_def Some Let_def update_nth_def split: option.split)
  have "told_result (register i c) = told_result c"
    unfolding eq by (rule told_result_cong) simp_all
  moreover have "k < Suc ?h \<and> told_result c j ((ws_handles c @ [?b']) ! k)" if "(j, k) \<in> set (mput i ?h m)" for j k
    using new [OF that] m [of j k] \<open>told_result c i ?b'\<close> by (auto simp: nth_append)
  ultimately show ?thesis
    using assms unfolding subs_inv_def by (simp add: eq)
qed

lemma sets_inv_WatchAll:
  assumes "sets_inv c"
  shows "sets_inv (WatchAll c)"
proof (cases "ws_watchers c")
  case None
  with assms show ?thesis
    by (simp add: sets_inv_def WatchAll_def Let_def)
next
  case (Some l)
  let ?b = "if ws_hasLatest c then send_results (ws_latest c) new_watcher else new_watcher"
  have "WatchAll c = c\<lparr>ws_sets := ws_sets c @ [?b], ws_watchers := Some (l @ [length (ws_sets c)])\<rparr>"
    by (simp add: WatchAll_def Some Let_def update_nth_def)
  then show ?thesis
    using assms Some by (auto simp: sets_inv_def nth_append)
qed

lemma sets_inv_update:
  assumes "sets_inv c" and "\<And>b. set_ok b \<Longrightarrow> b = ws_sets c ! w \<Longrightarrow> set_ok (f b) \<and> wt_sent (f b) = wt_sent b"
  shows "sets_inv (c\<lparr>ws_sets := update_nth f w (ws_sets c)\<rparr>)"
proof -
  have ok: "set_ok (ws_sets c ! k)" if "k < length (ws_sets c)" for k
    using assms(1) that by (simp add: sets_inv_def list_all_length)
  then show ?thesis
    using assms by (auto simp: sets_inv_def list_all_length update_nth_nth)
qed

lemma sets_inv_unwatch: "sets_inv c \<Longrightarrow> sets_inv (unwatch w c)"
proof -
  assume "sets_inv c"
  then have "sets_inv (c\<lparr>ws_sets := update_nth (\<lambda>b. b\<lparr>wt_closed := True\<rparr>) w (ws_sets c)\<rparr>)"
    by (rule sets_inv_update) (auto simp: set_ok_def split: option.splits)
  then show ?thesis
    by (auto simp: sets_inv_def unwatch_def)
qed

lemma register_frame [simp]:
  "ws_watchers (register i c) = ws_watchers c" "ws_sets (register i c) = ws_sets c" "ws_latest (register i c) = ws_latest c"
  "ws_hasLatest (register i c) = ws_hasLatest c" "ws_done (register i c) = ws_done c" "ws_world (register i c) = ws_world c"
  "length (ws_handles (register i c)) = Suc (length (ws_handles c))"
  "h < length (ws_handles c) \<Longrightarrow> ws_handles (register i c) ! h = ws_handles c ! h"
  by (auto simp: register_def Let_def update_nth_def nth_append split: option.split)

lemma close_handle_inv:
  assumes "subs_inv c"
  shows "subs_inv (close_handle err h c)"
proof -
  let ?c = "(forget (sb_id (ws_handles c ! h)) c)\<lparr>ws_panicked := (ws_panicked c \<or> sb_closed (ws_handles c ! h))\<rparr>"
  have "subs_inv ?c"
    by (rule subs_inv_cong [OF subs_inv_forget [OF assms, of "sb_id (ws_handles c ! h)"]]) simp_all
  then show ?thesis
    unfolding close_handle_def by (rule subs_inv_update) (auto simp: handle_ok_def split: option.splits)
qed

section \<open>Steps\<close>

lemma calls_inv_frame:
  assumes "calls_inv cs hs" and "unsubscribing ds = unsubscribing cs" and "length hs \<le> length hs'"
    and "\<And>h. h < length hs \<Longrightarrow> sb_closed (hs' ! h) = sb_closed (hs ! h)"
  shows "calls_inv ds hs'"
  using assms by (auto simp: calls_inv_def dest: less_le_trans)

lemma tail_inv_frame:
  "tail_inv s \<Longrightarrow> lv_tail t = lv_tail s \<Longrightarrow> ws_subscriptions (lv_ws t) = None \<longleftrightarrow> ws_subscriptions (lv_ws s) = None \<Longrightarrow>
   ws_watchers (lv_ws t) = None \<longleftrightarrow> ws_watchers (lv_ws s) = None \<Longrightarrow> ws_panicked (lv_ws t) = ws_panicked (lv_ws s) \<Longrightarrow>
   ws_done (lv_ws t) = ws_done (lv_ws s) \<Longrightarrow> tail_inv t"
  by (simp add: tail_inv_def)

lemma call_handle_next [simp]:
  "call_handle (CPublish q k) = call_handle (CRead k)"
  "call_handle (CWait n k) = call_handle (CFlush k)"
  by (cases k; simp)+

text \<open>A step that changes only the manager and the calls.\<close>

lemma live_inv_manager:
  assumes "live_inv s" and "\<And>w. (lv_ws t)\<lparr>ws_world := w\<rparr> = (lv_ws s)\<lparr>ws_world := w\<rparr>" and "lv_tail t = lv_tail s"
    and "unsubscribing (lv_calls t) = unsubscribing (lv_calls s)"
  shows "live_inv t"
proof -
  from assms(2) [of "ws_world (lv_ws t)"] obtain w where t: "lv_ws t = (lv_ws s)\<lparr>ws_world := w\<rparr>"
    by simp
  have "subs_inv (lv_ws t)" "sets_inv (lv_ws t)"
    using assms(1) by (auto simp: live_inv_def t intro: subs_inv_cong [of "lv_ws s"] sets_inv_cong [of "lv_ws s"])
  moreover have "calls_inv (lv_calls t) (ws_handles (lv_ws t))" "tail_inv t"
    using assms(1,3,4) by (auto simp: live_inv_def calls_inv_def tail_inv_def t)
  ultimately show ?thesis
    by (simp add: live_inv_def)
qed

text \<open>A call that leaves its handle alone gives up the lock; another one may take it.\<close>

lemma calls_inv_add:
  "calls_inv cs hs \<Longrightarrow> h < length hs \<Longrightarrow> h \<notin> set (unsubscribing cs) \<Longrightarrow> \<not> sb_closed (hs ! h) \<Longrightarrow> call_handle x = [h] \<Longrightarrow>
   calls_inv (cs @ [x]) hs"
  by (auto simp: calls_inv_def)

lemma calls_inv_drop: "calls_inv (xs @ x # ys) hs \<Longrightarrow> calls_inv (xs @ ys) hs"
  by (auto simp: calls_inv_def)

lemma calls_inv_silent: "call_handle x = [] \<Longrightarrow> calls_inv (xs @ x # ys) hs = calls_inv (xs @ ys) hs"
  by (simp add: calls_inv_def)

lemma closed_ok: "subs_inv c \<Longrightarrow> h < length (ws_handles c) \<Longrightarrow> sb_closed (ws_handles c ! h) = sb_closedOK (ws_handles c ! h)"
  by (simp add: subs_inv_def list_all_length handle_ok_def)

text \<open>The end of a flush.\<close>

lemma close_calls_inv:
  assumes "calls_inv (xs @ x # ys) (ws_handles c)" and "call_handle x = [h]"
  shows "calls_inv (xs @ ys) (ws_handles (close_handle err h c)) \<and> ws_panicked (close_handle err h c) = ws_panicked c"
  using assms by (auto simp: calls_inv_def close_handle_def forget_def update_nth_nth)

lemma after_flush_inv:
  assumes "live_inv s" and "lv_calls s = xs @ x # ys" and "x = CFlush k \<or> (\<exists>n. x = CWait n k)"
    and "after_flush k err (lv_ws s) = (cs, c)"
  shows "live_inv (s\<lparr>lv_ws := c, lv_calls := xs @ cs @ ys\<rparr>)"
proof -
  have inv: "subs_inv (lv_ws s)" "sets_inv (lv_ws s)" "calls_inv (xs @ x # ys) (ws_handles (lv_ws s))" "tail_inv s"
    using assms(1) by (auto simp: live_inv_def assms(2))
  note drop = calls_inv_drop [OF inv(3)]
  show ?thesis
  proof (cases k)
    case (AfterSubscribe h)
    have "sets_inv (forget i (lv_ws s))" for i
      by (rule sets_inv_cong [OF inv(2)]) (simp_all add: forget_def)
    moreover have "tail_inv (s\<lparr>lv_ws := forget i (lv_ws s), lv_calls := zs\<rparr>)" for i zs
      by (rule tail_inv_frame [OF inv(4)]) (simp_all add: forget_def)
    moreover have "ws_handles (forget i (lv_ws s)) = ws_handles (lv_ws s)" for i
      by (simp add: forget_def)
    ultimately show ?thesis
      using assms(4) inv drop subs_inv_forget [OF inv(1)]
      by (cases err) (auto simp: AfterSubscribe live_inv_def Let_def tail_inv_def calls_inv_silent)
  next
    case (AfterUnsubscribe h)
    have "call_handle x = [h]"
      using assms(3) AfterUnsubscribe by auto
    note close = close_calls_inv [OF inv(3) this] close_handle_inv [OF inv(1), of _ h]
    have "sets_inv (close_handle e h (lv_ws s))" for e
      by (rule sets_inv_cong [OF inv(2)]) (simp_all add: close_handle_def forget_def)
    moreover have "tail_inv (s\<lparr>lv_ws := close_handle e h (lv_ws s), lv_calls := zs\<rparr>)" for e zs
      by (rule tail_inv_frame [OF inv(4)]) (use close in \<open>simp_all add: close_handle_def forget_def\<close>)
    ultimately show ?thesis
      using assms(4) inv drop close
      by (auto simp: AfterUnsubscribe live_inv_def tail_inv_def split: option.splits if_splits)
  qed (use assms(4) inv drop in \<open>auto simp: live_inv_def tail_inv_def\<close>)
qed

lemma live_inv_publish:
  assumes "live_inv s" and "unsubscribing cs = unsubscribing (lv_calls s)"
  shows "live_inv (s\<lparr>lv_ws := publishLatest r (lv_ws s), lv_calls := cs\<rparr>)"
proof -
  have "tail_inv (s\<lparr>lv_ws := publishLatest r (lv_ws s), lv_calls := cs\<rparr>)"
    using assms(1) by (simp add: live_inv_def tail_inv_def)
  moreover have "calls_inv cs (ws_handles (publishLatest r (lv_ws s)))"
    using assms by (auto simp: live_inv_def publish_closed intro: calls_inv_frame)
  ultimately show ?thesis
    using assms(1) by (simp add: live_inv_def subs_inv_publish sets_inv_publish)
qed

lemma live_inv_update:
  assumes "live_inv s" and "\<And>b. handle_ok b \<Longrightarrow> b = ws_handles (lv_ws s) ! h \<Longrightarrow>
      handle_ok (f b) \<and> sb_id (f b) = sb_id b \<and> sb_sent (f b) = sb_sent b \<and> sb_closed (f b) = sb_closed b"
  shows "live_inv (s\<lparr>lv_ws := update_handle f h (lv_ws s)\<rparr>)"
proof -
  have inv: "subs_inv (lv_ws s)" "sets_inv (lv_ws s)" "calls_inv (lv_calls s) (ws_handles (lv_ws s))" "tail_inv s"
    using assms(1) by (auto simp: live_inv_def)
  have "subs_inv (update_handle f h (lv_ws s))"
    using inv(1) by (rule subs_inv_update) (use assms(2) in blast)
  moreover have "sets_inv (update_handle f h (lv_ws s))"
    by (rule sets_inv_cong [OF inv(2)]) simp_all
  moreover have "sb_closed (update_nth f h (ws_handles (lv_ws s)) ! k) = sb_closed (ws_handles (lv_ws s) ! k)"
    if "k < length (ws_handles (lv_ws s))" for k
    using that inv(1) assms(2) by (auto simp: update_nth_nth subs_inv_def list_all_length)
  then have "calls_inv (lv_calls s) (ws_handles (update_handle f h (lv_ws s)))"
    by (intro calls_inv_frame [OF inv(3)]) simp_all
  ultimately show ?thesis
    using inv(4) by (simp add: live_inv_def tail_inv_def)
qed

lemma after_publish_inv:
  assumes "live_inv s" and "lv_calls s = xs @ CPublish q k # ys" and "after_publish k (publishLatest q (lv_ws s)) = (cs, c)"
  shows "live_inv (s\<lparr>lv_ws := c, lv_calls := xs @ cs @ ys\<rparr>)"
proof (cases k)
  case AfterUndo
  with assms live_inv_publish [OF assms(1), of "xs @ ys" q] show ?thesis
    by auto
next
  case (AfterUnsubscribe h)
  have "live_inv (s\<lparr>lv_ws := publishLatest q (lv_ws s), lv_calls := xs @ CFlush (AfterUnsubscribe h) # ys\<rparr>)"
    by (rule live_inv_publish [OF assms(1)]) (simp add: assms(2) AfterUnsubscribe)
  from live_inv_update [OF this, of h "\<lambda>b. b\<lparr>sb_unsubscribeQueued := True\<rparr>"] show ?thesis
    using assms(3) by (auto simp: AfterUnsubscribe live_inv_def tail_inv_def)
next
  case (AfterSubscribe h)
  with assms live_inv_publish [OF assms(1), of "xs @ CFlush k # ys" q] show ?thesis
    by auto
next
  case AfterOther
  with assms live_inv_publish [OF assms(1), of "xs @ CFlush k # ys" q] show ?thesis
    by auto
qed

lemma live_inv_sets:
  assumes "live_inv s" and "sets_inv c" and "ws_handles c = ws_handles (lv_ws s)" "ws_subscriptions c = ws_subscriptions (lv_ws s)"
    "ws_latest c = ws_latest (lv_ws s)" "ws_hasLatest c = ws_hasLatest (lv_ws s)" "ws_done c = ws_done (lv_ws s)"
    and "unsubscribing cs = unsubscribing (lv_calls s)"
    and "lv_tail s < 2 \<Longrightarrow> ws_watchers c \<noteq> None \<and> \<not> ws_panicked c"
  shows "live_inv (s\<lparr>lv_ws := c, lv_calls := cs\<rparr>)"
proof -
  have "subs_inv c"
    by (rule subs_inv_cong [of "lv_ws s"]) (use assms in \<open>auto simp: live_inv_def\<close>)
  moreover have "calls_inv cs (ws_handles c)"
    using assms by (simp add: live_inv_def calls_inv_def)
  ultimately show ?thesis
    using assms by (auto simp: live_inv_def tail_inv_def)
qed

lemma live_inv_step:
  assumes "live_step texts s t" and "live_inv s"
  shows "live_inv t"
  using assms
proof (induction rule: live_step.induct)
  case (begin_unsubscribe h s b r m)
  then have "\<not> sb_closed (ws_handles (lv_ws s) ! h)"
    using closed_ok by (auto simp: live_inv_def)
  then have "calls_inv (lv_calls s @ (if isl r then [] else [CRead (AfterUnsubscribe h)])) (ws_handles (lv_ws s))"
    using begin_unsubscribe by (auto simp: live_inv_def intro!: calls_inv_add)
  moreover have "live_inv (s\<lparr>lv_ws := set_manager m (lv_ws s)\<rparr>)"
    by (rule live_inv_manager [OF begin_unsubscribe.prems]) simp_all
  ultimately show ?case
    by (simp add: live_inv_def tail_inv_def)
next
  case (retry_unsubscribe h s b)
  then have "\<not> sb_closed (ws_handles (lv_ws s) ! h)"
    using closed_ok by (auto simp: live_inv_def)
  then have "calls_inv (lv_calls s @ [CFlush (AfterUnsubscribe h)]) (ws_handles (lv_ws s))"
    using retry_unsubscribe by (auto simp: live_inv_def intro!: calls_inv_add)
  with retry_unsubscribe.prems show ?case
    by (simp add: live_inv_def tail_inv_def)
next
  case (register s xs i ys)
  have "subs_inv (register i (lv_ws s))" "sets_inv (register i (lv_ws s))"
    using register.prems by (auto simp: live_inv_def subs_inv_register intro: sets_inv_cong [of "lv_ws s"])
  moreover have "calls_inv (xs @ CRead (AfterSubscribe (length (ws_handles (lv_ws s)))) # ys) (ws_handles (register i (lv_ws s)))"
    by (rule calls_inv_frame [of "xs @ CRegister i # ys" "ws_handles (lv_ws s)"])
      (use register in \<open>simp_all add: live_inv_def\<close>)
  moreover have "tail_inv (s\<lparr>lv_ws := register i (lv_ws s), lv_calls := zs\<rparr>)" for zs
    using register.prems by (auto simp: live_inv_def tail_inv_def register_def Let_def split: option.splits)
  ultimately show ?case
    by (simp add: live_inv_def)
next
  case (watch s xs ys)
  show ?case
    by (rule live_inv_sets [OF watch.prems sets_inv_WatchAll])
      (use watch in \<open>auto simp: live_inv_def tail_inv_def WatchAll_def Let_def split: option.splits\<close>)
next
  case (publish s xs q k ys cs c)
  then show ?case
    by (intro after_publish_inv)
next
  case (no_flush s xs k ys r e cs c)
  then show ?case
    by (intro after_flush_inv) auto
next
  case (flushed s xs n k ys r cs c)
  then show ?case
    by (intro after_flush_inv) auto
next
  case (deliver h s r rs)
  show ?case
    by (rule live_inv_update [OF deliver.prems]) (use deliver.hyps in \<open>auto simp: handle_ok_def split: option.splits\<close>)
next
  case (deliver_set w s r rs)
  have "sets_inv ((lv_ws s)\<lparr>ws_sets := update_nth (\<lambda>b. b\<lparr>wt_updates := rs, wt_received := Some r\<rparr>) w (ws_sets (lv_ws s))\<rparr>)"
    by (rule sets_inv_update) (use deliver_set in \<open>auto simp: live_inv_def set_ok_def split: option.splits\<close>)
  from live_inv_sets [OF deliver_set.prems this, of "lv_calls s"] deliver_set.prems show ?case
    by (simp add: live_inv_def tail_inv_def)
next
  case (close_set w s)
  have "sets_inv (unwatch w (lv_ws s))"
    using close_set.prems by (simp add: live_inv_def sets_inv_unwatch)
  from live_inv_sets [OF close_set.prems this, of "lv_calls s"] close_set show ?case
    by (simp add: live_inv_def tail_inv_def unwatch_def)
next
  case (pumped s xs q ys)
  then show ?case
    by (intro live_inv_publish) simp_all
next
  case (released s)
  have "subs_inv (releaseRuntimeState (lv_ws s))" "sets_inv (releaseRuntimeState (lv_ws s))"
    using released.prems by (auto simp: live_inv_def releaseRuntimeState_def subs_inv_def sets_inv_def)
  with released show ?case
    by (simp add: live_inv_def tail_inv_def releaseRuntimeState_def)
next
  case (closed_done s)
  then have "subs_inv ((lv_ws s)\<lparr>ws_done := True\<rparr>)" "sets_inv ((lv_ws s)\<lparr>ws_done := True\<rparr>)"
    by (auto simp: live_inv_def intro: subs_inv_cong [of "lv_ws s"] sets_inv_cong [of "lv_ws s"])
  with closed_done show ?case
    by (simp add: live_inv_def tail_inv_def)
next
  case (run_returned s)
  then have "subs_inv ((lv_ws s)\<lparr>ws_runErr := e, ws_world := w\<rparr>)" "sets_inv ((lv_ws s)\<lparr>ws_runErr := e, ws_world := w\<rparr>)" for e w
    by (auto simp: live_inv_def intro: subs_inv_cong [of "lv_ws s"] sets_inv_cong [of "lv_ws s"])
  with run_returned show ?case
    by (simp add: live_inv_def tail_inv_def)
qed (erule live_inv_manager; auto split: sum.split option.split)+

interpretation live: machine "\<lambda>s. s = new_live m" "live_run texts" live_inv
proof unfold_locales
  fix s
  assume "s = new_live m"
  then show "live_inv s"
    by (simp add: new_live_def NewWebSocketClient_def live_inv_def subs_inv_def sets_inv_def calls_inv_def tail_inv_def)
qed (auto simp: live_run_def intro: live_inv_step)

section \<open>Properties\<close>

text \<open>
  C3: with any interleaving of calls, of the goroutines of the client and the manager, and
  of what the server sends, a subscription that is registered has what the last published
  snapshot says about its query: that result waits in its channel, alone, or is the last
  one that \<open>Next\<close> returned. Results are never reordered and older ones are dropped, and a
  watcher of all queries stands in the same relation to the snapshot itself.
\<close>

theorem handles_have_latest:
  assumes "(live_run texts)\<^sup>*\<^sup>* (new_live m) s" and "ws_hasLatest (lv_ws s)"
  shows "(\<forall>subs i h r. ws_subscriptions (lv_ws s) = Some subs \<longrightarrow> (i, h) \<in> set subs \<longrightarrow>
      QueryResults_Get (ws_latest (lv_ws s)) i = Some r \<longrightarrow>
      sb_id (ws_handles (lv_ws s) ! h) = i \<and>
      (sb_updates (ws_handles (lv_ws s) ! h) = [r] \<or>
       sb_updates (ws_handles (lv_ws s) ! h) = [] \<and> sb_received (ws_handles (lv_ws s) ! h) = Some r)) \<and>
    (\<forall>ws w. ws_watchers (lv_ws s) = Some ws \<longrightarrow> w \<in> set ws \<longrightarrow>
      (wt_updates (ws_sets (lv_ws s) ! w) = [ws_latest (lv_ws s)] \<or>
       wt_updates (ws_sets (lv_ws s) ! w) = [] \<and> wt_received (ws_sets (lv_ws s) ! w) = Some (ws_latest (lv_ws s))))"
proof -
  have inv: "subs_inv (lv_ws s)" "sets_inv (lv_ws s)"
    using live.inv_reachable [OF refl assms(1)] by (auto simp: live_inv_def)
  have "sb_id (ws_handles (lv_ws s) ! h) = i \<and> (sb_updates (ws_handles (lv_ws s) ! h) = [r] \<or>
       sb_updates (ws_handles (lv_ws s) ! h) = [] \<and> sb_received (ws_handles (lv_ws s) ! h) = Some r)"
    if "ws_subscriptions (lv_ws s) = Some subs" "(i, h) \<in> set subs" "QueryResults_Get (ws_latest (lv_ws s)) i = Some r"
    for subs i h r
  proof -
    from inv(1) that have "handle_ok (ws_handles (lv_ws s) ! h)" "told_result (lv_ws s) i (ws_handles (lv_ws s) ! h)"
      by (auto simp: subs_inv_def list_all_length)
    with assms(2) that(3) show ?thesis
      by (simp add: told_result_def handle_ok_def)
  qed
  moreover have "wt_updates (ws_sets (lv_ws s) ! w) = [ws_latest (lv_ws s)] \<or>
       wt_updates (ws_sets (lv_ws s) ! w) = [] \<and> wt_received (ws_sets (lv_ws s) ! w) = Some (ws_latest (lv_ws s))"
    if "ws_watchers (lv_ws s) = Some ws" "w \<in> set ws" for ws w
    using inv(2) assms(2) that by (auto simp: sets_inv_def list_all_length set_ok_def)
  ultimately show ?thesis
    by blast
qed

text \<open>
  C20: no goroutine panics before the client has released its state, which it does only
  after \<open>Run\<close> has returned: no map is nil, and no handle is closed twice, whatever calls
  of \<open>Unsubscribe\<close> and \<open>Close\<close> overlap.
\<close>

theorem no_panic_while_running:
  assumes "(live_run texts)\<^sup>*\<^sup>* (new_live m) s" and "lv_tail s < 2"
  shows "\<not> ws_panicked (lv_ws s)"
  using live.inv_reachable [OF refl assms(1)] assms(2) by (simp add: live_inv_def tail_inv_def)

end
