(* ===== verification/Live_Races.thy ===== *)
theory Live_Races
  imports Live_Properties Sync_Properties Base_Properties
begin

text \<open>
  Runs of the realtime client in which its goroutines get into each other's way, computed
  by a scheduler that is told which call makes its next step.
\<close>

section \<open>A scheduler\<close>

text \<open>The call at the given place makes its next step, or a call begins.\<close>

datatype lact = LSubscribe string gval | LWatch | LUnsubscribe nat | LCall nat

fun do_live :: "lact \<Rightarrow> live \<Rightarrow> live option" where
  "do_live (LSubscribe path args) s =
     (if ws_doneErr (lv_ws s) = None then Some (s\<lparr>lv_calls := lv_calls s @ [CSubscribe path args]\<rparr>) else None)"
| "do_live LWatch s = (if ws_doneErr (lv_ws s) = None then Some (s\<lparr>lv_calls := lv_calls s @ [CWatch]\<rparr>) else None)"
| "do_live (LUnsubscribe h) s =
     (if h < length (ws_handles (lv_ws s)) \<and> h \<notin> set (unsubscribing (lv_calls s)) \<and> \<not> sb_closedOK (ws_handles (lv_ws s) ! h) \<and>
         \<not> sb_unsubscribeQueued (ws_handles (lv_ws s) ! h)
      then (case Manager_Unsubscribe (sb_id (ws_handles (lv_ws s) ! h)) (w_mgr (lv_world s)) of
              (r, m) \<Rightarrow> Some (s\<lparr>lv_ws := set_manager m (lv_ws s),
                lv_calls := lv_calls s @ (if isl r then [] else [CRead (AfterUnsubscribe h)])\<rparr>))
      else None)"
| "do_live (LCall n) s =
     (if n < length (lv_calls s)
      then let xs = take n (lv_calls s); ys = drop (Suc n) (lv_calls s)
           in (case lv_calls s ! n of
                 CSubscribe path args \<Rightarrow>
                   (case Manager_Subscribe path args (w_mgr (lv_world s)) of
                      (r, m) \<Rightarrow> Some (s\<lparr>lv_ws := set_manager m (lv_ws s),
                        lv_calls := xs @ (case r of Inl e \<Rightarrow> [] | Inr i \<Rightarrow> [CRegister i]) @ ys\<rparr>))
               | CRegister i \<Rightarrow> Some (s\<lparr>lv_ws := register i (lv_ws s),
                   lv_calls := xs @ CRead (AfterSubscribe (length (ws_handles (lv_ws s)))) # ys\<rparr>)
               | CWatch \<Rightarrow> Some (s\<lparr>lv_ws := WatchAll (lv_ws s), lv_calls := xs @ ys\<rparr>)
               | CRead k \<Rightarrow> Some (s\<lparr>lv_calls := xs @ CPublish (Manager_LatestResults (w_mgr (lv_world s))) k # ys\<rparr>)
               | CPublish q k \<Rightarrow>
                   (case after_publish k (publishLatest q (lv_ws s)) of
                      (cs, c) \<Rightarrow> Some (s\<lparr>lv_ws := c, lv_calls := xs @ cs @ ys\<rparr>))
               | _ \<Rightarrow> None)
      else None)"

lemma do_live_sound: "do_live a s = Some t \<Longrightarrow> live_step texts s t"
proof (induction a s rule: do_live.induct)
  case (3 h s)
  obtain r m where "Manager_Unsubscribe (sb_id (ws_handles (lv_ws s) ! h)) (w_mgr (lv_world s)) = (r, m)"
    by fastforce
  with 3 live_step.begin_unsubscribe [of h s "ws_handles (lv_ws s) ! h" r m texts] show ?case
    by (auto simp del: set_concat split: if_splits)
next
  case (4 n s)
  then have n: "n < length (lv_calls s)"
    by (auto split: if_splits)
  then have cs: "lv_calls s = take n (lv_calls s) @ lv_calls s ! n # drop (Suc n) (lv_calls s)"
    by (simp add: id_take_nth_drop)
  show ?case
  proof (cases "lv_calls s ! n")
    case (CSubscribe path args)
    with 4 n cs show ?thesis
      by (auto simp: Let_def split: prod.splits intro!: live_step.subscribe)
  next
    case (CPublish q k)
    with 4 n cs show ?thesis
      by (auto simp: Let_def split: prod.splits intro!: live_step.publish)
  qed (use 4 n cs in \<open>auto simp: Let_def intro: live_step.register live_step.watch live_step.read\<close>)
qed (auto split: if_splits intro: live_step.begin_subscribe live_step.begin_watch)

fun run_live :: "lact list \<Rightarrow> live \<Rightarrow> live option" where
  "run_live [] s = Some s"
| "run_live (a # as) s =
     (if ws_panicked (lv_ws s) then None else case do_live a s of None \<Rightarrow> None | Some t \<Rightarrow> run_live as t)"

lemma run_live_sound: "run_live as s = Some t \<Longrightarrow> (live_run texts)\<^sup>*\<^sup>* s t"
proof (induction "as" arbitrary: s)
  case (Cons a "as")
  then obtain u where "\<not> ws_panicked (lv_ws s)" "do_live a s = Some u" "run_live as u = Some t"
    by (auto split: if_splits option.splits)
  with Cons.IH [of u] show ?case
    by (auto simp: live_run_def intro: converse_rtranclp_into_rtranclp do_live_sound)
qed simp

section \<open>A witness\<close>

definition stale_run :: "lact list" where
  "stale_run = [LWatch, LCall 0, LSubscribe ''m:f'' GInvalid, LCall 0, LCall 0, LCall 0, LCall 0,
     LSubscribe ''m:f'' GInvalid, LCall 1, LCall 1, LCall 1, LUnsubscribe 0, LCall 2, LCall 2, LCall 1]"

text \<open>Nothing is about to be published.\<close>

definition settled :: "live \<Rightarrow> bool" where
  "settled s \<longleftrightarrow> mg_results (w_mgr (lv_world s)) = [] \<and>
     list_all (\<lambda>c. case c of CFlush k \<Rightarrow> True | CWait n k \<Rightarrow> True | _ \<Rightarrow> False) (lv_calls s)"

lemma stale_run_ends:
  "case run_live stale_run (new_live example_manager) of
     None \<Rightarrow> False
   | Some s \<Rightarrow> settled s \<and> ws_watchers (lv_ws s) = Some [0] \<and>
       map wt_updates (ws_sets (lv_ws s)) = [[ws_latest (lv_ws s)]] \<and>
       ws_latest (lv_ws s) \<noteq> Manager_LatestResults (w_mgr (lv_world s))"
  by code_simp

lemma stale_run_reachable:
  obtains s where "(live_run texts)\<^sup>*\<^sup>* (new_live example_manager) s" "settled s" "ws_watchers (lv_ws s) = Some [0]"
    "map wt_updates (ws_sets (lv_ws s)) = [[ws_latest (lv_ws s)]]"
    "ws_latest (lv_ws s) \<noteq> Manager_LatestResults (w_mgr (lv_world s))"
  using stale_run_ends run_live_sound [of stale_run "new_live example_manager" _ texts] that
  by (cases "run_live stale_run (new_live example_manager)") auto

section \<open>Properties\<close>

text \<open>
  the published snapshot can go back in time: a call reads the results of the manager
  under one lock and publishes them under another, and a second call can read and publish
  newer ones in between. The watchers are left with a snapshot that still has a
  subscription that was removed, although nothing is about to be published.
\<close>

theorem watcher_left_stale:
  "\<exists>s. (live_run texts)\<^sup>*\<^sup>* (new_live example_manager) s \<and> settled s \<and> ws_watchers (lv_ws s) = Some [0] \<and>
     wt_updates (ws_sets (lv_ws s) ! 0) = [ws_latest (lv_ws s)] \<and>
     ws_latest (lv_ws s) \<noteq> Manager_LatestResults (w_mgr (lv_world s))"
  by (rule stale_run_reachable [of texts]) (auto simp: map_eq_Cons_conv intro!: exI)

theorem handles_have_latest_witness:
  "\<exists>s. (live_run (\<lambda>_. ''failed''))\<^sup>*\<^sup>* (new_live example_manager) s \<and> ws_watchers (lv_ws s) = Some [0] \<and>
     (wt_updates (ws_sets (lv_ws s) ! 0) = [ws_latest (lv_ws s)] \<or> wt_received (ws_sets (lv_ws s) ! 0) = Some (ws_latest (lv_ws s)))"
proof -
  have "case run_live [LWatch, LCall 0] (new_live example_manager) of None \<Rightarrow> False
      | Some s \<Rightarrow> ws_watchers (lv_ws s) = Some [0] \<and> ws_hasLatest (lv_ws s)"
    by code_simp
  then obtain s where "run_live [LWatch, LCall 0] (new_live example_manager) = Some s" and s: "ws_watchers (lv_ws s) = Some [0]"
      "ws_hasLatest (lv_ws s)"
    by (auto split: option.splits)
  then have r: "(live_run (\<lambda>_. ''failed''))\<^sup>*\<^sup>* (new_live example_manager) s"
    using run_live_sound by blast
  from handles_have_latest [OF this s(2)] r s show ?thesis
    by auto
qed

theorem no_panic_while_running_witness:
  "\<exists>s. (live_run (\<lambda>_. ''failed''))\<^sup>*\<^sup>* (new_live example_manager) s \<and> length (ws_handles (lv_ws s)) = 1 \<and> \<not> ws_panicked (lv_ws s)"
proof -
  have "case run_live [LSubscribe ''m:f'' GInvalid, LCall 0, LCall 0] (new_live example_manager) of None \<Rightarrow> False
      | Some s \<Rightarrow> length (ws_handles (lv_ws s)) = 1 \<and> lv_tail s = 0"
    by code_simp
  then obtain s where "run_live [LSubscribe ''m:f'' GInvalid, LCall 0, LCall 0] (new_live example_manager) = Some s"
      and s: "length (ws_handles (lv_ws s)) = 1" "lv_tail s = 0"
    by (auto split: option.splits)
  then have r: "(live_run (\<lambda>_. ''failed''))\<^sup>*\<^sup>* (new_live example_manager) s"
    using run_live_sound by blast
  from no_panic_while_running [OF this] r s show ?thesis
    by auto
qed

section \<open>A panic\<close>

text \<open>A client whose run ends before it has begun to connect.\<close>

lemma client_can_stop:
  assumes "w_pc (lv_world s) = NotStarted" "\<not> mg_runStarted (w_mgr (lv_world s))" "lv_tail s = 0" "\<not> ws_panicked (lv_ws s)"
  shows "\<exists>t. (live_run texts)\<^sup>*\<^sup>* s t \<and> lv_calls t = lv_calls s \<and> ws_subscriptions (lv_ws t) = None \<and> \<not> ws_panicked (lv_ws t) \<and>
    mg_client (w_mgr (lv_world t)) = mg_client (w_mgr (lv_world s))"
proof -
  have step: "live_run texts u (u\<lparr>lv_ws := (lv_ws u)\<lparr>ws_world := w\<rparr>\<rparr>)"
    if "mstep texts (lv_world u) w" "mg_results (w_mgr w) = mg_results (w_mgr (lv_world u))" "\<not> ws_panicked (lv_ws u)" for u w
    unfolding live_run_def using live_step.manager [OF that(1)] that(2,3) by simp
  have finishes: "\<exists>t. (live_run texts)\<^sup>*\<^sup>* s t \<and> lv_calls t = lv_calls s \<and> \<not> ws_panicked (lv_ws t) \<and> lv_tail t = 0 \<and>
      w_pc (lv_world t) = Finished \<and> mg_client (w_mgr (lv_world t)) = mg_client (w_mgr (lv_world s))"
    if "w_pc (lv_world s) = Finish x" "lv_tail s = 0" "\<not> ws_panicked (lv_ws s)" for s x
    using that
  proof (induction "steps_left (w_pc (lv_world s))" arbitrary: s x rule: less_induct)
    case less
    obtain m "next" where f: "finishRun 0 x (w_mgr (lv_world s)) = (m, next)"
      by fastforce
    let ?w = "(lv_world s)\<lparr>w_mgr := m, w_pc := (case next of None \<Rightarrow> Finished | Some y \<Rightarrow> Finish y)\<rparr>"
    let ?t = "s\<lparr>lv_ws := (lv_ws s)\<lparr>ws_world := ?w\<rparr>\<rparr>"
    have m: "mg_results m = mg_results (w_mgr (lv_world s))" "mg_client m = mg_client (w_mgr (lv_world s))"
      using f by (cases x; auto simp: mark_defs Let_def)+
    have one: "live_run texts s ?t"
      by (rule step [OF mstep.finish [OF less.prems(1) f]]) (simp_all add: m less.prems)
    show ?case
    proof (cases "next")
      case None
      then show ?thesis
        using one less.prems m by (intro exI [of _ ?t]) auto
    next
      case (Some y)
      then have "steps_left (w_pc (lv_world ?t)) < steps_left (w_pc (lv_world s))"
        using f less.prems(1) by (cases x) auto
      from less.hyps [OF this, of y] one Some less.prems m show ?thesis
        by (auto intro: converse_rtranclp_into_rtranclp)
    qed
  qed
  let ?m = "(w_mgr (lv_world s))\<lparr>mg_runStarted := True\<rparr>"
  let ?w1 = "(lv_world s)\<lparr>w_mgr := ?m, w_pc := Starting\<rparr>"
  let ?w2 = "(set_hub (markConnecting 0) ?w1)\<lparr>w_pc := Finish (RecordErr (StdError ''crypto/rand''))\<rparr>"
  let ?s1 = "s\<lparr>lv_ws := (lv_ws s)\<lparr>ws_world := ?w1\<rparr>\<rparr>"
  let ?s2 = "?s1\<lparr>lv_ws := (lv_ws ?s1)\<lparr>ws_world := ?w2\<rparr>\<rparr>"
  have "live_run texts s ?s1"
    by (rule step [OF mstep.claim [OF assms(1)]]) (simp_all add: assms startRun_def)
  moreover have "mstep texts (lv_world ?s1) ?w2"
    using mstep.start_fails [of ?w1 texts 0] by simp
  then have "live_run texts ?s1 ?s2"
    by (rule step) (simp_all add: assms mark_defs Let_def)
  ultimately have two: "(live_run texts)\<^sup>*\<^sup>* s ?s2"
    by (meson converse_rtranclp_into_rtranclp rtranclp.rtrancl_refl)
  obtain u where u: "(live_run texts)\<^sup>*\<^sup>* ?s2 u" "lv_calls u = lv_calls s" "\<not> ws_panicked (lv_ws u)" "lv_tail u = 0"
      "w_pc (lv_world u) = Finished" "mg_client (w_mgr (lv_world u)) = mg_client (w_mgr (lv_world s))"
    using finishes [of ?s2 "RecordErr (StdError ''crypto/rand'')"] assms by (auto simp: mark_defs Let_def)
  let ?s3 = "u\<lparr>lv_tail := 1, lv_ws := (lv_ws u)\<lparr>ws_runErr := mg_runErr (w_mgr (lv_world u)),
      ws_world := (lv_world u)\<lparr>w_cancelled := (case w_cancelled (lv_world u) of None \<Rightarrow> Some Canceled | Some e \<Rightarrow> Some e)\<rparr>\<rparr>\<rparr>"
  let ?s4 = "?s3\<lparr>lv_tail := 2, lv_ws := releaseRuntimeState (lv_ws ?s3)\<rparr>"
  have "live_run texts u ?s3"
    unfolding live_run_def by (intro conjI live_step.run_returned) (simp_all add: u)
  moreover have "live_run texts ?s3 ?s4"
    unfolding live_run_def by (intro conjI live_step.released) (simp_all add: u)
  ultimately have "(live_run texts)\<^sup>*\<^sup>* s ?s4"
    using two u(1) by (meson rtranclp.rtrancl_into_rtrancl rtranclp_trans)
  then show ?thesis
    using u by (intro exI [of _ ?s4]) (simp add: releaseRuntimeState_def)
qed

text \<open>
  C39: there is a run in which a call of \<open>Subscribe\<close> panics: it has passed the check that the
  client is running and, after the manager has registered the query, is about to enter the
  handle into the map of subscriptions without checking again; meanwhile the manager's run
  has ended and the client has released its maps, so the write goes to a nil map.
\<close>

theorem subscribe_can_panic:
  "\<exists>s t u i. ws_doneErr (lv_ws (new_live example_manager)) = None \<and>
     live_run texts (new_live example_manager) s \<and> lv_calls s = [CSubscribe ''m:f'' GInvalid] \<and>
     (live_run texts)\<^sup>*\<^sup>* s t \<and> lv_calls t = [CRegister i] \<and> \<not> ws_panicked (lv_ws t) \<and>
     live_run texts t u \<and> lv_ws u = register i (lv_ws t) \<and> ws_panicked (register i (lv_ws t))"
proof -
  let ?s = "(new_live example_manager)\<lparr>lv_calls := [CSubscribe ''m:f'' GInvalid]\<rparr>"
  have d: "ws_doneErr (lv_ws (new_live example_manager)) = None" "\<not> ws_panicked (lv_ws (new_live example_manager))"
    by (simp_all add: new_live_def NewWebSocketClient_def ws_doneErr_def new_world_def context_Background_def)
  have start: "live_run texts (new_live example_manager) ?s"
    using live_step.begin_subscribe [OF d(1), of texts "''m:f''" GInvalid] d(2)
    by (simp add: live_run_def) (simp add: new_live_def)
  obtain t where t: "(live_run texts)\<^sup>*\<^sup>* ?s t" "lv_calls t = [CSubscribe ''m:f'' GInvalid]" "ws_subscriptions (lv_ws t) = None"
      "\<not> ws_panicked (lv_ws t)" "mg_client (w_mgr (lv_world t)) = New"
    using client_can_stop [of ?s texts] by (auto simp: new_live_def NewWebSocketClient_def new_world_def example_manager_def)
  obtain i c where sub: "Subscribe ''m:f'' GInvalid New = (Inr i, c)"
    by (simp add: Subscribe_open [OF canonical_example(2)] New_def)
  let ?u = "t\<lparr>lv_ws := set_manager ((w_mgr (lv_world t))\<lparr>mg_client := c\<rparr>) (lv_ws t), lv_calls := [CRegister i]\<rparr>"
  have "live_run texts t ?u"
    using live_step.subscribe [of t "[]" "''m:f''" GInvalid "[]" "Inr i" "(w_mgr (lv_world t))\<lparr>mg_client := c\<rparr>" texts] t sub
    by (simp add: live_run_def Manager_Subscribe_def under_lock_def)
  with t(1) have "(live_run texts)\<^sup>*\<^sup>* ?s ?u"
    by (rule rtranclp.rtrancl_into_rtrancl)
  moreover let ?v = "?u\<lparr>lv_ws := register i (lv_ws ?u), lv_calls := [CRead (AfterSubscribe (length (ws_handles (lv_ws ?u))))]\<rparr>"
  have "live_run texts ?u ?v"
    using live_step.register [of ?u "[]" i "[]" texts] t by (simp add: live_run_def)
  moreover have "ws_panicked (register i (lv_ws ?u))"
    using t(3) by (simp add: register_def Let_def)
  ultimately show ?thesis
    using start t(4) d(1) by (intro exI [of _ ?s] exI [of _ ?u] exI [of _ ?v] exI [of _ i]) simp
qed

end
