(* ===== verification/Go_Url.thy ===== *)
theory Go_Url
  imports Core_Path
begin

text \<open>
  What the sources use of Go's \<open>net/url\<close>: \<open>Parse\<close>, the fields of a \<open>URL\<close> and \<open>String\<close>. Hosts
  with brackets (IP literals) are parsed by a function that is a parameter, because the
  releases of Go differ in what they accept there.
\<close>

section \<open>Escaping\<close>

datatype encoding = encodePath | encodeHost | encodeUserPassword | encodeFragment

definition shouldEscape :: "char \<Rightarrow> encoding \<Rightarrow> bool" where
  "shouldEscape c mode =
     (if isAlnum c then False
      else if mode = encodeHost \<and> (c \<in> set ''!$&()*+,;=:[]<>'' \<or> c = CHR 0x27 \<or> c = CHR 0x22) then False
      else if c \<in> set ''-_.~'' then False
      else if c \<in> set ''$&+,/:;=?@'' \<and> mode = encodePath then c = CHR ''?''
      else if c \<in> set ''$&+,/:;=?@'' \<and> mode = encodeUserPassword then c \<in> set ''@/?:''
      else if c \<in> set ''$&+,/:;=?@'' \<and> mode = encodeFragment then False
      else if mode = encodeFragment \<and> c \<in> set ''!()*'' then False
      else True)"

definition hex_value :: "char \<Rightarrow> nat option" where
  "hex_value c =
     (let n = of_char c
      in if 48 \<le> n \<and> n \<le> 57 then Some (n - 48)
         else if 97 \<le> n \<and> n \<le> 102 then Some (n - 87)
         else if 65 \<le> n \<and> n \<le> 70 then Some (n - 55)
         else None)"

fun unescape :: "encoding \<Rightarrow> string \<Rightarrow> string option" where
  "unescape mode [] = Some []"
| "unescape mode (c # cs) =
     (if c = CHR ''%'' then
        (case cs of
           a # b # r \<Rightarrow>
             (case (hex_value a, hex_value b) of
                (Some x, Some y) \<Rightarrow>
                  if mode = encodeHost \<and> x < 8 \<and> (a, b) \<noteq> (CHR ''2'', CHR ''5'') then None
                  else map_option ((#) (char_of (16 * x + y))) (unescape mode r)
              | _ \<Rightarrow> None)
         | _ \<Rightarrow> None)
      else if mode = encodeHost \<and> of_char c < (128 :: nat) \<and> shouldEscape c mode then None
      else map_option ((#) c) (unescape mode cs))"

definition upper_hex :: "nat \<Rightarrow> char" where
  "upper_hex n = ''0123456789ABCDEF'' ! (n mod 16)"

definition escape :: "encoding \<Rightarrow> string \<Rightarrow> string" where
  "escape mode s =
     concat (map (\<lambda>c. if shouldEscape c mode then [CHR ''%'', upper_hex (of_char c div 16), upper_hex (of_char c)] else [c]) s)"

section \<open>URLs\<close>

record Url =
  u_Scheme :: string
  u_Opaque :: string
  u_User :: "(string \<times> string option) option"
  u_Host :: string
  u_Path :: string
  u_RawPath :: string
  u_OmitHost :: bool
  u_ForceQuery :: bool
  u_RawQuery :: string
  u_Fragment :: string

definition empty_url :: Url where
  "empty_url = \<lparr>u_Scheme = [], u_Opaque = [], u_User = None, u_Host = [], u_Path = [], u_RawPath = [],
     u_OmitHost = False, u_ForceQuery = False, u_RawQuery = [], u_Fragment = []\<rparr>"

text \<open>\<open>getScheme\<close>; the second argument is what has been read of the scheme.\<close>

fun scheme_loop :: "string \<Rightarrow> string \<Rightarrow> string \<Rightarrow> (string \<times> string) option" where
  "scheme_loop full read [] = Some ([], full)"
| "scheme_loop full read (c # cs) =
     (if isASCIIAlpha c then scheme_loop full (read @ [c]) cs
      else if isASCIIDigit c \<or> c \<in> set ''+-.'' then
        (if read = [] then Some ([], full) else scheme_loop full (read @ [c]) cs)
      else if c = CHR '':'' then (if read = [] then None else Some (read, cs))
      else Some ([], full))"

definition getScheme :: "string \<Rightarrow> (string \<times> string) option" where
  "getScheme full = scheme_loop full [] full"

definition validOptionalPort :: "string \<Rightarrow> bool" where
  "validOptionalPort port \<longleftrightarrow> port = [] \<or> hd port = CHR '':'' \<and> list_all isASCIIDigit (tl port)"

definition parseHost :: "(string \<Rightarrow> string option) \<Rightarrow> string \<Rightarrow> string option" where
  "parseHost ip_literal host =
     (if CHR ''['' \<in> set host then ip_literal host
      else case cut_last (CHR '':'') host of
             Some (_, port) \<Rightarrow> if validOptionalPort (CHR '':'' # port) then unescape encodeHost host else None
           | None \<Rightarrow> unescape encodeHost host)"

definition validUserinfo :: "string \<Rightarrow> bool" where
  "validUserinfo s \<longleftrightarrow> list_all (\<lambda>c. isAlnum c \<or> c \<in> set ''-._:~!$&()*+,;=%@'' \<or> c = CHR 0x27) s"

definition parseAuthority ::
  "(string \<Rightarrow> string option) \<Rightarrow> string \<Rightarrow> ((string \<times> string option) option \<times> string) option" where
  "parseAuthority ip_literal authority =
     (case cut_last (CHR ''@'') authority of
        None \<Rightarrow> map_option (\<lambda>host. (None, host)) (parseHost ip_literal authority)
      | Some (userinfo, host) \<Rightarrow>
          (case parseHost ip_literal host of
             None \<Rightarrow> None
           | Some host \<Rightarrow>
               if \<not> validUserinfo userinfo then None
               else case Cut (CHR '':'') userinfo of
                      (name, password, hasPassword) \<Rightarrow>
                        (case (unescape encodeUserPassword name, unescape encodeUserPassword password) of
                           (Some n, Some p) \<Rightarrow> Some (Some (n, if hasPassword then Some p else None), host)
                         | _ \<Rightarrow> None)))"

definition setPath :: "string \<Rightarrow> Url \<Rightarrow> Url option" where
  "setPath p u =
     (case unescape encodePath p of
        None \<Rightarrow> None
      | Some path \<Rightarrow> Some (u\<lparr>u_Path := path, u_RawPath := (if p = escape encodePath path then [] else p)\<rparr>))"

definition ascii_tolower :: "char \<Rightarrow> char" where
  "ascii_tolower c = (if isASCIIAlpha c \<and> of_char c < (91 :: nat) then char_of (of_char c + 32 :: nat) else c)"

text \<open>\<open>parse\<close> with \<open>viaRequest\<close> false\<close>

definition parse_url :: "(string \<Rightarrow> string option) \<Rightarrow> string \<Rightarrow> Url option" where
  "parse_url ip_literal full =
     (if list_ex (\<lambda>c. of_char c < (32 :: nat) \<or> of_char c = (127 :: nat)) full then None
      else if full = ''*'' then Some (empty_url\<lparr>u_Path := ''*''\<rparr>)
      else case getScheme full of
             None \<Rightarrow> None
           | Some (scheme, rest) \<Rightarrow>
               let scheme = map ascii_tolower scheme;
                   force = (HasSuffix rest ''?'' \<and> count_list rest (CHR ''?'') = 1);
                   query = (if force then [] else fst (snd (Cut (CHR ''?'') rest)));
                   rest = (if force then butlast rest else fst (Cut (CHR ''?'') rest));
                   u = empty_url\<lparr>u_Scheme := scheme, u_ForceQuery := force, u_RawQuery := query\<rparr>
               in if \<not> HasPrefix rest ''/'' \<and> scheme \<noteq> [] then Some (u\<lparr>u_Opaque := rest\<rparr>)
                  else if \<not> HasPrefix rest ''/'' \<and> CHR '':'' \<in> set (fst (Cut (CHR ''/'') rest)) then None
                  else if (scheme \<noteq> [] \<or> \<not> HasPrefix rest ''///'') \<and> HasPrefix rest ''//'' then
                    (let authority = takeWhile (\<lambda>c. c \<noteq> CHR ''/'') (drop 2 rest);
                         rest = dropWhile (\<lambda>c. c \<noteq> CHR ''/'') (drop 2 rest)
                     in case parseAuthority ip_literal authority of
                          None \<Rightarrow> None
                        | Some (user, host) \<Rightarrow> setPath rest (u\<lparr>u_User := user, u_Host := host\<rparr>))
                  else setPath rest (u\<lparr>u_OmitHost := (scheme \<noteq> [] \<and> HasPrefix rest ''/'')\<rparr>))"

definition Parse :: "(string \<Rightarrow> string option) \<Rightarrow> string \<Rightarrow> Url option" where
  "Parse ip_literal full =
     (case Cut (CHR ''#'') full of
        (u, frag, _) \<Rightarrow>
          (case parse_url ip_literal u of
             None \<Rightarrow> None
           | Some url \<Rightarrow>
               if frag = [] then Some url
               else map_option (\<lambda>f. url\<lparr>u_Fragment := f\<rparr>) (unescape encodeFragment frag)))"

section \<open>String\<close>

definition validEncoded :: "string \<Rightarrow> bool" where
  "validEncoded s \<longleftrightarrow> list_all (\<lambda>c. c \<in> set ''!$&()*+,;=:@[]%'' \<or> c = CHR 0x27 \<or> \<not> shouldEscape c encodePath) s"

definition EscapedPath :: "Url \<Rightarrow> string" where
  "EscapedPath u =
     (if u_RawPath u \<noteq> [] \<and> validEncoded (u_RawPath u) \<and> unescape encodePath (u_RawPath u) = Some (u_Path u) then u_RawPath u
      else if u_Path u = ''*'' then ''*''
      else escape encodePath (u_Path u))"

definition userinfo_string :: "string \<times> string option \<Rightarrow> string" where
  "userinfo_string ui =
     escape encodeUserPassword (fst ui) @
     (case snd ui of None \<Rightarrow> [] | Some p \<Rightarrow> '':'' @ escape encodeUserPassword p)"

text \<open>
  \<open>String\<close>. The fragment is empty wherever the sources print a URL, and so is left out; a
  URL without scheme and host, for which Go may put a dot in front, is not printed.
\<close>

definition Url_String :: "Url \<Rightarrow> string" where
  "Url_String u =
     (let query = (if u_ForceQuery u \<or> u_RawQuery u \<noteq> [] then ''?'' @ u_RawQuery u else []);
          scheme = (if u_Scheme u \<noteq> [] then u_Scheme u @ '':'' else []);
          path = EscapedPath u;
          slashes = (if u_OmitHost u \<and> u_Host u = [] \<and> u_User u = None then []
                     else if u_Host u \<noteq> [] \<or> u_Path u \<noteq> [] \<or> u_User u \<noteq> None then ''//'' else []);
          user = (case u_User u of None \<Rightarrow> [] | Some ui \<Rightarrow> userinfo_string ui @ ''@'');
          host = escape encodeHost (u_Host u)
      in if u_Opaque u \<noteq> [] then scheme @ u_Opaque u @ query
         else scheme @ (if u_Scheme u \<noteq> [] \<or> u_Host u \<noteq> [] \<or> u_User u \<noteq> None then slashes @ user @ host else []) @
              (if path \<noteq> [] \<and> hd path \<noteq> CHR ''/'' \<and> u_Host u \<noteq> [] then ''/'' else []) @ path @ query)"

end
