(* ===== verification/App_Client.thy ===== *)
theory App_Client
  imports Http_Client Live_Client
begin

text \<open>
  The client of the root package: the type \<open>Client\<close> of \<open>client_options.go\<close> with its
  options, and its methods in \<open>client_facade.go\<close>. It calls functions over HTTP, starts a
  realtime client on demand, and keeps the authentication of the two together. The
  methods are functions here; what the flush of the realtime client returns is an
  argument.
\<close>

section \<open>Authentication of the realtime client\<close>

text \<open>A callback of the user is known by its number, and what it returns is given by the environment.\<close>

type_synonym user_env = "nat \<Rightarrow> bool \<Rightarrow> string res"

definition adaptUserTokenFetcher :: "nat option \<Rightarrow> AuthTokenFetcher option" where
  "adaptUserTokenFetcher fetcher = map_option CallbackFetcher fetcher"

definition adapted_env :: "user_env \<Rightarrow> fetch_env" where
  "adapted_env env n forceRefresh =
     rbind (env n forceRefresh) (\<lambda>token. Inr (if token = [] then NoAuthToken else UserAuthToken token))"

text \<open>
  \<open>encoding/json\<close> in both directions on the claims of an identity; identities that are nil
  or do not convert are left out.
\<close>

definition syncIdentityAttributes :: "UserIdentityAttributes list \<Rightarrow> SyncUserIdentityAttributes list" where
  "syncIdentityAttributes actingAs =
     List.map_filter (\<lambda>attrs.
       case attrs of
         None \<Rightarrow> None
       | Some claims \<Rightarrow>
           (case rbind (json_Marshal (WMap claims)) Identity_UnmarshalJSON of Inl e \<Rightarrow> None | Inr identity \<Rightarrow> Some identity))
       actingAs"

text \<open>\<open>r\<close> is what the manager's \<open>Flush\<close> returns.\<close>

definition ws_auth ::
  "(Manager \<Rightarrow> unit res \<times> Manager) \<Rightarrow> bool \<Rightarrow> error option \<Rightarrow> WebSocketClient \<Rightarrow> error option \<times> WebSocketClient" where
  "ws_auth f flush r c =
     (case ws_doneErr c of
        Some e \<Rightarrow> (Some e, c)
      | None \<Rightarrow>
          (case f (ws_manager c) of
             (Inl e, m) \<Rightarrow> (Some e, set_manager m c)
           | (Inr _, m) \<Rightarrow> (if flush then ws_flush r (set_manager m c) else None, set_manager m c)))"

definition ws_setAuth :: "string \<Rightarrow> bool \<Rightarrow> error option \<Rightarrow> WebSocketClient \<Rightarrow> error option \<times> WebSocketClient" where
  "ws_setAuth token = ws_auth (Manager_SetAuth token)"

definition ws_setAdminAuth ::
  "string \<Rightarrow> UserIdentityAttributes list \<Rightarrow> bool \<Rightarrow> error option \<Rightarrow> WebSocketClient \<Rightarrow> error option \<times> WebSocketClient" where
  "ws_setAdminAuth token actingAs = ws_auth (Manager_SetAdminAuth token (syncIdentityAttributes actingAs))"

definition ws_clearAuth :: "bool \<Rightarrow> error option \<Rightarrow> WebSocketClient \<Rightarrow> error option \<times> WebSocketClient" where
  "ws_clearAuth = ws_auth Manager_ClearAuth"

definition ws_setAuthCallback ::
  "user_env \<Rightarrow> nat option \<Rightarrow> bool \<Rightarrow> error option \<Rightarrow> WebSocketClient \<Rightarrow> error option \<times> WebSocketClient" where
  "ws_setAuthCallback env fetcher = ws_auth (Manager_SetAuthCallback (adapted_env env) (adaptUserTokenFetcher fetcher))"

section \<open>The client\<close>

record AppClient =
  ap_httpClient :: HTTPClient
  ap_deploymentURL :: string
  ap_webSocketClient :: "WebSocketClient option"
  ap_webSocketOptions :: "manager_option list"
  ap_authToken :: string
  ap_adminAuthToken :: string
  ap_adminActingAs :: "UserIdentityAttributes list"
  ap_authCallback :: "nat option"

text \<open>The copy shares no map with the original, which values do not show.\<close>

definition cloneUserIdentityAttributes :: "UserIdentityAttributes list \<Rightarrow> UserIdentityAttributes list" where
  "cloneUserIdentityAttributes xs = map (map_option (\<lambda>claims. claims)) xs"

section \<open>Options\<close>

text \<open>
  The options that concern both clients. An option is applied to the HTTP client first, by
  \<open>NewHTTPClient\<close>, and then to the client. Of the argument of \<open>WithHTTPClient\<close> only counts
  whether it is nil: what a client of \<open>net/http\<close> answers is the environment.
\<close>

datatype app_option =
    WithHTTPClient "unit option"
  | WithClientID string
  | WithAuth string
  | WithAdminAuth string "UserIdentityAttributes list"
  | WithSkipDeploymentURLCheck
  | WithWebSocket manager_option

fun applyHTTPOption :: "app_option \<Rightarrow> HTTPClient \<Rightarrow> HTTPClient res" where
  "applyHTTPOption (WithHTTPClient httpClient) c =
     (case httpClient of None \<Rightarrow> Inl (AppError NilHTTPClient) | Some _ \<Rightarrow> Inr c)"
| "applyHTTPOption (WithClientID clientID) c =
     (if TrimSpace clientID = [] then Inl (SyncError EmptyClientID) else Inr (c\<lparr>hc_clientID := clientID\<rparr>))"
| "applyHTTPOption (WithAuth token) c = Inr (c\<lparr>hc_auth := token\<rparr>)"
| "applyHTTPOption (WithAdminAuth token actingAs) c =
     rbind (encodeAdminAuth token actingAs) (\<lambda>adminAuth. Inr (c\<lparr>hc_adminAuth := adminAuth\<rparr>))"
| "applyHTTPOption WithSkipDeploymentURLCheck c = Inr (c\<lparr>hc_skipDeploymentURLCheck := True\<rparr>)"
| "applyHTTPOption (WithWebSocket opt) c = Inr c"

fun applyClientOption :: "app_option \<Rightarrow> AppClient \<Rightarrow> AppClient res" where
  "applyClientOption (WithAuth token) c =
     Inr (c\<lparr>ap_authToken := token, ap_adminAuthToken := [], ap_adminActingAs := []\<rparr>)"
| "applyClientOption (WithAdminAuth token actingAs) c =
     rbind (encodeAdminAuth token actingAs) (\<lambda>_.
       Inr (c\<lparr>ap_adminAuthToken := token, ap_adminActingAs := cloneUserIdentityAttributes actingAs, ap_authToken := []\<rparr>))"
| "applyClientOption (WithClientID clientID) c = Inr (c\<lparr>ap_webSocketOptions := ap_webSocketOptions c @ [MClientID clientID]\<rparr>)"
| "applyClientOption WithSkipDeploymentURLCheck c = Inr c"
| "applyClientOption (WithHTTPClient httpClient) c = Inr c"
| "applyClientOption (WithWebSocket opt) c = Inr (c\<lparr>ap_webSocketOptions := ap_webSocketOptions c @ [opt]\<rparr>)"

text \<open>\<open>norm\<close> is \<open>normalizeDeploymentURL\<close>.\<close>

definition NewHTTPClient :: "(string \<Rightarrow> bool \<Rightarrow> string res) \<Rightarrow> string \<Rightarrow> app_option list \<Rightarrow> HTTPClient res" where
  "NewHTTPClient norm deploymentURL opts =
     rbind (rfold (\<lambda>c opt. applyHTTPOption opt c) opts
       \<lparr>hc_address = [], hc_clientID = ''go-0.1.0'', hc_skipDeploymentURLCheck = False,
        hc_mutationQueue = Some newReadyMutationQueue, hc_auth = [], hc_adminAuth = [], hc_authCallback = None\<rparr>) (\<lambda>c.
     rbind (norm deploymentURL (hc_skipDeploymentURLCheck c)) (\<lambda>address. Inr (c\<lparr>hc_address := address\<rparr>)))"

definition NewClient :: "(string \<Rightarrow> bool \<Rightarrow> string res) \<Rightarrow> string \<Rightarrow> app_option list \<Rightarrow> AppClient res" where
  "NewClient norm deploymentURL opts =
     rbind (NewHTTPClient norm deploymentURL opts) (\<lambda>httpClient.
     rfold (\<lambda>c opt. applyClientOption opt c) opts
       \<lparr>ap_httpClient = httpClient, ap_deploymentURL = deploymentURL, ap_webSocketClient = None, ap_webSocketOptions = [], ap_authToken = [],
        ap_adminAuthToken = [], ap_adminActingAs = [], ap_authCallback = None\<rparr>)"

section \<open>Methods\<close>

text \<open>A method that forwards a change of authentication to a realtime client that runs.\<close>

definition forward_auth ::
  "(WebSocketClient \<Rightarrow> error option \<times> WebSocketClient) \<Rightarrow> AppClient \<Rightarrow> error option \<times> AppClient" where
  "forward_auth f c =
     (case ap_webSocketClient c of
        None \<Rightarrow> (None, c)
      | Some w \<Rightarrow> (case f w of (e, w) \<Rightarrow> (e, c\<lparr>ap_webSocketClient := Some w\<rparr>)))"

definition SetAuthContext :: "error option \<Rightarrow> string \<Rightarrow> AppClient \<Rightarrow> error option \<times> AppClient" where
  "SetAuthContext r token c =
     forward_auth (ws_setAuth token True r)
       (c\<lparr>ap_httpClient := HTTP_SetAuth token (ap_httpClient c), ap_authToken := token, ap_adminAuthToken := [],
          ap_adminActingAs := [], ap_authCallback := None\<rparr>)"

definition ClearAuthContext :: "error option \<Rightarrow> AppClient \<Rightarrow> error option \<times> AppClient" where
  "ClearAuthContext r c =
     forward_auth (ws_clearAuth True r)
       (c\<lparr>ap_httpClient := HTTP_ClearAuth (ap_httpClient c), ap_authToken := [], ap_adminAuthToken := [],
          ap_adminActingAs := [], ap_authCallback := None\<rparr>)"

definition SetAdminAuthContext ::
  "error option \<Rightarrow> string \<Rightarrow> UserIdentityAttributes list \<Rightarrow> AppClient \<Rightarrow> error option \<times> AppClient" where
  "SetAdminAuthContext r token actingAs c =
     (case HTTP_SetAdminAuth token actingAs (ap_httpClient c) of
        (Inl e, h) \<Rightarrow> (Some e, c\<lparr>ap_httpClient := h\<rparr>)
      | (Inr _, h) \<Rightarrow>
          forward_auth (ws_setAdminAuth token actingAs True r)
            (c\<lparr>ap_httpClient := h, ap_adminAuthToken := token,
               ap_adminActingAs := cloneUserIdentityAttributes actingAs, ap_authToken := [], ap_authCallback := None\<rparr>))"

definition SetAuthCallbackContext :: "user_env \<Rightarrow> error option \<Rightarrow> nat option \<Rightarrow> AppClient \<Rightarrow> error option \<times> AppClient" where
  "SetAuthCallbackContext env r fetcher c =
     (case (case ap_webSocketClient c of
              Some w \<Rightarrow> (case ws_setAuthCallback env fetcher True r w of (e, w) \<Rightarrow> (e, c\<lparr>ap_webSocketClient := Some w\<rparr>))
            | None \<Rightarrow>
                (case fetcher of
                   None \<Rightarrow> (None, c)
                 | Some f \<Rightarrow> (case env f False of Inl e \<Rightarrow> (Some e, c) | Inr _ \<Rightarrow> (None, c)))) of
        (Some e, c) \<Rightarrow> (Some e, c)
      | (None, c) \<Rightarrow>
          (None, c\<lparr>ap_httpClient := HTTP_setAuthCallback fetcher (ap_httpClient c), ap_authCallback := fetcher,
            ap_authToken := [], ap_adminAuthToken := [], ap_adminActingAs := []\<rparr>))"

text \<open>
  \<open>NewWebSocketClient\<close> with the context of the call and the options of the client, for the URL
  of the sync endpoint.
\<close>

definition fresh_realtime :: "Context \<Rightarrow> string res \<Rightarrow> AppClient \<Rightarrow> WebSocketClient res" where
  "fresh_realtime ctx syncURL c =
     rbind (Manager_New syncURL (MClientID ''go-0.1.0'' # ap_webSocketOptions c)) (\<lambda>m. Inr (NewWebSocketClient ctx m))"

text \<open>
  \<open>realtime\<close>: a client that is there is used, else a new one is made from the context of the
  call and gets the stored authentication. No other goroutine stores one meanwhile here.
\<close>

definition install_auth :: "user_env \<Rightarrow> AppClient \<Rightarrow> WebSocketClient \<Rightarrow> error option \<times> WebSocketClient" where
  "install_auth env c w =
     (case ap_authCallback c of
        Some f \<Rightarrow> ws_setAuthCallback env (Some f) False None w
      | None \<Rightarrow>
          if ap_adminAuthToken c \<noteq> [] then ws_setAdminAuth (ap_adminAuthToken c) (ap_adminActingAs c) False None w
          else if ap_authToken c \<noteq> [] then ws_setAuth (ap_authToken c) False None w
          else (None, w))"

definition realtime :: "user_env \<Rightarrow> Context \<Rightarrow> string res \<Rightarrow> AppClient \<Rightarrow> error option \<times> AppClient" where
  "realtime env ctx syncURL c =
     (case ap_webSocketClient c of
        Some w \<Rightarrow> (None, c)
      | None \<Rightarrow>
          (case fresh_realtime ctx syncURL c of
             Inl e \<Rightarrow> (Some e, c)
           | Inr w \<Rightarrow>
               (case install_auth env c w of
                  (Some e, _) \<Rightarrow> (Some e, c)
                | (None, w) \<Rightarrow> (None, c\<lparr>ap_webSocketClient := Some w\<rparr>))))"

text \<open>\<open>Close\<close>, with the result of closing the realtime client.\<close>

definition App_Close :: "error option \<Rightarrow> AppClient \<Rightarrow> error option \<times> AppClient" where
  "App_Close r c =
     (case ap_webSocketClient c of None \<Rightarrow> (None, c) | Some w \<Rightarrow> (r, c\<lparr>ap_webSocketClient := None\<rparr>))"

section \<open>Calls over HTTP\<close>

definition App_QueryValue :: "'s http_env \<Rightarrow> string \<Rightarrow> gval \<Rightarrow> AppClient \<Rightarrow> 's \<Rightarrow> (call_error + Value) \<times> 's" where
  "App_QueryValue env path args c = HTTP_QueryValue env path args (ap_httpClient c)"

definition App_MutationValue ::
  "'s http_env \<Rightarrow> ctx_error option \<Rightarrow> ctx_error option \<Rightarrow> string \<Rightarrow> gval \<Rightarrow> mutationOptions \<Rightarrow> AppClient \<Rightarrow> 's \<Rightarrow>
   (call_error + Value) \<times> 's" where
  "App_MutationValue env cancelled turn path args opts c = HTTP_MutationValue env cancelled turn path args opts (ap_httpClient c)"

definition App_ActionValue :: "'s http_env \<Rightarrow> string \<Rightarrow> gval \<Rightarrow> AppClient \<Rightarrow> 's \<Rightarrow> (call_error + Value) \<times> 's" where
  "App_ActionValue env path args c = HTTP_ActionValue env path args (ap_httpClient c)"

definition App_FunctionValue ::
  "'s http_env \<Rightarrow> string \<Rightarrow> gval \<Rightarrow> string \<Rightarrow> AppClient \<Rightarrow> 's \<Rightarrow> (call_error + Value) \<times> 's" where
  "App_FunctionValue env path args componentPath c = HTTP_FunctionValue env path args componentPath (ap_httpClient c)"

definition App_GetTimestamp :: "'s http_env \<Rightarrow> AppClient \<Rightarrow> 's \<Rightarrow> string res \<times> 's" where
  "App_GetTimestamp env c = HTTP_GetTimestamp env (ap_httpClient c)"

definition App_QueryAtTimestamp ::
  "'s http_env \<Rightarrow> string \<Rightarrow> gval \<Rightarrow> string \<Rightarrow> AppClient \<Rightarrow> 's \<Rightarrow> (call_error + Value) \<times> 's" where
  "App_QueryAtTimestamp env path args timestamp c = HTTP_QueryAtTimestamp env path args timestamp (ap_httpClient c)"

definition App_ConsistentQuery :: "'s http_env \<Rightarrow> string \<Rightarrow> gval \<Rightarrow> AppClient \<Rightarrow> 's \<Rightarrow> (call_error + Value) \<times> 's" where
  "App_ConsistentQuery env path args c = HTTP_ConsistentQuery env path args (ap_httpClient c)"

end
