(* ===== verification/App_Properties.thy ===== *)
theory App_Properties
  imports App_Client
begin

text \<open>
  The authentication of the two halves of a client: calls over HTTP and the realtime
  client use the same credentials, and the exceptions.
\<close>

section \<open>Credentials\<close>

abbreviation rt_fetcher :: "WebSocketClient \<Rightarrow> AuthTokenFetcher option" where
  "rt_fetcher w \<equiv> authFetcher (mg_client (ws_manager w))"

text \<open>What the stored authentication means to the realtime client.\<close>

definition stored_fetcher :: "AppClient \<Rightarrow> AuthTokenFetcher option" where
  "stored_fetcher c =
     (case ap_authCallback c of
        Some f \<Rightarrow> Some (CallbackFetcher f)
      | None \<Rightarrow>
          if ap_adminAuthToken c \<noteq> []
          then Some (StaticFetcher (AdminAuthToken (ap_adminAuthToken c) (syncIdentityAttributes (ap_adminActingAs c))))
          else if ap_authToken c \<noteq> [] then Some (StaticFetcher (UserAuthToken (ap_authToken c)))
          else None)"

text \<open>What it means to the HTTP client.\<close>

definition http_agrees :: "AppClient \<Rightarrow> bool" where
  "http_agrees c \<longleftrightarrow>
     (let h = ap_httpClient c
      in hc_authCallback h = ap_authCallback c \<and>
         (ap_authCallback c = None \<longrightarrow>
            (if ap_adminAuthToken c \<noteq> []
             then encodeAdminAuth (ap_adminAuthToken c) (ap_adminActingAs c) = Inr (hc_adminAuth h)
             else hc_adminAuth h = [] \<and> hc_auth h = ap_authToken c)))"

definition realtime_agrees :: "AppClient \<Rightarrow> bool" where
  "realtime_agrees c \<longleftrightarrow>
     (\<forall>w. ap_webSocketClient c = Some w \<longrightarrow> ws_doneErr w = None \<longrightarrow> rt_fetcher w = stored_fetcher c)"

section \<open>Operations\<close>

text \<open>
  The realtime client also runs on its own (\<open>AEvolve\<close>), which does not change its
  credentials and does not revive it.
\<close>

datatype app_op =
    ASetAuth "error option" string
  | AClearAuth "error option"
  | ASetAdminAuth "error option" string "UserIdentityAttributes list"
  | ASetAuthCallback user_env "error option" "nat option"
  | ARealtime user_env Context "string res"
  | AClose "error option"
  | AEvolve WebSocketClient

fun app_exec :: "app_op \<Rightarrow> AppClient \<Rightarrow> AppClient" where
  "app_exec (ASetAuth r token) c = snd (SetAuthContext r token c)"
| "app_exec (AClearAuth r) c = snd (ClearAuthContext r c)"
| "app_exec (ASetAdminAuth r token actingAs) c = snd (SetAdminAuthContext r token actingAs c)"
| "app_exec (ASetAuthCallback env r fetcher) c = snd (SetAuthCallbackContext env r fetcher c)"
| "app_exec (ARealtime env ctx syncURL) c = snd (realtime env ctx syncURL c)"
| "app_exec (AClose r) c = snd (App_Close r c)"
| "app_exec (AEvolve w) c =
     (case ap_webSocketClient c of
        None \<Rightarrow> c
      | Some v \<Rightarrow>
          if rt_fetcher w = rt_fetcher v \<and> (ws_doneErr v \<noteq> None \<longrightarrow> ws_doneErr w \<noteq> None)
          then c\<lparr>ap_webSocketClient := Some w\<rparr> else c)"

text \<open>The operations for which the credentials stay together: no empty token, and a callback is flushed.\<close>

fun good_op :: "app_op \<Rightarrow> bool" where
  "good_op (ASetAuth r token) = (token \<noteq> [])"
| "good_op (ASetAdminAuth r token actingAs) = (token \<noteq> [])"
| "good_op (ASetAuthCallback env r fetcher) = (r = None)"
| "good_op _ = True"

lemma clone_id [simp]: "cloneUserIdentityAttributes xs = xs"
  by (auto simp: cloneUserIdentityAttributes_def option.map_ident intro: map_idI)

lemma encodeAdminAuth_nonempty: "encodeAdminAuth token actingAs = Inr a \<Longrightarrow> token \<noteq> [] \<Longrightarrow> a \<noteq> []"
  by (auto simp: encodeAdminAuth_def res_simps split: list.splits option.splits if_splits)

lemma ws_doneErr_manager [simp]: "ws_doneErr (set_manager m w) = ws_doneErr w"
  by (simp add: ws_doneErr_def)

lemma queueAuth_fetcher [simp]: "authFetcher (snd (queueAuth t c)) = authFetcher c" "fst (queueAuth t c) = Inr ()"
  by (simp_all add: queueAuth_def Let_def)

lemmas manager_auth = Manager_SetAuth_def Manager_SetAdminAuth_def Manager_ClearAuth_def Manager_SetAuthCallback_def
  under_lock_def SetAuth_def SetAdminAuth_def ClearAuth_def SetAuthCallback_def Let_def

lemmas ws_ops = ws_setAuth_def ws_setAdminAuth_def ws_clearAuth_def ws_setAuthCallback_def ws_auth_def

lemma ws_auth_fetcher:
  assumes "ws_doneErr w = None"
  shows "rt_fetcher (snd (ws_setAuth token flush r w)) = Some (StaticFetcher (UserAuthToken token))"
    and "rt_fetcher (snd (ws_setAdminAuth token actingAs flush r w)) =
      Some (StaticFetcher (AdminAuthToken token (syncIdentityAttributes actingAs)))"
    and "rt_fetcher (snd (ws_clearAuth flush r w)) = None"
  using assms by (auto simp: ws_ops manager_auth queueAuth_def split: prod.split sum.split)

lemma ws_auth_done: "ws_doneErr (snd (ws_auth f flush r w)) = ws_doneErr w"
  by (auto simp: ws_auth_def split: option.split prod.split sum.split)

lemma ws_ops_done [simp]:
  "ws_doneErr (snd (ws_setAuth token flush r w)) = ws_doneErr w"
  "ws_doneErr (snd (ws_setAdminAuth token actingAs flush r w)) = ws_doneErr w"
  "ws_doneErr (snd (ws_clearAuth flush r w)) = ws_doneErr w"
  "ws_doneErr (snd (ws_setAuthCallback env fetcher flush r w)) = ws_doneErr w"
  by (simp_all add: ws_setAuth_def ws_setAdminAuth_def ws_clearAuth_def ws_setAuthCallback_def ws_auth_done)

lemma ws_callback_fetcher:
  assumes "ws_doneErr w = None" and "ws_setAuthCallback env fetcher flush None w = (e, w')"
  shows "e = None \<Longrightarrow> rt_fetcher w' = map_option CallbackFetcher fetcher" "e \<noteq> None \<Longrightarrow> rt_fetcher w' = rt_fetcher w"
  using assms by (auto simp: ws_ops manager_auth queueAuth_def adaptUserTokenFetcher_def ws_flush_def
      split: option.splits sum.splits if_splits)

section \<open>The invariant\<close>

definition agree :: "AppClient \<Rightarrow> bool" where
  "agree c \<longleftrightarrow> http_agrees c \<and> realtime_agrees c"

lemma agrees_frame [simp]:
  "http_agrees (c\<lparr>ap_webSocketClient := w\<rparr>) = http_agrees c"
  "stored_fetcher (c\<lparr>ap_webSocketClient := w\<rparr>) = stored_fetcher c"
  by (simp_all add: http_agrees_def stored_fetcher_def Let_def cong: option.case_cong if_cong)

text \<open>A change of the stored credentials that is forwarded.\<close>

lemma forward_agrees:
  assumes "http_agrees c"
    and "\<And>w. ap_webSocketClient c = Some w \<Longrightarrow> ws_doneErr w = None \<Longrightarrow> rt_fetcher (snd (f w)) = stored_fetcher c"
    and "\<And>w. ws_doneErr (snd (f w)) = ws_doneErr w"
  shows "agree (snd (forward_auth f c))"
proof (cases "ap_webSocketClient c")
  case (Some w)
  obtain e w' where f: "f w = (e, w')"
    by fastforce
  have "ws_doneErr w' = ws_doneErr w" "ws_doneErr w = None \<Longrightarrow> rt_fetcher w' = stored_fetcher c"
    using assms(2) [OF Some] assms(3) [of w] by (simp_all add: f)
  then show ?thesis
    using assms(1) Some f by (simp add: agree_def forward_auth_def realtime_agrees_def)
qed (use assms(1) in \<open>simp add: agree_def forward_auth_def realtime_agrees_def\<close>)

lemma agree_SetAuth: "token \<noteq> [] \<Longrightarrow> agree (snd (SetAuthContext r token c))"
  unfolding SetAuthContext_def
  by (rule forward_agrees)
    (simp_all add: http_agrees_def HTTP_SetAuth_def Let_def ws_auth_fetcher stored_fetcher_def)

lemma agree_ClearAuth: "agree (snd (ClearAuthContext r c))"
  unfolding ClearAuthContext_def
  by (rule forward_agrees)
    (simp_all add: http_agrees_def HTTP_ClearAuth_def stored_fetcher_def ws_auth_fetcher)

lemma agree_SetAdminAuth:
  assumes "token \<noteq> []" and "agree c"
  shows "agree (snd (SetAdminAuthContext r token actingAs c))"
proof (cases "encodeAdminAuth token actingAs")
  case (Inl e)
  then show ?thesis
    using assms(2) by (simp add: SetAdminAuthContext_def HTTP_SetAdminAuth_def)
next
  case (Inr a)
  then have "HTTP_SetAdminAuth token actingAs (ap_httpClient c) =
      (Inr (), (ap_httpClient c)\<lparr>hc_adminAuth := a, hc_auth := [], hc_authCallback := None\<rparr>)"
    using encodeAdminAuth_nonempty [OF Inr assms(1)] by (simp add: HTTP_SetAdminAuth_def Let_def)
  then have "SetAdminAuthContext r token actingAs c = forward_auth (ws_setAdminAuth token actingAs True r)
      (c\<lparr>ap_httpClient := (ap_httpClient c)\<lparr>hc_adminAuth := a, hc_auth := [], hc_authCallback := None\<rparr>,
         ap_adminAuthToken := token, ap_adminActingAs := actingAs, ap_authToken := [], ap_authCallback := None\<rparr>)"
    by (simp add: SetAdminAuthContext_def)
  then show ?thesis
    by (simp, intro forward_agrees)
      (use Inr assms(1) in \<open>simp_all add: http_agrees_def stored_fetcher_def ws_auth_fetcher\<close>)
qed

lemma agree_SetAuthCallback:
  assumes "agree c"
  shows "agree (snd (SetAuthCallbackContext env None fetcher c))"
proof (cases "ap_webSocketClient c")
  case None
  then show ?thesis
    using assms by (auto simp: SetAuthCallbackContext_def agree_def http_agrees_def realtime_agrees_def HTTP_setAuthCallback_def
        Let_def split: option.split sum.split)
next
  case (Some w)
  obtain e w' where w': "ws_setAuthCallback env fetcher True None w = (e, w')"
    by fastforce
  have d: "ws_doneErr w' = ws_doneErr w"
    using ws_ops_done(4) [of env fetcher True None w] by (simp add: w')
  show ?thesis
  proof (cases e)
    case None
    with ws_callback_fetcher [OF _ w'] d Some w' show ?thesis
      by (auto simp: SetAuthCallbackContext_def agree_def http_agrees_def realtime_agrees_def HTTP_setAuthCallback_def
          stored_fetcher_def split: option.split)
  next
    case (Some x)
    with ws_callback_fetcher [OF _ w'] d \<open>ap_webSocketClient c = _\<close> w' assms show ?thesis
      by (auto simp: SetAuthCallbackContext_def agree_def realtime_agrees_def)
  qed
qed

text \<open>A new realtime client has no credentials of its own: no option brings a base client.\<close>

fun no_base_client :: "manager_option \<Rightarrow> bool" where
  "no_base_client (MBaseClient c) = False"
| "no_base_client _ = True"

abbreviation plain_options :: "AppClient \<Rightarrow> bool" where
  "plain_options c \<equiv> list_all no_base_client (ap_webSocketOptions c)"

lemma options_keep_client:
  "apply_manager_options opts m = Inr m' \<Longrightarrow> list_all no_base_client opts \<Longrightarrow> mg_client m' = mg_client m"
proof (induction opts arbitrary: m)
  case (Cons opt opts)
  then obtain m1 where "apply_manager_option m opt = Inr m1" "apply_manager_options opts m1 = Inr m'"
    by (auto simp: res_simps)
  with Cons show ?case
    by (cases opt) (auto split: if_splits option.splits)
qed simp

lemma fresh_fetcher:
  assumes "fresh_realtime ctx syncURL c = Inr w" and "plain_options c"
  shows "rt_fetcher w = None" "ws_doneErr w = map_option CtxError (cx_err ctx)"
proof -
  obtain m where w: "w = NewWebSocketClient ctx m" and "mg_client m = New"
    using assms options_keep_client [of "MClientID ''go-0.1.0'' # ap_webSocketOptions c"]
    by (auto simp: fresh_realtime_def Manager_New_def res_simps simp del: apply_manager_options.simps)
  then show "rt_fetcher w = None" "ws_doneErr w = map_option CtxError (cx_err ctx)"
    by (simp_all add: NewWebSocketClient_def new_world_def New_def ws_doneErr_def)
qed

lemma install_fetcher:
  assumes "install_auth env c w = (None, w')" and "rt_fetcher w = None" "ws_doneErr w = None"
  shows "rt_fetcher w' = stored_fetcher c"
proof (cases "ap_authCallback c")
  case (Some f)
  with assms have "ws_setAuthCallback env (Some f) False None w = (None, w')"
    by (simp add: install_auth_def)
  from ws_callback_fetcher(1) [OF assms(3) this] show ?thesis
    by (simp add: stored_fetcher_def Some)
next
  case None
  with assms ws_auth_fetcher(1) [OF assms(3), of _ False None] ws_auth_fetcher(2) [OF assms(3), of _ _ False None]
  show ?thesis
    by (auto simp: install_auth_def stored_fetcher_def split: if_splits) (metis snd_conv)+
qed

lemma install_done: "ws_doneErr (snd (install_auth env c w)) = ws_doneErr w"
  by (simp add: install_auth_def split: option.split)

lemma agree_realtime:
  assumes "agree c" and "plain_options c"
  shows "agree (snd (realtime env ctx syncURL c))"
proof (cases "ap_webSocketClient c")
  case None
  show ?thesis
  proof (cases "fresh_realtime ctx syncURL c")
    case (Inr w)
    obtain e w' where i: "install_auth env c w = (e, w')"
      by fastforce
    show ?thesis
    proof (cases e)
      case None
      with install_fetcher [of env c w w'] install_done [of env c w] i fresh_fetcher(1) [OF Inr assms(2)] assms(1)
        \<open>ap_webSocketClient c = None\<close> Inr show ?thesis
        by (simp add: realtime_def agree_def realtime_agrees_def)
    qed (use i Inr assms(1) \<open>ap_webSocketClient c = None\<close> in \<open>simp add: realtime_def\<close>)
  qed (use assms(1) None in \<open>simp add: realtime_def\<close>)
qed (use assms(1) in \<open>simp add: realtime_def\<close>)

lemma app_exec_options [simp]: "ap_webSocketOptions (app_exec x c) = ap_webSocketOptions c"
  by (cases x) (auto simp: SetAuthContext_def ClearAuthContext_def SetAdminAuthContext_def SetAuthCallbackContext_def
      forward_auth_def realtime_def App_Close_def HTTP_SetAdminAuth_def split: option.splits prod.splits sum.splits)

definition app_inv :: "AppClient \<Rightarrow> bool" where
  "app_inv c \<longleftrightarrow> agree c \<and> plain_options c"

lemma agree_exec:
  assumes "good_op x" and "agree c" and "plain_options c"
  shows "agree (app_exec x c)"
proof (cases x)
  case (AEvolve w)
  then show ?thesis
    using assms by (auto simp: agree_def realtime_agrees_def split: option.split)
next
  case (AClose r)
  then show ?thesis
    using assms by (auto simp: agree_def realtime_agrees_def App_Close_def split: option.split)
qed (use assms in \<open>simp_all add: agree_SetAuth agree_ClearAuth agree_SetAdminAuth agree_SetAuthCallback agree_realtime\<close>)

definition app_step :: "AppClient \<Rightarrow> AppClient \<Rightarrow> bool" where
  "app_step c d \<longleftrightarrow> (\<exists>x. good_op x \<and> d = app_exec x c)"

lemma app_inv_step: "app_inv c \<Longrightarrow> app_step c d \<Longrightarrow> app_inv d"
  by (auto simp: app_inv_def app_step_def agree_exec)

text \<open>
  The options with which the credentials start together: an admin key is not empty and is
  not followed by the option of a user token, and no option brings a base client.
\<close>

fun user_option :: "app_option \<Rightarrow> bool" where
  "user_option (WithAuth token) = True"
| "user_option _ = False"

fun good_options :: "app_option list \<Rightarrow> bool" where
  "good_options [] = True"
| "good_options (WithAdminAuth token actingAs # opts) = (token \<noteq> [] \<and> \<not> list_ex user_option opts \<and> good_options opts)"
| "good_options (WithWebSocket y # opts) = (no_base_client y \<and> good_options opts)"
| "good_options (_ # opts) = good_options opts"

definition new_app :: "app_option list \<Rightarrow> AppClient \<Rightarrow> bool" where
  "new_app opts c \<longleftrightarrow> (\<exists>norm url. NewClient norm url opts = Inr c) \<and> good_options opts"

text \<open>The credentials of an HTTP client and of a client, while the options are applied to each.\<close>

definition start_together :: "HTTPClient \<Rightarrow> AppClient \<Rightarrow> bool" where
  "start_together h c \<longleftrightarrow> hc_authCallback h = None \<and> ap_authCallback c = None \<and> plain_options c \<and>
     (if ap_adminAuthToken c \<noteq> [] then encodeAdminAuth (ap_adminAuthToken c) (ap_adminActingAs c) = Inr (hc_adminAuth h)
      else hc_adminAuth h = [] \<and> hc_auth h = ap_authToken c)"

lemma options_together:
  assumes "good_options opts" "ap_adminAuthToken c \<noteq> [] \<Longrightarrow> \<not> list_ex user_option opts" "start_together h c"
    and "rfold (\<lambda>c opt. applyHTTPOption opt c) opts h = Inr h'"
    and "rfold (\<lambda>c opt. applyClientOption opt c) opts c = Inr c'"
  shows "start_together h' c' \<and> ap_httpClient c' = ap_httpClient c \<and> ap_webSocketClient c' = ap_webSocketClient c"
  using assms
proof (induction opts arbitrary: h c)
  case (Cons opt opts)
  obtain h1 c1 where one: "applyHTTPOption opt h = Inr h1" "applyClientOption opt c = Inr c1"
    and more: "rfold (\<lambda>c opt. applyHTTPOption opt c) opts h1 = Inr h'"
      "rfold (\<lambda>c opt. applyClientOption opt c) opts c1 = Inr c'"
    using Cons.prems(4,5) by (auto simp: res_simps)
  have "good_options opts" "ap_adminAuthToken c1 \<noteq> [] \<Longrightarrow> \<not> list_ex user_option opts" "start_together h1 c1"
    "ap_httpClient c1 = ap_httpClient c" "ap_webSocketClient c1 = ap_webSocketClient c"
    using Cons.prems(1-3) one by (cases opt; auto simp: start_together_def res_simps split: if_splits option.splits)+
  with Cons.IH [OF _ _ _ more] show ?case
    by simp
qed simp

lemma new_app_inv:
  assumes "new_app opts c"
  shows "app_inv c"
proof -
  obtain h address url where
    h: "rfold (\<lambda>c opt. applyHTTPOption opt c) opts \<lparr>hc_address = [], hc_clientID = ''go-0.1.0'',
      hc_skipDeploymentURLCheck = False, hc_mutationQueue = Some newReadyMutationQueue, hc_auth = [], hc_adminAuth = [],
      hc_authCallback = None\<rparr> = Inr h"
    and c: "rfold (\<lambda>c opt. applyClientOption opt c) opts \<lparr>ap_httpClient = h\<lparr>hc_address := address\<rparr>, ap_deploymentURL = url,
      ap_webSocketClient = None, ap_webSocketOptions = [], ap_authToken = [], ap_adminAuthToken = [], ap_adminActingAs = [],
      ap_authCallback = None\<rparr> = Inr c"
    using assms by (auto simp: new_app_def NewClient_def NewHTTPClient_def res_simps)
  have "good_options opts"
    using assms by (simp add: new_app_def)
  from options_together [OF this _ _ h c] show ?thesis
    by (auto simp: start_together_def app_inv_def agree_def http_agrees_def realtime_agrees_def Let_def)
qed

interpretation app: machine "new_app opts" app_step app_inv
  by unfold_locales (auto intro: new_app_inv app_inv_step)

section \<open>Properties\<close>

text \<open>The header and the token that stand for the same credentials.\<close>

definition same_credentials :: "HTTPClient \<Rightarrow> AuthTokenFetcher option \<Rightarrow> bool" where
  "same_credentials h f \<longleftrightarrow>
     (case f of
        None \<Rightarrow> hc_authCallback h = None \<and> hc_adminAuth h = [] \<and> hc_auth h = []
      | Some (CallbackFetcher n) \<Rightarrow> hc_authCallback h = Some n
      | Some (StaticFetcher t) \<Rightarrow>
          hc_authCallback h = None \<and>
          (t = UserAuthToken (hc_auth h) \<and> hc_auth h \<noteq> [] \<and> hc_adminAuth h = [] \<or>
           (\<exists>token actingAs. t = AdminAuthToken token (syncIdentityAttributes actingAs) \<and>
              encodeAdminAuth token actingAs = Inr (hc_adminAuth h) \<and> hc_adminAuth h \<noteq> [])))"

text \<open>
  C6: calls over HTTP and the realtime client use the same credentials, for a client whose
  options have no empty admin key, no user token after an admin key and no base client: after
  any sequence of changes of the credentials with tokens that are not empty, in which the
  flush that installs a callback does not fail, and of starts, with any context, and stops of
  the realtime client, a realtime client that runs has the token, the admin key with its
  identity, the callback or the absence of credentials that the next HTTP request is sent
  with.
\<close>

theorem credentials_stay_together:
  assumes "new_app opts c0" and "app_step\<^sup>*\<^sup>* c0 c" and "ap_webSocketClient c = Some w" and "ws_doneErr w = None"
  shows "same_credentials (ap_httpClient c) (rt_fetcher w)"
proof -
  have "agree c"
    using app.inv_reachable [OF assms(1,2)] by (simp add: app_inv_def)
  then have "http_agrees c" "rt_fetcher w = stored_fetcher c"
    using assms(3,4) by (simp_all add: agree_def realtime_agrees_def)
  then show ?thesis
    using encodeAdminAuth_nonempty [of "ap_adminAuthToken c" "ap_adminActingAs c" "hc_adminAuth (ap_httpClient c)"]
    by (auto simp: same_credentials_def http_agrees_def stored_fetcher_def Let_def split: option.split if_splits)
qed

definition example_app :: "app_option list \<Rightarrow> AppClient res" where
  "example_app opts = NewClient (\<lambda>url _. Inr url) ''https://example.convex.cloud'' opts"

definition start_realtime :: app_op where
  "start_realtime = ARealtime (\<lambda>_ _. Inr ''jwt'') context_Background (Inr ''wss://example.convex.cloud/api/sync'')"

text \<open>The value of the header and the fetcher of the realtime client, after some operations.\<close>

definition credentials :: "app_option list \<Rightarrow> app_op list \<Rightarrow> (string \<times> AuthTokenFetcher option) option" where
  "credentials opts xs =
     (case example_app opts of
        Inl e \<Rightarrow> None
      | Inr c \<Rightarrow>
          let d = fold app_exec xs c
          in case ap_webSocketClient d of
               None \<Rightarrow> None
             | Some w \<Rightarrow>
                 (case ws_doneErr w of
                    Some e \<Rightarrow> None
                  | None \<Rightarrow>
                      Some (if hc_adminAuth (ap_httpClient d) \<noteq> [] then ''Convex '' @ hc_adminAuth (ap_httpClient d)
                            else if hc_auth (ap_httpClient d) \<noteq> [] then ''Bearer '' @ hc_auth (ap_httpClient d) else [],
                            rt_fetcher w)))"

theorem credentials_stay_together_witness:
  "\<exists>(c :: AppClient) w. ap_webSocketClient c = Some w \<and> same_credentials (ap_httpClient c) (rt_fetcher w) \<and> hc_auth (ap_httpClient c) = ''t''"
proof -
  obtain c0 where c0: "example_app [] = Inr c0"
    by (simp add: example_app_def NewClient_def NewHTTPClient_def)
  then have new: "new_app [] c0"
    by (auto simp: new_app_def example_app_def)
  let ?d = "app_exec (ASetAuth None ''t'') (app_exec start_realtime c0)"
  have "app_step c0 (app_exec start_realtime c0)" "app_step (app_exec start_realtime c0) ?d"
    unfolding app_step_def
    by (rule exI [of _ start_realtime], simp add: start_realtime_def) (rule exI [of _ "ASetAuth None ''t''"], simp)
  then have steps: "app_step\<^sup>*\<^sup>* c0 ?d"
    by (meson converse_rtranclp_into_rtranclp rtranclp.rtrancl_refl)
  have "case example_app [] of Inl _ \<Rightarrow> False | Inr c \<Rightarrow>
      (let d = app_exec (ASetAuth None ''t'') (app_exec start_realtime c)
       in hc_auth (ap_httpClient d) = ''t'' \<and> (case ap_webSocketClient d of None \<Rightarrow> False | Some w \<Rightarrow> ws_doneErr w = None))"
    by code_simp
  then obtain w where "hc_auth (ap_httpClient ?d) = ''t''" "ap_webSocketClient ?d = Some w" "ws_doneErr w = None"
    by (auto simp: c0 Let_def split: option.splits)
  with credentials_stay_together [OF new steps] show ?thesis
    by blast
qed

text \<open>
  in three cases the two halves of a client are left with different credentials: when
  it is made with an admin key and then a user token, the HTTP client prefers the key and
  the realtime client the token; when an admin key is replaced by an empty token, the HTTP
  client keeps the key; and when a callback is installed but its flush fails, the realtime
  client already has the callback while HTTP requests are sent with the old token.
\<close>

theorem credentials_can_split:
  "credentials [WithAdminAuth ''k'' [], WithAuth ''t''] [start_realtime] =
     Some (''Convex k'', Some (StaticFetcher (UserAuthToken ''t''))) \<and>
   credentials [] [start_realtime, ASetAdminAuth None ''k'' [], ASetAuth None []] =
     Some (''Convex k'', Some (StaticFetcher (UserAuthToken []))) \<and>
   credentials [WithAuth ''t''] [start_realtime, ASetAuthCallback (\<lambda>_ _. Inr ''jwt'') (Some (CtxError DeadlineExceeded)) (Some 0)] =
     Some (''Bearer t'', Some (CallbackFetcher 0))"
  by code_simp

end
