(* ===== verification/App_Url.thy ===== *)
theory App_Url
  imports Go_Url App_Properties
begin

text \<open>
  The addresses of a deployment: \<open>normalizeDeploymentURL\<close> of \<open>client_options.go\<close> for calls by
  HTTP, and \<open>WebSocketURL\<close> of \<open>internal/syncclient/websocket_manager.go\<close> for the connection.
\<close>

definition TrimRight :: "char \<Rightarrow> string \<Rightarrow> string" where
  "TrimRight c s = rev (dropWhile (\<lambda>x. x = c) (rev s))"

definition normalizeDeploymentURL :: "(string \<Rightarrow> string option) \<Rightarrow> string \<Rightarrow> bool \<Rightarrow> string res" where
  "normalizeDeploymentURL ip_literal deploymentURL skipCheck =
     (if TrimSpace deploymentURL = [] then Inl (SyncError EmptyDeploymentURL)
      else case Parse ip_literal deploymentURL of
             None \<Rightarrow> Inl (SyncError (InvalidDeploymentURL deploymentURL))
           | Some parsed \<Rightarrow>
               if u_Scheme parsed \<noteq> ''http'' \<and> u_Scheme parsed \<noteq> ''https'' then Inl (AppError SchemeNotHTTP)
               else if u_Host parsed = [] then Inl (SyncError MissingHost)
               else if \<not> skipCheck \<and> HasSuffix (u_Host parsed) ''.convex.site'' then Inl (AppError (SiteURL deploymentURL))
               else Inr (TrimRight (CHR ''/'') (Url_String
                      (parsed\<lparr>u_Path := TrimRight (CHR ''/'') (u_Path parsed), u_RawQuery := [], u_Fragment := []\<rparr>))))"

definition syncWebSocketPath :: string where
  "syncWebSocketPath = ''/api/sync''"

definition WebSocketURL :: "(string \<Rightarrow> string option) \<Rightarrow> string \<Rightarrow> string res" where
  "WebSocketURL ip_literal deploymentURL =
     (if TrimSpace deploymentURL = [] then Inl (SyncError EmptyDeploymentURL)
      else case Parse ip_literal deploymentURL of
             None \<Rightarrow> Inl (SyncError (InvalidDeploymentURL deploymentURL))
           | Some parsed \<Rightarrow>
               rbind (if u_Scheme parsed = ''http'' then Inr ''ws''
                      else if u_Scheme parsed = ''https'' then Inr ''wss''
                      else if u_Scheme parsed = ''ws'' \<or> u_Scheme parsed = ''wss'' then Inr (u_Scheme parsed)
                      else Inl (SyncError (UnsupportedScheme (u_Scheme parsed)))) (\<lambda>scheme.
               if u_Host parsed = [] then Inl (SyncError MissingHost)
               else Inr (Url_String (parsed\<lparr>u_Scheme := scheme, u_Path := syncWebSocketPath, u_RawQuery := [], u_Fragment := []\<rparr>))))"

section \<open>Lemmas on escaping\<close>

lemma unescape_id:
  "list_all (\<lambda>c. c \<noteq> CHR ''%'' \<and> (mode = encodeHost \<longrightarrow> \<not> shouldEscape c mode)) s \<Longrightarrow> unescape mode s = Some s"
  by (induction s) auto

lemma escape_id: "list_all (\<lambda>c. \<not> shouldEscape c mode) s \<Longrightarrow> escape mode s = s"
  by (induction s) (auto simp: escape_def)

lemma strip_front_set: "set s \<subseteq> set (strip_front seqs s) \<union> (\<Union>q \<in> set seqs. set q)"
proof (induction seqs s rule: strip_front.induct)
  case (1 seqs s)
  show ?case
  proof (cases "find (\<lambda>q. q \<noteq> [] \<and> HasPrefix s q) seqs")
    case None
    then show ?thesis by (simp add: strip_front.simps [of seqs s])
  next
    case (Some q)
    then have q: "q \<in> set seqs" "HasPrefix s q"
      by (auto simp: find_Some_iff)
    then have "set s = set q \<union> set (drop (length q) s)"
      by (auto simp: HasPrefix_iff)
    with "1.IH" [OF Some] q Some show ?thesis
      by (auto simp: strip_front.simps [of seqs s])
  qed
qed

lemma TrimSpace_nonempty:
  assumes "c \<in> set s" and "c \<notin> (\<Union>q \<in> set space_seqs. set q)"
  shows "TrimSpace s \<noteq> []"
proof
  assume "TrimSpace s = []"
  then have "strip_front (map rev space_seqs) (rev (strip_front space_seqs s)) = []"
    by (simp add: TrimSpace_def)
  with strip_front_set [of "rev (strip_front space_seqs s)" "map rev space_seqs"]
  have "set (strip_front space_seqs s) \<subseteq> (\<Union>q \<in> set space_seqs. set q)" by simp
  with strip_front_set [of s space_seqs] have "set s \<subseteq> (\<Union>q \<in> set space_seqs. set q)" by blast
  with assms show False by blast
qed

lemma TrimRight_id: "s = [] \<or> last s \<noteq> c \<Longrightarrow> TrimRight c s = s"
  by (cases s rule: rev_cases) (auto simp: TrimRight_def)

lemma TrimRight_last: "TrimRight c s = [] \<or> last (TrimRight c s) \<noteq> c"
  using hd_dropWhile [of "\<lambda>x. x = c" "rev s"] by (auto simp: TrimRight_def last_rev)

lemma TrimRight_subset: "set (TrimRight c s) \<subseteq> set s"
  unfolding TrimRight_def set_rev by (metis set_dropWhileD set_rev subsetI)

lemma TrimRight_hd: "TrimRight c s \<noteq> [] \<Longrightarrow> hd (TrimRight c s) = hd s"
proof -
  assume n: "TrimRight c s \<noteq> []"
  have "s = TrimRight c s @ rev (takeWhile (\<lambda>x. x = c) (rev s))"
    unfolding TrimRight_def rev_append [symmetric] takeWhile_dropWhile_id by simp
  with n show ?thesis by (metis hd_append2)
qed

section \<open>Plain URLs\<close>

definition host_char :: "char \<Rightarrow> bool" where
  "host_char c \<longleftrightarrow> isAlnum c \<or> c = CHR ''-'' \<or> c = CHR ''.''"

text \<open>A host name, perhaps with a port.\<close>

definition plain_host :: "string \<Rightarrow> bool" where
  "plain_host h =
     (case Cut (CHR '':'') h of (name, port, _) \<Rightarrow> name \<noteq> [] \<and> list_all host_char name \<and> list_all isASCIIDigit port)"

definition path_char :: "char \<Rightarrow> bool" where
  "path_char c \<longleftrightarrow> host_char c \<or> c = CHR ''_'' \<or> c = CHR ''~'' \<or> c = CHR ''/''"

definition plain_path :: "string \<Rightarrow> bool" where
  "plain_path p \<longleftrightarrow> list_all path_char p \<and> (p = [] \<or> hd p = CHR ''/'')"

definition printable :: "char \<Rightarrow> bool" where
  "printable c \<longleftrightarrow> 32 \<le> (of_char c :: nat) \<and> (of_char c :: nat) \<noteq> 127"

text \<open>Nothing, or a question mark and a query that is not empty.\<close>

definition plain_query :: "string \<Rightarrow> bool" where
  "plain_query q \<longleftrightarrow> q = [] \<or> hd q = CHR ''?'' \<and> tl q \<noteq> [] \<and> list_all printable q \<and> CHR ''#'' \<notin> set q"

definition plain_fragment :: "string \<Rightarrow> bool" where
  "plain_fragment f \<longleftrightarrow> f = [] \<or> hd f = CHR ''#'' \<and> CHR ''%'' \<notin> set f"

lemma plain_host_chars: "plain_host h \<Longrightarrow> h \<noteq> [] \<and> (\<forall>c \<in> set h. host_char c \<or> c = CHR '':'')"
  using Cut_spec [of "CHR '':''" h] unfolding plain_host_def
  by (auto split: prod.splits if_splits simp: list_all_iff host_char_def isAlnum_def)

lemma alnum_bounds: "isAlnum c \<Longrightarrow> 48 \<le> (of_char c :: nat) \<and> (of_char c :: nat) \<le> 122"
  by (auto simp: isAlnum_def isASCIIAlpha_def isASCIIDigit_def less_eq_char_def)

lemma not_alnum [simp]:
  "\<not> isAlnum (CHR ''/'')" "\<not> isAlnum (CHR ''@'')" "\<not> isAlnum (CHR ''['')" "\<not> isAlnum (CHR ''%'')" "\<not> isAlnum (CHR ''?'')"
  "\<not> isAlnum (CHR ''#'')" "\<not> isAlnum (CHR '':'')"
  by (simp_all add: isAlnum_def isASCIIAlpha_def isASCIIDigit_def)

lemma plain_host_free:
  assumes "plain_host h"
  shows "CHR ''/'' \<notin> set h" "CHR ''@'' \<notin> set h" "CHR ''['' \<notin> set h" "CHR ''%'' \<notin> set h" "CHR ''?'' \<notin> set h" "CHR ''#'' \<notin> set h"
  using plain_host_chars [OF assms] by (auto simp: host_char_def)

lemma alnum_plain: "isAlnum c \<Longrightarrow> \<not> shouldEscape c mode"
  by (simp add: shouldEscape_def)

lemma mark_plain:
  "\<not> shouldEscape (CHR ''-'') mode" "\<not> shouldEscape (CHR ''.'') mode" "\<not> shouldEscape (CHR ''_'') mode"
  "\<not> shouldEscape (CHR ''~'') mode" "\<not> shouldEscape (CHR ''/'') encodePath" "\<not> shouldEscape (CHR '':'') encodeHost"
  by (simp_all add: shouldEscape_def)

lemma host_char_plain: "host_char c \<or> c = CHR '':'' \<Longrightarrow> c \<noteq> CHR ''%'' \<and> \<not> shouldEscape c encodeHost"
  unfolding host_char_def using alnum_plain mark_plain not_alnum(4) by (elim disjE) (metis, simp_all)

lemma path_char_plain: "path_char c \<Longrightarrow> c \<noteq> CHR ''%'' \<and> \<not> shouldEscape c encodePath"
  unfolding path_char_def host_char_def using alnum_plain mark_plain not_alnum(4) by (elim disjE) (metis, simp_all)

lemma host_unescaped:
  assumes "plain_host h"
  shows "unescape encodeHost h = Some h" "escape encodeHost h = h"
proof -
  have "\<forall>c \<in> set h. c \<noteq> CHR ''%'' \<and> \<not> shouldEscape c encodeHost"
    using plain_host_chars [OF assms] host_char_plain by blast
  then show "unescape encodeHost h = Some h" "escape encodeHost h = h"
    by (intro unescape_id escape_id; simp add: list_all_iff)+
qed

lemma plain_host_parse: "plain_host h \<Longrightarrow> parseAuthority ip_literal h = Some (None, h)"
proof -
  assume h: "plain_host h"
  obtain name port f where c: "Cut (CHR '':'') h = (name, port, f)" by (cases "Cut (CHR '':'') h")
  have p: "list_all isASCIIDigit port" and n: "CHR '':'' \<notin> set name"
    using h c Cut_spec [OF c] by (auto simp: plain_host_def)
  have colon: "CHR '':'' \<notin> set port"
    using p by (auto simp: list_all_iff isASCIIDigit_def less_eq_char_def)
  have "cut_last (CHR '':'') h = None \<or> cut_last (CHR '':'') h = Some (name, port)"
    using Cut_spec [OF c] colon by (cases f) (auto simp: cut_last_None cut_last_Some)
  with p host_unescaped(1) [OF h] plain_host_free [OF h] have "parseHost ip_literal h = Some h"
    by (auto simp: parseHost_def validOptionalPort_def)
  moreover have "cut_last (CHR ''@'') h = None"
    using plain_host_free(2) [OF h] by (simp add: cut_last_None)
  ultimately show ?thesis
    by (simp add: parseAuthority_def)
qed

lemma path_unescaped:
  assumes "list_all path_char p"
  shows "unescape encodePath p = Some p" "escape encodePath p = p"
proof -
  have "\<forall>c \<in> set p. c \<noteq> CHR ''%'' \<and> \<not> shouldEscape c encodePath"
    using assms path_char_plain unfolding list_all_iff by blast
  then show "unescape encodePath p = Some p" "escape encodePath p = p"
    by (intro unescape_id escape_id; simp add: list_all_iff)+
qed

section \<open>Parsing plain URLs\<close>

lemma printable_chars:
  "isAlnum c \<Longrightarrow> printable c" "printable (CHR ''-'')" "printable (CHR ''.'')" "printable (CHR ''_'')" "printable (CHR ''~'')"
  "printable (CHR ''/'')" "printable (CHR '':'')"
  using alnum_bounds [of c] by (auto simp: printable_def)

lemma path_char_printable: "path_char c \<or> c = CHR '':'' \<Longrightarrow> printable c"
  unfolding path_char_def host_char_def using printable_chars by (elim disjE) simp_all

lemma plain_path_free: "list_all path_char p \<Longrightarrow> CHR ''?'' \<notin> set p \<and> CHR ''#'' \<notin> set p"
  unfolding list_all_iff path_char_def host_char_def using not_alnum by fastforce

lemma scheme_text: "scheme = ''http'' \<or> scheme = ''https'' \<Longrightarrow>
    getScheme (scheme @ '':'' @ r) = Some (scheme, r) \<and> map ascii_tolower scheme = scheme \<and>
    CHR ''#'' \<notin> set scheme \<and> list_all printable scheme"
  by (elim disjE) (simp_all add: getScheme_def isASCIIAlpha_def isASCIIDigit_def less_eq_char_def ascii_tolower_def printable_def)

lemma query_split:
  assumes "CHR ''?'' \<notin> set r" "plain_query q"
  shows "\<not> (HasSuffix (r @ q) ''?'' \<and> count_list (r @ q) (CHR ''?'') = 1) \<and> fst (Cut (CHR ''?'') (r @ q)) = r"
proof (cases "q = []")
  case True
  with assms show ?thesis
    by (auto simp: Cut_absent HasSuffix_iff)
next
  case False
  with assms obtain x where q: "q = CHR ''?'' # x" "x \<noteq> []"
    by (cases q) (auto simp: plain_query_def)
  have "1 < count_list (r @ q) (CHR ''?'')" if "HasSuffix (r @ q) ''?''"
  proof -
    from that q have "CHR ''?'' \<in> set x"
      by (auto simp: HasSuffix_iff) (metis append_is_Nil_conv last.simps last_appendR last_in_set list.distinct(1))
    then have "0 < count_list x (CHR ''?'')"
      by (metis count_list_0_iff gr0I)
    with q show ?thesis by simp
  qed
  with q Cut_append [OF assms(1), of x] show ?thesis by auto
qed

lemma Parse_plain:
  assumes scheme: "scheme = ''http'' \<or> scheme = ''https''" and h: "plain_host h" and p: "plain_path p"
    and q: "plain_query q" and f: "plain_fragment f"
  shows "\<exists>query frag. Parse ip_literal (scheme @ ''://'' @ h @ p @ q @ f) =
    Some \<lparr>u_Scheme = scheme, u_Opaque = [], u_User = None, u_Host = h, u_Path = p, u_RawPath = [],
      u_OmitHost = False, u_ForceQuery = False, u_RawQuery = query, u_Fragment = frag\<rparr>"
proof -
  define a where "a = scheme @ '':'' @ (''//'' @ h @ p) @ q"
  note free = plain_host_free [OF h] plain_path_free [of p]
  have pc: "list_all path_char p" using p by (simp add: plain_path_def)
  have hash: "CHR ''#'' \<notin> set a"
    using scheme_text [OF scheme] free pc q by (auto simp: a_def plain_query_def)
  have ctl: "list_all printable a"
    using scheme_text [OF scheme] plain_host_chars [OF h] pc q path_char_printable
    by (auto simp: a_def list_all_iff plain_query_def path_char_def printable_chars)
  define r where "r = ''//'' @ h @ p @ q"
  define t where "t = ''//'' @ h @ p"
  have s: "getScheme a = Some (scheme, r)" "map ascii_tolower scheme = scheme" "scheme \<noteq> []" "a \<noteq> ''*''"
    using scheme_text [OF scheme, of r] scheme by (auto simp: a_def r_def)
  have split: "\<not> (HasSuffix r ''?'' \<and> count_list r (CHR ''?'') = 1)" "fst (Cut (CHR ''?'') r) = t"
    using query_split [of t q] free pc q by (auto simp: r_def t_def)
  have t: "HasPrefix t ''/''" "HasPrefix t ''//''" "drop 2 t = h @ p"
    by (simp_all add: t_def HasPrefix_def)
  have tw: "takeWhile (\<lambda>c. c \<noteq> CHR ''/'') (h @ p) = h" "dropWhile (\<lambda>c. c \<noteq> CHR ''/'') (h @ p) = p"
    using free(1) p by (cases p; auto simp: plain_path_def takeWhile_append dropWhile_append)+
  have no: "list_ex (\<lambda>c. of_char c < (32 :: nat) \<or> of_char c = (127 :: nat)) a = False" "(a = ''*'') = False"
      "(HasSuffix r ''?'' \<and> count_list r (CHR ''?'') = 1) = False"
    using ctl s(4) split(1) by (auto simp: list_all_iff list_ex_iff printable_def)
  obtain query where parse: "parse_url ip_literal a =
    Some \<lparr>u_Scheme = scheme, u_Opaque = [], u_User = None, u_Host = h, u_Path = p, u_RawPath = [],
      u_OmitHost = False, u_ForceQuery = False, u_RawQuery = query, u_Fragment = []\<rparr>"
    unfolding parse_url_def s(1,2) option.case prod.case Let_def no if_False split(2) t(3) tw
    using s(3) t(1,2) plain_host_parse [OF h] path_unescaped [OF pc]
    by (simp add: setPath_def empty_url_def)
  have whole: "scheme @ ''://'' @ h @ p @ q @ f = a @ f"
    by (simp add: a_def)
  show ?thesis
  proof (cases f)
    case Nil
    then show ?thesis
      unfolding whole using parse Cut_absent [OF hash] by (simp add: Parse_def)
  next
    case (Cons x g)
    with f have "x = CHR ''#''" "CHR ''%'' \<notin> set g"
      by (auto simp: plain_fragment_def)
    moreover from this have "unescape encodeFragment g = Some g"
      by (intro unescape_id) (auto simp: list_all_iff)
    ultimately show ?thesis
      unfolding whole unfolding Cons using parse Cut_append [OF hash, of g] by (simp add: Parse_def)
  qed
qed

text \<open>The texts of the URLs that the sources print.\<close>

lemma plain_string:
  assumes "plain_host h" "list_all path_char p" "p = [] \<or> hd p = CHR ''/''" "scheme \<noteq> []"
  shows "Url_String \<lparr>u_Scheme = scheme, u_Opaque = [], u_User = None, u_Host = h, u_Path = p, u_RawPath = [],
      u_OmitHost = False, u_ForceQuery = False, u_RawQuery = [], u_Fragment = []\<rparr> = scheme @ ''://'' @ h @ p"
proof -
  have "p \<noteq> ''*''" using assms(3) by auto
  with assms host_unescaped [OF assms(1)] path_unescaped [OF assms(2)] plain_host_chars [OF assms(1)] show ?thesis
    by (auto simp: Url_String_def EscapedPath_def Let_def)
qed

section \<open>Properties\<close>

text \<open>
  C22: the addresses of a deployment. For an \<open>http\<close> or \<open>https\<close> URL with a plain host and path,
  whatever its query and fragment, calls go to the URL without trailing slashes, query and
  fragment, and the connection goes to \<open>/api/sync\<close> of the same host with the websocket scheme
  that is as secure. A host of HTTP actions is refused unless the check is skipped.
\<close>

theorem deployment_addresses:
  assumes "scheme = ''http'' \<or> scheme = ''https''" and "plain_host h" and "plain_path p" and "plain_query q" and "plain_fragment f"
  shows "normalizeDeploymentURL ip_literal (scheme @ ''://'' @ h @ p @ q @ f) skipCheck =
      (if \<not> skipCheck \<and> HasSuffix h ''.convex.site'' then Inl (AppError (SiteURL (scheme @ ''://'' @ h @ p @ q @ f)))
       else Inr (scheme @ ''://'' @ h @ TrimRight (CHR ''/'') p)) \<and>
    WebSocketURL ip_literal (scheme @ ''://'' @ h @ p @ q @ f) =
      Inr ((if scheme = ''http'' then ''ws'' else ''wss'') @ ''://'' @ h @ ''/api/sync'')"
proof -
  let ?u = "scheme @ ''://'' @ h @ p @ q @ f"
  obtain query frag where parse: "Parse ip_literal ?u =
    Some \<lparr>u_Scheme = scheme, u_Opaque = [], u_User = None, u_Host = h, u_Path = p, u_RawPath = [],
      u_OmitHost = False, u_ForceQuery = False, u_RawQuery = query, u_Fragment = frag\<rparr>"
    using Parse_plain [OF assms] by blast
  have h: "h \<noteq> []" "last h \<noteq> CHR ''/''"
    using plain_host_chars [OF assms(2)] plain_host_free(1) [OF assms(2)] by (auto dest: last_in_set)
  have trim: "TrimSpace ?u \<noteq> []"
    using assms(1) by (intro TrimSpace_nonempty [of "CHR ''t''"]) (auto simp: space_seqs_def)
  have p: "list_all path_char (TrimRight (CHR ''/'') p)" "TrimRight (CHR ''/'') p = [] \<or> hd (TrimRight (CHR ''/'') p) = CHR ''/''"
  proof -
    show "list_all path_char (TrimRight (CHR ''/'') p)"
      using assms(3) TrimRight_subset [of "CHR ''/''" p] by (auto simp: plain_path_def list_all_iff)
    show "TrimRight (CHR ''/'') p = [] \<or> hd (TrimRight (CHR ''/'') p) = CHR ''/''"
      using assms(3) TrimRight_hd [of "CHR ''/''" p] unfolding plain_path_def by (cases "p = []") (auto simp: TrimRight_def [of _ "[]"])
  qed
  have last: "TrimRight (CHR ''/'') (scheme @ ''://'' @ h @ TrimRight (CHR ''/'') p) = scheme @ ''://'' @ h @ TrimRight (CHR ''/'') p"
    using TrimRight_last [of "CHR ''/''" p] h by (intro TrimRight_id) (auto simp: last_append)
  have scheme: "(scheme \<noteq> ''http'' \<and> scheme \<noteq> ''https'') = False" "scheme \<noteq> []"
    using assms(1) by auto
  have normal: "normalizeDeploymentURL ip_literal ?u skipCheck =
      (if \<not> skipCheck \<and> HasSuffix h ''.convex.site'' then Inl (AppError (SiteURL ?u))
       else Inr (scheme @ ''://'' @ h @ TrimRight (CHR ''/'') p))"
    unfolding normalizeDeploymentURL_def parse option.case Url.simps scheme(1) plain_string [OF assms(2) p scheme(2)] last
    using trim h by (simp only: if_False)
  have "list_all path_char ''/api/sync''"
    by (simp add: path_char_def host_char_def isAlnum_def isASCIIAlpha_def less_eq_char_def)
  from plain_string [OF assms(2) this] have ws: "Url_String \<lparr>u_Scheme = s, u_Opaque = [], u_User = None, u_Host = h,
      u_Path = syncWebSocketPath, u_RawPath = [], u_OmitHost = False, u_ForceQuery = False, u_RawQuery = [], u_Fragment = []\<rparr> =
      s @ ''://'' @ h @ ''/api/sync''" if "s \<noteq> []" for s
    using that by (simp add: syncWebSocketPath_def)
  have "WebSocketURL ip_literal ?u = Inr ((if scheme = ''http'' then ''ws'' else ''wss'') @ ''://'' @ h @ ''/api/sync'')"
    unfolding WebSocketURL_def parse option.case Url.simps using trim h assms(1) ws [of "''ws''"] ws [of "''wss''"]
    by (cases "scheme = ''http''") simp_all
  with normal show ?thesis by (rule conjI)
qed

theorem deployment_addresses_witness:
  "normalizeDeploymentURL (\<lambda>_. None) ''https://happy-otter-1.convex.cloud//?a=b#c'' False = Inr ''https://happy-otter-1.convex.cloud'' \<and>
   WebSocketURL (\<lambda>_. None) ''https://happy-otter-1.convex.cloud//?a=b#c'' = Inr ''wss://happy-otter-1.convex.cloud/api/sync''"
proof -
  have "plain_host ''happy-otter-1.convex.cloud''" "plain_path ''//''" "plain_query ''?a=b''" "plain_fragment ''#c''"
    by code_simp+
  from deployment_addresses [OF disjI2 [OF refl] this, of "\<lambda>_. None" False] show ?thesis
    by (simp add: HasSuffix_def TrimRight_def)
qed

text \<open>
  Where the addresses go wrong: a single question mark at the end is kept, so that the path
  of a call becomes a query; the check for HTTP actions does not see through a port or upper
  case; and an escaped slash in the path is lost if the path ends with a slash.
\<close>

lemma question_mark_stays:
  "normalizeDeploymentURL (\<lambda>_. None) ''https://a.convex.cloud/?'' False = Inr ''https://a.convex.cloud?''"
  "WebSocketURL (\<lambda>_. None) ''https://a.convex.cloud/?'' = Inr ''wss://a.convex.cloud/api/sync?''"
  by code_simp+

lemma site_check_evaded:
  "normalizeDeploymentURL (\<lambda>_. None) ''https://a.convex.site:443'' False = Inr ''https://a.convex.site:443''"
  "normalizeDeploymentURL (\<lambda>_. None) ''https://a.CONVEX.SITE'' False = Inr ''https://a.CONVEX.SITE''"
  by code_simp+

lemma escaped_slash_lost:
  "normalizeDeploymentURL (\<lambda>_. None) ''https://a.convex.cloud/x%2Fy'' False = Inr ''https://a.convex.cloud/x%2Fy''"
  "normalizeDeploymentURL (\<lambda>_. None) ''https://a.convex.cloud/x%2Fy/'' False = Inr ''https://a.convex.cloud/x/y''"
  by code_simp+

end
