(* ===== verification/App_Control.thy ===== *)
theory App_Control
  imports App_Client
begin

text \<open>
  The methods without a context: \<open>subscription_client.go\<close> and \<open>client_facade.go\<close> call the method
  that takes one with a context that ends after a bounded time. What the flush returns in
  that time is the argument \<open>r\<close>.
\<close>

section \<open>Bounds\<close>

text \<open>Durations are nanoseconds in 64 bits with sign.\<close>

definition Millisecond :: "64 word" where
  "Millisecond = 1000000"

definition boundedTimeout :: "64 word \<Rightarrow> 64 word" where
  "boundedTimeout timeout = (if sint timeout \<le> 0 then Millisecond else timeout)"

text \<open>A bounded context never ends before it starts, and otherwise not before the time asked for.\<close>

lemma boundedTimeout_positive: "0 < sint (boundedTimeout timeout) \<and> sint timeout \<le> sint (boundedTimeout timeout)"
  by (auto simp: boundedTimeout_def Millisecond_def)

section \<open>The realtime client\<close>

definition ws_SetAuth :: "error option \<Rightarrow> string \<Rightarrow> WebSocketClient \<Rightarrow> error option \<times> WebSocketClient" where
  "ws_SetAuth r token = ws_setAuth token True r"

definition ws_SetAuthCallback :: "user_env \<Rightarrow> error option \<Rightarrow> nat option \<Rightarrow> WebSocketClient \<Rightarrow> error option \<times> WebSocketClient" where
  "ws_SetAuthCallback env r fetcher = ws_setAuthCallback env fetcher True r"

definition ws_SetAdminAuth ::
  "error option \<Rightarrow> string \<Rightarrow> UserIdentityAttributes list \<Rightarrow> WebSocketClient \<Rightarrow> error option \<times> WebSocketClient" where
  "ws_SetAdminAuth r token actingAs = ws_setAdminAuth token actingAs True r"

definition ws_ClearAuth :: "error option \<Rightarrow> WebSocketClient \<Rightarrow> error option \<times> WebSocketClient" where
  "ws_ClearAuth r = ws_clearAuth True r"

text \<open>\<open>Query\<close>: the outcome of \<open>QueryValue\<close> as Go data.\<close>

definition ws_Query :: "string \<Rightarrow> FunctionResult \<Rightarrow> result_error + gval" where
  "ws_Query path r = (case query_outcome path r of Inl e \<Rightarrow> Inl e | Inr value \<Rightarrow> Inr (GoValue value))"

section \<open>The client\<close>

text \<open>The first two drop the error.\<close>

definition App_SetAuth :: "error option \<Rightarrow> string \<Rightarrow> AppClient \<Rightarrow> AppClient" where
  "App_SetAuth r token c = snd (SetAuthContext r token c)"

definition App_ClearAuth :: "error option \<Rightarrow> AppClient \<Rightarrow> AppClient" where
  "App_ClearAuth r c = snd (ClearAuthContext r c)"

definition App_SetAdminAuth ::
  "error option \<Rightarrow> string \<Rightarrow> UserIdentityAttributes list \<Rightarrow> AppClient \<Rightarrow> error option \<times> AppClient" where
  "App_SetAdminAuth r token actingAs c = SetAdminAuthContext r token actingAs c"

definition App_SetAuthCallback :: "user_env \<Rightarrow> error option \<Rightarrow> nat option \<Rightarrow> AppClient \<Rightarrow> error option \<times> AppClient" where
  "App_SetAuthCallback env r fetcher c = SetAuthCallbackContext env r fetcher c"

text \<open>A flush that fails does not undo the change: later realtime clients and calls use the new token.\<close>

lemma App_SetAuth_kept:
  "ap_authToken (App_SetAuth r token c) = token \<and> hc_auth (ap_httpClient (App_SetAuth r token c)) = token"
  by (simp add: App_SetAuth_def SetAuthContext_def forward_auth_def HTTP_SetAuth_def Let_def split: option.split prod.split)

end
