(* ===== verification/App_Typed.thy ===== *)
theory App_Typed
  imports App_Client Http_Properties
begin

text \<open>
  Results in variables of the caller: \<open>decodeInto\<close> and the calls named \<open>...Into\<close> of
  \<open>client_http.go\<close> and \<open>client_facade.go\<close>, and the typed references of
  \<open>function_reference.go\<close>.
\<close>

section \<open>Plain documents\<close>

text \<open>
  What \<open>json.Marshal\<close> sees of \<open>GoValue\<close>: an \<open>Int64\<close> is a number, \<open>Bytes\<close> are a string in
  base 64; \<open>GoValue\<close> copies empty bytes to a nil slice, which is printed as \<open>null\<close>.
\<close>

fun plain_json :: "Value \<Rightarrow> json res" where
  "plain_json VNull = Inr JNull"
| "plain_json (VInt64 n) = Inr (ms_int64 n)"
| "plain_json (VFloat64 f) = ms_float64 f"
| "plain_json (VBoolean b) = Inr (JBool b)"
| "plain_json (VString s) = Inr (ms_string s)"
| "plain_json (VBytes d) = Inr (if d = [] then JNull else ms_string (b64_encode std_alphabet d))"
| "plain_json (VArray vs) = rbind (rmap plain_json vs) (\<lambda>js. Inr (JArr js))"
| "plain_json (VObject m) =
     rbind (rmap (\<lambda>p. rbind (plain_json (snd p)) (\<lambda>j. Inr (utf8_sanitize (fst p), j))) m) (\<lambda>ms. Inr (JObj ms))"

text \<open>
  \<open>decodeInto\<close>: the target is nil, or what \<open>json.Unmarshal\<close> makes of a document for its type.
\<close>

definition decodeInto :: "Value \<Rightarrow> (json \<Rightarrow> 'r res) option \<Rightarrow> 'r res" where
  "decodeInto result out =
     (case out of
        None \<Rightarrow> Inl (AppError NilOutputTarget)
      | Some unmarshal \<Rightarrow> rbind (plain_json result) unmarshal)"

section \<open>Calls that decode into a target\<close>

definition into :: "(json \<Rightarrow> 'r res) option \<Rightarrow> (call_error + Value) \<times> 's \<Rightarrow> (call_error + 'r) \<times> 's" where
  "into out r = (rbind (fst r) (\<lambda>result. plain (decodeInto result out)), snd r)"

definition HTTP_QueryInto ::
  "'s http_env \<Rightarrow> string \<Rightarrow> gval \<Rightarrow> (json \<Rightarrow> 'r res) option \<Rightarrow> HTTPClient \<Rightarrow> 's \<Rightarrow> (call_error + 'r) \<times> 's" where
  "HTTP_QueryInto env path args out c s = into out (HTTP_QueryValue env path args c s)"

definition HTTP_MutationInto ::
  "'s http_env \<Rightarrow> ctx_error option \<Rightarrow> ctx_error option \<Rightarrow> string \<Rightarrow> gval \<Rightarrow> (json \<Rightarrow> 'r res) option \<Rightarrow> mutationOptions \<Rightarrow>
   HTTPClient \<Rightarrow> 's \<Rightarrow> (call_error + 'r) \<times> 's" where
  "HTTP_MutationInto env cancelled turn path args out opts c s =
     into out (HTTP_MutationValue env cancelled turn path args opts c s)"

definition HTTP_ActionInto ::
  "'s http_env \<Rightarrow> string \<Rightarrow> gval \<Rightarrow> (json \<Rightarrow> 'r res) option \<Rightarrow> HTTPClient \<Rightarrow> 's \<Rightarrow> (call_error + 'r) \<times> 's" where
  "HTTP_ActionInto env path args out c s = into out (HTTP_ActionValue env path args c s)"

section \<open>The facade\<close>

definition App_Query :: "'s http_env \<Rightarrow> string \<Rightarrow> gval \<Rightarrow> AppClient \<Rightarrow> 's \<Rightarrow> (call_error + gval) \<times> 's" where
  "App_Query env path args c = HTTP_Query env path args (ap_httpClient c)"

definition App_Mutation ::
  "'s http_env \<Rightarrow> ctx_error option \<Rightarrow> ctx_error option \<Rightarrow> string \<Rightarrow> gval \<Rightarrow> mutationOptions \<Rightarrow> AppClient \<Rightarrow> 's \<Rightarrow>
   (call_error + gval) \<times> 's" where
  "App_Mutation env cancelled turn path args opts c = HTTP_Mutation env cancelled turn path args opts (ap_httpClient c)"

definition App_Action :: "'s http_env \<Rightarrow> string \<Rightarrow> gval \<Rightarrow> AppClient \<Rightarrow> 's \<Rightarrow> (call_error + gval) \<times> 's" where
  "App_Action env path args c = HTTP_Action env path args (ap_httpClient c)"

definition App_Function :: "'s http_env \<Rightarrow> string \<Rightarrow> gval \<Rightarrow> string \<Rightarrow> AppClient \<Rightarrow> 's \<Rightarrow> (call_error + gval) \<times> 's" where
  "App_Function env path args componentPath c = HTTP_Function env path args componentPath (ap_httpClient c)"

definition App_QueryInto ::
  "'s http_env \<Rightarrow> string \<Rightarrow> gval \<Rightarrow> (json \<Rightarrow> 'r res) option \<Rightarrow> AppClient \<Rightarrow> 's \<Rightarrow> (call_error + 'r) \<times> 's" where
  "App_QueryInto env path args out c = HTTP_QueryInto env path args out (ap_httpClient c)"

definition App_MutationInto ::
  "'s http_env \<Rightarrow> ctx_error option \<Rightarrow> ctx_error option \<Rightarrow> string \<Rightarrow> gval \<Rightarrow> (json \<Rightarrow> 'r res) option \<Rightarrow> mutationOptions \<Rightarrow>
   AppClient \<Rightarrow> 's \<Rightarrow> (call_error + 'r) \<times> 's" where
  "App_MutationInto env cancelled turn path args out opts c =
     HTTP_MutationInto env cancelled turn path args out opts (ap_httpClient c)"

definition App_ActionInto ::
  "'s http_env \<Rightarrow> string \<Rightarrow> gval \<Rightarrow> (json \<Rightarrow> 'r res) option \<Rightarrow> AppClient \<Rightarrow> 's \<Rightarrow> (call_error + 'r) \<times> 's" where
  "App_ActionInto env path args out c = HTTP_ActionInto env path args out (ap_httpClient c)"

section \<open>Typed references\<close>

text \<open>
  The type parameter \<open>Result\<close>: \<open>Value\<close>, \<open>any\<close>, or another type, which \<open>json.Unmarshal\<close>
  fills. The functions of the first two say how the variable holds its value.
\<close>

datatype 'r result_type =
    ResultValue "Value \<Rightarrow> 'r"
  | ResultAny "gval \<Rightarrow> 'r"
  | ResultOther "json \<Rightarrow> 'r res"

fun decodeTypedValue :: "'r result_type \<Rightarrow> Value \<Rightarrow> 'r res" where
  "decodeTypedValue (ResultValue f) value = Inr (f value)"
| "decodeTypedValue (ResultAny f) value = Inr (f (GoValue value))"
| "decodeTypedValue (ResultOther unmarshal) value = decodeInto value (Some unmarshal)"

record 'r reference =
  rf_path :: string
  rf_result :: "'r result_type"

definition typed :: "'r reference \<Rightarrow> (call_error + Value) \<times> 's \<Rightarrow> (call_error + 'r) \<times> 's" where
  "typed r x = (rbind (fst x) (\<lambda>value. plain (decodeTypedValue (rf_result r) value)), snd x)"

text \<open>A query goes through any client with \<open>QueryValue\<close>.\<close>

definition QueryReference_Query ::
  "'r reference \<Rightarrow> (string \<Rightarrow> gval \<Rightarrow> 's \<Rightarrow> (call_error + Value) \<times> 's) \<Rightarrow> gval \<Rightarrow> 's \<Rightarrow> (call_error + 'r) \<times> 's" where
  "QueryReference_Query r queryValue args s = typed r (queryValue (rf_path r) args s)"

definition MutationReference_Mutation ::
  "'r reference \<Rightarrow> 's http_env \<Rightarrow> ctx_error option \<Rightarrow> ctx_error option \<Rightarrow> gval \<Rightarrow> mutationOptions \<Rightarrow> HTTPClient \<Rightarrow> 's \<Rightarrow>
   (call_error + 'r) \<times> 's" where
  "MutationReference_Mutation r env cancelled turn args opts c s =
     typed r (HTTP_MutationValue env cancelled turn (rf_path r) args opts c s)"

definition ActionReference_Action ::
  "'r reference \<Rightarrow> 's http_env \<Rightarrow> gval \<Rightarrow> HTTPClient \<Rightarrow> 's \<Rightarrow> (call_error + 'r) \<times> 's" where
  "ActionReference_Action r env args c s = typed r (HTTP_ActionValue env (rf_path r) args c s)"

text \<open>\<open>Next\<close> of a typed subscription: it fails, the function failed, or there is a value.\<close>

datatype next_error = NextFailed error | ResultFailed result_error

definition typed_Next :: "'r result_type \<Rightarrow> ctx_error option \<Rightarrow> nat \<Rightarrow> WebSocketClient \<Rightarrow> (next_error + 'r) option" where
  "typed_Next t cancelled h c =
     map_option (\<lambda>r. case r of
         Inl e \<Rightarrow> Inl (NextFailed e)
       | Inr result \<Rightarrow>
           (case Err result of
              Some e \<Rightarrow> Inl (ResultFailed e)
            | None \<Rightarrow>
                (case decodeTypedValue t (case Value_of result of Some value \<Rightarrow> value | None \<Rightarrow> VNull) of
                   Inl e \<Rightarrow> Inl (NextFailed e)
                 | Inr x \<Rightarrow> Inr x)))
       (Next cancelled h c)"

section \<open>Types\<close>

text \<open>
  The types of the language that documents are decoded into, and \<open>json.Unmarshal\<close> for a zero
  variable of each. The content of a variable is written as the \<open>Value\<close> with the same data:
  nil slices, maps and pointers as empty ones and null. Strings in base 64 fill byte slices.
\<close>

datatype gotype = TyInt64 | TyFloat64 | TyBool | TyString | TyBytes | TySlice gotype | TyMap gotype | TyPointer gotype | TyAny

fun um_any :: "json \<Rightarrow> Value res" where
  "um_any JNull = Inr VNull"
| "um_any (JBool b) = Inr (VBoolean b)"
| "um_any (JNum s) = rbind (um_float64 (JNum s)) (\<lambda>f. Inr (VFloat64 f))"
| "um_any (JStr s) = Inr (VString s)"
| "um_any (JArr js) = rbind (rmap um_any js) (\<lambda>vs. Inr (VArray vs))"
| "um_any (JObj ms) = rbind (rmap (\<lambda>p. rbind (um_any (snd p)) (\<lambda>v. Inr (fst p, v))) ms) (\<lambda>ps. Inr (VObject (mof_list ps)))"

fun um_bytes :: "json \<Rightarrow> byte list res" where
  "um_bytes JNull = Inr []"
| "um_bytes (JStr s) = (case b64_decode std_alphabet s of Some d \<Rightarrow> Inr d | None \<Rightarrow> Inl json_error)"
| "um_bytes _ = Inl json_error"

fun um_map :: "(json \<Rightarrow> 'a res) \<Rightarrow> json \<Rightarrow> (string, 'a) gomap res" where
  "um_map um JNull = Inr []"
| "um_map um (JObj ms) = rbind (rmap (\<lambda>p. rbind (um (snd p)) (\<lambda>v. Inr (fst p, v))) ms) (\<lambda>ps. Inr (mof_list ps))"
| "um_map um _ = Inl json_error"

fun um_type :: "gotype \<Rightarrow> json \<Rightarrow> Value res" where
  "um_type TyInt64 j = rbind (um_int64 j) (\<lambda>n. Inr (VInt64 n))"
| "um_type TyFloat64 j = rbind (um_float64 j) (\<lambda>f. Inr (VFloat64 f))"
| "um_type TyBool j = rbind (um_bool j) (\<lambda>b. Inr (VBoolean b))"
| "um_type TyString j = rbind (um_string j) (\<lambda>s. Inr (VString s))"
| "um_type TyBytes j = rbind (um_bytes j) (\<lambda>d. Inr (VBytes d))"
| "um_type (TySlice t) j = rbind (um_slice (um_type t) j) (\<lambda>vs. Inr (VArray (case vs of Some vs \<Rightarrow> vs | None \<Rightarrow> [])))"
| "um_type (TyMap t) j = rbind (um_map (um_type t) j) (\<lambda>m. Inr (VObject m))"
| "um_type (TyPointer t) j = rbind (um_pointer (um_type t) j) (\<lambda>v. Inr (case v of Some v \<Rightarrow> v | None \<Rightarrow> VNull))"
| "um_type TyAny j = um_any j"

text \<open>Values that a type holds: a pointer or \<open>any\<close> holds null.\<close>

fun any_holds :: "Value \<Rightarrow> bool" where
  "any_holds VNull = True"
| "any_holds (VFloat64 f) = True"
| "any_holds (VBoolean b) = True"
| "any_holds (VString s) = True"
| "any_holds (VArray vs) = (\<forall>v\<in>set vs. any_holds v)"
| "any_holds (VObject m) = (\<forall>p\<in>set m. any_holds (snd p))"
| "any_holds _ = False"

fun holds :: "gotype \<Rightarrow> Value \<Rightarrow> bool" where
  "holds TyInt64 v = (Kind v = Int64Kind)"
| "holds TyFloat64 v = (Kind v = Float64Kind)"
| "holds TyBool v = (Kind v = BooleanKind)"
| "holds TyString v = (Kind v = StringKind)"
| "holds TyBytes v = (Kind v = BytesKind)"
| "holds (TySlice t) v = (case v of VArray vs \<Rightarrow> (\<forall>v\<in>set vs. holds t v) | _ \<Rightarrow> False)"
| "holds (TyMap t) v = (case v of VObject m \<Rightarrow> (\<forall>p\<in>set m. holds t (snd p)) | _ \<Rightarrow> False)"
| "holds (TyPointer t) v = (v = VNull \<or> holds t v \<and> v \<noteq> VBytes [])"
| "holds TyAny v = any_holds v"

text \<open>The floats of a value are finite and survive printing, and its strings are valid UTF-8.\<close>

fun plain_ok :: "Value \<Rightarrow> bool" where
  "plain_ok (VFloat64 f) = (\<not> IsNaN f \<and> \<not> IsInf f \<and> float_text_ok f)"
| "plain_ok (VString s) = valid_utf8 s"
| "plain_ok (VArray vs) = (\<forall>v\<in>set vs. plain_ok v)"
| "plain_ok (VObject m) = (\<forall>p\<in>set m. plain_ok (snd p))"
| "plain_ok _ = True"

fun finite_floats :: "Value \<Rightarrow> bool" where
  "finite_floats (VFloat64 f) = (\<not> IsNaN f \<and> \<not> IsInf f)"
| "finite_floats (VArray vs) = (\<forall>v\<in>set vs. finite_floats v)"
| "finite_floats (VObject m) = (\<forall>p\<in>set m. finite_floats (snd p))"
| "finite_floats _ = True"

section \<open>Which results have a document\<close>

lemma rmap_total_iff: "(\<exists>ys. rmap f xs = Inr ys) \<longleftrightarrow> (\<forall>x\<in>set xs. \<exists>y. f x = Inr y)"
  by (induction xs) (auto simp: res_simps)

lemma plain_json_iff: "(\<exists>j. plain_json v = Inr j) \<longleftrightarrow> finite_floats v"
  by (induction v rule: plain_json.induct) (auto simp: res_simps ms_float64_def rmap_total_iff)

lemma plain_ok_finite: "plain_ok v \<Longrightarrow> finite_floats v"
  by (induction v) auto

section \<open>Decoding gives the value back\<close>

lemma sanitize_field: "validateObjectField k = Inr u \<Longrightarrow> utf8_sanitize k = k"
  by (rule valid_utf8_sanitize) (rule valid_field_utf8)

lemma ms_float64_Inr: "ms_float64 f = Inr j \<Longrightarrow> float_text_ok f \<Longrightarrow> um_float64 j = Inr f"
  by (auto simp: ms_float64_def float_text_ok_def split: if_splits)

text \<open>Fields go through a document one by one.\<close>

lemma fields_inverse:
  assumes "mwf m" "\<And>p. p \<in> set m \<Longrightarrow> validateObjectField (fst p) = Inr ()"
    and "\<And>p j. p \<in> set m \<Longrightarrow> plain_json (snd p) = Inr j \<Longrightarrow> um j = Inr (snd p)"
    and "rmap (\<lambda>p. rbind (plain_json (snd p)) (\<lambda>j. Inr (utf8_sanitize (fst p), j))) m = Inr ms"
  shows "rmap (\<lambda>p. rbind (um (snd p)) (\<lambda>v. Inr (fst p, v))) ms = Inr m" "mof_list m = m"
proof -
  show "rmap (\<lambda>p. rbind (um (snd p)) (\<lambda>v. Inr (fst p, v))) ms = Inr m"
  proof (rule rmap_inverse [OF _ assms(4)])
    fix p q
    assume p: "p \<in> set m" "rbind (plain_json (snd p)) (\<lambda>j. Inr (utf8_sanitize (fst p), j)) = Inr q"
    with assms(2,3) [OF p(1)] show "rbind (um (snd q)) (\<lambda>v. Inr (fst q, v)) = Inr p"
      by (auto simp: res_simps sanitize_field)
  qed
qed (simp add: assms(1))

lemma um_any_plain:
  "any_holds v \<Longrightarrow> plain_ok v \<Longrightarrow> wf_value v \<Longrightarrow> plain_json v = Inr j \<Longrightarrow> um_any j = Inr v"
proof (induction v arbitrary: j rule: plain_json.induct)
  case (3 f)
  then show ?case using ms_float64_Inr [of f j] by (auto simp: ms_float64_def split: if_splits)
next
  case (5 s)
  then show ?case by (auto simp: ms_string_def valid_utf8_sanitize)
next
  case (7 vs)
  then obtain js where js: "j = JArr js" "rmap plain_json vs = Inr js" by (auto simp: res_simps)
  have "rmap um_any js = Inr vs"
    using 7 by (intro rmap_inverse [OF _ js(2)]) auto
  then show ?case by (simp add: js)
next
  case (8 m)
  then obtain ms where ms: "j = JObj ms"
      "rmap (\<lambda>p. rbind (plain_json (snd p)) (\<lambda>j. Inr (utf8_sanitize (fst p), j))) m = Inr ms"
    by (auto simp: res_simps)
  have "um_any j = Inr (snd p)" if "p \<in> set m" "plain_json (snd p) = Inr j" for p j
    using 8 that by auto
  from fields_inverse [of m um_any, OF _ _ this ms(2)] 8(2-) show ?case
    by (auto simp: ms(1))
qed auto

lemma um_type_plain:
  "holds t v \<Longrightarrow> plain_ok v \<Longrightarrow> wf_value v \<Longrightarrow> plain_json v = Inr j \<Longrightarrow> um_type t j = Inr v"
proof (induction t arbitrary: v j)
  case TyInt64
  then show ?case by (cases v) auto
next
  case TyFloat64
  then show ?case using ms_float64_Inr by (cases v) auto
next
  case TyBool
  then show ?case by (cases v) auto
next
  case TyString
  then show ?case by (cases v) (auto simp: um_ms_string)
next
  case TyBytes
  then show ?case
    by (cases v) (auto simp: ms_string_def b64_decode_encode [OF std_alphabet_ok])
next
  case (TySlice t)
  then obtain vs js where v: "v = VArray vs" "j = JArr js" "rmap plain_json vs = Inr js"
    by (cases v) (auto simp: res_simps)
  have "rmap (um_type t) js = Inr vs"
    using TySlice v by (intro rmap_inverse [OF _ v(3)]) auto
  then show ?case by (simp add: v)
next
  case (TyMap t)
  then obtain m ms where v: "v = VObject m" "j = JObj ms"
      "rmap (\<lambda>p. rbind (plain_json (snd p)) (\<lambda>j. Inr (utf8_sanitize (fst p), j))) m = Inr ms"
    by (cases v) (auto simp: res_simps)
  have "um_type t j = Inr (snd p)" if "p \<in> set m" "plain_json (snd p) = Inr j" for p j
    using TyMap v that by auto
  from fields_inverse [of m "um_type t", OF _ _ this v(3)] TyMap.prems v show ?case
    by auto
next
  case (TyPointer t)
  show ?case
  proof (cases "v = VNull")
    case True
    with TyPointer show ?thesis by (simp add: um_pointer_def)
  next
    case False
    then have "j \<noteq> JNull" "holds t v"
      using TyPointer.prems by (cases v; auto simp: res_simps ms_int64_def ms_string_def ms_float64_def split: if_splits)+
    with TyPointer show ?thesis by (simp add: um_pointer_def)
  qed
next
  case TyAny
  then show ?case by (simp add: um_any_plain)
qed

interpretation plain_doc: codec plain_json "um_type t" "\<lambda>v. holds t v \<and> plain_ok v \<and> wf_value v" for t
  using plain_json_iff plain_ok_finite um_type_plain by unfold_locales blast

lemma decodeTyped_exact:
  "holds t v \<Longrightarrow> plain_ok v \<Longrightarrow> wf_value v \<Longrightarrow> decodeTypedValue (ResultOther (um_type t)) v = Inr v"
  using plain_doc.round_trip [of t v] by (auto simp: decodeInto_def)

text \<open>Infinities and not-a-number, which are Convex values, reach only \<open>Value\<close> and \<open>any\<close>.\<close>

lemma decode_fails_iff: "(\<exists>e. decodeTypedValue (ResultOther Inr) v = Inl e) \<longleftrightarrow> \<not> finite_floats v"
  using plain_json_iff [of v] by (cases "plain_json v") (auto simp: decodeInto_def)

text \<open>
  Elements of \<open>[]any\<close>, the type the code generator infers for arrays, lose their kind on the
  way, and integers beyond 53 bits their value; \<open>any\<close> itself keeps both.
\<close>

lemma float_of_large:
  "ParseFloat ''9007199254740993'' = Some 0x4340000000000000"
proof -
  let ?s = "''9007199254740993''"
  have "special_float ?s = None" "split_float ?s = Some (False, ?s, 0)"
    by code_simp+
  moreover have "digits_val ?s = 9007199254740993"
    by (simp add: digits_val_def digit_val_def)
  moreover have "bit_len 9007199254740993 = 54" "bit_len (Suc 0) = 1"
    by (simp_all add: bit_len.simps)
  then have "round_ratio 9007199254740993 1 = Some 0x4340000000000000"
    by (simp add: round_ratio_def ratio_log_def ratio_scale_def round_even_def inf_bits_def)
  ultimately show ?thesis
    by (simp add: ParseFloat_def decimal_ratio_def f64_of_def del: One_nat_def)
qed

lemma elements_lose_precision:
  "decodeTypedValue (ResultOther (um_type (TySlice TyAny))) (VArray [VInt64 0x20000000000001]) =
     Inr (VArray [VFloat64 0x4340000000000000])"
  "decodeTypedValue (ResultAny id) (VArray [VInt64 0x20000000000001]) = Inr (GSeq [GRef (GInt64 0x20000000000001)])"
proof -
  have "ms_int64 0x20000000000001 = JNum ''9007199254740993''"
    by (simp add: ms_int64_def int_text_def nat_digits.simps digit_char_def) code_simp
  then show "decodeTypedValue (ResultOther (um_type (TySlice TyAny))) (VArray [VInt64 0x20000000000001]) =
     Inr (VArray [VFloat64 0x4340000000000000])"
    by (simp add: decodeInto_def float_of_large)
qed (simp add: box_def)

text \<open>Empty bytes and null are the same to a pointer.\<close>

lemma empty_bytes_lost:
  "decodeTypedValue (ResultOther (um_type (TyPointer TyBytes))) (VBytes []) =
     decodeTypedValue (ResultOther (um_type (TyPointer TyBytes))) VNull"
  by (simp add: decodeInto_def)

text \<open>
  C23: a typed reference delivers the result of its function: when the deployment serves the
  function, and the value it returns at the arguments is held by the type parameter
  \<open>Result\<close>, composed of integers, floats, booleans, strings, bytes, slices, maps, pointers and
  \<open>any\<close>, and has no infinite floats, then \<open>Query\<close> of the reference returns exactly that value
  in a variable of the type. References with \<open>Value\<close> and \<open>any\<close> return every value.
\<close>

theorem typed_query_end_to_end:
  assumes "serves env (hc_address c @ ''/api/'' @ QueryKind) f" and "hc_authCallback c = None"
    and "syncQueryArgValue args = Inr a" and "TrimSpace path \<noteq> []"
    and "v = f (utf8_sanitize path) a" and "wf_value v" and "text_ok v"
    and queryValue: "queryValue = (\<lambda>path args. HTTP_QueryValue env path args c)"
  shows "\<exists>s'. QueryReference_Query \<lparr>rf_path = path, rf_result = ResultValue id\<rparr> queryValue args s = (Inr v, s') \<and>
    QueryReference_Query \<lparr>rf_path = path, rf_result = ResultAny id\<rparr> queryValue args s = (Inr (GoValue v), s') \<and>
    (holds t v \<and> plain_ok v \<longrightarrow>
       QueryReference_Query \<lparr>rf_path = path, rf_result = ResultOther (um_type t)\<rparr> queryValue args s = (Inr v, s'))"
proof -
  from call_returns [OF assms(1-4)] assms(5-8) obtain s' where "queryValue path args s = (Inr v, s')"
    by (auto simp: HTTP_QueryValue_def)
  moreover have "decodeTypedValue (ResultOther (um_type t)) v = Inr v" if "holds t v" "plain_ok v"
    using that assms(6) by (rule decodeTyped_exact)
  ultimately show ?thesis
    by (auto simp: QueryReference_Query_def typed_def simp del: decodeTypedValue.simps(3))
qed

theorem typed_query_end_to_end_witness:
  "\<exists>s'. QueryReference_Query \<lparr>rf_path = ''messages:list'', rf_result = ResultOther (um_type TyBool)\<rparr>
     (\<lambda>path args. HTTP_QueryValue yes_env path args (example_client\<lparr>hc_auth := ''t''\<rparr>)) GInvalid () = (Inr (VBoolean True), s')"
proof -
  have "serves yes_env (hc_address (example_client\<lparr>hc_auth := ''t''\<rparr>) @ ''/api/'' @ QueryKind) (\<lambda>_ _. VBoolean True)"
    by (auto simp: serves_def yes_env_def MarshalJSON_def)
  moreover have "syncQueryArgValue GInvalid = Inr (VObject [])" "TrimSpace ''messages:list'' \<noteq> []"
    by code_simp+
  ultimately show ?thesis
    using typed_query_end_to_end [of yes_env "example_client\<lparr>hc_auth := ''t''\<rparr>" "\<lambda>_ _. VBoolean True" GInvalid
      "VObject []" "''messages:list''" "VBoolean True" _ "()" TyBool] by (auto simp: example_client_def)
qed

end
