(* ===== verification/App_Lifetime.thy ===== *)
theory App_Lifetime
  imports App_Control App_Typed App_Properties Live_Properties
begin

text \<open>
  Subscriptions through the client (\<open>client_facade.go\<close>) and through typed references
  (\<open>function_reference.go\<close>). The first subscription starts the realtime client, whose
  context is made from the context of that call: when that context ends, the realtime
  client ends, and stays in its place until \<open>Close\<close>.
\<close>

section \<open>Starting a subscription\<close>

definition App_DeploymentURL :: "AppClient \<Rightarrow> string" where
  "App_DeploymentURL c = hc_address (ap_httpClient c)"

text \<open>
  The checks at the start of \<open>Subscribe\<close> and \<open>WatchAll\<close> of a realtime client: the context of the
  call, then the client. What passes them is a call that the steps of the client carry out.
\<close>

definition start_call :: "Context \<Rightarrow> live_call \<Rightarrow> WebSocketClient \<Rightarrow> live_call res" where
  "start_call ctx x w =
     (case cx_err ctx of
        Some e \<Rightarrow> Inl (CtxError e)
      | None \<Rightarrow> (case ws_doneErr w of Some e \<Rightarrow> Inl e | None \<Rightarrow> Inr x))"

text \<open>
  The realtime client that \<open>realtime\<close> returns for the context of the call, and the call on it;
  \<open>realtime_started\<close> shows that there is one.
\<close>

definition on_realtime ::
  "user_env \<Rightarrow> Context \<Rightarrow> string res \<Rightarrow> live_call \<Rightarrow> AppClient \<Rightarrow> live_call res \<times> AppClient" where
  "on_realtime env ctx syncURL x c =
     (case realtime env ctx syncURL c of
        (Some e, c) \<Rightarrow> (Inl e, c)
      | (None, c) \<Rightarrow>
          (case ap_webSocketClient c of
             None \<Rightarrow> (Inl (StdError ''nil pointer dereference''), c)
           | Some w \<Rightarrow> (start_call ctx x w, c)))"

definition App_Subscribe ::
  "user_env \<Rightarrow> Context \<Rightarrow> string res \<Rightarrow> string \<Rightarrow> gval \<Rightarrow> AppClient \<Rightarrow> live_call res \<times> AppClient" where
  "App_Subscribe env ctx syncURL path args = on_realtime env ctx syncURL (CSubscribe path args)"

definition App_WatchAll :: "user_env \<Rightarrow> Context \<Rightarrow> string res \<Rightarrow> AppClient \<Rightarrow> live_call res \<times> AppClient" where
  "App_WatchAll env ctx syncURL = on_realtime env ctx syncURL CWatch"

definition QueryReference_Subscribe ::
  "'r reference \<Rightarrow> Context \<Rightarrow> gval \<Rightarrow> WebSocketClient \<Rightarrow> live_call res" where
  "QueryReference_Subscribe r ctx args = start_call ctx (CSubscribe (rf_path r) args)"

section \<open>A realtime client that has ended\<close>

lemma realtime_started: "realtime env ctx syncURL c = (None, c') \<Longrightarrow> \<exists>w. c' = c\<lparr>ap_webSocketClient := Some w\<rparr>"
  by (auto simp: realtime_def split: option.splits sum.splits prod.splits intro: exI [of _ "the (ap_webSocketClient c)"])

lemma on_ended:
  "ap_webSocketClient c = Some w \<Longrightarrow> ws_doneErr w \<noteq> None \<Longrightarrow> \<exists>e. on_realtime env ctx syncURL x c = (Inl e, c)"
  by (auto simp: on_realtime_def realtime_def start_call_def split: option.split)

lemma mstep_cancelled: "mstep texts s t \<Longrightarrow> w_cancelled s \<noteq> None \<Longrightarrow> w_cancelled t \<noteq> None"
  by (induction rule: mstep.induct) auto

definition ended :: "live \<Rightarrow> bool" where
  "ended s \<longleftrightarrow> ws_doneErr (lv_ws s) \<noteq> None"

lemma ended_iff: "ended s \<longleftrightarrow> ws_done (lv_ws s) \<or> w_cancelled (lv_world s) \<noteq> None"
  by (auto simp: ended_def ws_doneErr_def split: option.split)

lemma after_publish_ended [simp]:
  "ws_done (snd (after_publish k c)) = ws_done c" "ws_world (snd (after_publish k c)) = ws_world c"
  by (cases k; simp)+

lemma after_flush_ended [simp]:
  "ws_done (snd (after_flush k err c)) = ws_done c" "ws_world (snd (after_flush k err c)) = ws_world c"
  by (cases k; simp add: Let_def close_handle_def forget_def split: option.split)+

lemma sections_ended [simp]:
  "ws_done (publishLatest q c) = ws_done c" "ws_done (WatchAll c) = ws_done c" "ws_world (WatchAll c) = ws_world c"
  "ws_done (unwatch w c) = ws_done c" "ws_world (unwatch w c) = ws_world c"
  "ws_done (releaseRuntimeState c) = ws_done c" "ws_world (releaseRuntimeState c) = ws_world c"
  by (simp_all add: publishLatest_def WatchAll_def unwatch_def releaseRuntimeState_def Let_def split: option.split)

lemma live_step_ended: "live_step texts s t \<Longrightarrow> ended s \<Longrightarrow> ended t"
proof (induction rule: live_step.induct)
  case (manager s w)
  then show ?case using mstep_cancelled [OF manager(1)] by (auto simp: ended_iff)
next
  case (publish s xs q k ys cs c)
  then show ?case
    using after_publish_ended [of k "publishLatest q (lv_ws s)"] by (simp add: ended_iff)
next
  case (no_flush s xs k ys r e cs c)
  then show ?case
    using after_flush_ended [of k "ws_flush (Some r) (lv_ws s)" "lv_ws s"] by (simp add: ended_iff)
next
  case (flushed s xs n k ys r cs c)
  then show ?case
    using after_flush_ended [of k "ws_flush r (lv_ws s)" "lv_ws s"] by (simp add: ended_iff)
qed (auto simp: ended_iff)

text \<open>Nothing changes the context that the client was made from.\<close>

lemma sections_ctx [simp]:
  "ws_ctx (publishLatest q c) = ws_ctx c" "ws_ctx (WatchAll c) = ws_ctx c" "ws_ctx (unwatch w c) = ws_ctx c"
  "ws_ctx (releaseRuntimeState c) = ws_ctx c" "ws_ctx (register i c) = ws_ctx c"
  "ws_ctx (snd (after_publish k c)) = ws_ctx c" "ws_ctx (snd (after_flush k err c)) = ws_ctx c"
  by (cases k; simp add: publishLatest_def WatchAll_def unwatch_def releaseRuntimeState_def register_def close_handle_def
      forget_def Let_def split: option.split)+

lemma live_step_ctx: "live_step texts s t \<Longrightarrow> ws_ctx (lv_ws t) = ws_ctx (lv_ws s)"
proof (induction rule: live_step.induct)
  case (publish s xs q k ys cs c)
  then show ?case
    using sections_ctx(6) [of k "publishLatest q (lv_ws s)"] by simp
next
  case (no_flush s xs k ys r e cs c)
  then show ?case
    using sections_ctx(7) [of k "ws_flush (Some r) (lv_ws s)" "lv_ws s"] by simp
next
  case (flushed s xs n k ys r cs c)
  then show ?case
    using sections_ctx(7) [of k "ws_flush r (lv_ws s)" "lv_ws s"] by simp
qed auto

section \<open>The lifetime of the realtime client\<close>

text \<open>
  A client with its realtime client, the calls on that one and the contexts of all callers,
  each known by its number: until \<open>Close\<close>, the goroutines of the realtime client run, contexts
  end, and other goroutines subscribe, watch and change the credentials.
\<close>

record lifetime =
  lt_app :: AppClient
  lt_calls :: "live_call list"
  lt_tail :: nat
  lt_ctx :: "nat \<Rightarrow> ctx_error option"

abbreviation lt_live :: "WebSocketClient \<Rightarrow> lifetime \<Rightarrow> live" where
  "lt_live w s \<equiv> \<lparr>lv_ws = w, lv_calls = lt_calls s, lv_tail = lt_tail s\<rparr>"

abbreviation lt_context :: "nat \<Rightarrow> lifetime \<Rightarrow> Context" where
  "lt_context n s \<equiv> \<lparr>cx_id = n, cx_err = lt_ctx s n\<rparr>"

fun credentials_op :: "app_op \<Rightarrow> bool" where
  "credentials_op (ARealtime env ctx syncURL) = False"
| "credentials_op (AClose r) = False"
| "credentials_op (AEvolve w) = False"
| "credentials_op _ = True"

inductive lifetime_step :: "(error \<Rightarrow> string) \<Rightarrow> lifetime \<Rightarrow> lifetime \<Rightarrow> bool" for texts :: "error \<Rightarrow> string" where
  run: "ap_webSocketClient (lt_app s) = Some w \<Longrightarrow> live_step texts (lt_live w s) l \<Longrightarrow>
    lifetime_step texts s (s\<lparr>lt_app := (lt_app s)\<lparr>ap_webSocketClient := Some (lv_ws l)\<rparr>, lt_calls := lv_calls l,
      lt_tail := lv_tail l\<rparr>)"
| context_ends: "n \<noteq> cx_id context_Background \<Longrightarrow> lt_ctx s n = None \<Longrightarrow>
    lifetime_step texts s (s\<lparr>lt_ctx := (lt_ctx s)(n \<mapsto> e),
      lt_app := (lt_app s)\<lparr>ap_webSocketClient := map_option (end_context n e) (ap_webSocketClient (lt_app s))\<rparr>\<rparr>)"
| call: "x = CWatch \<or> (\<exists>path args. x = CSubscribe path args) \<Longrightarrow>
    on_realtime env (lt_context n s) syncURL x (lt_app s) = (r, c) \<Longrightarrow>
    lifetime_step texts s (s\<lparr>lt_app := c, lt_calls := lt_calls s @ (case r of Inl e \<Rightarrow> [] | Inr x \<Rightarrow> [x])\<rparr>)"
| credentials: "credentials_op x \<Longrightarrow> lifetime_step texts s (s\<lparr>lt_app := app_exec x (lt_app s)\<rparr>)"

text \<open>The realtime client is the one that was made from the given context, and has ended if that has.\<close>

definition bound_to :: "nat \<Rightarrow> lifetime \<Rightarrow> bool" where
  "bound_to n s \<longleftrightarrow> (\<exists>w. ap_webSocketClient (lt_app s) = Some w \<and> ws_ctx w = n \<and> (lt_ctx s n \<noteq> None \<longrightarrow> ws_doneErr w \<noteq> None))"

lemma ws_auth_ctx: "ws_ctx (snd (ws_auth f flush r w)) = ws_ctx w"
  by (auto simp: ws_auth_def split: option.split prod.split sum.split)

lemma credentials_keep:
  assumes "credentials_op x" "ap_webSocketClient c = Some w"
  shows "\<exists>v. ap_webSocketClient (app_exec x c) = Some v \<and> ws_ctx v = ws_ctx w \<and> ws_doneErr v = ws_doneErr w"
proof -
  have a: "ap_webSocketClient (snd (forward_auth (ws_auth f flush r) d)) = Some (snd (ws_auth f flush r w))"
    if "ap_webSocketClient d = Some w" for d f flush r
    using that by (simp add: forward_auth_def split: prod.split)
  show ?thesis
  proof (cases x)
    case (ASetAuthCallback env r fetcher)
    obtain e v where v: "ws_setAuthCallback env fetcher True r w = (e, v)"
      by fastforce
    have "ws_ctx v = ws_ctx w" "ws_doneErr v = ws_doneErr w"
      using ws_auth_ctx ws_auth_done v unfolding ws_setAuthCallback_def by (metis snd_conv)+
    with ASetAuthCallback assms(2) v show ?thesis
      by (cases e) (simp_all add: SetAuthCallbackContext_def)
  qed (use assms in \<open>auto simp: SetAuthContext_def ClearAuthContext_def SetAdminAuthContext_def HTTP_SetAdminAuth_def
      ws_setAuth_def ws_setAdminAuth_def ws_clearAuth_def a ws_auth_ctx ws_auth_done Let_def split: sum.split\<close>)
qed

lemma end_context_props:
  "ws_ctx (end_context n e w) = ws_ctx w" "ws_ctx w = n \<Longrightarrow> ws_doneErr (end_context n e w) \<noteq> None"
  "ws_doneErr w \<noteq> None \<Longrightarrow> ws_doneErr (end_context n e w) \<noteq> None" "ws_ctx w \<noteq> n \<Longrightarrow> end_context n e w = w"
  by (auto simp: end_context_def ws_doneErr_def split: option.split)

lemma bound_to_step: "lifetime_step texts s t \<Longrightarrow> bound_to n s \<Longrightarrow> bound_to n t"
proof (induction rule: lifetime_step.induct)
  case (run s w l)
  then show ?case
    using live_step_ctx [OF run(2)] live_step_ended [OF run(2)] by (auto simp: bound_to_def ended_def)
next
  case (context_ends m s e)
  then obtain w where "ap_webSocketClient (lt_app s) = Some w" "ws_ctx w = n" "lt_ctx s n \<noteq> None \<Longrightarrow> ws_doneErr w \<noteq> None"
    by (auto simp: bound_to_def)
  with end_context_props [where n = m and e = e and w = w] show ?case
    by (auto simp: bound_to_def)
next
  case (call x env m s syncURL r c)
  then have "c = lt_app s"
    by (auto simp: bound_to_def on_realtime_def realtime_def)
  with call show ?case
    by (simp add: bound_to_def)
next
  case (credentials x s)
  then obtain w where "ap_webSocketClient (lt_app s) = Some w" "ws_ctx w = n" "lt_ctx s n \<noteq> None \<longrightarrow> ws_doneErr w \<noteq> None"
    by (auto simp: bound_to_def)
  with credentials_keep [OF credentials(1)] show ?case
    by (fastforce simp: bound_to_def)
qed

interpretation lifetime: machine "bound_to n" "lifetime_step texts" "bound_to n"
  by unfold_locales (auto intro: bound_to_step)

text \<open>A call that makes the realtime client.\<close>

lemma fresh_ctx: "fresh_realtime ctx syncURL c = Inr w \<Longrightarrow> ws_ctx w = cx_id ctx \<and> ws_doneErr w = map_option CtxError (cx_err ctx)"
  by (auto simp: fresh_realtime_def res_simps NewWebSocketClient_def ws_doneErr_def new_world_def)

lemma install_ctx: "ws_ctx (snd (install_auth env c w)) = ws_ctx w"
  by (simp add: install_auth_def ws_setAuth_def ws_setAdminAuth_def ws_setAuthCallback_def ws_auth_ctx split: option.split)

lemma first_call:
  assumes "ap_webSocketClient c = None" "on_realtime env ctx syncURL x c = (Inr y, c')"
  shows "\<exists>w. c' = c\<lparr>ap_webSocketClient := Some w\<rparr> \<and> ws_ctx w = cx_id ctx \<and> ws_doneErr w = None \<and> y = x \<and> cx_err ctx = None"
    and "\<exists>w. fresh_realtime ctx syncURL c = Inr w"
  using assms install_ctx [of env c] install_done [of env c] fresh_ctx [of ctx syncURL c]
  by (auto simp: on_realtime_def realtime_def start_call_def split: option.splits sum.splits prod.splits) (metis snd_conv)+

text \<open>A new realtime client can be had whenever its manager can be made and a stored callback returns a token.\<close>

lemma ws_auth_fresh:
  assumes "ws_doneErr w = None"
  shows "fst (ws_setAuth token False r w) = None" "fst (ws_setAdminAuth token actingAs False r w) = None"
    "env f False = Inr t \<Longrightarrow> fst (ws_setAuthCallback env (Some f) False r w) = None"
  using assms by (simp_all add: ws_ops manager_auth adaptUserTokenFetcher_def adapted_env_def queueAuth_def)

lemma call_again:
  assumes "ap_webSocketClient c = None" "fresh_realtime ctx syncURL c = Inr w" "cx_err ctx = None"
    and "\<And>f. ap_authCallback c = Some f \<Longrightarrow> \<exists>t. env f False = Inr t"
  shows "\<exists>c'. on_realtime env ctx syncURL x c = (Inr x, c')"
proof -
  have w: "ws_doneErr w = None"
    using fresh_ctx [OF assms(2)] assms(3) by simp
  have "fst (install_auth env c w) = None"
    using assms(4) ws_auth_fresh [OF w] by (auto simp: install_auth_def split: option.split)
  then obtain v where v: "install_auth env c w = (None, v)"
    by (cases "install_auth env c w") simp
  then have "ws_doneErr v = None"
    using install_done [of env c w] w by simp
  with v show ?thesis
    using assms(1-3) by (simp add: on_realtime_def realtime_def start_call_def)
qed

lemma fresh_total:
  assumes "fresh_realtime ctx syncURL c = Inr w" "ap_webSocketOptions d = ap_webSocketOptions c"
  shows "\<exists>v. fresh_realtime ctx' syncURL d = Inr v"
  using assms by (auto simp: fresh_realtime_def res_simps)

lemma lifetime_options: "lifetime_step texts s t \<Longrightarrow> ap_webSocketOptions (lt_app t) = ap_webSocketOptions (lt_app s)"
proof (induction rule: lifetime_step.induct)
  case (call x env n s syncURL r c)
  then show ?case
    by (auto simp: on_realtime_def realtime_def split: option.splits sum.splits prod.splits)
qed simp_all

text \<open>
  C7: the realtime client is bound to the context of the subscription that has started it,
  and to no other: whatever then happens, other subscriptions with contexts of their own,
  contexts that end and changes of the credentials included, once that first context has
  ended every \<open>Subscribe\<close> and \<open>WatchAll\<close> fails, with whatever context, and leaves the client as
  it is; the end of any other context does not touch the realtime client. Only \<open>Close\<close> makes
  the next subscription start a new one, which is then bound to the context of that call.
\<close>

theorem realtime_ends_with_first_context:
  assumes "ap_webSocketClient c = None"
    and "App_Subscribe env \<lparr>cx_id = n, cx_err = ctxs n\<rparr> syncURL path args c = (Inr x, c1)"
    and "(lifetime_step texts)\<^sup>*\<^sup>* \<lparr>lt_app = c1, lt_calls = [x], lt_tail = 0, lt_ctx = ctxs\<rparr> s"
  shows "(lt_ctx s n \<noteq> None \<longrightarrow>
      (\<forall>env ctx syncURL path args. \<exists>e. App_Subscribe env ctx syncURL path args (lt_app s) = (Inl e, lt_app s)) \<and>
      (\<forall>env ctx syncURL. \<exists>e. App_WatchAll env ctx syncURL (lt_app s) = (Inl e, lt_app s))) \<and>
    (\<exists>w. ap_webSocketClient (lt_app s) = Some w \<and> (\<forall>m e. m \<noteq> n \<longrightarrow> end_context m e w = w)) \<and>
    (\<forall>env ctx path args. cx_err ctx = None \<and> (\<forall>f. ap_authCallback (lt_app s) = Some f \<longrightarrow> (\<exists>t. env f False = Inr t)) \<longrightarrow>
      (\<exists>y c' w. App_Subscribe env ctx syncURL path args (snd (App_Close r (lt_app s))) = (Inr y, c') \<and>
         ap_webSocketClient c' = Some w \<and> ws_ctx w = cx_id ctx \<and> ws_doneErr w = None))"
proof -
  note first = first_call [OF assms(1) assms(2) [unfolded App_Subscribe_def]]
  let ?s0 = "\<lparr>lt_app = c1, lt_calls = [x], lt_tail = 0, lt_ctx = ctxs\<rparr>"
  have "bound_to n ?s0"
    using first(1) by (auto simp: bound_to_def)
  then have "bound_to n s"
    by (rule lifetime.inv_reachable [OF _ assms(3)])
  then obtain w where w: "ap_webSocketClient (lt_app s) = Some w" "ws_ctx w = n" "lt_ctx s n \<noteq> None \<Longrightarrow> ws_doneErr w \<noteq> None"
    by (auto simp: bound_to_def)
  have "ap_webSocketOptions (lt_app s) = ap_webSocketOptions (lt_app ?s0)"
    using assms(3) by (induction rule: rtranclp_induct) (simp_all add: lifetime_options)
  then have o: "ap_webSocketOptions (snd (App_Close r (lt_app s))) = ap_webSocketOptions c"
    using first(1) w(1) by (auto simp: App_Close_def)
  have again: "\<exists>y c' w. App_Subscribe env ctx syncURL path args (snd (App_Close r (lt_app s))) = (Inr y, c') \<and>
      ap_webSocketClient c' = Some w \<and> ws_ctx w = cx_id ctx \<and> ws_doneErr w = None"
    if ok: "cx_err ctx = None" "\<forall>f. ap_authCallback (lt_app s) = Some f \<longrightarrow> (\<exists>t. env f False = Inr t)"
    for env and ctx :: Context and path args
  proof -
    have n: "ap_webSocketClient (snd (App_Close r (lt_app s))) = None" "ap_authCallback (snd (App_Close r (lt_app s))) = ap_authCallback (lt_app s)"
      by (simp_all add: App_Close_def split: option.split)
    obtain v where "fresh_realtime ctx syncURL (snd (App_Close r (lt_app s))) = Inr v"
      using fresh_total first(2) o by blast
    from call_again [OF n(1) this ok(1), of env "CSubscribe path args"] ok(2) n(2) obtain c' where
      "on_realtime env ctx syncURL (CSubscribe path args) (snd (App_Close r (lt_app s))) = (Inr (CSubscribe path args), c')"
      by auto
    with first_call(1) [OF n(1) this] show ?thesis
      by (auto simp: App_Subscribe_def)
  qed
  have "\<exists>e. on_realtime env ctx syncURL x (lt_app s) = (Inl e, lt_app s)" if "lt_ctx s n \<noteq> None" for env ctx syncURL x
    using w that by (intro on_ended) auto
  then show ?thesis
    using w again end_context_props(4) [of w] by (auto simp: App_Subscribe_def App_WatchAll_def)
qed

definition lifetime_client :: AppClient where
  "lifetime_client =
     \<lparr>ap_httpClient = \<lparr>hc_address = ''https://a'', hc_clientID = ''go-0.1.0'', hc_skipDeploymentURLCheck = False,
        hc_mutationQueue = Some newReadyMutationQueue, hc_auth = [], hc_adminAuth = [], hc_authCallback = None\<rparr>,
      ap_deploymentURL = ''https://a'', ap_webSocketClient = None, ap_webSocketOptions = [], ap_authToken = [],
      ap_adminAuthToken = [], ap_adminActingAs = [], ap_authCallback = None\<rparr>"

theorem realtime_ends_with_first_context_witness:
  "\<exists>(c :: AppClient) w e. ap_webSocketClient c = Some w \<and>
     App_WatchAll (\<lambda>_ _. Inr []) context_Background (Inr ''wss://a'') c = (Inl e, c)"
proof -
  let ?env = "\<lambda>_ _. Inr []" and ?ctx = "\<lparr>cx_id = 1, cx_err = None\<rparr>"
  have "TrimSpace ''go-0.1.0'' \<noteq> []"
    by code_simp
  then obtain w where w: "fresh_realtime ?ctx (Inr ''wss://a'') lifetime_client = Inr w"
    by (simp add: fresh_realtime_def Manager_New_def lifetime_client_def)
  then obtain x c1 where c1: "App_Subscribe ?env ?ctx (Inr ''wss://a'') ''m:f'' GNilRef lifetime_client = (Inr x, c1)"
    using call_again [of lifetime_client ?ctx "Inr ''wss://a''" w ?env "CSubscribe ''m:f'' GNilRef"]
    by (auto simp: App_Subscribe_def lifetime_client_def)
  let ?s0 = "\<lparr>lt_app = c1, lt_calls = [x], lt_tail = 0, lt_ctx = \<lambda>_. None\<rparr>"
  obtain s where s: "lifetime_step (\<lambda>_. []) ?s0 s" "lt_ctx s 1 = Some Canceled"
    using lifetime_step.context_ends [of 1 ?s0 "\<lambda>_. []" Canceled] by (auto simp: context_Background_def)
  have "(lifetime_step (\<lambda>_. []))\<^sup>*\<^sup>* ?s0 s"
    using s(1) by blast
  from realtime_ends_with_first_context [of lifetime_client ?env 1 "\<lambda>_. None" _ _ _ x c1, OF _ c1 this] s(2) show ?thesis
    by (fastforce simp: lifetime_client_def)
qed

end
