(* ===== verification/Core_Access.thy ===== *)
theory Core_Access
  imports Core_Result
begin

text \<open>
  The constructors and accessors of \<open>Value\<close> in \<open>internal/core/value.go\<close>, decoding into Go
  data, and the texts of errors in \<open>internal/core/function_result.go\<close>. Bytes, arrays and
  objects are copied on the way in and out, so their contents are all that matters. An
  accessor returns a value and whether there is one: an option.
\<close>

section \<open>Constructors\<close>

definition NullValue :: Value where
  "NullValue = VNull"

definition Int64Value :: "64 word \<Rightarrow> Value" where
  "Int64Value n = VInt64 n"

definition Float64Value :: "f64 \<Rightarrow> Value" where
  "Float64Value f = VFloat64 f"

definition BooleanValue :: "bool \<Rightarrow> Value" where
  "BooleanValue b = VBoolean b"

definition StringValue :: "string \<Rightarrow> Value" where
  "StringValue s = VString s"

definition BytesValue :: "byte list \<Rightarrow> Value" where
  "BytesValue b = VBytes b"

definition ArrayValue :: "Value list \<Rightarrow> Value" where
  "ArrayValue values = VArray values"

text \<open>A panic is \<open>None\<close>.\<close>

definition MustObjectValue :: "(string, Value) gomap \<Rightarrow> Value option" where
  "MustObjectValue m = (case ObjectValue m of Inl e \<Rightarrow> None | Inr v \<Rightarrow> Some v)"

section \<open>Accessors\<close>

fun value_i64 :: "Value \<Rightarrow> 64 word" where
  "value_i64 (VInt64 n) = n"
| "value_i64 _ = 0"

fun value_f64 :: "Value \<Rightarrow> f64" where
  "value_f64 (VFloat64 f) = f"
| "value_f64 _ = 0"

fun value_b :: "Value \<Rightarrow> bool" where
  "value_b (VBoolean b) = b"
| "value_b _ = False"

fun value_s :: "Value \<Rightarrow> string" where
  "value_s (VString s) = s"
| "value_s _ = []"

fun value_bytes :: "Value \<Rightarrow> byte list" where
  "value_bytes (VBytes d) = d"
| "value_bytes _ = []"

fun value_array :: "Value \<Rightarrow> Value list" where
  "value_array (VArray vs) = vs"
| "value_array _ = []"

fun value_obj :: "Value \<Rightarrow> (string, Value) gomap" where
  "value_obj (VObject m) = m"
| "value_obj _ = []"

definition Value_Int64 :: "Value \<Rightarrow> 64 word option" where
  "Value_Int64 v = (if Kind v \<noteq> Int64Kind then None else Some (value_i64 v))"

definition Value_Float64 :: "Value \<Rightarrow> f64 option" where
  "Value_Float64 v = (if Kind v \<noteq> Float64Kind then None else Some (value_f64 v))"

definition Value_Bool :: "Value \<Rightarrow> bool option" where
  "Value_Bool v = (if Kind v \<noteq> BooleanKind then None else Some (value_b v))"

definition Value_String :: "Value \<Rightarrow> string option" where
  "Value_String v = (if Kind v \<noteq> StringKind then None else Some (value_s v))"

definition Value_Bytes :: "Value \<Rightarrow> byte list option" where
  "Value_Bytes v = (if Kind v \<noteq> BytesKind then None else Some (value_bytes v))"

definition Value_Array :: "Value \<Rightarrow> Value list option" where
  "Value_Array v = (if Kind v \<noteq> ArrayKind then None else Some (value_array v))"

definition Value_Object :: "Value \<Rightarrow> (string, Value) gomap option" where
  "Value_Object v = (if Kind v \<noteq> ObjectKind then None else Some (value_obj v))"

section \<open>Decoding into Go data\<close>

definition DecodeJSON :: "json \<Rightarrow> gval res" where
  "DecodeJSON data = rbind (ParseValueJSON data) (\<lambda>value. Inr (GoValue value))"

definition DecodeValue :: "wire \<Rightarrow> gval res" where
  "DecodeValue value = decodeValue value"

section \<open>The texts of errors\<close>

definition ConvexError_Error :: "ConvexError \<Rightarrow> string" where
  "ConvexError_Error e = Message e"

text \<open>\<open>quote\<close> is the verb \<open>%q\<close>, which depends on the tables of printable characters.\<close>

definition FunctionError_Error :: "(string \<Rightarrow> string) \<Rightarrow> FunctionError \<Rightarrow> string" where
  "FunctionError_Error quote e =
     (if fePath e = [] then ''convex: function failed: '' @ feMessage e
      else ''convex: '' @ feKind e @ '' '' @ quote (fePath e) @ '' failed: '' @ feMessage e)"

section \<open>What they show\<close>

lemmas accessor_defs = Value_Int64_def Value_Float64_def Value_Bool_def Value_String_def Value_Bytes_def
  Value_Array_def Value_Object_def
lemmas constructor_defs = NullValue_def Int64Value_def Float64Value_def BooleanValue_def StringValue_def
  BytesValue_def ArrayValue_def

text \<open>The accessors tell values apart: at most one succeeds, and together they determine the value.\<close>

lemma accessors_determine:
  "Value_Int64 v = Value_Int64 w \<Longrightarrow> Value_Float64 v = Value_Float64 w \<Longrightarrow> Value_Bool v = Value_Bool w \<Longrightarrow>
   Value_String v = Value_String w \<Longrightarrow> Value_Bytes v = Value_Bytes w \<Longrightarrow> Value_Array v = Value_Array w \<Longrightarrow>
   Value_Object v = Value_Object w \<Longrightarrow> v = w"
  by (cases v; cases w) (simp_all add: accessor_defs)

lemma access_constructed:
  "Value_Int64 (Int64Value n) = Some n" "Value_Float64 (Float64Value f) = Some f" "Value_Bool (BooleanValue b) = Some b"
  "Value_String (StringValue s) = Some s" "Value_Bytes (BytesValue d) = Some d" "Value_Array (ArrayValue vs) = Some vs"
  by (simp_all add: accessor_defs constructor_defs)

text \<open>An object constructed from a Go map has exactly its fields, and construction panics exactly for a bad name.\<close>

lemma MustObjectValue_iff:
  assumes "mwf m"
  shows "MustObjectValue m = Some v \<longleftrightarrow> Value_Object v = Some m \<and> (\<forall>p\<in>set m. valid_field (fst p))"
proof (cases "\<forall>p\<in>set m. validateObjectField (fst p) = Inr ()")
  case True
  with ObjectValue_ok [of m] assms show ?thesis
    by (cases v) (auto simp: MustObjectValue_def accessor_defs validateObjectField_iff)
next
  case False
  then have "\<exists>e. ObjectValue m = Inl e"
    using ObjectValue_Inr [of m] by (cases "ObjectValue m") auto
  with False show ?thesis
    by (auto simp: MustObjectValue_def validateObjectField_iff)
qed

end
