(* ===== verification/App_Observers.thy ===== *)
theory App_Observers
  imports Sync_Connection "HOL-Library.Multiset"
begin

text \<open>
  The observers of the connection state of a client: \<open>client_connection_state.go\<close>,
  \<open>connection_state.go\<close> and \<open>subscription_connection_state.go\<close>, with the parts of \<open>Close\<close> and
  \<open>realtime\<close> in \<open>client_facade.go\<close> that attach and detach them. A client keeps its observers
  while realtime clients come and go, and attaches each of them to the manager of the
  current one.

  A goroutine is the list of what it has still to do; every element is done under one lock
  or is one call. Goroutines take turns in any order; one that waits for a realtime client
  to end takes none until then. A call of the user's function is recorded when it is made: a
  function that takes long is a goroutine that takes no turn for long.
\<close>

section \<open>The state\<close>

text \<open>
  An observer. The function \<open>unsubscribe\<close> is the realtime client it belongs to and the id of
  the subscription at its manager.
\<close>

record connectionStateObserver =
  ob_callback :: callback
  ob_unsubscribe :: "(nat \<times> 64 word option) option"
  ob_last :: ConnectionState
  ob_hasLast :: bool
  ob_attaching :: bool

text \<open>
  What is still to be done: the atomic parts of the methods, in the order of the source.
  Realtime clients are numbered in the order of their creation; \<open>fa_done\<close> are those whose
  goroutine \<open>run\<close> has closed \<open>done\<close>.
\<close>

datatype act =
    DoSubscribe "callback option"
  | DoRead "64 word"
  | DoState "64 word" "nat option"
  | DoForward "64 word" ConnectionState
  | DoCall callback ConnectionState
  | DoAttachAll nat
  | DoAttach "64 word" nat
  | DoManagerSubscribe "64 word" nat
  | DoAttached "64 word" nat "64 word option"
  | DoManagerUnsubscribe nat "64 word option"
  | DoUnsubscribe "64 word"
  | DoClose
  | DoWaitClosed nat
  | DoClear
  | DoStart
  | DoInstall nat
  | DoEnd nat
  | DoChange nat "ConnectionState \<Rightarrow> ConnectionState" int

record facade =
  fa_realtime :: "nat option"
  fa_hubs :: "StateHub list"
  fa_observers :: "(64 word, connectionStateObserver) gomap"
  fa_next :: "64 word"
  fa_seen :: "notification list"
  fa_done :: "nat list"
  fa_threads :: "act list list"

definition new_manager_hub :: StateHub where
  "new_manager_hub = \<lparr>connectionState = initial_ConnectionState, connectionStateSubscribers = [],
     nextConnectionStateSubscriberID = 0\<rparr>"

definition new_facade :: facade where
  "new_facade = \<lparr>fa_realtime = None, fa_hubs = [], fa_observers = [], fa_next = 0, fa_seen = [], fa_done = [], fa_threads = []\<rparr>"

section \<open>The states of the root package\<close>

definition disconnectedConnectionState :: ConnectionState where
  "disconnectedConnectionState =
     \<lparr>cs_Phase = ConnectionPhaseDisconnected, cs_HasEverConnected = False, cs_ConnectionCount = 0,
      cs_ConnectionRetries = 0, cs_LastChange = 0\<rparr>"

definition connectionStateFromSync :: "ConnectionState \<Rightarrow> ConnectionState" where
  "connectionStateFromSync state =
     \<lparr>cs_Phase = cs_Phase state, cs_HasEverConnected = cs_HasEverConnected state,
      cs_ConnectionCount = cs_ConnectionCount state, cs_ConnectionRetries = cs_ConnectionRetries state,
      cs_LastChange = cs_LastChange state\<rparr>"

text \<open>
  At a manager, the callback of an observer is known by the number of the observer; it
  converts the state and forwards it.
\<close>

definition forward_all :: "notification list \<Rightarrow> act list" where
  "forward_all ns = map (\<lambda>(cb, state). DoForward (of_nat cb) (connectionStateFromSync state)) ns"

section \<open>The methods\<close>

text \<open>Each returns the new state and what the goroutine has to do next.\<close>

definition Client_SubscribeToConnectionState :: "callback option \<Rightarrow> facade \<Rightarrow> facade \<times> act list" where
  "Client_SubscribeToConnectionState cb c =
     (case cb of
        None \<Rightarrow> (c, [])
      | Some cb \<Rightarrow>
          let observer = \<lparr>ob_callback = cb, ob_unsubscribe = None, ob_last = disconnectedConnectionState,
                          ob_hasLast = False, ob_attaching = False\<rparr>;
              i = fa_next c
          in (c\<lparr>fa_next := fa_next c + 1, fa_observers := mput i observer (fa_observers c)\<rparr>,
              DoRead i # (case fa_realtime c of None \<Rightarrow> [] | Some w \<Rightarrow> [DoAttach i w])))"

definition Client_unsubscribe :: "64 word \<Rightarrow> facade \<Rightarrow> facade \<times> act list" where
  "Client_unsubscribe i c =
     (case mget (fa_observers c) i of
        None \<Rightarrow> (c, [])
      | Some observer \<Rightarrow>
          (c\<lparr>fa_observers := mdel i (fa_observers c)\<rparr>,
           case ob_unsubscribe observer of None \<Rightarrow> [] | Some (w, h) \<Rightarrow> [DoManagerUnsubscribe w h]))"

definition can_attach :: "connectionStateObserver \<Rightarrow> bool" where
  "can_attach observer \<longleftrightarrow> \<not> ob_attaching observer \<and> ob_unsubscribe observer = None"

text \<open>The ids are in ascending order here, where Go ranges over the map.\<close>

definition attachConnectionStateObservers :: "nat \<Rightarrow> facade \<Rightarrow> act list" where
  "attachConnectionStateObservers w c =
     map (\<lambda>(i, _). DoAttach i w) (filter (\<lambda>(_, observer). can_attach observer) (fa_observers c))"

text \<open>The first and the last part of \<open>attachConnectionStateObserver\<close>.\<close>

definition attach_begin :: "64 word \<Rightarrow> nat \<Rightarrow> facade \<Rightarrow> facade \<times> act list" where
  "attach_begin i w c =
     (case mget (fa_observers c) i of
        None \<Rightarrow> (c, [])
      | Some observer \<Rightarrow>
          if \<not> can_attach observer then (c, [])
          else (c\<lparr>fa_observers := mput i (observer\<lparr>ob_attaching := True\<rparr>) (fa_observers c)\<rparr>, [DoManagerSubscribe i w]))"

definition attach_end :: "64 word \<Rightarrow> nat \<Rightarrow> 64 word option \<Rightarrow> facade \<Rightarrow> facade \<times> act list" where
  "attach_end i w h c =
     (case mget (fa_observers c) i of
        None \<Rightarrow> (c, [DoManagerUnsubscribe w h])
      | Some observer \<Rightarrow>
          let observer = observer\<lparr>ob_attaching := False\<rparr>
          in case ob_unsubscribe observer of
               Some (w', h') \<Rightarrow>
                 (c\<lparr>fa_observers := mput i observer (fa_observers c)\<rparr>, [DoManagerUnsubscribe w' h', DoManagerUnsubscribe w h])
             | None \<Rightarrow> (c\<lparr>fa_observers := mput i (observer\<lparr>ob_unsubscribe := Some (w, h)\<rparr>) (fa_observers c)\<rparr>, []))"

definition clearConnectionStateObserverAttachments :: "facade \<Rightarrow> facade" where
  "clearConnectionStateObserverAttachments c =
     c\<lparr>fa_observers := mmap (\<lambda>observer. observer\<lparr>ob_unsubscribe := None, ob_attaching := False\<rparr>) (fa_observers c)\<rparr>"

definition forwardConnectionState :: "64 word \<Rightarrow> ConnectionState \<Rightarrow> facade \<Rightarrow> facade \<times> act list" where
  "forwardConnectionState i state c =
     (case mget (fa_observers c) i of
        None \<Rightarrow> (c, [])
      | Some observer \<Rightarrow>
          if ob_hasLast observer \<and> ob_last observer = state then (c, [])
          else (c\<lparr>fa_observers := mput i (observer\<lparr>ob_last := state, ob_hasLast := True\<rparr>) (fa_observers c)\<rparr>,
                [DoCall (ob_callback observer) state]))"

text \<open>\<open>ConnectionState\<close> of the realtime client with a number, and of the client, which has read the number before\<close>

definition ws_ConnectionState :: "nat \<Rightarrow> facade \<Rightarrow> ConnectionState" where
  "ws_ConnectionState w c = connectionStateFromSync (connectionState (fa_hubs c ! w))"

definition Client_ConnectionState :: "nat option \<Rightarrow> facade \<Rightarrow> ConnectionState" where
  "Client_ConnectionState realtime c =
     (case realtime of None \<Rightarrow> disconnectedConnectionState | Some w \<Rightarrow> ws_ConnectionState w c)"

definition ws_SubscribeToConnectionState :: "64 word \<Rightarrow> nat \<Rightarrow> facade \<Rightarrow> facade \<times> act list" where
  "ws_SubscribeToConnectionState i w c =
     (case SubscribeToConnectionState (Some (unat i)) (fa_hubs c ! w) of
        (h, calls, m) \<Rightarrow> (c\<lparr>fa_hubs := (fa_hubs c)[w := m]\<rparr>, forward_all calls @ [DoAttached i w h]))"

definition facade_Close :: "facade \<Rightarrow> facade \<times> act list" where
  "facade_Close c =
     (c\<lparr>fa_realtime := None\<rparr>,
      case fa_realtime c of None \<Rightarrow> [] | Some w \<Rightarrow> [DoWaitClosed w, DoClear])"

text \<open>
  \<open>realtime\<close>: a client is made when there is none, and stored unless another was stored
  meanwhile; then it is closed, which waits for its end. A start that fails returns before
  that and leaves nothing behind.
\<close>

definition facade_start :: "facade \<Rightarrow> facade \<times> act list" where
  "facade_start c =
     (case fa_realtime c of
        Some w \<Rightarrow> (c, [])
      | None \<Rightarrow> (c\<lparr>fa_hubs := fa_hubs c @ [new_manager_hub]\<rparr>, [DoInstall (length (fa_hubs c))]))"

definition facade_install :: "nat \<Rightarrow> facade \<Rightarrow> facade \<times> act list" where
  "facade_install w c =
     (case fa_realtime c of
        Some _ \<Rightarrow> (c, [DoWaitClosed w])
      | None \<Rightarrow> (c\<lparr>fa_realtime := Some w\<rparr>, [DoAttachAll w]))"

fun do_act :: "act \<Rightarrow> facade \<Rightarrow> facade \<times> act list" where
  "do_act (DoSubscribe cb) c = Client_SubscribeToConnectionState cb c"
| "do_act (DoRead i) c = (c, [DoState i (fa_realtime c)])"
| "do_act (DoState i r) c = (c, [DoForward i (Client_ConnectionState r c)])"
| "do_act (DoForward i state) c = forwardConnectionState i state c"
| "do_act (DoCall cb state) c = (c\<lparr>fa_seen := fa_seen c @ [(cb, state)]\<rparr>, [])"
| "do_act (DoAttachAll w) c = (c, attachConnectionStateObservers w c)"
| "do_act (DoAttach i w) c = attach_begin i w c"
| "do_act (DoManagerSubscribe i w) c = ws_SubscribeToConnectionState i w c"
| "do_act (DoAttached i w h) c = attach_end i w h c"
| "do_act (DoManagerUnsubscribe w h) c = (c\<lparr>fa_hubs := (fa_hubs c)[w := unsubscribe_state h (fa_hubs c ! w)]\<rparr>, [])"
| "do_act (DoUnsubscribe i) c = Client_unsubscribe i c"
| "do_act DoClose c = facade_Close c"
| "do_act (DoWaitClosed w) c = (c, [])"
| "do_act DoClear c = (clearConnectionStateObserverAttachments c, [])"
| "do_act DoStart c = facade_start c"
| "do_act (DoInstall w) c = facade_install w c"
| "do_act (DoEnd w) c = (c\<lparr>fa_done := w # fa_done c\<rparr>, [])"
| "do_act (DoChange w f now) c =
     (case updateConnectionState f now (fa_hubs c ! w) of
        (calls, m) \<Rightarrow> (c\<lparr>fa_hubs := (fa_hubs c)[w := m]\<rparr>, forward_all calls))"

text \<open>\<open>Close\<close> of a realtime client waits until \<open>done\<close> is closed.\<close>

fun waits :: "act \<Rightarrow> facade \<Rightarrow> bool" where
  "waits (DoWaitClosed w) c = (w \<notin> set (fa_done c))"
| "waits _ c = False"

text \<open>One step of the goroutine with number \<open>t\<close>; nothing if it has ended or waits.\<close>

definition thread_step :: "nat \<Rightarrow> facade \<Rightarrow> facade" where
  "thread_step t c =
     (if length (fa_threads c) \<le> t then c
      else case fa_threads c ! t of
        [] \<Rightarrow> c
      | a # rest \<Rightarrow>
          if waits a c then c
          else (case do_act a c of (c', todo) \<Rightarrow> c'\<lparr>fa_threads := (fa_threads c)[t := todo @ rest]\<rparr>))"

text \<open>What a goroutine of the application or of a manager begins with.\<close>

fun api_act :: "facade \<Rightarrow> act \<Rightarrow> bool" where
  "api_act c (DoSubscribe cb) = True"
| "api_act c (DoUnsubscribe i) = True"
| "api_act c DoClose = True"
| "api_act c DoStart = True"
| "api_act c (DoEnd w) = (w < length (fa_hubs c))"
| "api_act c (DoChange w f now) = (w < length (fa_hubs c))"
| "api_act c _ = False"

definition spawn :: "act \<Rightarrow> facade \<Rightarrow> facade" where
  "spawn a c = c\<lparr>fa_threads := fa_threads c @ [[a]]\<rparr>"

inductive facade_step :: "facade \<Rightarrow> facade \<Rightarrow> bool" where
  step: "facade_step c (thread_step t c)"
| call: "api_act c a \<Longrightarrow> facade_step c (spawn a c)"

section \<open>A lost observer\<close>

text \<open>
  Goroutines take their turns as listed. The application subscribes and starts; \<open>Close\<close> forgets
  the realtime client, which ends, but has not yet cleared the attachments when another
  goroutine starts a new one, which skips the observer because it still looks attached.
\<close>

definition run_threads :: "nat list \<Rightarrow> facade \<Rightarrow> facade" where
  "run_threads ts c = fold thread_step ts c"

definition closing_run :: facade where
  "closing_run =
     run_threads [2] (spawn DoClose (run_threads (replicate 9 1) (spawn DoStart
       (run_threads (replicate 9 0) (spawn (DoSubscribe (Some 7)) new_facade)))))"

definition lost_run :: facade where
  "lost_run = run_threads [2, 2] (run_threads [4, 4, 4] (spawn DoStart (run_threads [3] (spawn (DoEnd 0) closing_run))))"

lemma lost_run_state:
  "fa_realtime lost_run = Some 1 \<and> map fst (fa_observers lost_run) = [0] \<and> list_all (\<lambda>t. t = []) (fa_threads lost_run) \<and>
   connectionStateSubscribers (fa_hubs lost_run ! 1) = []"
  by code_simp

end
