(* ===== verification/App_Observing.thy ===== *)
theory App_Observing
  imports App_Observers
begin

text \<open>
  As long as a client is not closed, its observers end up attached: the invariant of the
  goroutines that attach them, and the property.
\<close>

section \<open>What is pending\<close>

definition pending :: "facade \<Rightarrow> act multiset" where
  "pending c = mset (concat (fa_threads c))"

lemma mset_concat_update:
  "t < length ts \<Longrightarrow> ts ! t = a # rest \<Longrightarrow>
     mset (concat (ts[t := todo @ rest])) = mset (concat ts) - {#a#} + mset todo"
proof (induction ts arbitrary: t)
  case (Cons u ts)
  show ?case
  proof (cases t)
    case 0
    with Cons.prems show ?thesis by simp
  next
    case (Suc n)
    with Cons have "mset (concat (ts[n := todo @ rest])) = mset (concat ts) - {#a#} + mset todo" by simp
    moreover have "a \<in># mset (concat ts)"
      using Suc Cons.prems nth_mem [of n ts] by force
    then obtain N where "mset (concat ts) = add_mset a N"
      by (blast dest: multi_member_split)
    ultimately show ?thesis
      using Suc by simp
  qed
qed simp

text \<open>A step takes one of the pending acts and adds what it leaves to do.\<close>

lemma thread_step_pending:
  obtains "thread_step t c = c"
  | a c' todo where "a \<in># pending c" "do_act a c = (c', todo)"
      "thread_step t c = c'\<lparr>fa_threads := fa_threads (thread_step t c)\<rparr>"
      "pending (thread_step t c) = pending c - {#a#} + mset todo"
proof (cases "t < length (fa_threads c) \<and> fa_threads c ! t \<noteq> [] \<and> \<not> waits (hd (fa_threads c ! t)) c")
  case True
  then obtain a rest where t: "t < length (fa_threads c)" "fa_threads c ! t = a # rest" and w: "\<not> waits a c"
    by (cases "fa_threads c ! t") auto
  obtain c' todo where d: "do_act a c = (c', todo)" by (cases "do_act a c")
  have s: "thread_step t c = c'\<lparr>fa_threads := (fa_threads c)[t := todo @ rest]\<rparr>"
    using t d w by (simp add: thread_step_def)
  have "a \<in># pending c"
    using t nth_mem [OF t(1)] by (force simp: pending_def)
  moreover have "pending (thread_step t c) = pending c - {#a#} + mset todo"
    unfolding s pending_def using mset_concat_update [OF t] by simp
  ultimately show ?thesis
    using that(2) d s by simp
next
  case False
  then have "thread_step t c = c" by (auto simp: thread_step_def split: list.split)
  then show ?thesis by (rule that(1))
qed

section \<open>The invariant\<close>

definition subs_of :: "facade \<Rightarrow> nat \<Rightarrow> 64 word \<Rightarrow> callback option" where
  "subs_of c w = mget (connectionStateSubscribers (fa_hubs c ! w))"

definition next_sub :: "facade \<Rightarrow> nat \<Rightarrow> 64 word" where
  "next_sub c w = nextConnectionStateSubscriberID (fa_hubs c ! w)"

text \<open>The subscription belongs to the observer and to no other one that is registered.\<close>

definition owned :: "facade \<Rightarrow> 64 word \<Rightarrow> nat \<Rightarrow> 64 word option \<Rightarrow> bool" where
  "owned c i w h \<longleftrightarrow> w < length (fa_hubs c) \<and>
     (\<exists>k. h = Some k \<and> k < next_sub c w \<and>
        (\<forall>j. mget (fa_observers c) j \<noteq> None \<longrightarrow> (subs_of c w k = Some (unat j) \<longleftrightarrow> j = i)))"

definition disowned :: "facade \<Rightarrow> nat \<Rightarrow> 64 word option \<Rightarrow> bool" where
  "disowned c w h \<longleftrightarrow> w < length (fa_hubs c) \<and>
     (\<exists>k. h = Some k \<and> k < next_sub c w \<and>
        (\<forall>j. mget (fa_observers c) j \<noteq> None \<longrightarrow> subs_of c w k \<noteq> Some (unat j)))"

fun act_ok :: "facade \<Rightarrow> act \<Rightarrow> bool" where
  "act_ok c (DoAttachAll w) = (fa_realtime c = Some w)"
| "act_ok c (DoAttach i w) = (fa_realtime c = Some w \<and> i < fa_next c)"
| "act_ok c (DoManagerSubscribe i w) = (fa_realtime c = Some w \<and> i < fa_next c)"
| "act_ok c (DoAttached i w h) = (fa_realtime c = Some w \<and> i < fa_next c \<and> owned c i w h)"
| "act_ok c (DoManagerUnsubscribe w h) = disowned c w h"
| "act_ok c (DoInstall w) = (w < length (fa_hubs c))"
| "act_ok c DoClose = False"
| "act_ok c DoClear = False"
| "act_ok c _ = True"

fun in_flight :: "64 word \<Rightarrow> act \<Rightarrow> bool" where
  "in_flight i (DoManagerSubscribe j w) = (j = i)"
| "in_flight i (DoAttached j w h) = (j = i)"
| "in_flight i _ = False"

abbreviation flying :: "64 word \<Rightarrow> act multiset \<Rightarrow> nat" where
  "flying i P \<equiv> size (filter_mset (in_flight i) P)"

definition attach_coming :: "act multiset \<Rightarrow> facade \<Rightarrow> 64 word \<Rightarrow> bool" where
  "attach_coming P c i \<longleftrightarrow> (\<forall>w. fa_realtime c = Some w \<longrightarrow> DoAttach i w \<in># P \<or> DoAttachAll w \<in># P)"

text \<open>Every subscription of an observer is the one it keeps or one that is about to be given to it.\<close>

definition single :: "act multiset \<Rightarrow> facade \<Rightarrow> 64 word \<Rightarrow> connectionStateObserver \<Rightarrow> bool" where
  "single P c i ob \<longleftrightarrow> (\<forall>w k. w < length (fa_hubs c) \<longrightarrow> subs_of c w k = Some (unat i) \<longrightarrow>
     ob_unsubscribe ob = Some (w, Some k) \<or> DoAttached i w (Some k) \<in># P)"

definition observer_ok :: "act multiset \<Rightarrow> facade \<Rightarrow> 64 word \<Rightarrow> connectionStateObserver \<Rightarrow> bool" where
  "observer_ok P c i ob \<longleftrightarrow> i < fa_next c \<and> flying i P = (if ob_attaching ob then 1 else 0) \<and>
     (\<forall>w h. ob_unsubscribe ob = Some (w, h) \<longrightarrow> \<not> ob_attaching ob \<and> fa_realtime c = Some w \<and> owned c i w h) \<and>
     (ob_unsubscribe ob = None \<longrightarrow> ob_attaching ob \<or> attach_coming P c i) \<and>
     single P c i ob"

definition hub_ok :: "facade \<Rightarrow> StateHub \<Rightarrow> bool" where
  "hub_ok c m \<longleftrightarrow> (\<forall>k v. mget (connectionStateSubscribers m) k = Some v \<longrightarrow>
     k < nextConnectionStateSubscriberID m \<and> v < unat (fa_next c))"

definition observing :: "act multiset \<Rightarrow> facade \<Rightarrow> bool" where
  "observing P c \<longleftrightarrow> mwf (fa_observers c) \<and> (\<forall>a. a \<in># P \<longrightarrow> act_ok c a) \<and>
     (\<forall>w < length (fa_hubs c). hub_ok c (fa_hubs c ! w)) \<and>
     (\<forall>w. fa_realtime c = Some w \<longrightarrow> w < length (fa_hubs c)) \<and>
     (\<forall>i ob. mget (fa_observers c) i = Some ob \<longrightarrow> observer_ok P c i ob)"

text \<open>No counter is about to wrap around.\<close>

definition facade_room :: "facade \<Rightarrow> bool" where
  "facade_room c \<longleftrightarrow> fa_next c < fa_next c + 1 \<and> (\<forall>w < length (fa_hubs c). next_sub c w < next_sub c w + 1)"

lemmas observing_defs = observing_def observer_ok_def hub_ok_def owned_def disowned_def subs_of_def next_sub_def attach_coming_def

lemma owned_frame:
  "fa_hubs c' = fa_hubs c \<Longrightarrow> fa_observers c' = fa_observers c \<Longrightarrow> owned c' = owned c"
  "fa_hubs c' = fa_hubs c \<Longrightarrow> fa_observers c' = fa_observers c \<Longrightarrow> disowned c' = disowned c"
  by (simp_all add: fun_eq_iff owned_def disowned_def subs_of_def next_sub_def)

text \<open>Of the observers, only what the attaching goroutines look at matters; of a manager, its subscriptions.\<close>

definition same_observers :: "facade \<Rightarrow> facade \<Rightarrow> bool" where
  "same_observers c c' \<longleftrightarrow> mwf (fa_observers c') \<and>
     (\<forall>i. map_option (\<lambda>ob. (ob_attaching ob, ob_unsubscribe ob)) (mget (fa_observers c') i) =
          map_option (\<lambda>ob. (ob_attaching ob, ob_unsubscribe ob)) (mget (fa_observers c) i))"

definition same_hubs :: "facade \<Rightarrow> facade \<Rightarrow> bool" where
  "same_hubs c c' \<longleftrightarrow> length (fa_hubs c') = length (fa_hubs c) \<and>
     (\<forall>w < length (fa_hubs c). subs_of c' w = subs_of c w \<and> next_sub c' w = next_sub c w)"

lemma same_observers_dom:
  "same_observers c c' \<Longrightarrow> mget (fa_observers c') i = None \<longleftrightarrow> mget (fa_observers c) i = None"
  by (cases "mget (fa_observers c) i"; cases "mget (fa_observers c') i") (auto simp: same_observers_def dest!: spec [of _ i])

lemma observing_frame:
  assumes "observing P c" "same_observers c c'" "same_hubs c c'"
    and "fa_realtime c' = fa_realtime c" "fa_next c' = fa_next c"
  shows "observing P c'"
proof -
  have o: "owned c' = owned c" "disowned c' = disowned c"
    using assms(3) same_observers_dom [OF assms(2)]
    by (auto simp: fun_eq_iff owned_def disowned_def same_hubs_def)
  have a: "act_ok c' a = act_ok c a" for a
    using assms by (cases a) (auto simp: o same_hubs_def)
  have h: "hub_ok c' (fa_hubs c' ! w)" if "w < length (fa_hubs c')" for w
  proof -
    from that assms(3) have "w < length (fa_hubs c)" by (simp add: same_hubs_def)
    with assms(1,3,5) show ?thesis
      by (simp add: observing_def hub_ok_def same_hubs_def subs_of_def next_sub_def)
  qed
  have "observer_ok P c' i ob" if "mget (fa_observers c') i = Some ob" for i ob
  proof -
    from assms(2) that obtain ob' where ob: "mget (fa_observers c) i = Some ob'" "ob_attaching ob' = ob_attaching ob"
        "ob_unsubscribe ob' = ob_unsubscribe ob"
      by (cases "mget (fa_observers c) i") (auto simp: same_observers_def dest!: spec [of _ i])
    with assms(1) have "observer_ok P c i ob'" by (simp add: observing_def)
    with ob assms(3-5) show ?thesis
      by (simp add: observer_ok_def o attach_coming_def single_def same_hubs_def)
  qed
  with assms a h show ?thesis
    by (auto simp: observing_def same_hubs_def same_observers_def)
qed

lemma same_refl: "mwf (fa_observers c) \<Longrightarrow> same_observers c c" "same_hubs c c"
  by (simp_all add: same_observers_def same_hubs_def)

lemma observing_mwf: "observing P c \<Longrightarrow> mwf (fa_observers c)"
  by (simp add: observing_def)

lemma observing_threads: "observing P c \<Longrightarrow> observing P (c\<lparr>fa_threads := ts\<rparr>)"
  by (rule observing_frame, assumption)
    (auto simp: same_observers_def same_hubs_def subs_of_def next_sub_def observing_mwf)

text \<open>The acts that have no part in attaching\<close>

fun neutral :: "act \<Rightarrow> bool" where
  "neutral (DoSubscribe cb) = True"
| "neutral (DoRead i) = True"
| "neutral (DoState i r) = True"
| "neutral (DoForward i state) = True"
| "neutral (DoCall cb state) = True"
| "neutral (DoUnsubscribe i) = True"
| "neutral DoStart = True"
| "neutral (DoWaitClosed w) = True"
| "neutral (DoEnd w) = True"
| "neutral (DoChange w f now) = True"
| "neutral _ = False"

lemma neutral_simps: "neutral a \<Longrightarrow> act_ok c a" "neutral a \<Longrightarrow> \<not> in_flight i a" "neutral a \<Longrightarrow> a \<noteq> DoAttach i w"
  "neutral a \<Longrightarrow> a \<noteq> DoAttachAll w" "neutral a \<Longrightarrow> DoAttached i w h \<noteq> a"
  by (cases a; simp)+

lemma observing_neutral [simp]:
  assumes "neutral a"
  shows "observing (add_mset a P) c = observing P c"
proof -
  have "attach_coming (add_mset a P) c i = attach_coming P c i" for i
    using assms by (auto simp: attach_coming_def neutral_simps)
  then have "observer_ok (add_mset a P) c i ob = observer_ok P c i ob" for i ob
    using assms by (simp add: observer_ok_def single_def neutral_simps)
  with assms show ?thesis
    by (auto simp: observing_def neutral_simps)
qed

lemma observing_neutrals: "list_all neutral as \<Longrightarrow> observing (mset as + P) c = observing P c"
  by (induction as) simp_all

section \<open>Every act keeps the invariant\<close>

lemma observingD:
  assumes "observing P c"
  shows "a \<in># P \<Longrightarrow> act_ok c a"
    and "w < length (fa_hubs c) \<Longrightarrow> hub_ok c (fa_hubs c ! w)"
    and "fa_realtime c = Some w \<Longrightarrow> w < length (fa_hubs c)"
    and "mget (fa_observers c) i = Some ob \<Longrightarrow> observer_ok P c i ob"
  using assms by (auto simp: observing_def)

lemma observingI:
  "mwf (fa_observers c) \<Longrightarrow> (\<And>a. a \<in># P \<Longrightarrow> act_ok c a) \<Longrightarrow>
     (\<And>w. w < length (fa_hubs c) \<Longrightarrow> hub_ok c (fa_hubs c ! w)) \<Longrightarrow>
     (\<And>w. fa_realtime c = Some w \<Longrightarrow> w < length (fa_hubs c)) \<Longrightarrow>
     (\<And>i ob. mget (fa_observers c) i = Some ob \<Longrightarrow> observer_ok P c i ob) \<Longrightarrow> observing P c"
  by (simp add: observing_def)

lemma in_flight_known: "act_ok c a \<Longrightarrow> in_flight i a \<Longrightarrow> i < fa_next c"
  by (cases a) auto

lemma flying_known: "observing P c \<Longrightarrow> \<not> i < fa_next c \<Longrightarrow> flying i P = 0"
  using observingD(1) in_flight_known by (fastforce simp: filter_mset_eq_conv)

lemma observing_forward:
  assumes "observing P c" "forwardConnectionState i state c = (c', todo)"
  shows "observing (mset todo + P) c'"
proof -
  have "same_observers c c' \<and> same_hubs c c' \<and> fa_realtime c' = fa_realtime c \<and> fa_next c' = fa_next c \<and> list_all neutral todo"
    using assms observing_mwf [OF assms(1)]
    by (auto simp: forwardConnectionState_def same_refl same_observers_def same_hubs_def subs_of_def next_sub_def mwf_mput mget_mput
        split: option.splits if_splits)
  with observing_frame [OF assms(1)] show ?thesis
    by (simp add: observing_neutrals)
qed

lemma neutral_forward_all: "list_all neutral (forward_all ns)"
  by (auto simp: forward_all_def list_all_iff)

lemma nth_update: "j < length xs \<Longrightarrow> xs[i := x] ! j = (if i = j then x else xs ! j)"
  by (cases "i = j") simp_all

lemma observing_change:
  assumes "observing P c" "do_act (DoChange w f now) c = (c', todo)"
  shows "observing (mset todo + P) c'"
proof -
  obtain calls m where u: "updateConnectionState f now (fa_hubs c ! w) = (calls, m)" by force
  have m: "connectionStateSubscribers m = connectionStateSubscribers (fa_hubs c ! w)"
    "nextConnectionStateSubscriberID m = nextConnectionStateSubscriberID (fa_hubs c ! w)"
    using u by (auto simp: updateConnectionState_def Let_def split: if_splits)
  from assms(2) u have c: "c' = c\<lparr>fa_hubs := (fa_hubs c)[w := m]\<rparr>" "todo = forward_all calls" by auto
  have "same_hubs c c'"
    by (auto simp: c same_hubs_def subs_of_def next_sub_def nth_update m)
  moreover have "same_observers c c'"
    using observing_mwf [OF assms(1)] by (simp add: c same_observers_def)
  ultimately have "observing P c'"
    using assms(1) by (rule_tac observing_frame) (auto simp: c)
  with c show ?thesis by (simp add: observing_neutrals neutral_forward_all)
qed

lemma observing_subscribe:
  assumes "observing P c" "facade_room c" "Client_SubscribeToConnectionState cb c = (c', todo)"
  shows "observing (mset todo + P) c'"
proof (cases cb)
  case None
  with assms show ?thesis by (simp add: Client_SubscribeToConnectionState_def)
next
  case cb: (Some cb')
  let ?i = "fa_next c"
  let ?ob = "\<lparr>ob_callback = cb', ob_unsubscribe = None, ob_last = disconnectedConnectionState,
                      ob_hasLast = False, ob_attaching = False\<rparr>"
  let ?A = "case fa_realtime c of None \<Rightarrow> [] | Some w \<Rightarrow> [DoAttach ?i w]"
  have c: "c' = c\<lparr>fa_next := ?i + 1, fa_observers := mput ?i ?ob (fa_observers c)\<rparr>" "todo = DoRead ?i # ?A"
    using assms(3) cb by (auto simp: Client_SubscribeToConnectionState_def Let_def)
  have less: "i < ?i \<Longrightarrow> i < ?i + 1" "?i < ?i + 1" for i
    using assms(2) by (auto simp: facade_room_def)
  have fresh: "mget (fa_observers c) ?i = None"
    using observingD(4) [OF assms(1)] by (cases "mget (fa_observers c) ?i") (auto simp: observer_ok_def)
  have foreign: "subs_of c w k \<noteq> Some (unat ?i)" if "w < length (fa_hubs c)" for w k
    using observingD(2) [OF assms(1) that] by (auto simp: hub_ok_def subs_of_def)
  have own: "owned c i w h \<Longrightarrow> i < ?i \<Longrightarrow> owned c' i w h" for i w h
    using foreign by (auto simp: owned_def c subs_of_def next_sub_def mget_mput)
  have dis: "disowned c w h \<Longrightarrow> disowned c' w h" for w h
    using foreign by (auto simp: disowned_def c subs_of_def next_sub_def mget_mput)
  have fields: "fa_realtime c' = fa_realtime c" "fa_hubs c' = fa_hubs c" "fa_next c' = ?i + 1"
    by (simp_all add: c)
  have "act_ok c' a" if "act_ok c a" for a
    using that less by (cases a) (auto simp: fields own dis)
  moreover have "hub_ok c' (fa_hubs c ! w)" if "w < length (fa_hubs c)" for w
    using observingD(2) [OF assms(1) that] less(2) by (force simp: hub_ok_def fields word_less_nat_alt)
  moreover have "observer_ok (mset ?A + P) c' i ob" if "mget (fa_observers c') i = Some ob" for i ob
  proof (cases "i = ?i")
    case True
    have "flying ?i P = 0"
      using flying_known [OF assms(1), of ?i] by simp
    moreover have "single (mset ?A + P) c' ?i ob"
      using foreign by (auto simp: single_def c subs_of_def)
    ultimately show ?thesis
      using True that less by (auto simp: observer_ok_def c mget_mput attach_coming_def split: option.splits)
  next
    case False
    then have "mget (fa_observers c) i = Some ob" using that by (simp add: c mget_mput)
    from observingD(4) [OF assms(1) this] show ?thesis
      using less own
      by (auto simp: observer_ok_def fields attach_coming_def single_def subs_of_def split: option.splits)
  qed
  ultimately have "observing (mset ?A + P) c'"
    using observingD [OF assms(1)] less observing_mwf [OF assms(1)]
    by (intro observingI) (auto simp: fields split: option.splits, simp_all add: c mwf_mput)
  then show ?thesis by (simp add: c(2))
qed

lemma observing_start:
  assumes "observing P c" "facade_start c = (c', todo)"
  shows "observing (mset todo + P) c'"
proof (cases "fa_realtime c")
  case None
  let ?n = "length (fa_hubs c)"
  have c: "c' = c\<lparr>fa_hubs := fa_hubs c @ [new_manager_hub]\<rparr>" "todo = [DoInstall ?n]"
    using assms(2) None by (auto simp: facade_start_def)
  have own: "owned c i w h \<Longrightarrow> owned c' i w h" "disowned c w h \<Longrightarrow> disowned c' w h" for i w h
    by (auto simp: owned_def disowned_def c subs_of_def next_sub_def nth_append)
  have "act_ok c' a" if "act_ok c a" for a
    using that own by (cases a) (auto simp: c(1))
  moreover have "hub_ok c' (fa_hubs c' ! w)" if "w < length (fa_hubs c')" for w
    using that observingD(2) [OF assms(1), of w]
    by (auto simp: hub_ok_def c nth_append new_manager_hub_def)
  moreover have "observer_ok (mset todo + P) c' i ob" if "mget (fa_observers c') i = Some ob" for i ob
    using that observingD(4) [OF assms(1), of i ob] None
    by (auto simp: observer_ok_def c attach_coming_def single_def subs_of_def nth_append new_manager_hub_def split: if_splits)
  ultimately show ?thesis
    using observingD [OF assms(1)] observing_mwf [OF assms(1)] None
    by (intro observingI) (auto simp: c)
qed (use assms in \<open>auto simp: facade_start_def\<close>)

lemma observing_install:
  assumes "observing (add_mset (DoInstall w) P) c" "facade_install w c = (c', todo)"
  shows "observing (mset todo + P) c'"
proof (cases "fa_realtime c")
  case None
  have c: "c' = c\<lparr>fa_realtime := Some w\<rparr>" "todo = [DoAttachAll w]"
    using assms(2) None by (auto simp: facade_install_def)
  have own: "owned c' = owned c" "disowned c' = disowned c"
    by (rule owned_frame; simp add: c)+
  have "act_ok c' a" if "act_ok c a" for a
    using that None by (cases a) (auto simp: own, simp_all add: c)
  moreover have "hub_ok c' = hub_ok c"
    by (simp add: hub_ok_def fun_eq_iff c)
  moreover have "observer_ok (mset todo + P) c' i ob" if "mget (fa_observers c') i = Some ob" for i ob
    using that observingD(4) [OF assms(1), of i ob] None
    by (auto simp: observer_ok_def c attach_coming_def single_def subs_of_def)
  ultimately show ?thesis
    using observingD [OF assms(1)] observing_mwf [OF assms(1)] observingD(1) [OF assms(1), of "DoInstall w"]
    by (intro observingI) (auto simp: c)
next
  case (Some v)
  then have "c' = c" "todo = [DoWaitClosed w]" using assms(2) by (auto simp: facade_install_def)
  moreover have "observing P c"
    using assms(1) Some by (auto simp: observing_def observer_ok_def attach_coming_def single_def)
  ultimately show ?thesis by simp
qed

lemma observing_unsubscribe:
  assumes "observing P c" "Client_unsubscribe i c = (c', todo)"
  shows "observing (mset todo + P) c'"
proof (cases "mget (fa_observers c) i")
  case (Some ob)
  let ?U = "case ob_unsubscribe ob of None \<Rightarrow> [] | Some (w, h) \<Rightarrow> [DoManagerUnsubscribe w h]"
  have c: "c' = c\<lparr>fa_observers := mdel i (fa_observers c)\<rparr>" "todo = ?U"
    using assms(2) Some by (auto simp: Client_unsubscribe_def)
  have own: "owned c j w h \<Longrightarrow> owned c' j w h" "disowned c w h \<Longrightarrow> disowned c' w h" for j w h
    by (auto simp: owned_def disowned_def c subs_of_def next_sub_def mget_mdel)
  have dis: "owned c i w h \<Longrightarrow> disowned c' w h" for w h
    by (auto simp: owned_def disowned_def c subs_of_def next_sub_def mget_mdel)
  have "act_ok c' a" if "act_ok c a" for a
    using that own by (cases a) (auto simp: c(1))
  moreover have "\<forall>a \<in> set ?U. act_ok c' a"
    using dis observingD(4) [OF assms(1) Some] by (cases "ob_unsubscribe ob") (auto simp: observer_ok_def)
  moreover have "hub_ok c' = hub_ok c"
    by (simp add: hub_ok_def fun_eq_iff c)
  moreover have "observer_ok (mset todo + P) c' j ob'" if "mget (fa_observers c') j = Some ob'" for j ob'
    using that observingD(4) [OF assms(1), of j ob'] own(1)
    by (auto simp: observer_ok_def c mget_mdel attach_coming_def single_def subs_of_def split: option.splits if_splits)
  ultimately show ?thesis
    using observingD [OF assms(1)] observing_mwf [OF assms(1)]
    by (intro observingI) (auto simp: c mwf_mdel)
qed (use assms in \<open>auto simp: Client_unsubscribe_def\<close>)

lemma observing_attach_all:
  assumes "observing (add_mset (DoAttachAll w) P) c"
  shows "observing (mset (attachConnectionStateObservers w c) + P) c"
proof -
  let ?A = "attachConnectionStateObservers w c"
  have w: "fa_realtime c = Some w"
    using observingD(1) [OF assms, of "DoAttachAll w"] by simp
  have "act_ok c a" if "a \<in> set ?A" for a
    using that w observingD(4) [OF assms] observing_mwf [OF assms]
    by (auto simp: attachConnectionStateObservers_def observer_ok_def mwf_mem_iff)
  moreover have "observer_ok (mset ?A + P) c i ob" if ob: "mget (fa_observers c) i = Some ob" for i ob
  proof -
    have "filter_mset (in_flight i) (mset ?A) = {#}"
      by (auto simp: attachConnectionStateObservers_def filter_mset_eq_conv)
    moreover have "DoAttach i w \<in> set ?A" if "\<not> ob_attaching ob" "ob_unsubscribe ob = None"
      using that ob mwf_mem_iff [OF observing_mwf [OF assms], of i ob]
      by (force simp: attachConnectionStateObservers_def can_attach_def image_iff)
    ultimately show ?thesis
      using observingD(4) [OF assms ob] w by (auto simp: observer_ok_def attach_coming_def single_def)
  qed
  ultimately show ?thesis
    using observingD [OF assms] observing_mwf [OF assms] by (intro observingI) auto
qed

text \<open>A goroutine that finds the observer gone, attached or being attached leaves it.\<close>

lemma observing_drop:
  assumes "observing (add_mset (DoAttach i w) P) c"
    and "\<And>ob. mget (fa_observers c) i = Some ob \<Longrightarrow> \<not> can_attach ob"
  shows "observing P c"
proof -
  have "observer_ok P c j ob" if "mget (fa_observers c) j = Some ob" for j ob
    using that assms(2) [of ob] observingD(4) [OF assms(1) that]
    by (auto simp: observer_ok_def attach_coming_def can_attach_def single_def)
  then show ?thesis
    using observingD [OF assms(1)] observing_mwf [OF assms(1)] by (intro observingI) auto
qed

lemma observing_attach_begin:
  assumes "observing (add_mset (DoAttach i w) P) c" "attach_begin i w c = (c', todo)"
  shows "observing (mset todo + P) c'"
proof (cases "\<exists>ob. mget (fa_observers c) i = Some ob \<and> can_attach ob")
  case True
  then obtain ob where ob: "mget (fa_observers c) i = Some ob" "can_attach ob" by blast
  have c: "c' = c\<lparr>fa_observers := mput i (ob\<lparr>ob_attaching := True\<rparr>) (fa_observers c)\<rparr>" "todo = [DoManagerSubscribe i w]"
    using assms(2) ob by (auto simp: attach_begin_def)
  have dom: "mget (fa_observers c') j = None \<longleftrightarrow> mget (fa_observers c) j = None" for j
    using ob by (auto simp: c mget_mput)
  have fields: "fa_realtime c' = fa_realtime c" "fa_hubs c' = fa_hubs c" "fa_next c' = fa_next c"
    by (simp_all add: c)
  have own: "owned c' = owned c" "disowned c' = disowned c"
    by (simp_all add: fun_eq_iff owned_def disowned_def subs_of_def next_sub_def dom fields del: not_None_eq)
  have "act_ok c' a = act_ok c a" for a
    by (cases a) (simp_all add: own fields)
  moreover have "hub_ok c' = hub_ok c"
    by (simp add: hub_ok_def fun_eq_iff fields)
  moreover have "observer_ok (mset todo + P) c' j ob'" if ob': "mget (fa_observers c') j = Some ob'" for j ob'
  proof (cases "j = i")
    case True
    with ob' have "ob' = ob\<lparr>ob_attaching := True\<rparr>" by (simp add: c mget_mput)
    with True ob observingD(4) [OF assms(1) ob(1)] show ?thesis
      by (auto simp: observer_ok_def can_attach_def c single_def subs_of_def)
  next
    case False
    with ob' have "mget (fa_observers c) j = Some ob'" by (simp add: c mget_mput)
    from observingD(4) [OF assms(1) this] False show ?thesis
      by (auto simp: observer_ok_def own fields attach_coming_def c(2) single_def subs_of_def)
  qed
  ultimately show ?thesis
    using observingD [OF assms(1)] observing_mwf [OF assms(1)] observingD(1) [OF assms(1), of "DoAttach i w"]
    by (intro observingI) (auto simp: fields c mwf_mput)
next
  case False
  then have "c' = c" "todo = []"
    using assms(2) by (auto simp: attach_begin_def split: option.splits if_splits)
  with False observing_drop [OF assms(1)] show ?thesis by auto
qed

lemma observing_manager_subscribe:
  assumes "observing (add_mset (DoManagerSubscribe i w) P) c" "facade_room c"
    and "ws_SubscribeToConnectionState i w c = (c', todo)"
  shows "observing (mset todo + P) c'"
proof -
  let ?m = "fa_hubs c ! w" and ?k = "next_sub c w"
  have ok: "fa_realtime c = Some w" "i < fa_next c" "w < length (fa_hubs c)"
    using observingD(1) [OF assms(1), of "DoManagerSubscribe i w"] observingD(3) [OF assms(1)] by auto
  obtain calls where c: "c' = c\<lparr>fa_hubs := (fa_hubs c)[w := ?m\<lparr>nextConnectionStateSubscriberID := ?k + 1,
        connectionStateSubscribers := mput ?k (unat i) (connectionStateSubscribers ?m)\<rparr>]\<rparr>"
      "todo = forward_all calls @ [DoAttached i w (Some ?k)]"
    using assms(3) by (auto simp: ws_SubscribeToConnectionState_def SubscribeToConnectionState_def Let_def next_sub_def)
  have fields: "fa_realtime c' = fa_realtime c" "fa_observers c' = fa_observers c" "fa_next c' = fa_next c"
      "length (fa_hubs c') = length (fa_hubs c)"
    by (simp_all add: c)
  have less: "k < ?k \<Longrightarrow> k < ?k + 1" "?k < ?k + 1" for k
    using assms(2) ok by (auto simp: facade_room_def)
  have subs: "subs_of c' v k = (if v = w \<and> k = ?k then Some (unat i) else subs_of c v k)"
      "next_sub c' v = (if v = w then ?k + 1 else next_sub c v)" if "v < length (fa_hubs c)" for v k
    using that ok by (auto simp: c subs_of_def next_sub_def nth_update mget_mput)
  have own: "owned c j v h \<Longrightarrow> owned c' j v h" "disowned c v h \<Longrightarrow> disowned c' v h" for j v h
    using less by (auto simp: owned_def disowned_def fields subs)
  have "owned c' i w (Some ?k)"
    using less ok by (auto simp: owned_def fields subs dest: unsigned_word_eqI)
  then have new: "act_ok c' (DoAttached i w (Some ?k))"
    using ok by (simp add: fields)
  have acts: "act_ok c' a" if "act_ok c a" for a
    using that own by (cases a) (auto simp: fields)
  have hubs: "hub_ok c' (fa_hubs c' ! v)" if "v < length (fa_hubs c')" for v
    using observingD(2) [OF assms(1), of v] that ok less
    by (auto simp: hub_ok_def c nth_update mget_mput next_sub_def word_less_nat_alt intro: less_trans split: if_splits)
  have obs: "observer_ok (add_mset (DoAttached i w (Some ?k)) P) c' j ob" if "mget (fa_observers c') j = Some ob" for j ob
    using that observingD(4) [OF assms(1), of j ob] own(1)
    by (auto simp: observer_ok_def fields attach_coming_def single_def subs dest: unsigned_word_eqI split: if_splits)
  have "observing (add_mset (DoAttached i w (Some ?k)) P) c'"
    using observingD [OF assms(1)] observing_mwf [OF assms(1)] new acts hubs obs
    by (intro observingI) (auto simp: fields)
  then show ?thesis
    using observing_neutrals [OF neutral_forward_all [of calls], of "add_mset (DoAttached i w (Some ?k)) P" c'] by (simp add: c(2))
qed

lemma observing_attach_end:
  assumes "observing (add_mset (DoAttached i w h) P) c" "attach_end i w h c = (c', todo)"
  shows "observing (mset todo + P) c'"
proof (cases "mget (fa_observers c) i")
  case None
  have c: "c' = c" "todo = [DoManagerUnsubscribe w h]"
    using assms(2) None by (auto simp: attach_end_def)
  have "disowned c w h"
    using observingD(1) [OF assms(1), of "DoAttached i w h"] None by (auto simp: owned_def disowned_def)
  moreover have "observer_ok (mset todo + P) c j ob" if "mget (fa_observers c) j = Some ob" for j ob
    using that observingD(4) [OF assms(1), of j ob] None
    by (auto simp: observer_ok_def attach_coming_def c single_def split: if_splits)
  ultimately show ?thesis
    using observingD [OF assms(1)] observing_mwf [OF assms(1)] by (intro observingI) (auto simp: c)
next
  case (Some ob)
  have ok: "fa_realtime c = Some w" "owned c i w h"
    using observingD(1) [OF assms(1), of "DoAttached i w h"] by auto
  have ob: "ob_attaching ob" "ob_unsubscribe ob = None" "flying i P = 0" "i < fa_next c"
    using observingD(4) [OF assms(1) Some] by (cases "ob_unsubscribe ob"; auto simp: observer_ok_def split: if_splits)+
  let ?ob = "ob\<lparr>ob_attaching := False, ob_unsubscribe := Some (w, h)\<rparr>"
  have c: "c' = c\<lparr>fa_observers := mput i ?ob (fa_observers c)\<rparr>" "todo = []"
    using assms(2) Some ob by (auto simp: attach_end_def Let_def)
  have dom: "mget (fa_observers c') j = None \<longleftrightarrow> mget (fa_observers c) j = None" for j
    using Some by (auto simp: c mget_mput)
  have fields: "fa_realtime c' = fa_realtime c" "fa_hubs c' = fa_hubs c" "fa_next c' = fa_next c"
    by (simp_all add: c)
  have own: "owned c' = owned c" "disowned c' = disowned c"
    by (simp_all add: fun_eq_iff owned_def disowned_def subs_of_def next_sub_def dom fields del: not_None_eq)
  have "act_ok c' a = act_ok c a" for a
    by (cases a) (simp_all add: own fields)
  moreover have "hub_ok c' = hub_ok c"
    by (simp add: hub_ok_def fun_eq_iff fields)
  moreover have "observer_ok P c' j ob'" if ob': "mget (fa_observers c') j = Some ob'" for j ob'
  proof (cases "j = i")
    case True
    with ob' have "ob' = ?ob" by (simp add: c mget_mput)
    moreover have "single P c' i ?ob"
      using observingD(4) [OF assms(1) Some] ob(2) by (auto simp: observer_ok_def single_def fields subs_of_def)
    ultimately show ?thesis
      using True ob ok by (simp add: observer_ok_def own fields)
  next
    case False
    with ob' have "mget (fa_observers c) j = Some ob'" by (simp add: c mget_mput)
    from observingD(4) [OF assms(1) this] False show ?thesis
      by (auto simp: observer_ok_def own fields attach_coming_def single_def subs_of_def)
  qed
  ultimately show ?thesis
    using observingD [OF assms(1)] observing_mwf [OF assms(1)]
    by (intro observingI) (auto simp: fields c(2), simp add: c mwf_mput)
qed

lemma observing_manager_unsubscribe:
  assumes "observing (add_mset (DoManagerUnsubscribe w h) P) c" "do_act (DoManagerUnsubscribe w h) c = (c', todo)"
  shows "observing (mset todo + P) c'"
proof -
  let ?m = "fa_hubs c ! w"
  have "disowned c w h"
    using observingD(1) [OF assms(1), of "DoManagerUnsubscribe w h"] by simp
  then obtain k where k: "h = Some k" "w < length (fa_hubs c)"
      "\<And>j. mget (fa_observers c) j \<noteq> None \<Longrightarrow> subs_of c w k \<noteq> Some (unat j)"
    by (auto simp: disowned_def)
  have c: "c' = c\<lparr>fa_hubs := (fa_hubs c)[w := ?m\<lparr>connectionStateSubscribers := mdel k (connectionStateSubscribers ?m)\<rparr>]\<rparr>"
      "todo = []"
    using assms(2) k by (auto simp: unsubscribe_state_def)
  have fields: "fa_realtime c' = fa_realtime c" "fa_observers c' = fa_observers c" "fa_next c' = fa_next c"
      "length (fa_hubs c') = length (fa_hubs c)"
    by (simp_all add: c)
  have subs: "subs_of c' v k' = (if v = w \<and> k' = k then None else subs_of c v k')" "next_sub c' v = next_sub c v"
    if "v < length (fa_hubs c)" for v k'
    using that k by (auto simp: c subs_of_def next_sub_def nth_update mget_mdel)
  have own: "owned c' j v h'" if o: "owned c j v h'" for j v h'
  proof -
    obtain k' where k': "h' = Some k'" using o by (auto simp: owned_def)
    show ?thesis
      using o k(3) by (cases "v = w \<and> k' = k") (auto simp: owned_def k' fields subs)
  qed
  have dis: "disowned c v h' \<Longrightarrow> disowned c' v h'" for v h'
    by (auto simp: disowned_def fields subs)
  have "act_ok c' a" if "act_ok c a" for a
    using that own dis by (cases a) (auto simp: fields)
  moreover have "hub_ok c' (fa_hubs c' ! v)" if "v < length (fa_hubs c')" for v
    using observingD(2) [OF assms(1), of v] that k
    by (auto simp: hub_ok_def c nth_update mget_mdel split: if_splits)
  moreover have "observer_ok P c' j ob" if "mget (fa_observers c') j = Some ob" for j ob
    using that observingD(4) [OF assms(1), of j ob] own
    by (auto simp: observer_ok_def fields attach_coming_def single_def subs dest: unsigned_word_eqI split: if_splits)
  ultimately show ?thesis
    using observingD [OF assms(1)] observing_mwf [OF assms(1)] by (intro observingI) (auto simp: fields c(2))
qed

lemma observing_act:
  assumes "observing (add_mset a P) c" "facade_room c" "do_act a c = (c', todo)"
  shows "observing (mset todo + P) c'"
proof (cases "neutral a")
  case True
  then have P: "observing P c" using assms(1) by simp
  show ?thesis
  proof (cases a)
    case (DoCall cb state)
    have "same_observers c c'" "same_hubs c c'" "fa_realtime c' = fa_realtime c" "fa_next c' = fa_next c" "todo = []"
      using assms(3) DoCall observing_mwf [OF P] by (auto simp: same_observers_def same_hubs_def subs_of_def next_sub_def)
    with observing_frame [OF P] show ?thesis by simp
  next
    case (DoEnd w)
    have "same_observers c c'" "same_hubs c c'" "fa_realtime c' = fa_realtime c" "fa_next c' = fa_next c" "todo = []"
      using assms(3) DoEnd observing_mwf [OF P] by (auto simp: same_observers_def same_hubs_def subs_of_def next_sub_def)
    with observing_frame [OF P] show ?thesis by simp
  next
    case (DoChange w f now)
    with P assms(3) show ?thesis by (blast intro: observing_change)
  qed (use True P assms(2,3) in \<open>auto intro: observing_forward observing_subscribe observing_start observing_unsubscribe\<close>)
next
  case False
  show ?thesis
  proof (cases a)
    case (DoManagerUnsubscribe w h)
    with assms(1,3) show ?thesis by (blast intro: observing_manager_unsubscribe)
  next
    case (DoAttachAll w)
    with assms(1,3) show ?thesis by (auto intro: observing_attach_all)
  qed (use False assms observingD(1) [OF assms(1), of a] in
      \<open>auto intro: observing_install observing_attach_begin observing_attach_end observing_manager_subscribe\<close>)
qed

section \<open>The goroutines of a client that is not closed\<close>

definition observing_facade :: "facade \<Rightarrow> bool" where
  "observing_facade c \<longleftrightarrow> observing (pending c) c"

inductive open_step :: "facade \<Rightarrow> facade \<Rightarrow> bool" where
  step: "facade_room c \<Longrightarrow> open_step c (thread_step t c)"
| call: "api_act c a \<Longrightarrow> a \<noteq> DoClose \<Longrightarrow> open_step c (spawn a c)"

lemma observing_thread_step:
  assumes "observing_facade c" "facade_room c"
  shows "observing_facade (thread_step t c)"
proof (rule thread_step_pending [of t c])
  fix a c' todo
  assume a: "a \<in># pending c" "do_act a c = (c', todo)"
    and s: "thread_step t c = c'\<lparr>fa_threads := fa_threads (thread_step t c)\<rparr>"
      "pending (thread_step t c) = pending c - {#a#} + mset todo"
  obtain P where P: "pending c = add_mset a P" using a(1) by (blast dest: multi_member_split)
  then have "observing (mset todo + P) c'"
    using observing_act assms a(2) by (simp add: observing_facade_def)
  then have "observing (mset todo + P) (thread_step t c)"
    using observing_threads s(1) by metis
  then show ?thesis
    by (simp add: observing_facade_def s(2) P union_commute)
qed (use assms in simp)

lemma observing_spawn:
  assumes "observing_facade c" "api_act c a" "a \<noteq> DoClose"
  shows "observing_facade (spawn a c)"
proof -
  have "neutral a" using assms(2,3) by (cases a) auto
  with assms(1) observing_threads show ?thesis
    by (simp add: observing_facade_def spawn_def pending_def)
qed

lemma observing_new: "observing_facade new_facade"
  by (simp add: observing_facade_def observing_def pending_def new_facade_def)

interpretation open_client: machine "\<lambda>c. c = new_facade" open_step observing_facade
  by unfold_locales (auto elim!: open_step.cases intro: observing_new observing_thread_step observing_spawn)

definition idle :: "facade \<Rightarrow> bool" where
  "idle c \<longleftrightarrow> concat (fa_threads c) = []"

text \<open>
  C21: while a client is not closed, its observers are attached exactly once: whatever
  goroutines subscribe, unsubscribe, start realtime clients and change their states, in any
  order, when all of them have returned and there is a realtime client, every registered
  observer keeps one subscription, at the manager of that client, and there is no other
  subscription of this observer at any manager.
\<close>

theorem observers_attached_once:
  assumes "open_step\<^sup>*\<^sup>* new_facade c" "idle c" "fa_realtime c = Some w" "mget (fa_observers c) i = Some ob"
  shows "\<exists>k. ob_unsubscribe ob = Some (w, Some k) \<and>
    (\<forall>v k'. v < length (fa_hubs c) \<longrightarrow>
       (mget (connectionStateSubscribers (fa_hubs c ! v)) k' = Some (unat i) \<longleftrightarrow> v = w \<and> k' = k))"
proof -
  have "observing {#} c"
    using open_client.inv_reachable [OF refl assms(1)] assms(2) by (simp add: observing_facade_def pending_def idle_def del: concat_eq_Nil_conv)
  then have ob: "observer_ok {#} c i ob" using assms(4) by (rule observingD(4))
  then have "\<not> ob_attaching ob" "ob_unsubscribe ob \<noteq> None"
    using assms(3) by (auto simp: observer_ok_def attach_coming_def split: if_splits)
  with ob obtain h where h: "ob_unsubscribe ob = Some (w, h)" "owned c i w h"
    using assms(3) by (force simp: observer_ok_def)
  then obtain k where k: "h = Some k" "subs_of c w k = Some (unat i)"
    using assms(4) by (auto simp: owned_def)
  with h ob show ?thesis
    by (auto simp: observer_ok_def single_def subs_of_def)
qed

fun room_run :: "nat list \<Rightarrow> facade \<Rightarrow> bool" where
  "room_run [] c = True"
| "room_run (t # ts) c = (facade_room c \<and> room_run ts (thread_step t c))"

lemma open_run: "room_run ts c \<Longrightarrow> open_step\<^sup>*\<^sup>* c (run_threads ts c)"
  by (induction ts arbitrary: c) (auto simp: run_threads_def intro: converse_rtranclp_into_rtranclp open_step.step)

text \<open>An observer subscribes, and a realtime client is started.\<close>

definition subscribed_run :: facade where
  "subscribed_run = run_threads (replicate 5 0) (spawn (DoSubscribe (Some 7)) new_facade)"

definition attached_run :: facade where
  "attached_run = run_threads (replicate 8 1) (spawn DoStart subscribed_run)"

lemma attached_run_room:
  "room_run (replicate 5 0) (spawn (DoSubscribe (Some 7)) new_facade)" "room_run (replicate 8 1) (spawn DoStart subscribed_run)"
  by code_simp+

lemma attached_run_open: "open_step\<^sup>*\<^sup>* new_facade attached_run"
proof -
  have "open_step new_facade (spawn (DoSubscribe (Some 7)) new_facade)" "open_step subscribed_run (spawn DoStart subscribed_run)"
    by (simp_all add: open_step.call)
  with open_run [OF attached_run_room(1)] open_run [OF attached_run_room(2)] show ?thesis
    unfolding subscribed_run_def attached_run_def
    by (meson converse_rtranclp_into_rtranclp rtranclp_trans)
qed

lemma attached_run_state:
  "concat (fa_threads attached_run) = [] \<and> fa_realtime attached_run = Some 0 \<and> length (fa_hubs attached_run) = 1 \<and>
   map_option ob_unsubscribe (mget (fa_observers attached_run) 0) = Some (Some (0, Some 0))"
  by code_simp

theorem observers_attached_once_witness:
  "mget (connectionStateSubscribers (fa_hubs attached_run ! 0)) 0 = Some 0"
proof -
  obtain ob where ob: "mget (fa_observers attached_run) 0 = Some ob" "ob_unsubscribe ob = Some (0, Some 0)"
    using attached_run_state by auto
  from observers_attached_once [OF attached_run_open _ _ ob(1), of 0] ob(2) attached_run_state
  show ?thesis by (auto simp: idle_def)
qed

section \<open>Closing\<close>

lemma facade_run: "facade_step\<^sup>*\<^sup>* c (run_threads ts c)"
  by (induction ts arbitrary: c) (auto simp: run_threads_def intro: converse_rtranclp_into_rtranclp facade_step.step)

lemma facade_call: "api_act c a \<Longrightarrow> facade_step\<^sup>*\<^sup>* c (spawn a c)"
  by (blast intro: facade_step.call)

lemma lost_run_reached: "facade_step\<^sup>*\<^sup>* new_facade lost_run"
proof -
  have "facade_step\<^sup>*\<^sup>* new_facade (run_threads ts (spawn a c))"
    if "facade_step\<^sup>*\<^sup>* new_facade c" "api_act c a" for ts a c
    using that facade_call [of c a] facade_run [of "spawn a c" ts] by (meson rtranclp_trans)
  note extend = this
  have "facade_step\<^sup>*\<^sup>* new_facade closing_run"
    unfolding closing_run_def by (rule extend | simp | rule rtranclp.rtrancl_refl)+
  moreover have "api_act closing_run (DoEnd 0)"
    by code_simp
  ultimately have "facade_step\<^sup>*\<^sup>* new_facade (run_threads [3] (spawn (DoEnd 0) closing_run))"
    by (rule extend)
  from extend [OF this, of DoStart "[4, 4, 4]"] show ?thesis
    unfolding lost_run_def by (simp add: rtranclp_trans [OF _ facade_run])
qed

text \<open>
  C38: \<open>Close\<close> can lose observers: it forgets the realtime client first and clears the
  attachments last, so a client that is started meanwhile finds the observers attached to the
  old one and skips them. All goroutines have returned, there is a realtime client and a
  registered observer, and the manager has no subscription at all.
\<close>

theorem close_can_lose_observers:
  "\<exists>c w i. facade_step\<^sup>*\<^sup>* new_facade c \<and> idle c \<and> fa_realtime c = Some w \<and> mget (fa_observers c) i \<noteq> None \<and>
     connectionStateSubscribers (fa_hubs c ! w) = []"
proof -
  have "mget (fa_observers lost_run) 0 \<noteq> None \<and> concat (fa_threads lost_run) = []"
    by code_simp
  with lost_run_reached lost_run_state show ?thesis
    unfolding idle_def by blast
qed

end
