(* ===== verification/Go_Regexp.thy ===== *)
theory Go_Regexp
  imports Go_Strings
begin

text \<open>
  The part of Go's \<open>regexp\<close> package that the code generator uses: sequences, alternatives,
  repetitions of a character class, greedy or not, and groups that are captured. A match
  is the one that backtracking finds first, which is what \<open>regexp\<close> documents. Strings are
  bytes: a class that is the complement of ASCII characters takes the bytes of a longer
  rune one by one, which gives the same matches because every pattern goes on with an
  ASCII character.
\<close>

section \<open>Expressions\<close>

datatype rx =
    REps
  | RCls "char \<Rightarrow> bool"
  | RMany "char \<Rightarrow> bool"
  | RLazy "char \<Rightarrow> bool"
  | RSeq rx rx
  | RAlt rx rx
  | RGroup rx

definition RPlus :: "(char \<Rightarrow> bool) \<Rightarrow> rx" where
  "RPlus p = RSeq (RCls p) (RMany p)"

definition ROpt :: "rx \<Rightarrow> rx" where
  "ROpt r = RAlt r REps"

definition RLit :: "string \<Rightarrow> rx" where
  "RLit s = foldr (\<lambda>c r. RSeq (RCls (\<lambda>x. x = c)) r) s REps"

fun RSeqs :: "rx list \<Rightarrow> rx" where
  "RSeqs [] = REps"
| "RSeqs [r] = r"
| "RSeqs (r # rs) = RSeq r (RSeqs rs)"

fun RAlts :: "rx list \<Rightarrow> rx" where
  "RAlts [] = REps"
| "RAlts [r] = r"
| "RAlts (r # rs) = RAlt r (RAlts rs)"

text \<open>\<open>\s\<close>\<close>

definition rx_space :: "char \<Rightarrow> bool" where
  "rx_space c \<longleftrightarrow> c \<in> {CHR 0x09, CHR 0x0A, CHR 0x0C, CHR 0x0D, CHR '' ''}"

section \<open>Matching\<close>

text \<open>The rests after a repetition of a class, the longest repetition first.\<close>

fun greedy :: "(char \<Rightarrow> bool) \<Rightarrow> string \<Rightarrow> string list" where
  "greedy p [] = [[]]"
| "greedy p (x # xs) = (if p x then greedy p xs @ [x # xs] else [x # xs])"

text \<open>
  The ways to match an expression at the front of a string, in the order of backtracking:
  the rest of the string and the captured groups.
\<close>

primrec matches :: "rx \<Rightarrow> string \<Rightarrow> (string \<times> string list) list" where
  "matches REps s = [(s, [])]"
| "matches (RCls p) s = (case s of [] \<Rightarrow> [] | x # xs \<Rightarrow> if p x then [(xs, [])] else [])"
| "matches (RMany p) s = map (\<lambda>r. (r, [])) (greedy p s)"
| "matches (RLazy p) s = map (\<lambda>r. (r, [])) (rev (greedy p s))"
| "matches (RSeq a b) s =
     concat (map (\<lambda>(r, c). map (\<lambda>(r', c'). (r', c @ c')) (matches b r)) (matches a s))"
| "matches (RAlt a b) s = matches a s @ matches b s"
| "matches (RGroup a) s = map (\<lambda>(r, c). (r, take (length s - length r) s # c)) (matches a s)"

text \<open>
  \<open>FindStringSubmatchIndex\<close>: the leftmost match, as the suffix of the string where it
  starts, the rest after it and the groups.
\<close>

fun find_first :: "rx \<Rightarrow> string \<Rightarrow> (string \<times> string \<times> string list) option" where
  "find_first e [] = (case matches e [] of [] \<Rightarrow> None | (r, c) # _ \<Rightarrow> Some ([], r, c))"
| "find_first e (x # xs) =
     (case matches e (x # xs) of [] \<Rightarrow> find_first e xs | (r, c) # _ \<Rightarrow> Some (x # xs, r, c))"

section \<open>The language of an expression\<close>

primrec lang :: "rx \<Rightarrow> string set" where
  "lang REps = {[]}"
| "lang (RCls p) = {[x] |x. p x}"
| "lang (RMany p) = {w. list_all p w}"
| "lang (RLazy p) = {w. list_all p w}"
| "lang (RSeq a b) = {v @ w |v w. v \<in> lang a \<and> w \<in> lang b}"
| "lang (RAlt a b) = lang a \<union> lang b"
| "lang (RGroup a) = lang a"

lemma lang_RPlus [simp]: "lang (RPlus p) = {w. w \<noteq> [] \<and> list_all p w}"
proof -
  have "w \<in> lang (RPlus p) \<longleftrightarrow> w \<noteq> [] \<and> list_all p w" for w
    by (cases w) (auto simp: RPlus_def intro: exI [of _ "[hd w]"])
  then show ?thesis by blast
qed

lemma lang_ROpt [simp]: "lang (ROpt r) = insert [] (lang r)"
  by (auto simp: ROpt_def)

lemma lang_RLit [simp]: "lang (RLit s) = {s}"
  by (induction s) (auto simp: RLit_def)

lemma greedy_iff: "r \<in> set (greedy p s) \<longleftrightarrow> (\<exists>w. s = w @ r \<and> list_all p w)"
proof (induction s)
  case (Cons x xs)
  have "(\<exists>w. x # xs = w @ r \<and> list_all p w) \<longleftrightarrow> r = x # xs \<or> p x \<and> (\<exists>w. xs = w @ r \<and> list_all p w)"
    by (auto simp: Cons_eq_append_conv)
  with Cons show ?case by auto
qed simp

text \<open>The words of an expression with the groups they capture.\<close>

primrec caps :: "rx \<Rightarrow> (string \<times> string list) set" where
  "caps REps = {([], [])}"
| "caps (RCls p) = {([x], []) |x. p x}"
| "caps (RMany p) = {(w, []) |w. list_all p w}"
| "caps (RLazy p) = {(w, []) |w. list_all p w}"
| "caps (RSeq a b) = {(v @ w, c @ d) |v c w d. (v, c) \<in> caps a \<and> (w, d) \<in> caps b}"
| "caps (RAlt a b) = caps a \<union> caps b"
| "caps (RGroup a) = {(w, w # c) |w c. (w, c) \<in> caps a}"

lemma lang_caps: "w \<in> lang e \<longleftrightarrow> (\<exists>c. (w, c) \<in> caps e)"
  by (induction e arbitrary: w) (auto, metis+)

lemma caps_RLit [simp]: "caps (RLit s) = {(s, [])}"
  by (induction s) (auto simp: RLit_def)

lemma caps_RPlus [simp]: "caps (RPlus p) = {(w, []) |w. w \<noteq> [] \<and> list_all p w}"
proof -
  have "(w, c) \<in> caps (RPlus p) \<longleftrightarrow> w \<noteq> [] \<and> list_all p w \<and> c = []" for w c
    by (cases w) (auto simp: RPlus_def intro: exI [of _ "[hd w]"])
  then show ?thesis by auto
qed

theorem matches_caps: "(r, c) \<in> set (matches e s) \<longleftrightarrow> (\<exists>w. s = w @ r \<and> (w, c) \<in> caps e)"
proof (induction e arbitrary: r c s)
  case (RCls p)
  then show ?case by (cases s) auto
next
  case (RSeq a b)
  have "(r, c) \<in> set (matches (RSeq a b) s) \<longleftrightarrow>
      (\<exists>q d d'. (q, d) \<in> set (matches a s) \<and> (r, d') \<in> set (matches b q) \<and> c = d @ d')"
    by force
  also have "\<dots> \<longleftrightarrow> (\<exists>w. s = w @ r \<and> (w, c) \<in> caps (RSeq a b))"
    unfolding RSeq caps.simps mem_Collect_eq prod.inject by (metis append.assoc)
  finally show ?case .
next
  case (RGroup a)
  have "(r, c) \<in> set (matches (RGroup a) s) \<longleftrightarrow>
      (\<exists>d. (r, d) \<in> set (matches a s) \<and> c = take (length s - length r) s # d)"
    by force
  also have "\<dots> \<longleftrightarrow> (\<exists>w. s = w @ r \<and> (w, c) \<in> caps (RGroup a))"
    unfolding RGroup by auto
  finally show ?case .
qed (auto simp: greedy_iff image_iff)

lemma matches_lang: "(\<exists>c. (r, c) \<in> set (matches e s)) \<longleftrightarrow> (\<exists>w. s = w @ r \<and> w \<in> lang e)"
  by (auto simp: matches_caps lang_caps)

lemma matches_shorter: "(r, c) \<in> set (matches e s) \<Longrightarrow> length r \<le> length s"
  using matches_lang [of r e s] by auto

text \<open>
  \<open>FindAllStringSubmatchIndex(s, -1)\<close>: the matches from left to right that do not
  overlap. (An empty match, which none of the patterns has, moves on by one.)
\<close>

function find_all :: "rx \<Rightarrow> string \<Rightarrow> (string \<times> string \<times> string list) list" where
  "find_all e s =
     (case find_first e s of
        None \<Rightarrow> []
      | Some (t, r, c) \<Rightarrow>
          (t, r, c) # (if length r < length t then find_all e r else if t = [] then [] else find_all e (tl t)))"
  by pat_completeness auto

lemma find_first_Some:
  "find_first e s = Some (t, r, c) \<Longrightarrow>
     (\<exists>v. s = v @ t) \<and> (\<exists>w. t = w @ r \<and> (w, c) \<in> caps e)"
proof (induction e s rule: find_first.induct)
  case (1 e)
  then show ?case
    using matches_caps [of r c e "[]"] by (auto split: list.splits)
next
  case (2 e x xs)
  show ?case
  proof (cases "matches e (x # xs)")
    case Nil
    with 2 have "find_first e xs = Some (t, r, c)" by simp
    from "2.IH" [OF Nil this] show ?thesis
      by (metis append_Cons)
  next
    case (Cons m q)
    with 2 have "m = (r, c)" "t = x # xs"
      by (auto split: prod.splits)
    with Cons matches_caps [of r c e t] show ?thesis
      by (auto intro: exI [of _ "[]"])
  qed
qed

lemma find_first_None: "find_first e s = None \<longleftrightarrow> \<not> (\<exists>v w r. s = v @ w @ r \<and> w \<in> lang e)"
proof (induction e s rule: find_first.induct)
  case (1 e)
  have "matches e [] = [] \<longleftrightarrow> \<not> (\<exists>r c. (r, c) \<in> set (matches e []))"
    by (cases "matches e []") auto
  also have "\<dots> \<longleftrightarrow> [] \<notin> lang e"
    using matches_lang [of _ e "[]"] by auto
  finally show ?case
    by (auto split: list.splits prod.splits)
next
  case (2 e x xs)
  have "matches e (x # xs) = [] \<longleftrightarrow> \<not> (\<exists>r c. (r, c) \<in> set (matches e (x # xs)))"
    by (cases "matches e (x # xs)") auto
  also have "\<dots> \<longleftrightarrow> \<not> (\<exists>w r. x # xs = w @ r \<and> w \<in> lang e)"
    using matches_lang by blast
  finally have m: "matches e (x # xs) = [] \<longleftrightarrow> \<not> (\<exists>w r. x # xs = w @ r \<and> w \<in> lang e)" .
  have s: "(\<exists>v w r. x # xs = v @ w @ r \<and> w \<in> lang e) \<longleftrightarrow>
      (\<exists>w r. x # xs = w @ r \<and> w \<in> lang e) \<or> (\<exists>v w r. xs = v @ w @ r \<and> w \<in> lang e)"
    by (metis append_Cons append_Nil append_eq_Cons_conv)
  show ?case
    using "2.IH" m s by (auto split: list.splits prod.splits)
qed

termination find_all
proof (relation "measure (\<lambda>(e, s). length s)")
  fix e s m t q r c
  assume f: "find_first e s = Some m" "(t, q) = m" "(r, c) = q"
  then have "\<exists>v. s = v @ t"
    using find_first_Some by blast
  then have l: "length t \<le> length s" by auto
  show "length r < length t \<Longrightarrow> ((e, r), e, s) \<in> measure (\<lambda>(e, s). length s)"
    using l by simp
  show "t \<noteq> [] \<Longrightarrow> ((e, tl t), e, s) \<in> measure (\<lambda>(e, s). length s)"
    using l by (cases t) auto
qed simp

declare find_all.simps [simp del]

text \<open>Every match that is found is at a place of the string and in the language.\<close>

lemma find_all_sound:
  "(t, r, c) \<in> set (find_all e s) \<Longrightarrow>
     (\<exists>v. s = v @ t) \<and> (\<exists>w. t = w @ r \<and> (w, c) \<in> caps e)"
proof (induction e s rule: find_all.induct)
  case (1 e s)
  from "1.prems" obtain t' r' c' where f: "find_first e s = Some (t', r', c')"
    by (cases "find_first e s") (auto simp: find_all.simps [of e s])
  note ff = find_first_Some [OF f]
  consider "(t, r, c) = (t', r', c')"
    | "length r' < length t'" "(t, r, c) \<in> set (find_all e r')"
    | "\<not> length r' < length t'" "t' \<noteq> []" "(t, r, c) \<in> set (find_all e (tl t'))"
    using "1.prems" by (auto simp: f find_all.simps [of e s] split: if_splits)
  then show ?case
  proof cases
    case 1
    with ff show ?thesis by simp
  next
    case 2
    with "1.IH"(1) [OF f] have "(\<exists>v. r' = v @ t) \<and> (\<exists>w. t = w @ r \<and> (w, c) \<in> caps e)"
      by blast
    with ff show ?thesis by (metis append.assoc)
  next
    case 3
    with "1.IH"(2) [OF f] have "(\<exists>v. tl t' = v @ t) \<and> (\<exists>w. t = w @ r \<and> (w, c) \<in> caps e)"
      by blast
    moreover from 3 obtain x where "t' = x # tl t'" by (cases t') auto
    ultimately show ?thesis using ff by (metis append.assoc append_Cons)
  qed
qed

text \<open>Nothing is found exactly if no part of the string is in the language.\<close>

lemma find_all_Nil: "find_all e s = [] \<longleftrightarrow> \<not> (\<exists>v w r. s = v @ w @ r \<and> w \<in> lang e)"
  unfolding find_first_None [symmetric] by (auto simp: find_all.simps [of e s] split: option.splits prod.splits)

end
