(* ===== verification/Codegen_Strip.thy ===== *)
theory Codegen_Strip
  imports Go_Regexp
begin

text \<open>
  The first pass of the code generator (\<open>src/internal/codegen/codegen.go\<close>): comments and
  string literals of a source file are replaced by blanks, so that the patterns that look
  for exports see code only, at the positions of the original text.
\<close>

section \<open>The loops of stripCommentsAndStrings\<close>

abbreviation nl :: char where
  "nl \<equiv> CHR 0x0A"

abbreviation blank :: char where
  "blank \<equiv> CHR '' ''"

text \<open>Every loop returns what it wrote and the rest of the source.\<close>

fun line_comment :: "string \<Rightarrow> string \<times> string" where
  "line_comment [] = ([], [])"
| "line_comment (x # xs) =
     (if x = nl then ([], x # xs) else case line_comment xs of (w, r) \<Rightarrow> (blank # w, r))"

fun block_comment :: "string \<Rightarrow> string \<times> string" where
  "block_comment [] = ([], [])"
| "block_comment (x # xs) =
     (if HasPrefix (x # xs) ''*/'' then (''  '', drop 1 xs)
      else case block_comment xs of (w, r) \<Rightarrow> ((if x = nl then nl else blank) # w, r))"

text \<open>
  A literal ends at its quote or, unless it is a template, after the end of the line; a
  backslash takes the next byte with it, also where there is none.
\<close>

fun string_literal :: "char \<Rightarrow> string \<Rightarrow> string \<times> string" where
  "string_literal q [] = ([], [])"
| "string_literal q (x # xs) =
     (if x = nl then
        (if q \<noteq> CHR 0x60 then ([nl], xs) else case string_literal q xs of (w, r) \<Rightarrow> (nl # w, r))
      else if x = CHR 0x5C \<and> q \<noteq> CHR 0x60 then
        (case xs of [] \<Rightarrow> (''  '', []) | y # ys \<Rightarrow> (case string_literal q ys of (w, r) \<Rightarrow> (''  '' @ w, r)))
      else if x = q then ('' '', xs)
      else case string_literal q xs of (w, r) \<Rightarrow> (blank # w, r))"

lemma line_comment_shorter: "length (snd (line_comment s)) \<le> length s"
  by (induction s) (auto split: prod.splits)

lemma block_comment_shorter: "length (snd (block_comment s)) \<le> length s"
  by (induction s) (auto split: prod.splits)

lemma string_literal_shorter: "length (snd (string_literal q s)) \<le> length s"
proof (induction q s rule: string_literal.induct)
  case (2 q x xs)
  then show ?case
    by (cases xs) (simp_all add: split_beta le_SucI)
qed simp

definition is_quote :: "char \<Rightarrow> bool" where
  "is_quote c \<longleftrightarrow> c \<in> {CHR 0x27, CHR 0x22, CHR 0x60}"

function stripCommentsAndStrings :: "string \<Rightarrow> string" where
  "stripCommentsAndStrings [] = []"
| "stripCommentsAndStrings (x # xs) =
     (if HasPrefix (x # xs) ''//'' then
        (case line_comment (tl xs) of (w, r) \<Rightarrow> ''  '' @ w @ stripCommentsAndStrings r)
      else if HasPrefix (x # xs) ''/*'' then
        (case block_comment (tl xs) of (w, r) \<Rightarrow> ''  '' @ w @ stripCommentsAndStrings r)
      else if is_quote x then
        (case string_literal x xs of (w, r) \<Rightarrow> blank # w @ stripCommentsAndStrings r)
      else x # stripCommentsAndStrings xs)"
  by pat_completeness auto
termination
proof (relation "measure length")
  show "(r, x # xs) \<in> measure length" if "(w, r) = line_comment (tl xs)" for x xs w r
    using line_comment_shorter [of "tl xs"] that [symmetric] by simp
  show "(r, x # xs) \<in> measure length" if "(w, r) = block_comment (tl xs)" for x xs w r
    using block_comment_shorter [of "tl xs"] that [symmetric] by simp
  show "(r, x # xs) \<in> measure length" if "(w, r) = string_literal x xs" for x xs w r
    using string_literal_shorter [of x xs] that [symmetric] by simp
qed simp_all

section \<open>Positions\<close>

text \<open>
  What is written for a part of the source: the same bytes or blanks, one for each byte,
  and possibly one blank more at the end of the file.
\<close>

abbreviation kept_or_blank :: "char \<Rightarrow> char \<Rightarrow> bool" where
  "kept_or_blank x y \<equiv> y = x \<or> y = blank"

definition shadows :: "string \<Rightarrow> string \<Rightarrow> bool" where
  "shadows s t \<longleftrightarrow> (\<exists>u e. t = u @ e \<and> list_all2 kept_or_blank s u \<and> (e = [] \<or> e = [blank]))"

text \<open>A loop that is given \<open>s\<close> writes \<open>w\<close> for what it takes and leaves \<open>r\<close>.\<close>

definition takes :: "string \<Rightarrow> string \<times> string \<Rightarrow> bool" where
  "takes s wr \<longleftrightarrow> (\<exists>u e. s = u @ snd wr \<and> list_all2 kept_or_blank u (take (length u) (fst wr)) \<and>
     fst wr = take (length u) (fst wr) @ e \<and> (e = [] \<or> e = [blank] \<and> snd wr = []))"

lemma takes_Nil [simp]: "takes s ([], s)"
  by (auto simp: takes_def)

lemma takes_Cons: "takes s (w, r) \<Longrightarrow> kept_or_blank x y \<Longrightarrow> takes (x # s) (y # w, r)"
proof -
  assume t: "takes s (w, r)" and x: "kept_or_blank x y"
  from t obtain u e where "s = u @ r" "list_all2 kept_or_blank u (take (length u) w)"
      "w = take (length u) w @ e" "e = [] \<or> e = [blank] \<and> r = []"
    by (auto simp: takes_def)
  with x show ?thesis
    by (auto simp: takes_def intro!: exI [of _ "x # u"] exI [of _ e])
qed

lemma takes_two: "takes s (w, r) \<Longrightarrow> takes (x # y # s) (blank # blank # w, r)"
  by (intro takes_Cons) simp_all

lemma takes_line: "takes s (line_comment s)"
  by (induction s) (auto split: prod.splits intro: takes_Cons)

lemma takes_block: "takes s (block_comment s)"
proof (induction s)
  case (Cons x xs)
  show ?case
  proof (cases "HasPrefix (x # xs) ''*/''")
    case True
    then obtain r where "x # xs = ''*/'' @ r"
      by (auto simp: HasPrefix_iff)
    then show ?thesis
      using takes_two [OF takes_Nil [of r]] True by auto
  next
    case False
    with Cons show ?thesis
      by (cases "block_comment xs") (auto intro: takes_Cons)
  qed
qed simp

lemma takes_string: "takes s (string_literal q s)"
proof (induction q s rule: string_literal.induct)
  case (2 q x xs)
  consider "x = nl" "q \<noteq> CHR 0x60" | "x = nl" "q = CHR 0x60" | "x = CHR 0x5C" "q \<noteq> CHR 0x60" "xs = []"
    | y ys where "x = CHR 0x5C" "q \<noteq> CHR 0x60" "xs = y # ys"
    | "x = q" "x \<noteq> nl" "\<not> (x = CHR 0x5C \<and> q \<noteq> CHR 0x60)" | "x \<noteq> q" "x \<noteq> nl" "\<not> (x = CHR 0x5C \<and> q \<noteq> CHR 0x60)"
    by (cases xs) blast+
  then show ?case
  proof cases
    case 3
    then show ?thesis by (simp add: takes_def)
  next
    case 4
    obtain w r where "string_literal q ys = (w, r)" by (cases "string_literal q ys")
    with 2 4 takes_two [of ys w r x y] show ?thesis
      by simp
  qed (use 2 in \<open>auto split: prod.splits intro: takes_Cons\<close>)
qed simp

lemma shadows_takes:
  assumes "takes s (w, r)" "shadows r t" "r = [] \<Longrightarrow> t = []"
  shows "shadows s (w @ t)"
proof -
  from assms(1) obtain u e where u: "s = u @ r" "list_all2 kept_or_blank u (take (length u) w)"
      "w = take (length u) w @ e" "e = [] \<or> e = [blank] \<and> r = []"
    by (auto simp: takes_def)
  from assms(2) obtain v d where v: "t = v @ d" "list_all2 kept_or_blank r v" "d = [] \<or> d = [blank]"
    by (auto simp: shadows_def)
  show ?thesis
  proof (cases "e = []")
    case True
    with u v show ?thesis
      unfolding shadows_def by (intro exI [of _ "w @ v"] exI [of _ d]) (simp add: list_all2_appendI)
  next
    case False
    with u v assms(3) show ?thesis
      unfolding shadows_def by (intro exI [of _ "take (length u) w"] exI [of _ e]) simp
  qed
qed

lemma shadows_Cons: "shadows s t \<Longrightarrow> kept_or_blank x y \<Longrightarrow> shadows (x # s) (y # t)"
proof -
  assume "shadows s t" and x: "kept_or_blank x y"
  then obtain u e where "t = u @ e" "list_all2 kept_or_blank s u" "e = [] \<or> e = [blank]"
    by (auto simp: shadows_def)
  with x show ?thesis
    unfolding shadows_def by (intro exI [of _ "y # u"] exI [of _ e]) simp
qed

text \<open>Stripping keeps every byte at its place or blanks it.\<close>

lemma strip_shadows: "shadows s (stripCommentsAndStrings s)"
proof (induction s rule: stripCommentsAndStrings.induct)
  case 1
  then show ?case by (simp add: shadows_def)
next
  case (2 x xs)
  have two: "shadows (x # xs) (blank # blank # w @ stripCommentsAndStrings r)"
    if "takes (tl xs) (w, r)" "shadows r (stripCommentsAndStrings r)" "xs \<noteq> []" for w r
  proof -
    have "shadows (tl xs) (w @ stripCommentsAndStrings r)"
      using shadows_takes [OF that(1,2)] by simp
    then have "shadows (hd xs # tl xs) (blank # w @ stripCommentsAndStrings r)"
      by (rule shadows_Cons) simp
    with that(3) show ?thesis
      by (intro shadows_Cons) simp_all
  qed
  consider "HasPrefix (x # xs) ''//''" | "\<not> HasPrefix (x # xs) ''//''" "HasPrefix (x # xs) ''/*''"
    | "\<not> HasPrefix (x # xs) ''//''" "\<not> HasPrefix (x # xs) ''/*''" "is_quote x"
    | "\<not> HasPrefix (x # xs) ''//''" "\<not> HasPrefix (x # xs) ''/*''" "\<not> is_quote x"
    by blast
  then show ?case
  proof cases
    case 1
    obtain w r where wr: "line_comment (tl xs) = (w, r)" by (cases "line_comment (tl xs)")
    from 1 have "xs \<noteq> []" by (auto simp: HasPrefix_def)
    with two [of w r] "2.IH"(1) [OF 1 wr [symmetric]] takes_line [of "tl xs"] 1 wr show ?thesis
      by simp
  next
    case 2
    obtain w r where wr: "block_comment (tl xs) = (w, r)" by (cases "block_comment (tl xs)")
    from 2 have "xs \<noteq> []" by (auto simp: HasPrefix_def)
    with two [of w r] "2.IH"(2) [OF 2 wr [symmetric]] takes_block [of "tl xs"] 2 wr show ?thesis
      by simp
  next
    case 3
    obtain w r where wr: "string_literal x xs = (w, r)" by (cases "string_literal x xs")
    with takes_string [of xs x] have "shadows xs (w @ stripCommentsAndStrings r)"
      using shadows_takes "2.IH"(3) [OF 3 wr [symmetric]] by simp
    with 3 wr show ?thesis
      by (auto intro: shadows_Cons)
  next
    case 4
    with "2.IH"(4) show ?thesis
      by (auto intro: shadows_Cons)
  qed
qed

lemma shadows_length: "shadows s t \<Longrightarrow> length s \<le> length t \<and> length t \<le> length s + 1"
  by (auto simp: shadows_def dest: list_all2_lengthD)

lemma shadows_nth: "shadows s t \<Longrightarrow> i < length s \<Longrightarrow> kept_or_blank (s ! i) (t ! i)"
proof -
  assume "shadows s t" and i: "i < length s"
  then obtain u e where "t = u @ e" and u: "list_all2 kept_or_blank s u"
    by (auto simp: shadows_def)
  with i list_all2_lengthD [OF u] list_all2_nthD [OF u i] show ?thesis
    by (simp add: nth_append)
qed

section \<open>Segments\<close>

text \<open>
  A reference for stripping: a source as a sequence of code, comments and literals.
\<close>

datatype segment =
    Code string
  | LineComment string
  | BlockComment string
  | Literal char string

fun seg_text :: "segment \<Rightarrow> string" where
  "seg_text (Code c) = c"
| "seg_text (LineComment b) = ''//'' @ b"
| "seg_text (BlockComment b) = ''/*'' @ b @ ''*/''"
| "seg_text (Literal q b) = q # b @ [q]"

definition blank_but_nl :: "string \<Rightarrow> string" where
  "blank_but_nl s = map (\<lambda>x. if x = nl then nl else blank) s"

fun literal_shadow :: "char \<Rightarrow> string \<Rightarrow> string" where
  "literal_shadow q [] = []"
| "literal_shadow q [x] = [if x = nl then nl else blank]"
| "literal_shadow q (x # y # r) =
     (if x = CHR 0x5C \<and> q \<noteq> CHR 0x60 then blank # blank # literal_shadow q r
      else (if x = nl then nl else blank) # literal_shadow q (y # r))"

fun seg_shadow :: "segment \<Rightarrow> string" where
  "seg_shadow (Code c) = c"
| "seg_shadow (LineComment b) = replicate (2 + length b) blank"
| "seg_shadow (BlockComment b) = ''  '' @ blank_but_nl b @ ''  ''"
| "seg_shadow (Literal q b) = blank # literal_shadow q b @ [blank]"

text \<open>
  Which sequences are meant: code has no quote and no start of a comment, also not with
  what follows; a line comment is followed by the end of the line; a literal has no quote
  of its kind that is not escaped, and only a template goes on in the next line and has no
  escapes.
\<close>

definition code_ok :: "string \<Rightarrow> bool" where
  "code_ok c \<longleftrightarrow> \<not> list_ex is_quote c \<and> \<not> Contains c ''//'' \<and> \<not> Contains c ''/*''"

fun literal_ok :: "char \<Rightarrow> string \<Rightarrow> bool" where
  "literal_ok q [] = True"
| "literal_ok q (x # xs) =
     (if x = CHR 0x5C \<and> q \<noteq> CHR 0x60 then (case xs of [] \<Rightarrow> False | y # ys \<Rightarrow> literal_ok q ys)
      else x \<noteq> q \<and> (x \<noteq> nl \<or> q = CHR 0x60) \<and> literal_ok q xs)"

fun segs_ok :: "segment list \<Rightarrow> bool" where
  "segs_ok [] = True"
| "segs_ok (Code c # r) \<longleftrightarrow>
     code_ok c \<and> (c = [] \<or> last c \<noteq> CHR ''/'' \<or> (case r of [] \<Rightarrow> True | Literal _ _ # _ \<Rightarrow> True | _ \<Rightarrow> False)) \<and> segs_ok r"
| "segs_ok (LineComment b # r) \<longleftrightarrow>
     nl \<notin> set b \<and> (case r of [] \<Rightarrow> True | Code (x # _) # _ \<Rightarrow> x = nl | _ \<Rightarrow> False) \<and> segs_ok r"
| "segs_ok (BlockComment b # r) \<longleftrightarrow> \<not> Contains (b @ ''*'') ''*/'' \<and> segs_ok r"
| "segs_ok (Literal q b # r) \<longleftrightarrow> is_quote q \<and> literal_ok q b \<and> segs_ok r"

abbreviation segs_text :: "segment list \<Rightarrow> string" where
  "segs_text segs \<equiv> concat (map seg_text segs)"

abbreviation segs_shadow :: "segment list \<Rightarrow> string" where
  "segs_shadow segs \<equiv> concat (map seg_shadow segs)"

lemma line_comment_segment:
  "nl \<notin> set b \<Longrightarrow> r = [] \<or> hd r = nl \<Longrightarrow> line_comment (b @ r) = (replicate (length b) blank, r)"
  by (induction b) (cases r, auto)

lemma block_comment_segment:
  "\<not> Contains (b @ ''*'') ''*/'' \<Longrightarrow> block_comment (b @ ''*/'' @ r) = (blank_but_nl b @ ''  '', r)"
proof (induction b)
  case Nil
  then show ?case by (simp add: HasPrefix_def blank_but_nl_def)
next
  case (Cons x b)
  have "\<not> HasPrefix (x # b @ ''*/'' @ r) ''*/''"
    using Cons.prems by (cases b) (auto simp: HasPrefix_def)
  with Cons show ?case
    by (simp add: blank_but_nl_def)
qed

lemma string_literal_plain:
  "\<not> (x = CHR 0x5C \<and> q \<noteq> CHR 0x60) \<Longrightarrow> x \<noteq> q \<Longrightarrow> x \<noteq> nl \<or> q = CHR 0x60 \<Longrightarrow>
     string_literal q (x # xs) = (case string_literal q xs of (w, r) \<Rightarrow> ((if x = nl then nl else blank) # w, r))"
  by (cases "x = nl"; cases "x = CHR 0x5C") auto

lemma literal_shadow_plain:
  "\<not> (x = CHR 0x5C \<and> q \<noteq> CHR 0x60) \<Longrightarrow> literal_shadow q (x # s) = (if x = nl then nl else blank) # literal_shadow q s"
  by (cases s; cases "x = CHR 0x5C") auto

lemma string_literal_segment:
  "literal_ok q b \<Longrightarrow> q \<noteq> nl \<Longrightarrow> q \<noteq> CHR 0x5C \<Longrightarrow> string_literal q (b @ q # r) = (literal_shadow q b @ '' '', r)"
proof (induction q b rule: literal_shadow.induct)
  case (2 q x)
  then show ?case by (cases "x = CHR 0x5C \<and> q \<noteq> CHR 0x60") auto
next
  case (3 q x y s)
  show ?case
  proof (cases "x = CHR 0x5C \<and> q \<noteq> CHR 0x60")
    case True
    with "3.IH"(1) "3.prems" show ?thesis by simp
  next
    case False
    then have "literal_ok q (y # s)" "x \<noteq> q" "x \<noteq> nl \<or> q = CHR 0x60"
      using "3.prems"(1) unfolding literal_ok.simps(2) [of q x] if_not_P [OF False] by blast+
    with "3.IH"(2) [OF False] "3.prems"(2,3) have
        "string_literal q (y # s @ q # r) = (literal_shadow q (y # s) @ '' '', r)" by simp
    with string_literal_plain [OF False \<open>x \<noteq> q\<close> \<open>x \<noteq> nl \<or> q = CHR 0x60\<close>, of "y # s @ q # r"]
      literal_shadow_plain [OF False, of "y # s"]
    show ?thesis by (simp only: append_Cons append.assoc prod.case)
  qed
qed simp

lemma strip_code:
  "code_ok c \<Longrightarrow> c = [] \<or> last c \<noteq> CHR ''/'' \<or> r = [] \<or> hd r \<noteq> CHR ''/'' \<and> hd r \<noteq> CHR ''*'' \<Longrightarrow>
     stripCommentsAndStrings (c @ r) = c @ stripCommentsAndStrings r"
proof (induction c)
  case (Cons x c)
  have "\<not> HasPrefix (x # c @ r) ''//''" "\<not> HasPrefix (x # c @ r) ''/*''"
    using Cons.prems by (cases c; cases r; auto simp: code_ok_def HasPrefix_def)+
  moreover have "\<not> is_quote x" "code_ok c"
    using Cons.prems by (auto simp: code_ok_def)
  ultimately show ?case
    using Cons by (auto split: if_splits)
qed simp

lemma is_quote_distinct:
  "is_quote q \<Longrightarrow> q \<noteq> nl \<and> q \<noteq> CHR 0x5C \<and> q \<noteq> CHR ''/'' \<and> q \<noteq> CHR ''*''"
  by (auto simp: is_quote_def)

section \<open>Properties\<close>

text \<open>
  C33: comments and literals are blanked, and nothing else. A source that consists of code,
  line comments, block comments and string or template literals becomes the same code with
  blanks at the places of the comments and literals, the ends of lines being kept.
\<close>

theorem comments_are_blanked:
  "segs_ok segs \<Longrightarrow> stripCommentsAndStrings (segs_text segs) = segs_shadow segs"
proof (induction segs rule: segs_ok.induct)
  case (2 c r)
  have "r = [] \<or> (\<exists>q b s. r = Literal q b # s \<and> is_quote q)" if "c \<noteq> []" "last c = CHR ''/''"
    using "2.prems" that by (cases r rule: segs_ok.cases) auto
  with "2.prems" have "c = [] \<or> last c \<noteq> CHR ''/'' \<or> segs_text r = [] \<or>
      hd (segs_text r) \<noteq> CHR ''/'' \<and> hd (segs_text r) \<noteq> CHR ''*''"
    using is_quote_distinct by fastforce
  with strip_code [of c "segs_text r"] 2 show ?case by simp
next
  case (3 b r)
  have "segs_text r = [] \<or> hd (segs_text r) = nl"
    using "3.prems" by (auto split: list.splits segment.splits)
  with 3 line_comment_segment [of b "segs_text r"] show ?case
    by (simp add: HasPrefix_def)
next
  case (4 b r)
  with block_comment_segment [of b "segs_text r"] show ?case
    by (simp add: HasPrefix_def)
next
  case (5 q b r)
  with string_literal_segment [of q b "segs_text r"] is_quote_distinct [of q] show ?case
    by (simp add: HasPrefix_def)
qed simp

theorem comments_are_blanked_witness:
  "stripCommentsAndStrings (segs_text [Code ''a = '', Literal (CHR 0x22) ''x//'', Code '' '', LineComment '' it's'', Code [nl],
       BlockComment ''/'', Code ''b'']) =
     ''a =        '' @ replicate 6 blank @ [nl] @ ''     b''"
proof -
  have "segs_ok [Code ''a = '', Literal (CHR 0x22) ''x//'', Code '' '', LineComment '' it's'', Code [nl], BlockComment ''/'', Code ''b'']"
    by code_simp
  from comments_are_blanked [OF this] show ?thesis
    by (simp add: blank_but_nl_def numeral_eq_Suc)
qed

end
