(* ===== verification/Codegen_Infer.thy ===== *)
theory Codegen_Infer
  imports Codegen_Strip
begin

text \<open>
  The guess the code generator makes of the result type of a function
  (\<open>src/internal/codegen/infer.go\<close>). It works on the original text of the call and on the
  stripped one side by side. A slice whose bounds are out of range panics in Go; here it is
  \<open>None\<close>, so \<open>None\<close> as the result of a function is a panic.
\<close>

section \<open>Slices and delimiters\<close>

text \<open>\<open>s[a:b]\<close>\<close>

definition go_slice :: "string \<Rightarrow> nat \<Rightarrow> nat \<Rightarrow> string option" where
  "go_slice s a b = (if a \<le> b \<and> b \<le> length s then Some (drop a (take b s)) else None)"

text \<open>\<open>s[a:]\<close>\<close>

definition go_slice_from :: "string \<Rightarrow> nat \<Rightarrow> string option" where
  "go_slice_from s a = go_slice s a (length s)"

fun delimiter_loop :: "char \<Rightarrow> char \<Rightarrow> nat \<Rightarrow> nat \<Rightarrow> string \<Rightarrow> nat option" where
  "delimiter_loop opening closing depth i [] = None"
| "delimiter_loop opening closing depth i (x # xs) =
     (if x = opening then delimiter_loop opening closing (depth + 1) (i + 1) xs
      else if x = closing then
        (if depth - 1 = 0 then Some i else delimiter_loop opening closing (depth - 1) (i + 1) xs)
      else delimiter_loop opening closing depth (i + 1) xs)"

text \<open>\<open>None\<close> is the result -1.\<close>

definition findMatchingDelimiter :: "string \<Rightarrow> nat \<Rightarrow> char \<Rightarrow> char \<Rightarrow> nat option" where
  "findMatchingDelimiter source openIndex opening closing =
     (if length source \<le> openIndex \<or> source ! openIndex \<noteq> opening then None
      else delimiter_loop opening closing 0 openIndex (drop openIndex source))"

lemma delimiter_loop_bounds: "delimiter_loop a b d i s = Some k \<Longrightarrow> i \<le> k \<and> k < i + length s"
  by (induction a b d i s rule: delimiter_loop.induct) (auto split: if_splits)

lemma findMatchingDelimiter_bounds:
  "findMatchingDelimiter s i a b = Some k \<Longrightarrow> i \<le> k \<and> k < length s"
  by (auto simp: findMatchingDelimiter_def split: if_splits dest: delimiter_loop_bounds)

text \<open>The delimiter is behind the opening one.\<close>

lemma findMatchingDelimiter_after:
  assumes f: "findMatchingDelimiter s i a b = Some k" and ab: "a \<noteq> b"
  shows "i < k"
proof -
  have i: "i < length s" "s ! i = a"
    using f by (auto simp: findMatchingDelimiter_def split: if_splits)
  then have "drop i s = a # drop (Suc i) s"
    by (metis Cons_nth_drop_Suc)
  with f i have "delimiter_loop a b 1 (Suc i) (drop (Suc i) s) = Some k"
    by (simp add: findMatchingDelimiter_def)
  then show ?thesis
    using delimiter_loop_bounds by fastforce
qed

section \<open>Expressions\<close>

definition trimLeft :: "string \<Rightarrow> string" where
  "trimLeft s = strip_front space_seqs s"

definition startsWithStringLiteral :: "string \<Rightarrow> bool" where
  "startsWithStringLiteral s \<longleftrightarrow> s \<noteq> [] \<and> is_quote (hd s)"

definition ascii_digit :: "char \<Rightarrow> bool" where
  "ascii_digit c \<longleftrightarrow> CHR ''0'' \<le> c \<and> c \<le> CHR ''9''"

definition startsWithNumberLiteral :: "string \<Rightarrow> bool" where
  "startsWithNumberLiteral s =
     (case s of
        [] \<Rightarrow> False
      | x # xs \<Rightarrow>
          if ascii_digit x then True
          else if (x = CHR ''+'' \<or> x = CHR ''-'') \<and> xs \<noteq> [] then ascii_digit (hd xs) \<or> hd xs = CHR ''.''
          else x = CHR ''.'' \<and> xs \<noteq> [] \<and> ascii_digit (hd xs))"

lemma strip_front_length: "length (strip_front seqs s) \<le> length s"
proof (induction seqs s rule: strip_front.induct)
  case (1 seqs s)
  then show ?case
    by (subst strip_front.simps) (fastforce split: option.splits)
qed

lemma trimLeft_length: "length (trimLeft s) \<le> length s"
  by (simp add: trimLeft_def strip_front_length)

lemma go_slice_Some: "go_slice s a b = Some t \<longleftrightarrow> a \<le> b \<and> b \<le> length s \<and> t = drop a (take b s)"
  by (auto simp: go_slice_def)

function inferExpressionType :: "string \<Rightarrow> string \<Rightarrow> string option" where
  "inferExpressionType original0 stripped0 =
     (let original = trimLeft original0; stripped = trimLeft stripped0
      in if stripped = [] then Some (if startsWithStringLiteral original then ''string'' else [])
         else if HasPrefix stripped ''true'' \<or> HasPrefix stripped ''false'' then Some ''bool''
         else if HasPrefix stripped ''null'' \<or> HasPrefix stripped ''undefined'' then Some []
         else if HasPrefix stripped ''['' then
           Some (if findMatchingDelimiter stripped 0 (CHR ''['') (CHR '']'') \<noteq> None then ''[]any'' else [])
         else if HasPrefix stripped ''{'' then
           Some (if findMatchingDelimiter stripped 0 (CHR ''{'') (CHR ''}'') \<noteq> None then ''map[string]any'' else [])
         else if HasPrefix stripped ''('' then
           (case findMatchingDelimiter stripped 0 (CHR ''('') (CHR '')'') of
              None \<Rightarrow> Some []
            | Some closeIndex \<Rightarrow>
                (case (go_slice original 1 closeIndex, go_slice stripped 1 closeIndex) of
                   (Some inner, Some innerStripped) \<Rightarrow> inferExpressionType inner innerStripped
                 | _ \<Rightarrow> None))
         else if startsWithStringLiteral original then Some ''string''
         else if startsWithNumberLiteral stripped then Some ''float64''
         else Some [])"
  by pat_completeness auto
termination
proof (relation "measure (\<lambda>(original, stripped). length stripped)", goal_cases)
  case (2 original0 stripped0 original stripped k)
  with trimLeft_length [of stripped0] findMatchingDelimiter_bounds [of stripped 0 "CHR ''(''" "CHR '')''" k]
  show ?case by (auto simp: go_slice_def split: if_splits)
qed simp

declare inferExpressionType.simps [simp del]

section \<open>Handlers\<close>

text \<open>\<open>strings.Index\<close>\<close>

fun index_of :: "string \<Rightarrow> string \<Rightarrow> nat option" where
  "index_of p [] = (if p = [] then Some 0 else None)"
| "index_of p (x # xs) = (if HasPrefix (x # xs) p then Some 0 else map_option Suc (index_of p xs))"

definition inferBlockReturnType :: "string \<Rightarrow> string \<Rightarrow> string option" where
  "inferBlockReturnType original stripped =
     (case findMatchingDelimiter stripped 0 (CHR ''{'') (CHR ''}'') of
        None \<Rightarrow> Some []
      | Some blockClose \<Rightarrow>
          (case (go_slice original 1 blockClose, go_slice stripped 1 blockClose) of
             (Some bodyOriginal, Some bodyStripped) \<Rightarrow>
               (case index_of ''return'' bodyStripped of
                  None \<Rightarrow> Some []
                | Some returnIndex \<Rightarrow>
                    (case (go_slice_from bodyOriginal (returnIndex + length ''return''),
                           go_slice_from bodyStripped (returnIndex + length ''return'')) of
                       (Some o', Some s') \<Rightarrow> inferExpressionType o' s'
                     | _ \<Rightarrow> None))
           | _ \<Rightarrow> None))"

definition inferHandlerResultType :: "string \<Rightarrow> string \<Rightarrow> string option" where
  "inferHandlerResultType original0 stripped0 =
     (let original = trimLeft original0; stripped = trimLeft stripped0
      in if stripped = [] then Some (if startsWithStringLiteral original then ''string'' else [])
         else if hd stripped = CHR ''{'' then inferBlockReturnType original stripped
         else inferExpressionType original stripped)"

text \<open>\<open>(?s)handler\s*:\s*(?:async\s*)?.*?=>\<close>\<close>

definition handlerPattern :: rx where
  "handlerPattern = RSeqs
     [RLit ''handler'', RMany rx_space, RLit '':'', RMany rx_space,
      ROpt (RSeq (RLit ''async'') (RMany rx_space)), RLazy (\<lambda>_. True), RLit ''=>'']"

definition inferResultType :: "string \<Rightarrow> string \<Rightarrow> nat \<Rightarrow> string option" where
  "inferResultType original stripped callOpen =
     (case findMatchingDelimiter stripped callOpen (CHR ''('') (CHR '')'') of
        None \<Rightarrow> Some []
      | Some callClose \<Rightarrow>
          if callClose \<le> callOpen then Some []
          else
            (case (go_slice original (callOpen + 1) callClose, go_slice stripped (callOpen + 1) callClose) of
               (Some callOriginal, Some callStripped) \<Rightarrow>
                 (case find_first handlerPattern callStripped of
                    None \<Rightarrow> Some []
                  | Some (_, r, _) \<Rightarrow>
                      let handlerEnd = length callStripped - length r
                      in case (go_slice_from callOriginal handlerEnd, go_slice_from callStripped handlerEnd) of
                           (Some o', Some s') \<Rightarrow> inferHandlerResultType o' s'
                         | _ \<Rightarrow> None)
             | _ \<Rightarrow> None))"

section \<open>What is inferred\<close>

text \<open>The types that appear in generated code; the empty text stands for \<open>any\<close>.\<close>

definition result_types :: "string list" where
  "result_types = [[], ''string'', ''bool'', ''[]any'', ''map[string]any'', ''float64'']"

lemma inferExpressionType_types: "inferExpressionType o' s' = Some t \<Longrightarrow> t \<in> set result_types"
proof (induction o' s' rule: inferExpressionType.induct)
  case (1 o' s')
  from "1.prems" show ?case
    by (subst (asm) inferExpressionType.simps)
      (auto simp: Let_def result_types_def split: if_splits option.splits dest: "1.IH" [OF refl refl, unfolded result_types_def])
qed

lemma inferBlockReturnType_types: "inferBlockReturnType o' s' = Some t \<Longrightarrow> t \<in> set result_types"
  by (auto simp: inferBlockReturnType_def split: option.splits prod.splits dest: inferExpressionType_types)
    (auto simp: result_types_def)

lemma inferHandlerResultType_types: "inferHandlerResultType o' s' = Some t \<Longrightarrow> t \<in> set result_types"
  by (auto simp: inferHandlerResultType_def Let_def split: if_splits
      dest: inferExpressionType_types inferBlockReturnType_types) (auto simp: result_types_def)

lemma inferResultType_types: "inferResultType o' s' i = Some t \<Longrightarrow> t \<in> set result_types"
  by (auto simp: inferResultType_def Let_def split: option.splits prod.splits if_splits
      dest: inferHandlerResultType_types) (auto simp: result_types_def)

text \<open>On a text that stripping does not change there is no panic.\<close>

lemma slice_inside:
  assumes "findMatchingDelimiter s i a b = Some k" "a \<noteq> b"
  shows "go_slice s (Suc i) k = Some (drop (Suc i) (take k s))"
  using findMatchingDelimiter_bounds [OF assms(1)] findMatchingDelimiter_after [OF assms] by (simp add: go_slice_def)

lemma inferExpressionType_same: "inferExpressionType s s \<noteq> None"
proof (induction "length s" arbitrary: s rule: less_induct)
  case less
  show ?case
  proof (cases "findMatchingDelimiter (trimLeft s) 0 (CHR ''('') (CHR '')'')")
    case None
    then show ?thesis by (subst inferExpressionType.simps) (simp add: Let_def)
  next
    case (Some k)
    note slice = slice_inside [OF Some, simplified]
    have "k < length s"
      using findMatchingDelimiter_bounds [OF Some] trimLeft_length [of s] by simp
    then have "inferExpressionType (drop (Suc 0) (take k (trimLeft s))) (drop (Suc 0) (take k (trimLeft s))) \<noteq> None"
      by (intro less) simp
    with Some slice show ?thesis by (subst inferExpressionType.simps) (simp add: Let_def)
  qed
qed

lemma index_of_bounds: "index_of p s = Some i \<Longrightarrow> i + length p \<le> length s"
  by (induction s arbitrary: i) (auto simp: HasPrefix_iff split: if_splits dest!: arg_cong [of "_ # _" _ length])

lemma inferBlockReturnType_same: "inferBlockReturnType s s \<noteq> None"
proof (cases "findMatchingDelimiter s 0 (CHR ''{'') (CHR ''}'')")
  case None
  then show ?thesis by (simp add: inferBlockReturnType_def)
next
  case (Some k)
  note slice = slice_inside [OF Some, simplified]
  show ?thesis
    using Some slice inferExpressionType_same
    by (auto simp: inferBlockReturnType_def go_slice_from_def go_slice_def split: option.splits dest: index_of_bounds)
qed

lemma inferHandlerResultType_same: "inferHandlerResultType s s \<noteq> None"
  using inferExpressionType_same inferBlockReturnType_same by (auto simp: inferHandlerResultType_def Let_def)

lemma inferResultType_same:
  assumes "\<And>k. findMatchingDelimiter s i (CHR ''('') (CHR '')'') = Some k \<Longrightarrow> go_slice src (Suc i) k = go_slice s (Suc i) k"
  shows "inferResultType src s i \<noteq> None"
proof (cases "findMatchingDelimiter s i (CHR ''('') (CHR '')'')")
  case None
  then show ?thesis by (simp add: inferResultType_def)
next
  case (Some k)
  define call where "call = drop (Suc i) (take k s)"
  have slices: "go_slice s (Suc i) k = Some call" "go_slice src (Suc i) k = Some call"
    using slice_inside [OF Some] assms [OF Some] by (simp_all add: call_def)
  have "\<not> k \<le> i"
    using findMatchingDelimiter_after [OF Some] by simp
  with Some slices inferHandlerResultType_same show ?thesis
    by (auto simp: inferResultType_def go_slice_from_def go_slice_def [of call] Let_def split: option.splits prod.splits)
qed

section \<open>A panic\<close>

text \<open>
  The two texts are trimmed separately. If a comment stands between the arrow and the body,
  the original text keeps it and is ahead of the stripped one; where the body is cut at the
  positions of the stripped text, the original can then be blank and shorter.
\<close>

definition commented_source :: string where
  "commented_source = ''export const f = query({handler: () => /*            */{return(1)}})''"

lemma inferResultType_panics:
  "inferResultType commented_source (stripCommentsAndStrings commented_source) 22 = None"
  by code_simp

end
