(* ===== verification/Codegen_Names.thy ===== *)
theory Codegen_Names
  imports Codegen_Infer Go_Json
begin

text \<open>
  The names of generated variables (\<open>src/internal/codegen/codegen.go\<close>). A rune is the string
  of its UTF-8 bytes; a byte that is not part of a valid rune is a rune on its own, which Go
  reads as U+FFFD. The tables of package \<open>unicode\<close> for the runes beyond ASCII are a parameter.
\<close>

section \<open>Runes\<close>

function runes :: "string \<Rightarrow> string list" where
  "runes s =
     (if s = [] then []
      else let n = max 1 (utf8_first s) in take n s # runes (drop n s))"
  by pat_completeness auto
termination
  by (relation "measure length") (auto simp: Let_def)

declare runes.simps [simp del]

definition rune_error :: "string \<Rightarrow> bool" where
  "rune_error r \<longleftrightarrow> utf8_first r = 0 \<or> r = utf8_error"

record unicode =
  u_letter :: "string \<Rightarrow> bool"
  u_digit :: "string \<Rightarrow> bool"
  u_upper :: "string \<Rightarrow> string"
  u_print :: "string \<Rightarrow> bool"

definition ascii_rune :: "string \<Rightarrow> bool" where
  "ascii_rune r \<longleftrightarrow> length r = 1 \<and> of_char (hd r) < (128 :: nat)"

definition ascii_upper :: "char \<Rightarrow> char" where
  "ascii_upper c = (if in_range 0x61 0x7A c then char_of (of_char c - 32 :: nat) else c)"

definition ascii_lower :: "char \<Rightarrow> char" where
  "ascii_lower c = (if in_range 0x41 0x5A c then char_of (of_char c + 32 :: nat) else c)"

definition ascii_letter :: "char \<Rightarrow> bool" where
  "ascii_letter c \<longleftrightarrow> in_range 0x41 0x5A c \<or> in_range 0x61 0x7A c"

text \<open>\<open>unicode.IsLetter\<close>, \<open>IsDigit\<close> and \<open>ToUpper\<close>; U+FFFD is neither a letter nor a digit.\<close>

definition IsLetter :: "unicode \<Rightarrow> string \<Rightarrow> bool" where
  "IsLetter U r = (if ascii_rune r then ascii_letter (hd r) else \<not> rune_error r \<and> u_letter U r)"

definition IsDigit :: "unicode \<Rightarrow> string \<Rightarrow> bool" where
  "IsDigit U r = (if ascii_rune r then ascii_digit (hd r) else \<not> rune_error r \<and> u_digit U r)"

definition ToUpper :: "unicode \<Rightarrow> string \<Rightarrow> string" where
  "ToUpper U r = (if ascii_rune r then [ascii_upper (hd r)] else u_upper U r)"

section \<open>Names\<close>

text \<open>\<open>strings.FieldsFunc\<close>: the parts between runes that satisfy the predicate, without empty ones.\<close>

fun fields_func :: "(string \<Rightarrow> bool) \<Rightarrow> string list \<Rightarrow> string list \<Rightarrow> string list" where
  "fields_func p part [] = (if part = [] then [] else [concat part])"
| "fields_func p part (r # rs) =
     (if p r then (if part = [] then [] else [concat part]) @ fields_func p [] rs
      else fields_func p (part @ [r]) rs)"

definition splitIdentifierParts :: "unicode \<Rightarrow> string \<Rightarrow> string list" where
  "splitIdentifierParts U s =
     filter (\<lambda>part. part \<noteq> []) (fields_func (\<lambda>r. \<not> IsLetter U r \<and> \<not> IsDigit U r) [] (runes s))"

definition titleIdentifierPart :: "unicode \<Rightarrow> string \<Rightarrow> string" where
  "titleIdentifierPart U part =
     (case runes part of
        [] \<Rightarrow> []
      | r # rest \<Rightarrow>
          if rune_error r then []
          else if IsDigit U r then CHR ''N'' # part
          else ToUpper U r @ concat rest)"

definition exportedVarName :: "unicode \<Rightarrow> string \<Rightarrow> string \<Rightarrow> string" where
  "exportedVarName U module function =
     (let out = concat (map (titleIdentifierPart U) (splitIdentifierParts U (module @ ''/'' @ function)));
          out = (if out = [] then ''Function'' else out);
          first = hd (runes out)
      in if rune_error first \<or> \<not> IsLetter U first then ''Function'' @ out else out)"

fun identifier_runes :: "unicode \<Rightarrow> bool \<Rightarrow> string list \<Rightarrow> bool" where
  "identifier_runes U first [] = True"
| "identifier_runes U first (r # rs) \<longleftrightarrow>
     (r = ''_'' \<or> IsLetter U r \<or> \<not> first \<and> IsDigit U r) \<and> identifier_runes U False rs"

definition isGoIdentifier :: "unicode \<Rightarrow> string \<Rightarrow> bool" where
  "isGoIdentifier U s \<longleftrightarrow> s \<noteq> [] \<and> identifier_runes U True (runes s)"

section \<open>Generated names are Go identifiers\<close>

text \<open>
  What is used of the tables: the upper case of a letter is again one letter.
\<close>

definition one_rune :: "string \<Rightarrow> bool" where
  "one_rune r \<longleftrightarrow> utf8_first r = length r \<and> r \<noteq> []"

definition unicode_ok :: "unicode \<Rightarrow> bool" where
  "unicode_ok U \<longleftrightarrow> (\<forall>r. one_rune r \<and> IsLetter U r \<longrightarrow> one_rune (ToUpper U r) \<and> IsLetter U (ToUpper U r))"

lemma runes_Nil [simp]: "runes [] = []"
  by (simp add: runes.simps)

lemma concat_runes [simp]: "concat (runes s) = s"
proof (induction s rule: runes.induct)
  case (1 s)
  then show ?case
    by (cases "s = []") (simp_all add: runes.simps [of s] Let_def)
qed

lemma utf8_first_le: "utf8_first s \<le> length s \<and> utf8_first s \<le> 4"
  by (auto simp: utf8_first_def split: list.splits)

lemma short_string_cases:
  obtains "s = []" | a where "s = [a]" | a b where "s = [a, b]" | a b c where "s = [a, b, c]"
    | a b c d r where "s = a # b # c # d # r"
proof (cases s)
  case (Cons a s1)
  note 1 = this
  show ?thesis
  proof (cases s1)
    case (Cons b s2)
    note 2 = this
    show ?thesis
    proof (cases s2)
      case (Cons c s3)
      with 1 2 that(4,5) show ?thesis by (cases s3) auto
    qed (use 1 2 that(3) in auto)
  qed (use 1 that(2) in auto)
qed (use that(1) in auto)

lemma one_rune_append: "one_rune r \<Longrightarrow> utf8_first (r @ s) = length r"
proof (cases r rule: short_string_cases)
  case (4 a b c)
  moreover assume "one_rune r"
  ultimately show ?thesis
    by (simp add: one_rune_def utf8_first_def split: if_splits) blast
next
  case (5 a b c d q)
  assume "one_rune r"
  with utf8_first_le [of r] 5 have "q = []" by (simp add: one_rune_def)
  with 5 \<open>one_rune r\<close> show ?thesis
    by (simp add: one_rune_def utf8_first_def split: if_splits) blast
qed (simp_all add: one_rune_def utf8_first_def split: if_splits)

lemma one_rune_take: "utf8_first s \<noteq> 0 \<Longrightarrow> one_rune (take (utf8_first s) s)"
  by (cases s rule: short_string_cases) (simp_all add: one_rune_def utf8_first_def split: if_splits)

lemma runes_cases: "r \<in> set (runes s) \<Longrightarrow> one_rune r \<or> utf8_first r = 0"
proof (induction s rule: runes.induct)
  case (1 s)
  have "one_rune (take (max 1 (utf8_first s)) s) \<or> utf8_first (take (max 1 (utf8_first s)) s) = 0" if "s \<noteq> []"
  proof (cases "utf8_first s = 0")
    case True
    with that show ?thesis by (cases s) (auto simp: utf8_first_def split: if_splits)
  next
    case False
    then have "max 1 (utf8_first s) = utf8_first s" by simp
    with one_rune_take [OF False] show ?thesis by simp
  qed
  with 1 show ?case
    by (cases "s = []") (auto simp: runes.simps [of s] Let_def)
qed

lemma runes_append: "list_all one_rune rs \<Longrightarrow> runes (concat rs @ s) = rs @ runes s"
proof (induction rs)
  case (Cons r rs)
  then have r: "one_rune r" by simp
  then have "utf8_first (r @ concat rs @ s) = length r" "r \<noteq> []"
    by (simp_all add: one_rune_append) (simp add: one_rune_def)
  then have "runes (r @ concat rs @ s) = r # runes (concat rs @ s)"
    by (subst runes.simps) (simp add: Let_def max_def Suc_le_eq)
  with Cons show ?case by simp
qed simp

lemma runes_concat: "list_all one_rune rs \<Longrightarrow> runes (concat rs) = rs"
  using runes_append [of rs "[]"] by simp

text \<open>The runes that names are made of.\<close>

definition name_rune :: "unicode \<Rightarrow> string \<Rightarrow> bool" where
  "name_rune U r \<longleftrightarrow> one_rune r \<and> (IsLetter U r \<or> IsDigit U r)"

lemma name_rune_error: "name_rune U r \<Longrightarrow> \<not> rune_error r"
  by (auto simp: name_rune_def IsLetter_def IsDigit_def rune_error_def ascii_rune_def one_rune_def utf8_error_def
      split: if_splits)

lemma runes_name: "r \<in> set (runes s) \<Longrightarrow> IsLetter U r \<or> IsDigit U r \<Longrightarrow> name_rune U r"
proof -
  assume r: "r \<in> set (runes s)" and l: "IsLetter U r \<or> IsDigit U r"
  have "utf8_first r \<noteq> 0"
  proof
    assume z: "utf8_first r = 0"
    then have "\<not> ascii_rune r"
      by (cases r) (auto simp: ascii_rune_def utf8_first_def in_range_def)
    with l z show False
      by (simp add: IsLetter_def IsDigit_def rune_error_def)
  qed
  with runes_cases [OF r] l show ?thesis by (auto simp: name_rune_def)
qed

definition name_text :: "unicode \<Rightarrow> string list \<Rightarrow> bool" where
  "name_text U rs \<longleftrightarrow> rs \<noteq> [] \<and> list_all (name_rune U) rs"

lemma name_text_runes: "list_all (name_rune U) rs \<Longrightarrow> runes (concat rs) = rs"
  by (rule runes_concat) (auto simp: name_rune_def list_all_iff)

lemma fields_func_names:
  "list_all (name_rune U) part \<Longrightarrow> \<forall>r \<in> set rs. p r \<or> name_rune U r \<Longrightarrow> x \<in> set (fields_func p part rs) \<Longrightarrow>
     \<exists>ps. x = concat ps \<and> name_text U ps"
  by (induction p part rs rule: fields_func.induct) (auto simp: name_text_def split: if_splits)

lemma splitIdentifierParts_names:
  assumes "x \<in> set (splitIdentifierParts U s)"
  shows "\<exists>ps. x = concat ps \<and> name_text U ps"
  using assms unfolding splitIdentifierParts_def
  by (intro fields_func_names [where part = "[]" and rs = "runes s"
        and p = "\<lambda>r. \<not> IsLetter U r \<and> \<not> IsDigit U r"]) (auto intro: runes_name)

lemma title_names:
  assumes U: "unicode_ok U" and ps: "name_text U ps"
  shows "\<exists>qs. titleIdentifierPart U (concat ps) = concat qs \<and> name_text U qs \<and> IsLetter U (hd qs)"
proof -
  obtain r rest where rs: "ps = r # rest" and r: "name_rune U r" and rest: "list_all (name_rune U) rest"
    using ps by (cases ps) (auto simp: name_text_def)
  have runes: "runes (concat ps) = r # rest"
    using ps name_text_runes [of U ps] rs by (simp add: name_text_def)
  have N: "name_rune U ''N''" "IsLetter U ''N''"
    by (simp_all add: name_rune_def IsLetter_def ascii_rune_def ascii_letter_def one_rune_def utf8_first_def in_range_def)
  show ?thesis
  proof (cases "IsDigit U r")
    case True
    with runes name_rune_error [OF r] N ps show ?thesis
      by (intro exI [of _ "''N'' # ps"]) (simp add: titleIdentifierPart_def name_text_def)
  next
    case False
    with r have "one_rune (ToUpper U r)" "IsLetter U (ToUpper U r)"
      using U by (auto simp: unicode_ok_def name_rune_def)
    with False runes name_rune_error [OF r] rest show ?thesis
      by (intro exI [of _ "ToUpper U r # rest"]) (simp add: titleIdentifierPart_def name_text_def name_rune_def)
  qed
qed

lemma titles_names:
  assumes U: "unicode_ok U" and parts: "\<forall>x \<in> set parts. \<exists>ps. x = concat ps \<and> name_text U ps"
  shows "\<exists>qs. concat (map (titleIdentifierPart U) parts) = concat qs \<and> list_all (name_rune U) qs \<and>
    (qs = [] \<or> IsLetter U (hd qs))"
  using parts
proof (induction parts)
  case Nil
  then show ?case by (auto intro: exI [of _ "[]"])
next
  case (Cons x parts)
  from Cons.prems obtain qs where qs: "titleIdentifierPart U x = concat qs" "name_text U qs" "IsLetter U (hd qs)"
    using title_names [OF U] by auto
  from Cons obtain rest where "concat (map (titleIdentifierPart U) parts) = concat rest" "list_all (name_rune U) rest"
    by auto
  with qs show ?case
    by (intro exI [of _ "qs @ rest"]) (auto simp: name_text_def)
qed

lemma identifier_runes_names: "list_all (name_rune U) rs \<Longrightarrow> identifier_runes U False rs"
  by (induction rs) (auto simp: name_rune_def)

lemma name_text_identifier: "name_text U rs \<Longrightarrow> IsLetter U (hd rs) \<Longrightarrow> isGoIdentifier U (concat rs)"
proof (cases rs)
  case (Cons r rest)
  assume n: "name_text U rs" and l: "IsLetter U (hd rs)"
  have "concat rs \<noteq> []"
    using n Cons by (auto simp: name_text_def name_rune_def one_rune_def)
  then show ?thesis
    using n l Cons identifier_runes_names [of U rest] name_text_runes [of U rs]
    by (simp add: isGoIdentifier_def name_text_def)
qed (simp add: name_text_def)

lemma exportedVarName_identifier:
  assumes U: "unicode_ok U"
  shows "isGoIdentifier U (exportedVarName U module function)"
proof -
  obtain qs where qs: "concat (map (titleIdentifierPart U) (splitIdentifierParts U (module @ ''/'' @ function))) = concat qs"
      "list_all (name_rune U) qs" "qs = [] \<or> IsLetter U (hd qs)"
    using titles_names [OF U] splitIdentifierParts_names by meson
  define rs where "rs = (if qs = [] then map (\<lambda>c. [c]) ''Function'' else qs)"
  have rs: "name_text U rs" "IsLetter U (hd rs)"
    using qs by (auto simp: rs_def name_text_def name_rune_def IsLetter_def ascii_rune_def ascii_letter_def one_rune_def
        utf8_first_def in_range_def)
  have "concat qs = [] \<longleftrightarrow> qs = []"
    using qs(2) by (auto simp: name_rune_def one_rune_def list_all_iff)
  then have out: "(if concat qs = [] then ''Function'' else concat qs) = concat rs"
    by (auto simp: rs_def)
  have "runes (concat rs) = rs"
    using rs name_text_runes [of U rs] by (simp add: name_text_def)
  moreover have "name_rune U (hd rs)"
    using rs by (cases rs) (auto simp: name_text_def)
  ultimately have "exportedVarName U module function = concat rs"
    unfolding exportedVarName_def qs(1) out Let_def using name_rune_error rs(2) by simp
  then show ?thesis
    using name_text_identifier rs by simp
qed

end
