(* ===== verification/Codegen_Generate.thy ===== *)
theory Codegen_Generate
  imports Codegen_Names Core_Path "HOL-Library.Product_Lexorder"
begin

text \<open>
  The code generator (\<open>src/internal/codegen/codegen.go\<close>): it walks over the source files of a
  directory, finds the exported functions, names and sorts them, and prints a Go file with
  a reference for each. The formatter of package \<open>go/format\<close> is a parameter.
\<close>

section \<open>Errors\<close>

text \<open>
  The errors of the generator and its command, and the panic of a slice that is out of
  range, which ends the command as well.
\<close>

datatype codegen_error =
    SourceDirRequired
  | InvalidPackageName string
  | ImportPathRequired
  | SourceDirFailed
  | NotADirectory string
  | ScanFailed string
  | AmbiguousIdentifier string string string string string
  | FormatFailed
  | FlagError string
  | HelpRequested
  | OutRequired
  | OutUnreadable string
  | OutDiffers string
  | OutFailed string
  | SliceOutOfRange

section \<open>Files\<close>

text \<open>
  A file or directory; \<open>None\<close> is a content that cannot be read. The entries of a directory
  are in ascending order of their names, as \<open>os.ReadDir\<close> returns them.
\<close>

datatype node =
    FileNode "string option"
  | DirNode "(string \<times> node) list option"
  | LinkNode node

text \<open>\<open>os.Stat\<close> and \<open>os.ReadFile\<close> follow symbolic links.\<close>

fun follow :: "node \<Rightarrow> node" where
  "follow (LinkNode n) = follow n"
| "follow n = n"

definition read_file :: "node \<Rightarrow> string option" where
  "read_file n = (case follow n of FileNode c \<Rightarrow> c | _ \<Rightarrow> None)"

section \<open>Functions in a source file\<close>

record Config =
  SourceDir :: string
  PackageName :: string
  ImportPath :: string

record functionRef =
  fr_ModulePath :: string
  fr_Name :: string
  fr_Kind :: string
  fr_VarName :: string
  fr_ResultType :: string

definition ident_start :: "char \<Rightarrow> bool" where
  "ident_start c \<longleftrightarrow> ascii_letter c \<or> c = CHR ''_'' \<or> c = CHR ''$''"

definition ident_part :: "char \<Rightarrow> bool" where
  "ident_part c \<longleftrightarrow> ident_start c \<or> ascii_digit c"

definition callees :: "string list" where
  "callees = [''query'', ''mutation'', ''action'', ''internalQuery'', ''internalMutation'', ''internalAction'']"

definition calleePattern :: rx where
  "calleePattern = RGroup (RAlts (map RLit callees))"

definition annotationPattern :: rx where
  "annotationPattern = ROpt (RSeqs [RMany rx_space, RLit '':'', RMany rx_space, RPlus (\<lambda>c. c \<noteq> CHR ''='')])"

definition exportedFunctionPattern :: rx where
  "exportedFunctionPattern = RSeqs
     [RLit ''export'', RPlus rx_space, RLit ''const'', RPlus rx_space,
      RGroup (RSeq (RCls ident_start) (RMany ident_part)),
      annotationPattern,
      RMany rx_space, RLit ''='', RMany rx_space, calleePattern, RMany rx_space, RLit ''('']"

definition defaultFunctionPattern :: rx where
  "defaultFunctionPattern = RSeqs
     [RLit ''export'', RPlus rx_space, RLit ''default'', RPlus rx_space, calleePattern, RMany rx_space, RLit ''('']"

definition refKind :: "string \<Rightarrow> string" where
  "refKind callee =
     (if callee = ''query'' \<or> callee = ''internalQuery'' then ''query''
      else if callee = ''mutation'' \<or> callee = ''internalMutation'' then ''mutation''
      else if callee = ''action'' \<or> callee = ''internalAction'' then ''action''
      else [])"

text \<open>The reference for one match; the call opens at the last byte of the match.\<close>

definition found_ref :: "string \<Rightarrow> string \<Rightarrow> string \<Rightarrow> string \<Rightarrow> string \<Rightarrow> string \<Rightarrow> codegen_error + functionRef" where
  "found_ref module data source name callee rest =
     (case inferResultType data source (length source - length rest - 1) of
        None \<Rightarrow> Inl SliceOutOfRange
      | Some t \<Rightarrow> Inr \<lparr>fr_ModulePath = module, fr_Name = name, fr_Kind = refKind callee, fr_VarName = [], fr_ResultType = t\<rparr>)"

definition source_refs :: "string \<Rightarrow> string \<Rightarrow> codegen_error + functionRef list" where
  "source_refs module data =
     (let source = stripCommentsAndStrings data
      in rbind (rmap (\<lambda>(_, rest, groups). found_ref module data source (groups ! 0) (groups ! 1) rest)
                  (find_all exportedFunctionPattern source)) (\<lambda>named.
         rbind (rmap (\<lambda>(_, rest, groups). found_ref module data source ''default'' (groups ! 0) rest)
                  (find_all defaultFunctionPattern source)) (\<lambda>defaults.
         Inr (named @ defaults))))"

section \<open>The walk\<close>

definition isSourceFile :: "string \<Rightarrow> bool" where
  "isSourceFile path \<longleftrightarrow> map ascii_lower (Ext path) \<in> set [''.ts'', ''.tsx'', ''.js'', ''.jsx'']"

definition modulePath :: "string \<Rightarrow> string" where
  "modulePath relative = TrimSuffix relative (Ext relative)"

definition skipped_dirs :: "string list" where
  "skipped_dirs = [''_generated'', ''node_modules'', ''.git'']"

text \<open>
  \<open>filepath.WalkDir\<close> with the function that \<open>scanSourceDir\<close> passes: a directory with one of
  the names is skipped, the entries of another one are visited in turn, and a file is read
  if it is a source file. Symbolic links are entries that are not directories; they are not
  followed by the walk, but \<open>os.ReadFile\<close> follows them. The names are those of the path from
  the source directory on; the extension of a path is that of its last name.
\<close>

definition visit_file :: "string list \<Rightarrow> string \<Rightarrow> node \<Rightarrow> codegen_error + functionRef list" where
  "visit_file names name n =
     (let relative = (if names = [] then ''.'' else Join ''/'' names)
      in if \<not> isSourceFile name then Inr []
         else case read_file n of
                None \<Rightarrow> Inl (ScanFailed relative)
              | Some data \<Rightarrow> source_refs (modulePath relative) data)"

fun walk :: "string list \<Rightarrow> string \<Rightarrow> node \<Rightarrow> codegen_error + functionRef list"
  and walk_entries :: "string list \<Rightarrow> (string \<times> node) list \<Rightarrow> codegen_error + functionRef list" where
  "walk names name (DirNode entries) =
     (if name \<in> set skipped_dirs then Inr []
      else case entries of None \<Rightarrow> Inl (ScanFailed (Join ''/'' names)) | Some es \<Rightarrow> walk_entries names es)"
| "walk names name (FileNode c) = visit_file names name (FileNode c)"
| "walk names name (LinkNode n) = visit_file names name (LinkNode n)"
| "walk_entries names [] = Inr []"
| "walk_entries names ((name, n) # es) =
     rbind (walk (names @ [name]) name n) (\<lambda>refs. rbind (walk_entries names es) (\<lambda>more. Inr (refs @ more)))"

text \<open>The loop that gives names to the sorted references and refuses a name that was given before.\<close>

fun name_refs :: "unicode \<Rightarrow> (string, functionRef) gomap \<Rightarrow> functionRef list \<Rightarrow> codegen_error + functionRef list" where
  "name_refs U seen [] = Inr []"
| "name_refs U seen (r # rs) =
     (let v = exportedVarName U (fr_ModulePath r) (fr_Name r);
          r = r\<lparr>fr_VarName := v\<rparr>
      in case mget seen v of
           Some previous \<Rightarrow>
             Inl (AmbiguousIdentifier v (fr_ModulePath previous) (fr_Name previous) (fr_ModulePath r) (fr_Name r))
         | None \<Rightarrow> rbind (name_refs U (mput v r seen) rs) (\<lambda>rest. Inr (r # rest)))"

text \<open>
  \<open>sort.Slice\<close> does not say how it orders elements with the same module and name; they get
  the same variable and so are refused in any order.
\<close>

definition ref_key :: "functionRef \<Rightarrow> string \<times> string" where
  "ref_key r = (fr_ModulePath r, fr_Name r)"

definition scanSourceDir :: "unicode \<Rightarrow> string \<Rightarrow> node \<Rightarrow> codegen_error + functionRef list" where
  "scanSourceDir U name root =
     rbind (walk [] name root) (\<lambda>refs. name_refs U [] (sort_key ref_key refs))"

section \<open>Printing\<close>

definition constructor :: "string \<Rightarrow> string" where
  "constructor kind =
     (if kind = ''query'' then ''NewQueryReference''
      else if kind = ''mutation'' then ''NewMutationReference''
      else if kind = ''action'' then ''NewActionReference''
      else [])"

definition hex_char :: "nat \<Rightarrow> char" where
  "hex_char n = ''0123456789abcdef'' ! (n mod 16)"

text \<open>\<open>n\<close> digits of a number, in base 16\<close>

fun hex_digits :: "nat \<Rightarrow> nat \<Rightarrow> string" where
  "hex_digits 0 v = []"
| "hex_digits (Suc n) v = hex_digits n (v div 16) @ [hex_char v]"

text \<open>The code point of a rune.\<close>

definition rune_value :: "string \<Rightarrow> nat" where
  "rune_value r =
     (case map of_char r of
        [a] \<Rightarrow> a
      | [a, b] \<Rightarrow> (a - 0xC0) * 64 + (b - 0x80)
      | [a, b, c] \<Rightarrow> ((a - 0xE0) * 64 + (b - 0x80)) * 64 + (c - 0x80)
      | [a, b, c, d] \<Rightarrow> (((a - 0xF0) * 64 + (b - 0x80)) * 64 + (c - 0x80)) * 64 + (d - 0x80)
      | _ \<Rightarrow> 0)"

text \<open>\<open>%q\<close>, that is \<open>strconv.Quote\<close>\<close>

definition quote_rune :: "unicode \<Rightarrow> string \<Rightarrow> string" where
  "quote_rune U r =
     (if utf8_first r = 0 then CHR 0x5C # CHR ''x'' # hex_digits 2 (of_char (hd r))
      else if r = [CHR 0x22] \<or> r = [CHR 0x5C] then CHR 0x5C # r
      else if (if ascii_rune r then CHR '' '' \<le> hd r \<and> hd r \<le> CHR ''~'' else u_print U r) then r
      else case List.find (\<lambda>p. r = [fst p]) (zip [CHR 0x07, CHR 0x08, CHR 0x0C, CHR 0x0A, CHR 0x0D, CHR 0x09, CHR 0x0B] ''abfnrtv'') of
             Some p \<Rightarrow> [CHR 0x5C, snd p]
           | None \<Rightarrow>
               if ascii_rune r then CHR 0x5C # CHR ''x'' # hex_digits 2 (of_char (hd r))
               else if rune_value r < 0x10000 then CHR 0x5C # CHR ''u'' # hex_digits 4 (rune_value r)
               else CHR 0x5C # CHR ''U'' # hex_digits 8 (rune_value r))"

definition Quote :: "unicode \<Rightarrow> string \<Rightarrow> string" where
  "Quote U s = [CHR 0x22] @ concat (map (quote_rune U) (runes s)) @ [CHR 0x22]"

definition render_ref :: "unicode \<Rightarrow> functionRef \<Rightarrow> string" where
  "render_ref U r =
     (let resultType = (if fr_ResultType r = [] then ''any'' else fr_ResultType r)
      in ''// '' @ fr_VarName r @ '' references Convex function '' @ fr_ModulePath r @ '':'' @ fr_Name r @ ''.'' @ [nl] @
         ''var '' @ fr_VarName r @ '' = convex.'' @ constructor (fr_Kind r) @ ''[map[string]any, '' @ resultType @ ''](''
           @ Quote U (fr_ModulePath r @ '':'' @ fr_Name r) @ '')'' @ [nl, nl])"

definition render :: "unicode \<Rightarrow> (string \<Rightarrow> string option) \<Rightarrow> string \<Rightarrow> string \<Rightarrow> functionRef list \<Rightarrow> codegen_error + string" where
  "render U format_source packageName importPath refs =
     (case format_source
         (''// Code generated by convex-go-codegen; DO NOT EDIT.'' @ [nl, nl] @
          ''package '' @ packageName @ [nl, nl] @ ''import convex '' @ Quote U importPath @ [nl, nl] @
          concat (map (render_ref U) refs)) of
        None \<Rightarrow> Inl FormatFailed
      | Some text \<Rightarrow> Inr text)"

text \<open>
  \<open>Generate\<close>; \<open>stat\<close> gives what is at the path of the source directory, with the last name of
  the path, or \<open>None\<close> if there is nothing.
\<close>

definition Generate ::
  "unicode \<Rightarrow> (string \<Rightarrow> string option) \<Rightarrow> (string \<Rightarrow> (string \<times> node) option) \<Rightarrow> Config \<Rightarrow> codegen_error + string" where
  "Generate U format_source stat config =
     (if TrimSpace (SourceDir config) = [] then Inl SourceDirRequired
      else if \<not> isGoIdentifier U (PackageName config) then Inl (InvalidPackageName (PackageName config))
      else if TrimSpace (ImportPath config) = [] then Inl ImportPathRequired
      else case stat (SourceDir config) of
             None \<Rightarrow> Inl SourceDirFailed
           | Some (name, n) \<Rightarrow>
               (case follow n of
                  DirNode _ \<Rightarrow>
                    rbind (scanSourceDir U name n) (render U format_source (PackageName config) (ImportPath config))
                | _ \<Rightarrow> Inl (NotADirectory (SourceDir config))))"

section \<open>Which functions are found\<close>

text \<open>The text of an export: what the two patterns accept, with what they capture.\<close>

definition spaces :: "string \<Rightarrow> bool" where
  "spaces s \<longleftrightarrow> list_all rx_space s"

definition annotation_text :: "string \<Rightarrow> bool" where
  "annotation_text a \<longleftrightarrow> a = [] \<or>
     (\<exists>s1 s2 type. a = s1 @ '':'' @ s2 @ type \<and> spaces s1 \<and> spaces s2 \<and> type \<noteq> [] \<and> CHR ''='' \<notin> set type)"

definition export_text :: "string \<Rightarrow> string \<Rightarrow> string \<Rightarrow> bool" where
  "export_text name callee w \<longleftrightarrow>
     (\<exists>s1 s2 annotation s3 s4 s5.
        w = ''export'' @ s1 @ ''const'' @ s2 @ name @ annotation @ s3 @ ''='' @ s4 @ callee @ s5 @ ''('' \<and>
        s1 \<noteq> [] \<and> spaces s1 \<and> s2 \<noteq> [] \<and> spaces s2 \<and> spaces s3 \<and> spaces s4 \<and> spaces s5 \<and>
        name \<noteq> [] \<and> ident_start (hd name) \<and> list_all ident_part (tl name) \<and> callee \<in> set callees \<and>
        annotation_text annotation)"

definition default_text :: "string \<Rightarrow> string \<Rightarrow> bool" where
  "default_text callee w \<longleftrightarrow>
     (\<exists>s1 s2 s3. w = ''export'' @ s1 @ ''default'' @ s2 @ callee @ s3 @ ''('' \<and>
        s1 \<noteq> [] \<and> spaces s1 \<and> s2 \<noteq> [] \<and> spaces s2 \<and> spaces s3 \<and> callee \<in> set callees)"

lemma caps_ROpt [simp]: "caps (ROpt r) = insert ([], []) (caps r)"
  by (auto simp: ROpt_def)

lemma caps_RSeq: "(x, c) \<in> caps (RSeq a b) \<longleftrightarrow> (\<exists>v d w e. x = v @ w \<and> c = d @ e \<and> (v, d) \<in> caps a \<and> (w, e) \<in> caps b)"
  by simp

lemma caps_RSeq_plain:
  assumes "\<And>v d. (v, d) \<in> caps a \<longleftrightarrow> P v \<and> d = []"
  shows "(x, c) \<in> caps (RSeq a b) \<longleftrightarrow> (\<exists>v w. x = v @ w \<and> P v \<and> (w, c) \<in> caps b)"
  by (auto simp: assms)

lemma caps_RSeq_lit: "(x, c) \<in> caps (RSeq (RLit s) b) \<longleftrightarrow> (\<exists>w. x = s @ w \<and> (w, c) \<in> caps b)"
  by auto

lemma caps_RSeq_many: "(x, c) \<in> caps (RSeq (RMany p) b) \<longleftrightarrow> (\<exists>v w. x = v @ w \<and> list_all p v \<and> (w, c) \<in> caps b)"
  by auto

lemma caps_RSeq_plus:
  "(x, c) \<in> caps (RSeq (RPlus p) b) \<longleftrightarrow> (\<exists>v w. x = v @ w \<and> v \<noteq> [] \<and> list_all p v \<and> (w, c) \<in> caps b)"
  by auto

lemma caps_RAlts_lit: "ss \<noteq> [] \<Longrightarrow> (w, c) \<in> caps (RAlts (map RLit ss)) \<longleftrightarrow> w \<in> set ss \<and> c = []"
proof (induction ss)
  case (Cons s ss)
  then show ?case by (cases ss) auto
qed simp

lemma caps_callee: "(w, c) \<in> caps (RSeq calleePattern b) \<longleftrightarrow>
    (\<exists>callee v d. w = callee @ v \<and> callee \<in> set callees \<and> c = callee # d \<and> (v, d) \<in> caps b)"
proof -
  have "callees \<noteq> []" by (simp add: callees_def)
  from caps_RAlts_lit [OF this] show ?thesis
    by (auto simp: calleePattern_def)
qed

lemma caps_name: "(w, c) \<in> caps (RSeq (RGroup (RSeq (RCls ident_start) (RMany ident_part))) b) \<longleftrightarrow>
    (\<exists>name v d. w = name @ v \<and> name \<noteq> [] \<and> ident_start (hd name) \<and> list_all ident_part (tl name) \<and>
       c = name # d \<and> (v, d) \<in> caps b)"
proof -
  have "(v, d) \<in> caps (RSeq (RCls ident_start) (RMany ident_part)) \<longleftrightarrow>
      v \<noteq> [] \<and> ident_start (hd v) \<and> list_all ident_part (tl v) \<and> d = []" for v d
    by (cases v) (auto intro: exI [of _ "[hd v]"])
  moreover have "(w, c) \<in> caps (RSeq (RGroup a) b) \<longleftrightarrow>
      (\<exists>name v d e. w = name @ v \<and> c = name # d @ e \<and> (name, d) \<in> caps a \<and> (v, e) \<in> caps b)" for a
    unfolding caps_RSeq caps.simps(7) mem_Collect_eq prod.inject by (metis append_Cons)
  ultimately show ?thesis
    by (simp only:) fastforce
qed

lemmas caps_patterns = RSeqs.simps caps_RSeq_lit caps_RSeq_many caps_RSeq_plus caps_callee caps_name

lemma caps_default: "(w, c) \<in> caps defaultFunctionPattern \<longleftrightarrow> (\<exists>callee. default_text callee w \<and> c = [callee])"
  unfolding defaultFunctionPattern_def default_text_def spaces_def caps_patterns caps_RLit singleton_iff prod.inject
  by (intro iffI; clarify; intro exI conjI; (rule refl | assumption)+)

lemma caps_annotation: "(x, c) \<in> caps annotationPattern \<longleftrightarrow> annotation_text x \<and> c = []"
proof -
  have all: "list_all (\<lambda>c. c \<noteq> CHR ''='') s \<longleftrightarrow> CHR ''='' \<notin> set s" for s
    by (auto simp: list_all_iff)
  have "(x, c) \<in> caps (RSeqs [RMany rx_space, RLit '':'', RMany rx_space, RPlus (\<lambda>c. c \<noteq> CHR ''='')]) \<longleftrightarrow>
      (\<exists>s1 s2 type. x = s1 @ '':'' @ s2 @ type \<and> spaces s1 \<and> spaces s2 \<and> type \<noteq> [] \<and> CHR ''='' \<notin> set type) \<and> c = []"
    unfolding caps_patterns caps_RPlus spaces_def mem_Collect_eq prod.inject all
    by (intro iffI; clarify; intro exI conjI; (rule refl | assumption)+)
  then show ?thesis
    unfolding annotationPattern_def caps_ROpt annotation_text_def by blast
qed

lemma caps_exported: "(w, c) \<in> caps exportedFunctionPattern \<longleftrightarrow>
    (\<exists>name callee. export_text name callee w \<and> c = [name, callee])"
  unfolding exportedFunctionPattern_def export_text_def caps_patterns
    caps_RSeq_plain [of annotationPattern, OF caps_annotation] caps_RLit singleton_iff prod.inject spaces_def
  by (intro iffI; clarify; intro exI conjI; (rule refl | assumption)+)

end
