(* ===== verification/Go_Flag.thy ===== *)
theory Go_Flag
  imports Go_Strings
begin

text \<open>
  Command lines as Go's \<open>flag\<close> package reads them: \<open>-name\<close>, \<open>-name=value\<close> or \<open>-name value\<close>, with
  one or two dashes, up to the first argument that is not a flag or is \<open>--\<close>.
\<close>

text \<open>A checked flag has a text that must be well-formed, such as a number.\<close>

datatype flag_kind = StringFlag | BoolFlag | CheckedFlag "string \<Rightarrow> bool"

datatype flag_error = BadSyntax string | Undefined string | HelpWanted | NeedsArgument string | InvalidValue string string

definition ParseBool :: "string \<Rightarrow> bool option" where
  "ParseBool s =
     (if s \<in> set [''1'', ''t'', ''T'', ''TRUE'', ''true'', ''True''] then Some True
      else if s \<in> set [''0'', ''f'', ''F'', ''FALSE'', ''false'', ''False''] then Some False
      else None)"

text \<open>The flags that are set, in the order of the command line, with their texts.\<close>

function parse_flags :: "(string \<Rightarrow> flag_kind option) \<Rightarrow> string list \<Rightarrow> flag_error + (string \<times> string) list" where
  "parse_flags kinds [] = Inr []"
| "parse_flags kinds (s # args) =
     (if length s < 2 \<or> hd s \<noteq> CHR ''-'' \<or> s = ''--'' then Inr []
      else
        let name = (if s ! 1 = CHR ''-'' then drop 2 s else drop 1 s)
        in if name = [] \<or> hd name = CHR ''-'' \<or> hd name = CHR ''='' then Inl (BadSyntax s)
           else case Cut (CHR ''='') name of
             (name, val, hasValue) \<Rightarrow>
               (case kinds name of
                  None \<Rightarrow> Inl (if name = ''help'' \<or> name = ''h'' then HelpWanted else Undefined name)
                | Some BoolFlag \<Rightarrow>
                    if hasValue \<and> ParseBool val = None then Inl (InvalidValue name val)
                    else rbind (parse_flags kinds args) (\<lambda>fs. Inr ((name, if hasValue then val else ''true'') # fs))
                | Some StringFlag \<Rightarrow>
                    if hasValue then rbind (parse_flags kinds args) (\<lambda>fs. Inr ((name, val) # fs))
                    else (case args of
                            [] \<Rightarrow> Inl (NeedsArgument name)
                          | v # args \<Rightarrow> rbind (parse_flags kinds args) (\<lambda>fs. Inr ((name, v) # fs)))
                | Some (CheckedFlag ok) \<Rightarrow>
                    if hasValue then
                      (if ok val then rbind (parse_flags kinds args) (\<lambda>fs. Inr ((name, val) # fs)) else Inl (InvalidValue name val))
                    else (case args of
                            [] \<Rightarrow> Inl (NeedsArgument name)
                          | v # args \<Rightarrow>
                              if ok v then rbind (parse_flags kinds args) (\<lambda>fs. Inr ((name, v) # fs)) else Inl (InvalidValue name v))))"
  by pat_completeness auto
termination
  by (relation "measure (\<lambda>(kinds, args). length args)") auto

text \<open>The value of a variable that the flags with one of the names set: the last one wins.\<close>

definition flag_value :: "string list \<Rightarrow> string \<Rightarrow> (string \<times> string) list \<Rightarrow> string" where
  "flag_value names def fs = fold (\<lambda>(n, v) old. if n \<in> set names then v else old) fs def"

definition flag_set :: "string \<Rightarrow> (string \<times> string) list \<Rightarrow> bool" where
  "flag_set name fs = fold (\<lambda>(n, v) old. if n = name then ParseBool v = Some True else old) fs False"

lemma flag_value_other: "(\<And>n v. (n, v) \<in> set fs \<Longrightarrow> n \<notin> set names) \<Longrightarrow> flag_value names def fs = def"
  unfolding flag_value_def by (induction fs arbitrary: def) (auto split: prod.splits)

lemma flag_value_Cons: "n \<notin> set names \<Longrightarrow> flag_value names def ((n, v) # fs) = flag_value names def fs"
  by (simp add: flag_value_def)

lemma flag_set_Cons: "n \<noteq> name \<Longrightarrow> flag_set name ((n, v) # fs) = flag_set name fs"
  by (simp add: flag_set_def)

lemma fold_flag_set: "name \<notin> fst ` set fs \<Longrightarrow>
    fold (\<lambda>(n, v) old. if n = name then ParseBool v = Some True else old) fs b = b"
  by (induction fs arbitrary: b) force+

lemma flag_set_own: "name \<notin> fst ` set fs \<Longrightarrow> flag_set name ((name, v) # fs) = (ParseBool v = Some True)"
  by (simp add: flag_set_def fold_flag_set)

lemma flag_set_unset: "name \<notin> fst ` set fs \<Longrightarrow> \<not> flag_set name fs"
  by (simp add: flag_set_def fold_flag_set)

end
