(* ===== verification/Codegen_Main.thy ===== *)
theory Codegen_Main
  imports Codegen_Generate Go_Flag
begin

text \<open>
  The command \<open>convex-go-codegen\<close> (\<open>src/cmd/convex-go-codegen/main.go\<close>): its flags and what it
  does with the generated file. The directories it scans, and whether a directory or a
  file can be made, are the environment; the files it has written are the state. The
  source directory does not change while it runs, and its output, a Go file, is not one of
  the source files.
\<close>

definition defaultImportPath :: string where
  "defaultImportPath = ''github.com/cervantesh/convex-go''"

record codegen_env =
  ce_unicode :: unicode
  ce_format :: "string \<Rightarrow> string option"
  ce_stat :: "string \<Rightarrow> (string \<times> node) option"
  ce_mkdir :: "string \<Rightarrow> bool"
  ce_write :: "string \<Rightarrow> bool"
  ce_stdout :: bool

type_synonym files = "(string, string) gomap"

text \<open>The error the command returns, what it wrote to the standard output, and the files.\<close>

record codegen_run =
  cr_err :: "codegen_error option"
  cr_reported :: "codegen_error list"
  cr_stdout :: string
  cr_files :: files

definition codegen_flags :: "string \<Rightarrow> flag_kind option" where
  "codegen_flags name =
     (if name \<in> set [''convex-dir'', ''src'', ''package'', ''import'', ''convex-import'', ''out''] then Some StringFlag
      else if name \<in> set [''dry-run'', ''check''] then Some BoolFlag
      else None)"

definition codegen_config :: "(string \<times> string) list \<Rightarrow> Config" where
  "codegen_config fs =
     \<lparr>SourceDir = flag_value [''convex-dir'', ''src''] ''convex'' fs,
      PackageName = flag_value [''package''] ''convexapi'' fs,
      ImportPath = flag_value [''import'', ''convex-import''] defaultImportPath fs\<rparr>"

definition flag_failure :: "flag_error \<Rightarrow> codegen_error" where
  "flag_failure e =
     (case e of
        BadSyntax s \<Rightarrow> FlagError s
      | Undefined s \<Rightarrow> FlagError s
      | HelpWanted \<Rightarrow> HelpRequested
      | NeedsArgument s \<Rightarrow> FlagError s
      | InvalidValue s _ \<Rightarrow> FlagError s)"

text \<open>\<open>reportError\<close> and the return of the error; a panic is not reported but ends the command.\<close>

definition failed :: "codegen_error \<Rightarrow> files \<Rightarrow> codegen_run" where
  "failed e files = \<lparr>cr_err = Some e, cr_reported = (if e = SliceOutOfRange then [] else [e]), cr_stdout = [], cr_files = files\<rparr>"

definition runWithIO :: "codegen_env \<Rightarrow> string list \<Rightarrow> files \<Rightarrow> codegen_run" where
  "runWithIO env args files =
     (case parse_flags codegen_flags args of
        Inl e \<Rightarrow> \<lparr>cr_err = Some (flag_failure e), cr_reported = [], cr_stdout = [], cr_files = files\<rparr>
      | Inr fs \<Rightarrow>
          let outPath = flag_value [''out''] [] fs
          in case Generate (ce_unicode env) (ce_format env) (ce_stat env) (codegen_config fs) of
               Inl e \<Rightarrow> failed e files
             | Inr generated \<Rightarrow>
                 if flag_set ''dry-run'' fs
                 then \<lparr>cr_err = (if ce_stdout env then None else Some (OutFailed [])), cr_reported = [],
                       cr_stdout = (if ce_stdout env then generated else []), cr_files = files\<rparr>
                 else if outPath = [] then failed OutRequired files
                 else if flag_set ''check'' fs then
                   (case mget files outPath of
                      None \<Rightarrow> failed (OutUnreadable outPath) files
                    | Some current \<Rightarrow>
                        if current \<noteq> generated then failed (OutDiffers outPath) files
                        else \<lparr>cr_err = None, cr_reported = [], cr_stdout = [], cr_files = files\<rparr>)
                 else if \<not> ce_mkdir env outPath then failed (OutFailed outPath) files
                 else if \<not> ce_write env outPath then failed (OutFailed outPath) files
                 else \<lparr>cr_err = None, cr_reported = [], cr_stdout = [], cr_files = mput outPath generated files\<rparr>)"

end
