(* ===== verification/Codegen_Properties.thy ===== *)
theory Codegen_Properties
  imports Codegen_Main
begin

text \<open>
  The properties of the code generator: which functions it finds, what it names them, what
  its command does with files, and where it goes wrong.
\<close>

section \<open>Lemmas\<close>

lemma rmap_Inr_mem: "rmap f xs = Inr ys \<Longrightarrow> y \<in> set ys \<Longrightarrow> \<exists>x \<in> set xs. f x = Inr y"
  by (induction xs arbitrary: ys) (auto simp: res_simps)

lemma rmap_Inr_length: "rmap f xs = Inr ys \<Longrightarrow> length ys = length xs"
  by (induction xs arbitrary: ys) (auto simp: res_simps)

lemma found_ref_Inr:
  "found_ref m d s n k rest = Inr r \<Longrightarrow>
     fr_ModulePath r = m \<and> fr_Name r = n \<and> fr_Kind r = refKind k \<and> fr_ResultType r \<in> set result_types"
  by (auto simp: found_ref_def dest: inferResultType_types split: option.splits)

text \<open>Where an export is in a text.\<close>

definition exported_at :: "string \<Rightarrow> string \<Rightarrow> string \<Rightarrow> bool" where
  "exported_at s name callee \<longleftrightarrow>
     (\<exists>v w rest. s = v @ w @ rest \<and> (export_text name callee w \<or> name = ''default'' \<and> default_text callee w))"

lemma exported_at_named: "export_text name callee w \<Longrightarrow> exported_at (v @ w @ rest) name callee"
  unfolding exported_at_def by blast

lemma exported_at_default: "default_text callee w \<Longrightarrow> exported_at (v @ w @ rest) ''default'' callee"
  unfolding exported_at_def by blast

lemma find_exported:
  "(t, rest, c) \<in> set (find_all exportedFunctionPattern s) \<Longrightarrow> exported_at s (c ! 0) (c ! 1)"
  using find_all_sound [of t rest c exportedFunctionPattern s] by (auto simp: caps_exported intro: exported_at_named)

lemma find_default:
  "(t, rest, c) \<in> set (find_all defaultFunctionPattern s) \<Longrightarrow> exported_at s ''default'' (c ! 0)"
  using find_all_sound [of t rest c defaultFunctionPattern s] by (auto simp: caps_default intro: exported_at_default)

lemma find_none:
  "find_all exportedFunctionPattern s = [] \<and> find_all defaultFunctionPattern s = [] \<longleftrightarrow>
     \<not> (\<exists>name callee. exported_at s name callee)"
proof -
  have l: "w \<in> lang exportedFunctionPattern \<longleftrightarrow> (\<exists>name callee. export_text name callee w)"
      "w \<in> lang defaultFunctionPattern \<longleftrightarrow> (\<exists>callee. default_text callee w)" for w
    by (auto simp: lang_caps caps_exported caps_default)
  have split: "\<not> (\<exists>v w r. s = v @ w @ r \<and> (\<exists>n k. E n k w)) \<and> \<not> (\<exists>v w r. s = v @ w @ r \<and> (\<exists>k. D k w)) \<longleftrightarrow>
      \<not> (\<exists>n k v w r. s = v @ w @ r \<and> (E n k w \<or> n = dflt \<and> D k w))"
    for E and D and dflt :: string
    by blast
  show ?thesis
    unfolding find_all_Nil l exported_at_def by (rule split)
qed

lemma source_refs_sound:
  assumes "source_refs m d = Inr refs" "r \<in> set refs"
  shows "fr_ModulePath r = m \<and> fr_ResultType r \<in> set result_types \<and>
    (\<exists>callee. fr_Kind r = refKind callee \<and> exported_at (stripCommentsAndStrings d) (fr_Name r) callee)"
proof -
  define s where "s = stripCommentsAndStrings d"
  from assms(1) obtain named defaults where
      n: "rmap (\<lambda>(_, rest, groups). found_ref m d s (groups ! 0) (groups ! 1) rest) (find_all exportedFunctionPattern s) = Inr named"
    and f: "rmap (\<lambda>(_, rest, groups). found_ref m d s ''default'' (groups ! 0) rest) (find_all defaultFunctionPattern s) = Inr defaults"
    and r: "refs = named @ defaults"
    by (auto simp: source_refs_def Let_def s_def res_simps)
  from assms(2) r have "r \<in> set named \<or> r \<in> set defaults" by simp
  then show ?thesis
  proof
    assume "r \<in> set named"
    from rmap_Inr_mem [OF n this] obtain t rest c where "(t, rest, c) \<in> set (find_all exportedFunctionPattern s)"
        "found_ref m d s (c ! 0) (c ! 1) rest = Inr r" by auto
    with find_exported [of t rest c s] found_ref_Inr [of m d s] show ?thesis unfolding s_def by metis
  next
    assume "r \<in> set defaults"
    from rmap_Inr_mem [OF f this] obtain t rest c where "(t, rest, c) \<in> set (find_all defaultFunctionPattern s)"
        "found_ref m d s ''default'' (c ! 0) rest = Inr r" by auto
    with find_default [of t rest c s] found_ref_Inr [of m d s] show ?thesis unfolding s_def by metis
  qed
qed

lemma source_refs_none:
  assumes "source_refs m d = Inr refs"
  shows "refs = [] \<longleftrightarrow> \<not> (\<exists>name callee. exported_at (stripCommentsAndStrings d) name callee)"
proof -
  have "refs = [] \<longleftrightarrow> find_all exportedFunctionPattern (stripCommentsAndStrings d) = [] \<and>
      find_all defaultFunctionPattern (stripCommentsAndStrings d) = []"
    using assms by (auto simp: source_refs_def Let_def res_simps dest: rmap_Inr_length)
  then show ?thesis by (simp only: find_none)
qed

section \<open>The files of a directory\<close>

text \<open>The files below a node that are not in a skipped directory, with their paths and contents.\<close>

inductive has_file :: "string list \<Rightarrow> string \<Rightarrow> node \<Rightarrow> string list \<Rightarrow> string \<Rightarrow> bool" where
  plain: "has_file names name (FileNode (Some data)) names data"
| linked: "read_file n = Some data \<Longrightarrow> has_file names name (LinkNode n) names data"
| below: "name \<notin> set skipped_dirs \<Longrightarrow> (entry, n) \<in> set es \<Longrightarrow> has_file (names @ [entry]) entry n path data \<Longrightarrow>
    has_file names name (DirNode (Some es)) path data"

inductive_cases has_fileE:
  "has_file names name (FileNode c) path data"
  "has_file names name (LinkNode n) path data"
  "has_file names name (DirNode es) path data"

lemma has_file_prefix: "has_file names name n path data \<Longrightarrow> \<exists>q. path = names @ q"
  by (induction rule: has_file.induct) auto

lemma walk_entries_mem:
  "walk_entries names es = Inr refs \<Longrightarrow>
     (r \<in> set refs \<longleftrightarrow> (\<exists>entry n rs. (entry, n) \<in> set es \<and> walk (names @ [entry]) entry n = Inr rs \<and> r \<in> set rs))"
proof (induction es arbitrary: refs)
  case (Cons e es)
  obtain entry n where e: "e = (entry, n)" by (cases e)
  from Cons.prems e obtain rs more where
      rs: "walk (names @ [entry]) entry n = Inr rs" "walk_entries names es = Inr more" "refs = rs @ more"
    by (auto simp: res_simps)
  from Cons.IH [OF rs(2)] rs(1,3) e show ?case by auto
qed simp

lemma walk_entries_Inr:
  "walk_entries names es = Inr refs \<Longrightarrow> (entry, n) \<in> set es \<Longrightarrow> \<exists>rs. walk (names @ [entry]) entry n = Inr rs"
  by (induction es arbitrary: refs) (auto simp: res_simps)

text \<open>The path of a file that is not the root itself.\<close>

definition file_refs :: "string list \<Rightarrow> string \<Rightarrow> codegen_error + functionRef list" where
  "file_refs path data = source_refs (modulePath (Join ''/'' path)) data"

lemma visit_file_Inr:
  assumes "visit_file path name n = Inr refs" "path \<noteq> []" "r \<in> set refs"
  shows "isSourceFile name \<and> (\<exists>data. read_file n = Some data \<and> file_refs path data = Inr refs)"
  using assms by (auto simp: visit_file_def file_refs_def Let_def split: if_splits option.splits)

lemma walk_sound:
  "walk path name n = Inr refs \<Longrightarrow> path \<noteq> [] \<Longrightarrow> name = last path \<Longrightarrow> r \<in> set refs \<Longrightarrow>
     \<exists>p data rs. has_file path name n p data \<and> p \<noteq> [] \<and> isSourceFile (last p) \<and> file_refs p data = Inr rs \<and> r \<in> set rs"
proof (induction n arbitrary: path name refs)
  case (FileNode c)
  from visit_file_Inr [of path name "FileNode c" refs r] FileNode obtain data where
      "isSourceFile name" "c = Some data" "file_refs path data = Inr refs"
    by (auto simp: read_file_def)
  with FileNode show ?case by (metis has_file.plain)
next
  case (LinkNode n)
  from visit_file_Inr [of path name "LinkNode n" refs r] LinkNode obtain data where
      "isSourceFile name" "read_file n = Some data" "file_refs path data = Inr refs"
    by (auto simp: read_file_def)
  with LinkNode show ?case by (metis has_file.linked)
next
  case (DirNode es)
  from DirNode.prems obtain entries where es: "name \<notin> set skipped_dirs" "es = Some entries"
      "walk_entries path entries = Inr refs"
    by (auto split: if_splits option.splits)
  from walk_entries_mem [OF es(3), of r] DirNode.prems(4) obtain entry n rs where
      e: "(entry, n) \<in> set entries" "walk (path @ [entry]) entry n = Inr rs" "r \<in> set rs"
    by blast
  have "\<exists>p data rs. has_file (path @ [entry]) entry n p data \<and> p \<noteq> [] \<and> isSourceFile (last p) \<and>
      file_refs p data = Inr rs \<and> r \<in> set rs"
    by (rule DirNode.IH [OF _ e(1) _ e(2) _ _ e(3)]) (use es e in \<open>auto\<close>)
  with es e show ?case by (metis has_file.below)
qed

lemma walk_complete:
  "has_file path name n p data \<Longrightarrow> walk path name n = Inr refs \<Longrightarrow> path \<noteq> [] \<Longrightarrow> name = last path \<Longrightarrow> isSourceFile (last p) \<Longrightarrow>
     \<exists>rs. file_refs p data = Inr rs \<and> set rs \<subseteq> set refs"
proof (induction arbitrary: refs rule: has_file.induct)
  case (below name entry n es names path data)
  then have w: "walk_entries names es = Inr refs" by simp
  from walk_entries_Inr [OF w below.hyps(2)] obtain rs where rs: "walk (names @ [entry]) entry n = Inr rs" by blast
  from below.IH [OF this] below.prems obtain fs where "file_refs path data = Inr fs" "set fs \<subseteq> set rs" by auto
  with walk_entries_mem [OF w] rs below.hyps(2) show ?case by blast
qed (auto simp: visit_file_def file_refs_def read_file_def Let_def)

section \<open>Names\<close>

lemma name_refs_Inr:
  "name_refs U seen rs = Inr out \<Longrightarrow>
     out = map (\<lambda>r. r\<lparr>fr_VarName := exportedVarName U (fr_ModulePath r) (fr_Name r)\<rparr>) rs \<and>
     distinct (map fr_VarName out) \<and> (\<forall>r \<in> set out. mget seen (fr_VarName r) = None)"
proof (induction rs arbitrary: seen out)
  case (Cons r rs)
  let ?v = "exportedVarName U (fr_ModulePath r) (fr_Name r)"
  from Cons.prems obtain rest where new: "mget seen ?v = None"
      and rest: "name_refs U (mput ?v (r\<lparr>fr_VarName := ?v\<rparr>) seen) rs = Inr rest"
      and out: "out = r\<lparr>fr_VarName := ?v\<rparr> # rest"
    by (auto simp: Let_def res_simps split: option.splits)
  from Cons.IH [OF rest] have "\<forall>x \<in> set rest. fr_VarName x \<noteq> ?v \<and> mget seen (fr_VarName x) = None"
    by (fastforce split: if_splits)
  with Cons.IH [OF rest] new out show ?case by auto
qed simp

lemma scan_Inr:
  assumes "scanSourceDir U name root = Inr refs"
  obtains found where "walk [] name root = Inr found"
    "refs = map (\<lambda>r. r\<lparr>fr_VarName := exportedVarName U (fr_ModulePath r) (fr_Name r)\<rparr>) (sort_key ref_key found)"
    "distinct (map fr_VarName refs)"
proof -
  from assms obtain found where "walk [] name root = Inr found" "name_refs U [] (sort_key ref_key found) = Inr refs"
    by (auto simp: scanSourceDir_def res_simps)
  with name_refs_Inr [of U "[]" _ refs] that show ?thesis by blast
qed

lemma ref_key_named: "ref_key (r\<lparr>fr_VarName := v\<rparr>) = ref_key r"
  by (simp add: ref_key_def)

lemma refKind_constructor: "callee \<in> set callees \<Longrightarrow> constructor (refKind callee) \<noteq> []"
  by (auto simp: callees_def refKind_def constructor_def)

lemma exported_at_callee: "exported_at s name callee \<Longrightarrow> callee \<in> set callees"
  unfolding exported_at_def export_text_def default_text_def by blast

lemma scan_ref:
  assumes scan: "scanSourceDir U name (DirNode es) = Inr refs" and r: "r \<in> set refs"
  shows "fr_VarName r = exportedVarName U (fr_ModulePath r) (fr_Name r) \<and> fr_ResultType r \<in> set result_types \<and>
    (\<exists>path data callee. has_file [] name (DirNode es) path data \<and> isSourceFile (last path) \<and>
       fr_ModulePath r = modulePath (Join ''/'' path) \<and> fr_Kind r = refKind callee \<and>
       exported_at (stripCommentsAndStrings data) (fr_Name r) callee)"
proof -
  from scan_Inr [OF scan] obtain found where w: "walk [] name (DirNode es) = Inr found"
      and out: "refs = map (\<lambda>r. r\<lparr>fr_VarName := exportedVarName U (fr_ModulePath r) (fr_Name r)\<rparr>) (sort_key ref_key found)"
    by blast
  from r out obtain q where q: "q \<in> set found"
      and rq: "r = q\<lparr>fr_VarName := exportedVarName U (fr_ModulePath q) (fr_Name q)\<rparr>"
    by auto
  from w q obtain entries where e: "name \<notin> set skipped_dirs" "es = Some entries" "walk_entries [] entries = Inr found"
    by (auto split: if_splits option.splits)
  from walk_entries_mem [OF e(3), of q] q obtain entry n rs where
      n: "(entry, n) \<in> set entries" "walk [entry] entry n = Inr rs" "q \<in> set rs"
    by auto
  from walk_sound [OF n(2) _ _ n(3)] obtain p data fs where p: "has_file [entry] entry n p data" "isSourceFile (last p)"
      "file_refs p data = Inr fs" "q \<in> set fs"
    by auto
  from has_file.below [OF e(1) n(1), of "[]" p data] p(1) e(2) have "has_file [] name (DirNode es) p data" by simp
  with p source_refs_sound [OF p(3) [unfolded file_refs_def] p(4)] rq show ?thesis by auto
qed

lemma scan_complete:
  assumes scan: "scanSourceDir U name (DirNode es) = Inr refs" and f: "has_file [] name (DirNode es) path data"
    and s: "isSourceFile (last path)" and x: "exported_at (stripCommentsAndStrings data) function callee"
  shows "\<exists>r \<in> set refs. fr_ModulePath r = modulePath (Join ''/'' path)"
proof -
  from scan_Inr [OF scan] obtain found where w: "walk [] name (DirNode es) = Inr found"
      and out: "refs = map (\<lambda>r. r\<lparr>fr_VarName := exportedVarName U (fr_ModulePath r) (fr_Name r)\<rparr>) (sort_key ref_key found)"
    by blast
  from f obtain entries entry n where e: "name \<notin> set skipped_dirs" "es = Some entries" "(entry, n) \<in> set entries"
      "has_file [entry] entry n path data"
    by (auto elim: has_fileE)
  with w have we: "walk_entries [] entries = Inr found" by simp
  from walk_entries_Inr [OF this e(3)] obtain rs where rs: "walk [entry] entry n = Inr rs" by auto
  from walk_complete [OF e(4) rs _ _ s] obtain fs where fs: "file_refs path data = Inr fs" "set fs \<subseteq> set rs" by auto
  have "fs \<noteq> []"
    using source_refs_none [OF fs(1) [unfolded file_refs_def]] x by blast
  then obtain q where q: "q \<in> set fs" by (cases fs) auto
  have "q \<in> set found"
    using walk_entries_mem [OF we, of q] e(3) rs fs(2) q unfolding append_Nil by blast
  with source_refs_sound [OF fs(1) [unfolded file_refs_def] q] out show ?thesis by auto
qed

section \<open>Properties\<close>

text \<open>
  C24: the exported functions of a directory are found. Every reference comes from an export
  statement in the code (not in a comment or a string) of a source file that is not in a
  skipped directory, with its module, name and kind; and every such file that has an export
  statement gives a reference.
\<close>

theorem references_found:
  assumes "scanSourceDir U name (DirNode es) = Inr refs"
  shows "(\<forall>r \<in> set refs. \<exists>path data callee. has_file [] name (DirNode es) path data \<and> isSourceFile (last path) \<and>
       fr_ModulePath r = modulePath (Join ''/'' path) \<and> fr_Kind r = refKind callee \<and>
       exported_at (stripCommentsAndStrings data) (fr_Name r) callee) \<and>
    (\<forall>path data function callee. has_file [] name (DirNode es) path data \<and> isSourceFile (last path) \<and>
       exported_at (stripCommentsAndStrings data) function callee \<longrightarrow>
       (\<exists>r \<in> set refs. fr_ModulePath r = modulePath (Join ''/'' path)))"
  using scan_ref [OF assms] scan_complete [OF assms] by blast

text \<open>
  C25: what is generated is well named. The references are in ascending order of module and
  name, no two have the same variable, every variable is a Go identifier, every constructor
  exists and every result type is one of those that are inferred.
\<close>

theorem generated_names:
  assumes "unicode_ok U" and "scanSourceDir U name (DirNode es) = Inr refs"
  shows "sorted (map ref_key refs) \<and> distinct (map fr_VarName refs) \<and>
    (\<forall>r \<in> set refs. isGoIdentifier U (fr_VarName r) \<and> constructor (fr_Kind r) \<noteq> [] \<and> fr_ResultType r \<in> set result_types)"
proof -
  from scan_Inr [OF assms(2)] obtain found where
      refs: "refs = map (\<lambda>r. r\<lparr>fr_VarName := exportedVarName U (fr_ModulePath r) (fr_Name r)\<rparr>) (sort_key ref_key found)"
      and d: "distinct (map fr_VarName refs)"
    by blast
  have "map ref_key refs = map ref_key (sort_key ref_key found)"
    by (simp add: refs ref_key_named)
  then have "sorted (map ref_key refs)" by simp
  moreover have "isGoIdentifier U (fr_VarName r) \<and> constructor (fr_Kind r) \<noteq> [] \<and> fr_ResultType r \<in> set result_types"
    if "r \<in> set refs" for r
    using scan_ref [OF assms(2) that] exportedVarName_identifier [OF assms(1)] refKind_constructor exported_at_callee
    by metis
  ultimately show ?thesis using d by blast
qed

text \<open>A project, and tables that know no letters beyond ASCII.\<close>

definition ascii_unicode :: unicode where
  "ascii_unicode = \<lparr>u_letter = (\<lambda>_. False), u_digit = (\<lambda>_. False), u_upper = (\<lambda>r. r), u_print = (\<lambda>_. False)\<rparr>"

definition sample_entries :: "(string \<times> node) list" where
  "sample_entries =
     [(''_generated'', DirNode None),
      (''jobs.ts'', FileNode (Some ''export default action(f)'')),
      (''notes.md'', FileNode None),
      (''tasks'', DirNode (Some [(''list.ts'', FileNode (Some ''export const all: T = query({handler: () => [1]}) // export const no = query(''))]))]"

definition sample_project :: node where
  "sample_project = DirNode (Some sample_entries)"

lemma sample_scan:
  "case scanSourceDir ascii_unicode ''convex'' sample_project of
     Inl _ \<Rightarrow> False
   | Inr refs \<Rightarrow> refs =
       [\<lparr>fr_ModulePath = ''jobs'', fr_Name = ''default'', fr_Kind = ''action'', fr_VarName = ''JobsDefault'', fr_ResultType = []\<rparr>,
        \<lparr>fr_ModulePath = ''tasks/list'', fr_Name = ''all'', fr_Kind = ''query'', fr_VarName = ''TasksListAll'', fr_ResultType = ''[]any''\<rparr>]"
  by code_simp

lemma ascii_unicode_ok: "unicode_ok ascii_unicode"
proof -
  have "one_rune (ToUpper ascii_unicode r) \<and> IsLetter ascii_unicode (ToUpper ascii_unicode r)"
    if "IsLetter ascii_unicode r" for r
  proof -
    from that have a: "ascii_rune r" "ascii_letter (hd r)"
      by (auto simp: IsLetter_def ascii_unicode_def split: if_splits)
    have "of_char (ascii_upper c) \<le> (127 :: nat) \<and> of_char (ascii_upper c) < (128 :: nat) \<and> ascii_letter (ascii_upper c)" if "ascii_letter c" for c
      using that by (auto simp: ascii_letter_def ascii_upper_def in_range_def)
    with a show ?thesis
      by (simp add: ToUpper_def IsLetter_def ascii_rune_def one_rune_def utf8_first_def in_range_def)
  qed
  then show ?thesis by (simp add: unicode_ok_def)
qed

theorem references_found_witness:
  "\<exists>refs. scanSourceDir ascii_unicode ''convex'' sample_project = Inr refs \<and> length refs = 2 \<and>
     (\<forall>r \<in> set refs. \<exists>path data callee. has_file [] ''convex'' sample_project path data \<and>
        exported_at (stripCommentsAndStrings data) (fr_Name r) callee)"
proof -
  obtain refs where refs: "scanSourceDir ascii_unicode ''convex'' sample_project = Inr refs" "length refs = 2"
    using sample_scan by (auto split: sum.splits)
  have "\<forall>r \<in> set refs. \<exists>path data callee. has_file [] ''convex'' sample_project path data \<and>
      exported_at (stripCommentsAndStrings data) (fr_Name r) callee"
    using references_found [OF refs(1) [unfolded sample_project_def]] unfolding sample_project_def by meson
  with refs show ?thesis by blast
qed

theorem generated_names_witness:
  "\<exists>refs. scanSourceDir ascii_unicode ''convex'' sample_project = Inr refs \<and> length refs = 2 \<and>
     distinct (map fr_VarName refs)"
proof -
  obtain refs where refs: "scanSourceDir ascii_unicode ''convex'' sample_project = Inr refs" "length refs = 2"
    using sample_scan by (auto split: sum.splits)
  with generated_names [OF ascii_unicode_ok refs(1) [unfolded sample_project_def]] show ?thesis by blast
qed

text \<open>
  C26: \<open>-check\<close> tells whether the output file is up to date. After a run of the command that
  wrote its output, the same command with \<open>-check\<close> in front succeeds on a file system
  exactly if the output file has the content that was written, and changes nothing.
\<close>

theorem check_tells_up_to_date:
  assumes "parse_flags codegen_flags args = Inr fs" and "''check'' \<notin> fst ` set fs" and "''dry-run'' \<notin> fst ` set fs"
    and "cr_err (runWithIO env args files) = None"
  shows "(cr_err (runWithIO env (''-check'' # args) other) = None \<longleftrightarrow>
      mget other (flag_value [''out''] [] fs) = mget (cr_files (runWithIO env args files)) (flag_value [''out''] [] fs)) \<and>
    cr_files (runWithIO env (''-check'' # args) other) = other"
proof -
  let ?out = "flag_value [''out''] [] fs"
  have parse: "parse_flags codegen_flags (''-check'' # args) = Inr ((''check'', ''true'') # fs)"
    using assms(1) by (simp add: codegen_flags_def)
  have config: "codegen_config ((''check'', ''true'') # fs) = codegen_config fs"
    by (simp add: codegen_config_def flag_value_Cons)
  have flags: "flag_set ''check'' ((''check'', ''true'') # fs)" "\<not> flag_set ''dry-run'' ((''check'', ''true'') # fs)"
      "\<not> flag_set ''check'' fs" "\<not> flag_set ''dry-run'' fs" "flag_value [''out''] [] ((''check'', ''true'') # fs) = ?out"
    using assms(2,3) by (simp_all add: flag_set_own flag_set_Cons flag_set_unset flag_value_Cons ParseBool_def)
  from assms(1,4) flags obtain generated where
      g: "Generate (ce_unicode env) (ce_format env) (ce_stat env) (codegen_config fs) = Inr generated"
      "?out \<noteq> []" "cr_files (runWithIO env args files) = mput ?out generated files"
    by (auto simp: runWithIO_def failed_def Let_def split: sum.splits if_splits)
  have run: "runWithIO env (''-check'' # args) other =
      (case mget other ?out of
         None \<Rightarrow> failed (OutUnreadable ?out) other
       | Some current \<Rightarrow> if current \<noteq> generated then failed (OutDiffers ?out) other
           else \<lparr>cr_err = None, cr_reported = [], cr_stdout = [], cr_files = other\<rparr>)"
    unfolding runWithIO_def parse sum.case Let_def config flags(5) g(1) using flags(1,2) g(2) by simp
  show ?thesis
    unfolding run g(3) by (auto simp: failed_def split: option.splits)
qed

text \<open>
  A project with one handler that has a comment between the arrow and its body.
\<close>

definition commented_project :: node where
  "commented_project = DirNode (Some [(''f.ts'', FileNode (Some commented_source))])"

definition sample_env :: codegen_env where
  "sample_env = \<lparr>ce_unicode = ascii_unicode, ce_format = Some, ce_stat = (\<lambda>_. Some (''convex'', sample_project)),
     ce_mkdir = (\<lambda>_. True), ce_write = (\<lambda>_. True), ce_stdout = True\<rparr>"

theorem check_tells_up_to_date_witness:
  "cr_err (runWithIO sample_env (''-check'' # [''-out'', ''api.go'']) [(''api.go'', ''stale'')]) \<noteq> None"
proof -
  have p: "parse_flags codegen_flags [''-out'', ''api.go''] = Inr [(''out'', ''api.go'')]" by code_simp
  have "cr_err (runWithIO sample_env [''-out'', ''api.go''] []) = None \<and>
      mget (cr_files (runWithIO sample_env [''-out'', ''api.go''] [])) ''api.go'' \<noteq> Some ''stale''" by code_simp
  with check_tells_up_to_date [OF p, of sample_env "[]" "[(''api.go'', ''stale'')]"] show ?thesis
    by (auto simp: flag_value_def simp del: parse_flags.simps)
qed

text \<open>
  a comment between the arrow of a handler and its body can make the generator panic:
  \<open>inferExpressionType\<close> cuts the original text at a position of the stripped text that it
  does not have.
\<close>

theorem generator_can_panic:
  "Generate ascii_unicode format_source (\<lambda>_. Some (''convex'', commented_project))
     \<lparr>SourceDir = ''convex'', PackageName = ''api'', ImportPath = defaultImportPath\<rparr> = Inl SliceOutOfRange"
  by code_simp

text \<open>
  Two more things that go wrong. A source directory that is a symbolic link passes the check
  of \<open>Generate\<close>, which follows links, but \<open>WalkDir\<close> does not follow it, so that nothing is
  found. And a function in a file with a hyphen in its name gets a reference whose path the
  client refuses.
\<close>

lemma linked_directory_is_empty:
  "\<not> isSourceFile name \<Longrightarrow> scanSourceDir U name (LinkNode n) = Inr []"
  by (simp add: scanSourceDir_def visit_file_def)

lemma hyphen_reference_refused:
  "source_refs ''foo-bar'' ''export const f = query()'' =
     Inr [\<lparr>fr_ModulePath = ''foo-bar'', fr_Name = ''f'', fr_Kind = ''query'', fr_VarName = [], fr_ResultType = []\<rparr>] \<and>
   ParseFunctionPath ''foo-bar:f'' = Inl (PathError (PathComponentChar ''foo-bar''))"
  by code_simp

text \<open>
  In a template literal a backslash is an ordinary byte for the generator, so an escaped
  backquote ends the literal early and the code after it is taken for a literal.
\<close>

lemma escaped_backquote_hides_exports:
  "source_refs ''m'' (''const t = '' @ [CHR 0x60, CHR 0x5C, CHR 0x60, CHR 0x60] @ ''; export const f = query()'') = Inr []"
  by code_simp

end
