(* ===== verification/Maint_Files.thy ===== *)
theory Maint_Files
  imports Go_Json Go_Flag "HOL-Library.Sublist" "HOL-Library.List_Lexorder" "HOL-Library.Char_ord"
begin

text \<open>
  What the maintenance tools (\<open>cmd/convex-go-maint\<close>) see of the system: a tree of files
  without links, the working directory, environment variables, and the commands \<open>git\<close> and
  \<open>gofmt\<close>. An absolute path is the list of its elements; \<open>filepath\<close> is the one of Unix.
\<close>

section \<open>Files\<close>

type_synonym fpath = "string list"

datatype node = File string nat | Dir

type_synonym fs = "(fpath, node) gomap"

definition below :: "fpath \<Rightarrow> fs \<Rightarrow> fs" where
  "below d fs = filter (\<lambda>(p, n). strict_prefix d p) fs"

definition RemoveAll :: "fpath \<Rightarrow> fs \<Rightarrow> fs" where
  "RemoveAll d fs = filter (\<lambda>(p, n). \<not> prefix d p) fs"

text \<open>\<open>os.MkdirAll\<close>: \<open>todo\<close> are the elements still to go; a file in the way is an error. The root exists.\<close>

fun mkdir_from :: "(fpath \<Rightarrow> bool) \<Rightarrow> fpath \<Rightarrow> fpath \<Rightarrow> fs \<Rightarrow> bool \<times> fs" where
  "mkdir_from denied done [] fs = (True, fs)"
| "mkdir_from denied done (e # todo) fs =
     (case mget fs (done @ [e]) of
        Some Dir \<Rightarrow> mkdir_from denied (done @ [e]) todo fs
      | Some (File _ _) \<Rightarrow> (False, fs)
      | None \<Rightarrow>
          if denied (done @ [e]) then (False, fs)
          else mkdir_from denied (done @ [e]) todo (mput (done @ [e]) Dir fs))"

definition MkdirAll :: "(fpath \<Rightarrow> bool) \<Rightarrow> fpath \<Rightarrow> fs \<Rightarrow> bool \<times> fs" where
  "MkdirAll denied p fs = mkdir_from denied [] p fs"

definition is_dir :: "fpath \<Rightarrow> fs \<Rightarrow> bool" where
  "is_dir p fs \<longleftrightarrow> p = [] \<or> mget fs p = Some Dir"

text \<open>\<open>os.WriteFile\<close>: a file that is there keeps its mode.\<close>

definition WriteFile :: "(fpath \<Rightarrow> bool) \<Rightarrow> fpath \<Rightarrow> string \<Rightarrow> nat \<Rightarrow> fs \<Rightarrow> bool \<times> fs" where
  "WriteFile denied p data mode fs =
     (if p = [] \<or> \<not> is_dir (butlast p) fs \<or> denied p then (False, fs)
      else case mget fs p of
        Some Dir \<Rightarrow> (False, fs)
      | Some (File _ old) \<Rightarrow> (True, mput p (File data old) fs)
      | None \<Rightarrow> (True, mput p (File data mode) fs))"

definition ReadFile :: "fpath \<Rightarrow> fs \<Rightarrow> string option" where
  "ReadFile p fs = (case mget fs p of Some (File data _) \<Rightarrow> Some data | _ \<Rightarrow> None)"

section \<open>Paths\<close>

definition Abs :: "string \<Rightarrow> string \<Rightarrow> fpath" where
  "Abs cwd p = clean_parts True [] (Split (CHR ''/'') (if HasPrefix p ''/'' then p else cwd @ ''/'' @ p))"

definition path_string :: "fpath \<Rightarrow> string" where
  "path_string p = CHR ''/'' # Join ''/'' p"

text \<open>\<open>filepath.Join\<close> of an absolute path and a relative one\<close>

definition join_path :: "fpath \<Rightarrow> string \<Rightarrow> fpath" where
  "join_path root rel = clean_parts True [] (root @ Split (CHR ''/'') rel)"

text \<open>\<open>filepath.Rel\<close> of absolute paths: up for what is left of the base, then down.\<close>

fun strip_common :: "'a list \<Rightarrow> 'a list \<Rightarrow> 'a list \<times> 'a list" where
  "strip_common (b # bs) (t # ts) = (if b = t then strip_common bs ts else (b # bs, t # ts))"
| "strip_common bs ts = (bs, ts)"

definition Rel :: "fpath \<Rightarrow> fpath \<Rightarrow> string" where
  "Rel base targ =
     (if targ = base then ''.''
      else case strip_common base targ of (bs, ts) \<Rightarrow> Join ''/'' (replicate (length bs) ''..'' @ ts))"

text \<open>An element of a clean path\<close>

definition clean_elem :: "string \<Rightarrow> bool" where
  "clean_elem e \<longleftrightarrow> e \<noteq> [] \<and> e \<noteq> ''.'' \<and> e \<noteq> ''..'' \<and> CHR ''/'' \<notin> set e"

section \<open>The system\<close>

record maint_env =
  me_cwd :: string
  me_denied :: "fpath \<Rightarrow> bool"
  me_stdout :: bool
  me_getenv :: "string \<Rightarrow> string"
  me_lsfiles :: "fpath \<Rightarrow> string list \<Rightarrow> fs \<Rightarrow> string option"
  me_gittag :: "fpath \<Rightarrow> string \<Rightarrow> fs \<Rightarrow> string option"
  me_git :: "fpath \<Rightarrow> string list \<Rightarrow> fs \<Rightarrow> bool \<times> fs"
  me_gofmt :: "fpath \<Rightarrow> string list \<Rightarrow> fs \<Rightarrow> string option"
  me_brackets :: "string \<Rightarrow> string option"

datatype (plugins only: code) maint_error =
    FlagFailed flag_error
  | HelpAsked
  | UnknownSubcommand string
  | StdoutFailed
  | ReleaseNeedsVersion
  | InvalidVersion string
  | ReadFailed string
  | NoVersionConst string
  | VersionMismatch string string
  | NoSection string
  | NoNotes string
  | TagCheckFailed string
  | TagExists string
  | WriteFailed string
  | ExportNeedsOut
  | NestedDestination fpath fpath
  | DestinationFailed fpath
  | DestinationNotDir fpath
  | DestinationNotEmpty fpath
  | LsFilesFailed
  | NoTrackedFiles
  | ExportFailed string
  | GitFailed "string list"
  | GofmtFailed
  | Unformatted nat
  | MissingVariable string
  | InvalidURL string
  | NotHTTP string
  | NoHost string
  | VariableRequires string string
  | ExpectationsRequire string
  | BenchNeedsFiles
  | NegativeRegression
  | InvalidBenchLine string
  | InvalidMetric string string
  | MissingMetrics string
  | NoBenchmarks
  | BenchFailures string
  | NoModeLine
  | InvalidCoverageLine string
  | InvalidStatements string
  | InvalidCount string
  | NoStatements
  | CoverageBelow f64 f64

text \<open>What a command returns: an error or none, its output, and the files.\<close>

type_synonym outcome3 = "maint_error option \<times> string \<times> fs"

definition flag_failed :: "flag_error \<Rightarrow> maint_error" where
  "flag_failed e = (if e = HelpWanted then HelpAsked else FlagFailed e)"

section \<open>Lines and words\<close>

text \<open>\<open>strings.ReplaceAll\<close> of line ends, and the lines of a text\<close>

fun replace_crlf :: "string \<Rightarrow> string" where
  "replace_crlf [] = []"
| "replace_crlf [c] = [c]"
| "replace_crlf (c # d # s) =
     (if c = CHR 0x0D \<and> d = CHR 0x0A then d # replace_crlf s else c # replace_crlf (d # s))"

definition text_lines :: "string \<Rightarrow> string list" where
  "text_lines body = Split (CHR 0x0A) (replace_crlf body)"

text \<open>\<open>strings.Fields\<close>: \<open>word\<close> is what has been read since the last space.\<close>

function fields_from :: "string \<Rightarrow> string \<Rightarrow> string list" where
  "fields_from word [] = (if word = [] then [] else [word])"
| "fields_from word (c # s) =
     (case find (\<lambda>q. q \<noteq> [] \<and> HasPrefix (c # s) q) space_seqs of
        None \<Rightarrow> fields_from (word @ [c]) s
      | Some q \<Rightarrow> (if word = [] then [] else [word]) @ fields_from [] (drop (length q) (c # s)))"
  by pat_completeness auto
termination
proof (relation "measure (\<lambda>(word, s). length s)")
  fix word c s q
  assume "find (\<lambda>q. q \<noteq> [] \<and> HasPrefix (c # s) q) space_seqs = Some q"
  then have "q \<noteq> []" by (auto simp: find_Some_iff)
  then show "(([], drop (length q) (c # s)), word, c # s) \<in> measure (\<lambda>(word, s). length s)"
    by (cases q) auto
qed auto

definition Fields :: "string \<Rightarrow> string list" where
  "Fields s = fields_from [] s"

lemma fields_from_words: "w \<in> set (fields_from word s) \<Longrightarrow> w \<noteq> []"
  by (induction word s rule: fields_from.induct) (auto split: option.splits if_splits)

section \<open>Tracked files\<close>

definition parseNULSeparated :: "string \<Rightarrow> string list" where
  "parseNULSeparated body =
     (if body = [] then [] else filter (\<lambda>part. part \<noteq> []) (Split (CHR 0x00) body))"

definition gitTrackedFiles :: "maint_env \<Rightarrow> fpath \<Rightarrow> string list \<Rightarrow> fs \<Rightarrow> maint_error + string list" where
  "gitTrackedFiles env repo patterns fs =
     (case me_lsfiles env repo patterns fs of
        None \<Rightarrow> Inl LsFilesFailed
      | Some output \<Rightarrow> Inr (parseNULSeparated output))"

section \<open>Lemmas\<close>

lemma strip_common_append: "strip_common base targ = (bs, ts) \<Longrightarrow> \<exists>ps. base = ps @ bs \<and> targ = ps @ ts"
proof (induction base targ rule: strip_common.induct)
  case (1 b bs' t ts')
  then show ?case
    by (cases "b = t") (auto intro: exI [of _ "b # _"])
qed auto

lemma strip_common_prefix: "strip_common base targ = (bs, ts) \<Longrightarrow> bs = [] \<longleftrightarrow> prefix base targ"
  by (induction base targ rule: strip_common.induct) (auto split: if_splits)

lemma Join_Cons: "Join sep (e # es) = e @ (if es = [] then [] else sep @ Join sep es)"
  by (cases es) auto

lemma clean_parts_clean:
  "list_all clean_elem out \<Longrightarrow> list_all (\<lambda>e. CHR ''/'' \<notin> set e) ps \<Longrightarrow> list_all clean_elem (clean_parts True out ps)"
proof (induction ps arbitrary: out)
  case (Cons p ps)
  then show ?case
  proof (cases "p = ''..''")
    case True
    with Cons show ?thesis by (cases out) (auto simp: clean_elem_def)
  qed (auto simp: clean_elem_def)
qed (simp add: list_all_iff)

lemma Abs_clean: "e \<in> set (Abs cwd p) \<Longrightarrow> clean_elem e"
  using clean_parts_clean [of "[]" "Split (CHR ''/'') (if HasPrefix p ''/'' then p else cwd @ ''/'' @ p)"]
  unfolding Abs_def list_all_iff by (auto dest: Split_no_sep)

lemma clean_parts_elems:
  "(\<And>e. e \<in> set ps \<Longrightarrow> clean_elem e) \<Longrightarrow> clean_parts True out (ps @ qs) = clean_parts True (rev ps @ out) qs"
  by (induction ps arbitrary: out) (auto simp: clean_elem_def)

lemma join_path_clean:
  "(\<And>e. e \<in> set root \<Longrightarrow> clean_elem e) \<Longrightarrow> (\<And>e. e \<in> set (Split (CHR ''/'') rel) \<Longrightarrow> clean_elem e) \<Longrightarrow>
     join_path root rel = root @ Split (CHR ''/'') rel"
  using clean_parts_elems [of root "[]"] clean_parts_elems [of "Split (CHR ''/'') rel" "rev root" "[]"]
  by (simp add: join_path_def)

lemma mget_filter_key: "mget (filter (\<lambda>(k, v). P k) m) k = (if P k then mget m k else None)"
  by (induction m) auto

lemma mget_RemoveAll: "mget (RemoveAll d fs) p = (if prefix d p then None else mget fs p)"
  using mget_filter_key [of "\<lambda>p. \<not> prefix d p" fs p] by (simp add: RemoveAll_def)

end
