(* ===== verification/Maint_Export.thy ===== *)
theory Maint_Export
  imports Maint_Files
begin

text \<open>
  The command \<open>export-snapshot\<close> (\<open>cmd/convex-go-maint/export.go\<close>): it copies the tracked files
  of a repository to another directory. Shown are that it copies every tracked file and
  leaves the rest of the system alone when the destination is apart from the repository,
  and that it deletes the repository when the destination contains it.
\<close>

section \<open>The command\<close>

definition sameOrNestedPath :: "fpath \<Rightarrow> fpath \<Rightarrow> bool" where
  "sameOrNestedPath path root =
     (let rel = Rel root path in rel = ''.'' \<or> (rel \<noteq> ''..'' \<and> \<not> HasPrefix rel ''../''))"

text \<open>A file where a directory should be: \<open>os.Stat\<close> reports that, not that there is nothing.\<close>

definition blocked :: "fpath \<Rightarrow> fs \<Rightarrow> bool" where
  "blocked p fs \<longleftrightarrow> list_ex (\<lambda>k. case mget fs (take k p) of Some (File _ _) \<Rightarrow> True | _ \<Rightarrow> False) [0..<length p]"

text \<open>
  What cannot be removed stays, with the directories above it. The root directory itself is
  never removed: \<open>os.RemoveAll\<close> of it removes everything below and then reports an error.
\<close>

definition remove_all :: "(fpath \<Rightarrow> bool) \<Rightarrow> fpath \<Rightarrow> fs \<Rightarrow> bool \<times> fs" where
  "remove_all denied d fs =
     (if list_ex (\<lambda>(p, n). prefix d p \<and> denied p) fs
      then (False, filter (\<lambda>(p, n). \<not> prefix d p \<or> list_ex (\<lambda>(q, n). prefix p q \<and> denied q) fs) fs)
      else (d \<noteq> [], RemoveAll d fs))"

definition failing :: "maint_error \<Rightarrow> bool \<times> fs \<Rightarrow> maint_error option \<times> fs" where
  "failing e r = (if fst r then None else Some e, snd r)"

definition prepareExportDestination :: "maint_env \<Rightarrow> fpath \<Rightarrow> bool \<Rightarrow> fs \<Rightarrow> maint_error option \<times> fs" where
  "prepareExportDestination env destRoot force fs =
     (if blocked destRoot fs then (Some (DestinationFailed destRoot), fs)
      else if destRoot \<noteq> [] \<and> mget fs destRoot = None
      then failing (DestinationFailed destRoot) (MkdirAll (me_denied env) destRoot fs)
      else if \<not> is_dir destRoot fs then (Some (DestinationNotDir destRoot), fs)
      else if below destRoot fs = [] then (None, fs)
      else if \<not> force then (Some (DestinationNotEmpty destRoot), fs)
      else case remove_all (me_denied env) destRoot fs of
        (False, fs) \<Rightarrow> (Some (DestinationFailed destRoot), fs)
      | (True, fs) \<Rightarrow> failing (DestinationFailed destRoot) (MkdirAll (me_denied env) destRoot fs))"

definition copyFile :: "maint_env \<Rightarrow> fpath \<Rightarrow> fpath \<Rightarrow> fs \<Rightarrow> bool \<times> fs" where
  "copyFile env source target fs =
     (case mget fs source of
        Some (File data mode) \<Rightarrow>
          (case MkdirAll (me_denied env) (butlast target) fs of
             (False, fs) \<Rightarrow> (False, fs)
           | (True, fs) \<Rightarrow> WriteFile (me_denied env) target data mode fs)
      | _ \<Rightarrow> (False, fs))"

fun exportTrackedFiles :: "maint_env \<Rightarrow> fpath \<Rightarrow> fpath \<Rightarrow> string list \<Rightarrow> fs \<Rightarrow> maint_error option \<times> fs" where
  "exportTrackedFiles env repoRoot destRoot [] fs = (None, fs)"
| "exportTrackedFiles env repoRoot destRoot (rel # files) fs =
     (case copyFile env (join_path repoRoot rel) (join_path destRoot rel) fs of
        (False, fs) \<Rightarrow> (Some (ExportFailed rel), fs)
      | (True, fs) \<Rightarrow> exportTrackedFiles env repoRoot destRoot files fs)"

definition runGitCommand :: "maint_env \<Rightarrow> fpath \<Rightarrow> string list \<Rightarrow> fs \<Rightarrow> maint_error option \<times> fs" where
  "runGitCommand env dir args fs = failing (GitFailed args) (me_git env dir args fs)"

definition initializeSnapshotRepo :: "maint_env \<Rightarrow> fpath \<Rightarrow> string \<Rightarrow> string \<Rightarrow> fs \<Rightarrow> maint_error option \<times> fs" where
  "initializeSnapshotRepo env destRoot initialBranch commitMessage fs =
     (case runGitCommand env destRoot [''init'', ''-b'', initialBranch] fs of
        (Some e, fs) \<Rightarrow> (Some e, fs)
      | (None, fs) \<Rightarrow>
          (case runGitCommand env destRoot [''add'', ''.''] fs of
             (Some e, fs) \<Rightarrow> (Some e, fs)
           | (None, fs) \<Rightarrow>
               runGitCommand env destRoot
                 [''-c'', ''user.name=convex-go-maint'', ''-c'', ''user.email=convex-go-maint@local.invalid'',
                  ''commit'', ''--no-gpg-sign'', ''-m'', commitMessage] fs))"

definition export_flags :: "string \<Rightarrow> flag_kind option" where
  "export_flags name =
     (if name \<in> set [''repo'', ''out'', ''initial-branch'', ''commit-message''] then Some StringFlag
      else if name \<in> set [''force'', ''git-init''] then Some BoolFlag
      else None)"

text \<open>The copy of a list of files, and the report\<close>

definition exported :: "maint_env \<Rightarrow> (string \<times> string) list \<Rightarrow> fpath \<Rightarrow> fpath \<Rightarrow> string list \<Rightarrow> fs \<Rightarrow> outcome3" where
  "exported env flags repoRoot destRoot files fs =
     (if files = [] then (Some NoTrackedFiles, [], fs)
      else case exportTrackedFiles env repoRoot destRoot files fs of
        (Some e, fs) \<Rightarrow> (Some e, [], fs)
      | (None, fs) \<Rightarrow>
          (case (if flag_set ''git-init'' flags
                 then initializeSnapshotRepo env destRoot (flag_value [''initial-branch''] ''main'' flags)
                        (flag_value [''commit-message''] ''Initial public snapshot'' flags) fs
                 else (None, fs)) of
             (Some e, fs) \<Rightarrow> (Some e, [], fs)
           | (None, fs) \<Rightarrow>
               if \<not> me_stdout env then (Some StdoutFailed, [], fs)
               else (None, ''exported '' @ nat_digits (length files) @ '' tracked file(s) to '' @ path_string destRoot @ [CHR 0x0A] @
                       (if flag_set ''git-init'' flags then ''initialized fresh git repository'' @ [CHR 0x0A] else []), fs)))"

definition runExportSnapshot :: "maint_env \<Rightarrow> string list \<Rightarrow> fs \<Rightarrow> outcome3" where
  "runExportSnapshot env args fs =
     (case parse_flags export_flags args of
        Inl e \<Rightarrow> (Some (flag_failed e), [], fs)
      | Inr flags \<Rightarrow>
          let out = flag_value [''out''] [] flags
          in if TrimSpace out = [] then (Some ExportNeedsOut, [], fs)
             else
               let repoRoot = Abs (me_cwd env) (flag_value [''repo''] ''.'' flags);
                   destRoot = Abs (me_cwd env) out
               in if sameOrNestedPath destRoot repoRoot then (Some (NestedDestination destRoot repoRoot), [], fs)
                  else case prepareExportDestination env destRoot (flag_set ''force'' flags) fs of
                    (Some e, fs) \<Rightarrow> (Some e, [], fs)
                  | (None, fs) \<Rightarrow>
                      (case gitTrackedFiles env repoRoot [] fs of
                         Inl e \<Rightarrow> (Some e, [], fs)
                       | Inr files \<Rightarrow> exported env flags repoRoot destRoot files fs))"

section \<open>Nested paths\<close>

lemma nested_iff:
  assumes "\<And>e. e \<in> set path \<Longrightarrow> clean_elem e"
  shows "sameOrNestedPath path root \<longleftrightarrow> prefix root path"
proof (cases "path = root")
  case False
  obtain bs ts where s: "strip_common root path = (bs, ts)" by force
  have rel: "Rel root path = Join ''/'' (replicate (length bs) ''..'' @ ts)"
    using False by (simp add: Rel_def s)
  obtain ps where ps: "root = ps @ bs" "path = ps @ ts" using strip_common_append [OF s] by blast
  show ?thesis
  proof (cases bs)
    case Nil
    then obtain t us where ts: "ts = t # us" using False ps by (cases ts) auto
    then have t: "clean_elem t" using assms ps by simp
    have r: "Rel root path = t @ (if us = [] then [] else CHR ''/'' # Join ''/'' us)"
      using Nil ts rel by (simp add: Join_Cons)
    have tw: "takeWhile (\<lambda>x. x \<noteq> CHR ''/'') (t @ (if us = [] then [] else CHR ''/'' # Join ''/'' us)) = t"
      using t by (subst takeWhile_append2) (auto simp: clean_elem_def)
    have "\<not> HasPrefix (Rel root path) ''../'' \<and> Rel root path \<noteq> ''..''"
      using tw t unfolding r by (auto simp: clean_elem_def HasPrefix_iff)
    then show ?thesis
      using strip_common_prefix [OF s] Nil by (simp add: sameOrNestedPath_def)
  next
    case (Cons b cs)
    then have "Rel root path = ''..'' \<or> HasPrefix (Rel root path) ''../''"
      using rel by (cases "replicate (length cs) ''..'' @ ts") (auto simp: HasPrefix_def)
    moreover have "Rel root path \<noteq> ''.''"
      using rel Cons by (cases "replicate (length cs) ''..'' @ ts") auto
    ultimately show ?thesis
      using strip_common_prefix [OF s] Cons by (auto simp: sameOrNestedPath_def)
  qed
qed (simp add: sameOrNestedPath_def Rel_def)

section \<open>What a copy changes\<close>

text \<open>Making directories adds directories, on the way to the path, where there was nothing.\<close>

lemma mkdir_from_frame:
  "mkdir_from denied done todo fs = (ok, fs') \<Longrightarrow>
     mget fs' p = mget fs p \<or> (mget fs p = None \<and> mget fs' p = Some Dir \<and> prefix p (done @ todo) \<and> strict_prefix done p)"
proof (induction denied "done" todo fs rule: mkdir_from.induct)
  case (2 denied d e todo fs)
  show ?case
  proof (cases "mget fs (d @ [e])")
    case None
    show ?thesis
    proof (cases "denied (d @ [e])")
      case True
      with None 2 show ?thesis by auto
    next
      case False
      with None 2 have "mkdir_from denied (d @ [e]) todo (mput (d @ [e]) Dir fs) = (ok, fs')" by simp
      from 2(1) [OF None False this] None show ?thesis
        by (auto simp: mget_mput strict_prefix_def split: if_splits dest: append_prefixD)
    qed
  next
    case (Some n)
    show ?thesis
    proof (cases n)
      case Dir
      with Some 2 have "mkdir_from denied (d @ [e]) todo fs = (ok, fs')" by simp
      from 2(2) [OF Some Dir this] Some Dir show ?thesis
        by (auto simp: strict_prefix_def dest: append_prefixD)
    qed (use Some 2 in auto)
  qed
qed simp

lemma MkdirAll_frame:
  "MkdirAll denied d fs = (ok, fs') \<Longrightarrow> mget fs' p = mget fs p \<or> mget fs p = None \<and> mget fs' p = Some Dir \<and> prefix p d"
  unfolding MkdirAll_def by (drule mkdir_from_frame [where p = p]) auto

lemma WriteFile_frame:
  "WriteFile denied f data mode fs = (ok, fs') \<Longrightarrow> p \<noteq> f \<Longrightarrow> mget fs' p = mget fs p"
  "WriteFile denied f data mode fs = (True, fs') \<Longrightarrow> mget fs f \<noteq> Some Dir \<and> (\<exists>m. mget fs' f = Some (File data m))"
  by (auto simp: WriteFile_def mget_mput split: if_splits option.splits node.splits)

text \<open>A copy puts the data of the source at the target, and otherwise only makes directories above it.\<close>

lemma copyFile_effect:
  assumes "copyFile env source target fs = (True, fs')"
  obtains data mode mode' where "mget fs source = Some (File data mode)" "mget fs' target = Some (File data mode')"
    "mget fs target \<noteq> Some Dir"
    "\<And>p. p \<noteq> target \<Longrightarrow> mget fs' p = mget fs p \<or> mget fs p = None \<and> mget fs' p = Some Dir \<and> prefix p (butlast target)"
proof -
  obtain data mode fs1 where c: "mget fs source = Some (File data mode)" "MkdirAll (me_denied env) (butlast target) fs = (True, fs1)"
      "WriteFile (me_denied env) target data mode fs1 = (True, fs')"
    using assms by (auto simp: copyFile_def split: option.splits node.splits prod.splits bool.splits)
  obtain m where m: "mget fs' target = Some (File data m)" "mget fs1 target \<noteq> Some Dir"
    using WriteFile_frame(2) [OF c(3)] by blast
  have "mget fs target \<noteq> Some Dir"
    using MkdirAll_frame [OF c(2), of target] m(2) by auto
  moreover have "mget fs' p = mget fs p \<or> mget fs p = None \<and> mget fs' p = Some Dir \<and> prefix p (butlast target)"
    if "p \<noteq> target" for p
    using WriteFile_frame(1) [OF c(3) that] MkdirAll_frame [OF c(2), of p] by auto
  ultimately show ?thesis using that c(1) m(1) by blast
qed

section \<open>The copy of a repository\<close>

text \<open>Two directories neither of which contains the other\<close>

definition apart :: "fpath \<Rightarrow> fpath \<Rightarrow> bool" where
  "apart a b \<longleftrightarrow> \<not> prefix a b \<and> \<not> prefix b a"

text \<open>The names \<open>git ls-files\<close> gives: relative, without empty elements, \<open>.\<close> and \<open>..\<close>\<close>

definition clean_name :: "string \<Rightarrow> bool" where
  "clean_name rel \<longleftrightarrow> list_all clean_elem (Split (CHR ''/'') rel)"

text \<open>A file with the data of another one\<close>

definition copied :: "fpath \<Rightarrow> fpath \<Rightarrow> fs \<Rightarrow> bool" where
  "copied source target fs \<longleftrightarrow> (\<exists>d. ReadFile source fs = Some d \<and> ReadFile target fs = Some d)"

text \<open>Only what lies in the destination changes, except that missing directories above it are made.\<close>

definition kept_outside :: "fpath \<Rightarrow> fs \<Rightarrow> fs \<Rightarrow> bool" where
  "kept_outside dest fs fs' \<longleftrightarrow> (\<forall>p. \<not> prefix dest p \<longrightarrow>
     mget fs' p = mget fs p \<or> mget fs p = None \<and> mget fs' p = Some Dir \<and> prefix p dest)"

lemma kept_outside_refl: "kept_outside dest fs fs"
  by (simp add: kept_outside_def)

lemma kept_outside_trans: "kept_outside dest fs fs1 \<Longrightarrow> kept_outside dest fs1 fs2 \<Longrightarrow> kept_outside dest fs fs2"
  unfolding kept_outside_def by (metis option.distinct(1))

lemma apart_append: "apart a b \<Longrightarrow> \<not> prefix b (a @ xs)"
  using prefix_same_cases [of a "a @ xs" b] by (auto simp: apart_def)

lemma ReadFile_kept: "kept_outside dest fs fs' \<Longrightarrow> apart repo dest \<Longrightarrow> ReadFile (repo @ xs) fs' = ReadFile (repo @ xs) fs"
  using apart_append [of repo dest xs] by (auto simp: kept_outside_def ReadFile_def split: option.split node.split)

lemma ReadFile_step:
  assumes "mget fs' p = mget fs p \<or> mget fs p = None \<and> mget fs' p = Some Dir"
  shows "ReadFile p fs' = ReadFile p fs"
  using assms by (elim disjE) (simp_all add: ReadFile_def)

lemma copy_step:
  assumes "copyFile env (repo @ xs) (dest @ xs) fs = (True, fs')" "apart repo dest" "xs \<noteq> []"
  shows "kept_outside dest fs fs'" "copied (repo @ xs) (dest @ xs) fs'"
    "p \<noteq> dest @ xs \<Longrightarrow> ReadFile p fs' = ReadFile p fs"
proof -
  from assms(1) obtain data mode mode' where c: "mget fs (repo @ xs) = Some (File data mode)"
      "mget fs' (dest @ xs) = Some (File data mode')"
      "\<And>p. p \<noteq> dest @ xs \<Longrightarrow> mget fs' p = mget fs p \<or> mget fs p = None \<and> mget fs' p = Some Dir \<and> prefix p (butlast (dest @ xs))"
    by (rule copyFile_effect) blast
  have up: "prefix p dest" if "\<not> prefix dest p" "prefix p (butlast (dest @ xs))" for p
    using that assms(3) prefix_same_cases [of p "dest @ butlast xs" dest] by (auto simp: butlast_append)
  show k: "kept_outside dest fs fs'"
    unfolding kept_outside_def using c(3) up by (metis prefix_order.refl append_prefixD)
  show "ReadFile p fs' = ReadFile p fs" if "p \<noteq> dest @ xs" for p
    using c(3) [OF that] by (intro ReadFile_step) blast
  show "copied (repo @ xs) (dest @ xs) fs'"
    using ReadFile_kept [OF k assms(2)] c(1,2) by (simp add: copied_def ReadFile_def)
qed

text \<open>The loop: afterwards every listed file is a copy, and the destination has no other new file.\<close>

lemma export_loop:
  assumes "apart repo dest" "list_all clean_elem repo" "list_all clean_elem dest"
  shows "exportTrackedFiles env repo dest files fs = (None, fs') \<Longrightarrow> list_all clean_name files \<Longrightarrow>
    kept_outside dest fs fs' \<and>
    (\<forall>rel. rel \<in> set files \<or> copied (repo @ Split (CHR ''/'') rel) (dest @ Split (CHR ''/'') rel) fs \<longrightarrow>
       copied (repo @ Split (CHR ''/'') rel) (dest @ Split (CHR ''/'') rel) fs') \<and>
    (\<forall>p. (\<forall>rel\<in>set files. p \<noteq> dest @ Split (CHR ''/'') rel) \<longrightarrow> ReadFile p fs' = ReadFile p fs)"
proof (induction files arbitrary: fs)
  case (Cons rel files)
  let ?S = "\<lambda>rel. repo @ Split (CHR ''/'') rel" and ?T = "\<lambda>rel. dest @ Split (CHR ''/'') rel"
  have j: "join_path repo rel = ?S rel" "join_path dest rel = ?T rel"
    using Cons.prems(2) assms(2,3) by (auto intro!: join_path_clean simp: clean_name_def list_all_iff)
  obtain fs1 where c: "copyFile env (?S rel) (?T rel) fs = (True, fs1)" "exportTrackedFiles env repo dest files fs1 = (None, fs')"
    using Cons.prems(1) by (auto simp: j split: prod.splits bool.splits)
  note step = copy_step [OF c(1) assms(1)]
  from Cons.IH [OF c(2)] Cons.prems(2) have IH: "kept_outside dest fs1 fs'"
      "\<And>rel. rel \<in> set files \<or> copied (?S rel) (?T rel) fs1 \<Longrightarrow> copied (?S rel) (?T rel) fs'"
      "\<And>p. \<forall>rel\<in>set files. p \<noteq> ?T rel \<Longrightarrow> ReadFile p fs' = ReadFile p fs1"
    by auto
  have "copied (?S r) (?T r) fs1" if "copied (?S r) (?T r) fs" for r
  proof (cases "?T r = ?T rel")
    case True
    then show ?thesis using step(2) by simp
  next
    case False
    then show ?thesis
      using that step(3) [of "?T r"] ReadFile_kept [OF step(1) assms(1)] by (simp add: copied_def)
  qed
  with IH(2) step(2) have "\<forall>r. r \<in> set (rel # files) \<or> copied (?S r) (?T r) fs \<longrightarrow> copied (?S r) (?T r) fs'"
    by (metis Split_nonempty set_ConsD)
  moreover have "\<forall>p. (\<forall>r\<in>set (rel # files). p \<noteq> ?T r) \<longrightarrow> ReadFile p fs' = ReadFile p fs"
    using IH(3) step(3) by simp
  ultimately show ?case
    using kept_outside_trans [OF step(1) IH(1)] by simp
qed (simp add: kept_outside_refl)

section \<open>The destination\<close>

text \<open>A file system is a tree: whatever exists is in a directory.\<close>

definition tree :: "fs \<Rightarrow> bool" where
  "tree fs \<longleftrightarrow> (\<forall>p n. mget fs p = Some n \<longrightarrow> p \<noteq> [] \<and> is_dir (butlast p) fs)"

lemma tree_below_missing:
  assumes "tree fs" "mget fs d = None" "d \<noteq> []"
  shows "prefix d p \<Longrightarrow> mget fs p = None"
proof (induction p rule: rev_induct)
  case (snoc e p)
  show ?case
  proof (cases "prefix d p")
    case True
    with snoc have "mget fs p = None" "p \<noteq> []" using assms(3) by (auto simp: prefix_def)
    then show ?thesis
      using assms(1) by (cases "mget fs (p @ [e])") (auto simp: tree_def is_dir_def)
  next
    case False
    with snoc.prems assms(2) show ?thesis by simp
  qed
qed (use assms in simp)

lemma ReadFile_None_Dir: "(mget fs p = None \<or> mget fs p = Some Dir) \<Longrightarrow> ReadFile p fs = None"
  by (auto simp: ReadFile_def)

lemma MkdirAll_none:
  assumes "MkdirAll denied d fs = (ok, fs')" "\<And>p. prefix d p \<Longrightarrow> mget fs p = None"
  shows "kept_outside d fs fs'" "prefix d p \<Longrightarrow> ReadFile p fs' = None"
proof -
  show "kept_outside d fs fs'"
    using MkdirAll_frame [OF assms(1)] by (auto simp: kept_outside_def)
  show "ReadFile p fs' = None" if "prefix d p"
    using MkdirAll_frame [OF assms(1), of p] assms(2) [OF that] by (intro ReadFile_None_Dir) auto
qed

lemma below_Nil: "below d fs = [] \<Longrightarrow> mget fs p = Some n \<Longrightarrow> \<not> strict_prefix d p"
  using map_of_SomeD [of fs p n] by (auto simp: below_def filter_empty_conv)

lemma failing_None [simp]: "failing e r = (None, fs) \<longleftrightarrow> r = (True, fs)"
  by (cases r) (auto simp: failing_def)

lemma prepared:
  assumes "prepareExportDestination env d force fs = (None, fs')" "tree fs"
  shows "kept_outside d fs fs'" "prefix d p \<Longrightarrow> ReadFile p fs' = None"
proof -
  consider (made) "d \<noteq> []" "mget fs d = None" "MkdirAll (me_denied env) d fs = (True, fs')"
    | (empty) "is_dir d fs" "below d fs = []" "fs' = fs"
    | (cleared) "MkdirAll (me_denied env) d (RemoveAll d fs) = (True, fs')"
    using assms(1)
    by (auto simp: prepareExportDestination_def remove_all_def split: if_splits prod.splits bool.splits)
  then have "kept_outside d fs fs' \<and> (prefix d p \<longrightarrow> ReadFile p fs' = None)"
  proof cases
    case made
    from MkdirAll_none [OF made(3)] tree_below_missing [OF assms(2) made(2,1)] show ?thesis by blast
  next
    case empty
    have "mget fs [] = None" using assms(2) by (cases "mget fs []") (auto simp: tree_def)
    moreover have "mget fs p = None" if "prefix d p" "p \<noteq> d"
      using below_Nil [OF empty(2), of p] that by (cases "mget fs p") (auto simp: strict_prefix_def)
    ultimately show ?thesis
      using empty(1,3) by (auto simp: kept_outside_refl is_dir_def intro!: ReadFile_None_Dir)
  next
    case cleared
    have "kept_outside d fs (RemoveAll d fs)"
      by (auto simp: kept_outside_def mget_RemoveAll)
    with MkdirAll_none [OF cleared] kept_outside_trans show ?thesis
      by (auto simp: mget_RemoveAll)
  qed
  then show "kept_outside d fs fs'" "prefix d p \<Longrightarrow> ReadFile p fs' = None" by auto
qed

section \<open>Snapshots\<close>

text \<open>\<open>git ls-files\<close> prints clean names.\<close>

definition git_names :: "maint_env \<Rightarrow> bool" where
  "git_names env \<longleftrightarrow> (\<forall>dir patterns fs out. me_lsfiles env dir patterns fs = Some out \<longrightarrow> list_all clean_name (parseNULSeparated out))"

text \<open>
  C31: an exported snapshot has exactly the tracked files: when \<open>export-snapshot\<close> succeeds without
  \<open>-git-init\<close>, and the destination does not contain the repository, then the files in the
  destination are those that \<open>git\<close> tracks, with the data they have in the repository, and
  outside of the destination nothing has changed but missing directories above it.
\<close>

theorem snapshot_exact:
  assumes "runExportSnapshot env args fs = (None, out, fs')" and "tree fs" and "git_names env"
    and "parse_flags export_flags args = Inr flags" and "\<not> flag_set ''git-init'' flags"
    and repo: "repo = Abs (me_cwd env) (flag_value [''repo''] ''.'' flags)"
    and dest: "dest = Abs (me_cwd env) (flag_value [''out''] [] flags)" and "\<not> prefix dest repo"
  shows "\<exists>fs1 files. prepareExportDestination env dest (flag_set ''force'' flags) fs = (None, fs1) \<and>
    gitTrackedFiles env repo [] fs1 = Inr files \<and> files \<noteq> [] \<and>
    (\<forall>p data. prefix dest p \<longrightarrow>
       (ReadFile p fs' = Some data \<longleftrightarrow> (\<exists>rel\<in>set files. p = join_path dest rel \<and> ReadFile (join_path repo rel) fs = Some data))) \<and>
    kept_outside dest fs fs'"
proof -
  have clean: "list_all clean_elem repo" "list_all clean_elem dest"
    using Abs_clean repo dest by (auto simp: list_all_iff)
  obtain fs1 files where r: "\<not> sameOrNestedPath dest repo" "prepareExportDestination env dest (flag_set ''force'' flags) fs = (None, fs1)"
      "gitTrackedFiles env repo [] fs1 = Inr files" "files \<noteq> []" "exportTrackedFiles env repo dest files fs1 = (None, fs')"
    using assms(1,4,5) repo dest
    by (auto simp: runExportSnapshot_def exported_def Let_def split: if_splits prod.splits option.splits sum.splits)
  have apart: "apart repo dest"
    using r(1) nested_iff [of dest repo] clean(2) assms(8) by (auto simp: apart_def list_all_iff)
  have names: "list_all clean_name files"
    using r(3) assms(3) by (auto simp: gitTrackedFiles_def git_names_def split: option.splits)
  then have join: "join_path repo rel = repo @ Split (CHR ''/'') rel \<and> join_path dest rel = dest @ Split (CHR ''/'') rel"
    if "rel \<in> set files" for rel
    using that clean by (auto intro!: join_path_clean simp: clean_name_def list_all_iff)
  note prep = prepared [OF r(2) assms(2)] and loop = export_loop [OF apart clean r(5) names]
  have kept: "kept_outside dest fs fs'"
    using kept_outside_trans [OF prep(1)] loop by blast
  have "ReadFile p fs' = Some data \<longleftrightarrow> (\<exists>rel\<in>set files. p = join_path dest rel \<and> ReadFile (join_path repo rel) fs = Some data)"
    if p: "prefix dest p" for p data
  proof -
    have "ReadFile (join_path dest rel) fs' = ReadFile (join_path repo rel) fs" if "rel \<in> set files" for rel
      using loop that join ReadFile_kept [OF kept apart] by (metis copied_def)
    moreover have "\<exists>rel\<in>set files. p = join_path dest rel" if "ReadFile p fs' \<noteq> None"
      using that loop prep(2) [OF p] join by metis
    ultimately show ?thesis by (metis option.distinct(1))
  qed
  with kept r show ?thesis by blast
qed

text \<open>A repository \<open>/r\<close> with one tracked and one other file\<close>

definition small_env :: maint_env where
  "small_env =
     \<lparr>me_cwd = ''/r'', me_denied = (\<lambda>_. False), me_stdout = True, me_getenv = (\<lambda>_. []),
      me_lsfiles = (\<lambda>dir _ fs. if is_dir dir fs then Some (''a'' @ [CHR 0x00]) else None), me_gittag = (\<lambda>_ _ _. None),
      me_git = (\<lambda>_ _ fs. (False, fs)), me_gofmt = (\<lambda>_ _ _. None), me_brackets = (\<lambda>_. None)\<rparr>"

definition small_fs :: fs where
  "small_fs = [([''r''], Dir), ([''r'', ''a''], File ''x'' 420), ([''r'', ''b''], File ''y'' 420)]"

lemma small_tree: "tree small_fs"
  by (auto simp: tree_def small_fs_def is_dir_def split: if_splits)

lemma small_names: "git_names small_env"
proof -
  have "parseNULSeparated (''a'' @ [CHR 0x00]) = [''a'']" "clean_name ''a''" by code_simp+
  then show ?thesis by (auto simp: git_names_def small_env_def split: if_splits)
qed

lemma small_run:
  "runExportSnapshot small_env [''-out'', ''/d''] small_fs =
     (None, ''exported 1 tracked file(s) to /d'' @ [CHR 0x0A], mput [''d''] Dir (mput [''d'', ''a''] (File ''x'' 420) small_fs))"
  by code_simp

theorem snapshot_exact_witness:
  "ReadFile [''d'', ''a''] (mput [''d''] Dir (mput [''d'', ''a''] (File ''x'' 420) small_fs)) = Some ''x''"
proof -
  have "parse_flags export_flags [''-out'', ''/d''] = Inr [(''out'', ''/d'')]"
    "[''r''] = Abs (me_cwd small_env) (flag_value [''repo''] ''.'' [(''out'', ''/d'')])"
    "[''d''] = Abs (me_cwd small_env) (flag_value [''out''] [] [(''out'', ''/d'')])"
    "\<not> flag_set ''git-init'' [(''out'', ''/d'')]" "\<not> prefix [''d''] [''r'']"
    by code_simp+
  note run = snapshot_exact [OF small_run small_tree small_names this(1,4,2,3,5)]
  have "prepareExportDestination small_env [''d''] (flag_set ''force'' [(''out'', ''/d'')]) small_fs = (None, mput [''d''] Dir small_fs)"
    "gitTrackedFiles small_env [''r''] [] (mput [''d''] Dir small_fs) = Inr [''a'']"
    "join_path [''d''] ''a'' = [''d'', ''a'']" "ReadFile (join_path [''r''] ''a'') small_fs = Some ''x''"
    by code_simp+
  with run show ?thesis by auto
qed

section \<open>A destination that contains the repository\<close>

lemma mkdir_succeeds:
  "(\<And>p data mode. strict_prefix d p \<Longrightarrow> prefix p (d @ todo) \<Longrightarrow> mget fs p \<noteq> Some (File data mode)) \<Longrightarrow>
     fst (mkdir_from (\<lambda>_. False) d todo fs)"
proof (induction todo arbitrary: d fs)
  case (Cons e todo)
  have deeper: "strict_prefix (d @ [e]) p \<Longrightarrow> strict_prefix d p" for p
    by (auto simp: strict_prefix_def dest: append_prefixD)
  show ?case
  proof (cases "mget fs (d @ [e])")
    case None
    have "fst (mkdir_from (\<lambda>_. False) (d @ [e]) todo (mput (d @ [e]) Dir fs))"
      using Cons.prems deeper by (intro Cons.IH) (auto simp: mget_mput strict_prefix_def)
    with None show ?thesis by simp
  next
    case (Some n)
    have "n = Dir"
      using Cons.prems [of "d @ [e]"] Some by (cases n) (auto simp: strict_prefix_def)
    moreover have "fst (mkdir_from (\<lambda>_. False) (d @ [e]) todo fs)"
      using Cons.prems deeper by (intro Cons.IH) auto
    ultimately show ?thesis using Some by simp
  qed
qed simp

lemma not_blocked: "\<not> blocked d fs \<Longrightarrow> strict_prefix p d \<Longrightarrow> mget fs p \<noteq> Some (File data mode)"
proof
  assume "\<not> blocked d fs" "strict_prefix p d" "mget fs p = Some (File data mode)"
  moreover then have "p = take (length p) d" "length p < length d"
    by (auto simp: strict_prefix_def prefix_def)
  ultimately show False
    by (auto simp: blocked_def list_ex_iff dest!: bspec [of _ _ "length p"])
qed

text \<open>
  C40: \<open>export-snapshot -force\<close> deletes the repository it exports when the destination is a
  directory that contains it: the check refuses destinations inside the repository, but
  not the converse, and the destination is cleared before anything is copied. Nothing of
  the repository is left, and the command fails when \<open>git\<close> does not find it, or before that
  when the destination is the root directory, which cannot be removed itself.
\<close>

theorem force_deletes_repository:
  assumes "parse_flags export_flags args = Inr flags" and "flag_set ''force'' flags"
    and "TrimSpace (flag_value [''out''] [] flags) \<noteq> []"
    and repo: "repo = Abs (me_cwd env) (flag_value [''repo''] ''.'' flags)"
    and dest: "dest = Abs (me_cwd env) (flag_value [''out''] [] flags)" and "strict_prefix dest repo"
    and "is_dir dest fs" and "\<not> blocked dest fs" and "mget fs repo \<noteq> None" and "me_denied env = (\<lambda>_. False)"
    and git: "\<And>fs. mget fs repo = None \<Longrightarrow> me_lsfiles env repo [] fs = None"
  shows "\<exists>fs'. runExportSnapshot env args fs = (Some (if dest = [] then DestinationFailed dest else LsFilesFailed), [], fs') \<and>
    (\<forall>p. prefix repo p \<longrightarrow> mget fs' p = None)"
proof -
  have "\<not> prefix repo dest" using assms(6) by (auto simp: strict_prefix_def)
  then have nested: "\<not> sameOrNestedPath dest repo"
    using nested_iff [of dest repo] Abs_clean dest by metis
  have "below dest fs \<noteq> []"
    using below_Nil [of dest fs repo] assms(6,9) by auto
  moreover have "fst (MkdirAll (\<lambda>_. False) dest (RemoveAll dest fs))"
    unfolding MkdirAll_def using not_blocked [OF assms(8)]
    by (intro mkdir_succeeds) (auto simp: mget_RemoveAll strict_prefix_def)
  then obtain fs' where mk: "MkdirAll (\<lambda>_. False) dest (RemoveAll dest fs) = (True, fs')"
    by (cases "MkdirAll (\<lambda>_. False) dest (RemoveAll dest fs)") auto
  moreover have "dest = [] \<or> mget fs dest \<noteq> None"
    using assms(7) by (auto simp: is_dir_def)
  ultimately have prep: "prepareExportDestination env dest True fs =
      (if dest = [] then (Some (DestinationFailed dest), RemoveAll dest fs) else (None, fs'))"
    using assms(7,8,10) by (auto simp: prepareExportDestination_def remove_all_def list_ex_iff)
  have cleared: "mget (RemoveAll dest fs) p = None" if "prefix repo p" for p
    using that assms(6) by (auto simp: mget_RemoveAll strict_prefix_def dest: prefix_order.trans)
  have gone: "mget fs' p = None" if "prefix repo p" for p
    using MkdirAll_frame [OF mk, of p] that assms(6)
    by (auto simp: mget_RemoveAll strict_prefix_def dest: prefix_order.trans prefix_order.antisym)
  then have "gitTrackedFiles env repo [] fs' = Inl LsFilesFailed"
    using git by (simp add: gitTrackedFiles_def)
  with gone cleared nested prep assms(1-3) repo dest show ?thesis
    by (cases "dest = []") (simp_all add: runExportSnapshot_def Let_def)
qed

definition nested_fs :: fs where
  "nested_fs = [([''w''], Dir), ([''w'', ''r''], Dir), ([''w'', ''r'', ''b''], File ''y'' 420)]"

theorem force_deletes_repository_witness:
  "\<exists>fs'. runExportSnapshot (small_env\<lparr>me_cwd := ''/w/r''\<rparr>) [''-force'', ''-out'', ''..''] nested_fs = (Some LsFilesFailed, [], fs') \<and>
     mget nested_fs [''w'', ''r'', ''b''] = Some (File ''y'' 420) \<and> mget fs' [''w'', ''r'', ''b''] = None"
proof -
  let ?flags = "[(''force'', ''true''), (''out'', ''..'')]" and ?env = "small_env\<lparr>me_cwd := ''/w/r''\<rparr>"
  have "parse_flags export_flags [''-force'', ''-out'', ''..''] = Inr ?flags" "flag_set ''force'' ?flags"
    "TrimSpace (flag_value [''out''] [] ?flags) \<noteq> []"
    "[''w'', ''r''] = Abs (me_cwd ?env) (flag_value [''repo''] ''.'' ?flags)"
    "[''w''] = Abs (me_cwd ?env) (flag_value [''out''] [] ?flags)"
    "strict_prefix [''w''] [''w'', ''r'']" "is_dir [''w''] nested_fs" "\<not> blocked [''w''] nested_fs"
    "mget nested_fs [''w'', ''r''] \<noteq> None"
    by code_simp+
  from force_deletes_repository [OF this] show ?thesis
    by (auto simp: small_env_def nested_fs_def is_dir_def)
qed

end
