(* ===== verification/Maint_Release.thy ===== *)
theory Maint_Release
  imports Maint_Files Go_Regexp
begin

text \<open>
  The command \<open>release-check\<close> (\<open>cmd/convex-go-maint/release.go\<close>): the version of a release must
  be well-formed and the one in the source, the changelog must have notes for it, and its
  tag must not exist.
\<close>

section \<open>Versions\<close>

definition TrimPrefix :: "string \<Rightarrow> string \<Rightarrow> string" where
  "TrimPrefix s p = (if HasPrefix s p then drop (length p) s else s)"

definition prerelease_char :: "char \<Rightarrow> bool" where
  "prerelease_char c \<longleftrightarrow>
     is_digit c \<or> c \<in> set ''ABCDEFGHIJKLMNOPQRSTUVWXYZ'' \<or> c \<in> set ''abcdefghijklmnopqrstuvwxyz'' \<or> c \<in> set ''.-''"

definition releaseVersionPattern :: rx where
  "releaseVersionPattern =
     RSeqs [RPlus is_digit, RLit ''.'', RPlus is_digit, RLit ''.'', RPlus is_digit,
       ROpt (RSeq (RLit ''-'') (RPlus prerelease_char))]"

text \<open>A pattern between \<open>^\<close> and \<open>$\<close>\<close>

definition full_match :: "rx \<Rightarrow> string \<Rightarrow> bool" where
  "full_match e s \<longleftrightarrow> list_ex (\<lambda>(r, c). r = []) (matches e s)"

definition versionConstPattern :: rx where
  "versionConstPattern =
     RSeqs [RLit (''const Version = '' @ [CHR 0x22]), RGroup (RPlus (\<lambda>c. c \<noteq> CHR 0x22)), RLit [CHR 0x22]]"

definition normalizeReleaseVersion :: "string \<Rightarrow> maint_error + string \<times> string" where
  "normalizeReleaseVersion version =
     (let normalized = TrimPrefix (TrimSpace version) ''v''
      in if \<not> full_match releaseVersionPattern normalized then Inl (InvalidVersion version)
         else Inr (normalized, ''v'' @ normalized))"

definition readVersionConstant :: "string \<Rightarrow> string option \<Rightarrow> maint_error + string" where
  "readVersionConstant path body =
     (case body of
        None \<Rightarrow> Inl (ReadFailed path)
      | Some body \<Rightarrow>
          (case find_first versionConstPattern body of
             Some (_, _, [v]) \<Rightarrow> Inr v
           | _ \<Rightarrow> Inl (NoVersionConst path)))"

section \<open>The changelog\<close>

definition trim_cr :: "string \<Rightarrow> string" where
  "trim_cr s = rev (dropWhile (\<lambda>c. c = CHR 0x0D) (rev s))"

definition opens_section :: "string \<Rightarrow> string \<Rightarrow> bool" where
  "opens_section version line \<longleftrightarrow>
     (let rest = TrimPrefix line ''## ''
      in rest = version \<or> HasPrefix rest (version @ '' '') \<or> HasPrefix rest (version @ '' -''))"

fun notes_loop :: "string \<Rightarrow> bool \<Rightarrow> string list \<Rightarrow> string list \<Rightarrow> bool \<times> string list" where
  "notes_loop version inSection collected [] = (inSection, collected)"
| "notes_loop version inSection collected (raw # lines) =
     (let line = trim_cr raw
      in if HasPrefix line ''## '' \<and> inSection then (inSection, collected)
         else if HasPrefix line ''## '' \<and> opens_section version line then notes_loop version True collected lines
         else notes_loop version inSection (if inSection then collected @ [line] else collected) lines)"

definition extractChangelogNotes :: "string \<Rightarrow> string \<Rightarrow> maint_error + string" where
  "extractChangelogNotes body version =
     (let lines = text_lines body;
          headerPrefix = ''## '' @ version;
          (inSection, collected) = notes_loop version False [] lines
      in if \<not> inSection then Inl (NoSection headerPrefix)
         else let notes = TrimSpace (Join [CHR 0x0A] collected)
              in if notes = [] then Inl (NoNotes headerPrefix) else Inr notes)"

section \<open>The command\<close>

definition ensureTagDoesNotExist :: "maint_env \<Rightarrow> fpath \<Rightarrow> string \<Rightarrow> fs \<Rightarrow> maint_error option" where
  "ensureTagDoesNotExist env repo tag fs =
     (case me_gittag env repo tag fs of
        None \<Rightarrow> Some (TagCheckFailed tag)
      | Some output \<Rightarrow> if TrimSpace output \<noteq> [] then Some (TagExists tag) else None)"

text \<open>\<open>filepath.Join\<close> of two elements, an empty one being ignored\<close>

definition join2 :: "string \<Rightarrow> string \<Rightarrow> string" where
  "join2 a b = (if a = [] then b else if b = [] then a else a @ ''/'' @ b)"

definition release_flags :: "string \<Rightarrow> flag_kind option" where
  "release_flags name =
     (if name \<in> set [''repo'', ''version'', ''version-file'', ''changelog'', ''notes-out''] then Some StringFlag else None)"

text \<open>The checks, which only read: the notes of the release and its tag.\<close>

definition release_notes :: "maint_env \<Rightarrow> (string \<times> string) list \<Rightarrow> fs \<Rightarrow> maint_error + string \<times> string" where
  "release_notes env flags fs =
     (let repo = flag_value [''repo''] ''.'' flags;
          version = flag_value [''version''] [] flags;
          versionFile = join2 repo (flag_value [''version-file''] ''client_options.go'' flags);
          changelog = flag_value [''changelog''] ''CHANGELOG.md'' flags
      in if TrimSpace version = [] then Inl ReleaseNeedsVersion
         else
           rbind (normalizeReleaseVersion version) (\<lambda>(normalizedVersion, tagName).
           rbind (readVersionConstant versionFile (ReadFile (Abs (me_cwd env) versionFile) fs)) (\<lambda>versionValue.
           if versionValue \<noteq> normalizedVersion then Inl (VersionMismatch versionValue normalizedVersion)
           else case ReadFile (Abs (me_cwd env) (join2 repo changelog)) fs of
             None \<Rightarrow> Inl (ReadFailed changelog)
           | Some changelogBody \<Rightarrow>
               rbind (extractChangelogNotes changelogBody normalizedVersion) (\<lambda>notes.
               case ensureTagDoesNotExist env (Abs (me_cwd env) repo) tagName fs of
                 Some e \<Rightarrow> Inl e
               | None \<Rightarrow> Inr (notes, tagName)))))"

definition runReleaseCheck :: "maint_env \<Rightarrow> string list \<Rightarrow> fs \<Rightarrow> outcome3" where
  "runReleaseCheck env args fs =
     (case parse_flags release_flags args of
        Inl e \<Rightarrow> (Some (flag_failed e), [], fs)
      | Inr flags \<Rightarrow>
          (case release_notes env flags fs of
             Inl e \<Rightarrow> (Some e, [], fs)
           | Inr (notes, tagName) \<Rightarrow>
               let notesOut = flag_value [''notes-out''] [] flags
               in case (if notesOut = [] then (True, fs)
                        else WriteFile (me_denied env) (Abs (me_cwd env) notesOut) (notes @ [CHR 0x0A]) 420 fs) of
                    (False, fs) \<Rightarrow> (Some (WriteFailed notesOut), [], fs)
                  | (True, fs) \<Rightarrow>
                      if \<not> me_stdout env then (Some StdoutFailed, [], fs)
                      else (None, ''validated release '' @ tagName @ '' using '' @
                              flag_value [''version-file''] ''client_options.go'' flags @ '' and '' @
                              flag_value [''changelog''] ''CHANGELOG.md'' flags @ [CHR 0x0A], fs)))"

section \<open>Versions with and without a leading v\<close>

lemma full_match_lang: "full_match e s \<longleftrightarrow> s \<in> lang e"
  using matches_lang [of "[]" e s] by (auto simp: full_match_def list_ex_iff)

section \<open>The notes of a section\<close>

text \<open>The lines after the first header of the version, up to the next header\<close>

definition section_lines :: "string \<Rightarrow> string list \<Rightarrow> string list option" where
  "section_lines version lines =
     (case dropWhile (\<lambda>l. \<not> (HasPrefix l ''## '' \<and> opens_section version l)) lines of
        [] \<Rightarrow> None
      | header # rest \<Rightarrow> Some (takeWhile (\<lambda>l. \<not> HasPrefix l ''## '') rest))"

lemma notes_loop_inside:
  "notes_loop version True collected lines =
     (True, collected @ takeWhile (\<lambda>l. \<not> HasPrefix l ''## '') (map trim_cr lines))"
  by (induction lines arbitrary: collected) (simp_all add: Let_def)

lemma notes_loop_section:
  "notes_loop version False [] lines =
     (case section_lines version (map trim_cr lines) of None \<Rightarrow> (False, []) | Some ls \<Rightarrow> (True, ls))"
  by (induction lines) (auto simp: Let_def section_lines_def notes_loop_inside)

text \<open>The notes are the trimmed text of the section, and there is an error if it is missing or blank.\<close>

lemma extract_section:
  "extractChangelogNotes body version =
     (case section_lines version (map trim_cr (text_lines body)) of
        None \<Rightarrow> Inl (NoSection (''## '' @ version))
      | Some ls \<Rightarrow>
          let notes = TrimSpace (Join [CHR 0x0A] ls)
          in if notes = [] then Inl (NoNotes (''## '' @ version)) else Inr notes)"
  by (simp add: extractChangelogNotes_def notes_loop_section Let_def split: option.split)

section \<open>What a passed check means\<close>

lemma version_const:
  assumes "readVersionConstant path body = Inr v"
  obtains pre post where "body = Some (pre @ ''const Version = '' @ [CHR 0x22] @ v @ [CHR 0x22] @ post)"
proof -
  obtain all t r where b: "body = Some all" "find_first versionConstPattern all = Some (t, r, [v])"
    using assms by (auto simp: readVersionConstant_def split: option.splits list.splits)
  from find_first_Some [OF b(2)] obtain pre w where "all = pre @ w @ r" "(w, [v]) \<in> caps versionConstPattern"
    by auto
  then have "all = pre @ ''const Version = '' @ [CHR 0x22] @ v @ [CHR 0x22] @ r"
    by (auto simp: versionConstPattern_def)
  with b(1) show ?thesis using that by blast
qed

lemma release_notes_Inr:
  assumes "release_notes env flags fs = Inr (notes, tag)"
  obtains v where "TrimPrefix (TrimSpace (flag_value [''version''] [] flags)) ''v'' = v" "v \<in> lang releaseVersionPattern"
    "tag = ''v'' @ v"
    "readVersionConstant (join2 (flag_value [''repo''] ''.'' flags) (flag_value [''version-file''] ''client_options.go'' flags))
       (ReadFile (Abs (me_cwd env) (join2 (flag_value [''repo''] ''.'' flags) (flag_value [''version-file''] ''client_options.go'' flags))) fs) = Inr v"
    "\<exists>log. ReadFile (Abs (me_cwd env) (join2 (flag_value [''repo''] ''.'' flags) (flag_value [''changelog''] ''CHANGELOG.md'' flags))) fs = Some log \<and>
       extractChangelogNotes log v = Inr notes"
    "ensureTagDoesNotExist env (Abs (me_cwd env) (flag_value [''repo''] ''.'' flags)) tag fs = None"
proof -
  from assms have "normalizeReleaseVersion (flag_value [''version''] [] flags) =
      Inr (TrimPrefix (TrimSpace (flag_value [''version''] [] flags)) ''v'', tag)"
    by (auto simp: release_notes_def Let_def res_simps normalizeReleaseVersion_def split: if_splits option.splits)
  then have "TrimPrefix (TrimSpace (flag_value [''version''] [] flags)) ''v'' \<in> lang releaseVersionPattern"
    "tag = ''v'' @ TrimPrefix (TrimSpace (flag_value [''version''] [] flags)) ''v''"
    by (auto simp: normalizeReleaseVersion_def Let_def full_match_lang split: if_splits)
  with assms that show ?thesis
    by (auto simp: release_notes_def Let_def res_simps normalizeReleaseVersion_def split: if_splits option.splits)
qed

text \<open>
  C32: a release that passes the check can be made: the version is three numbers and perhaps a
  suffix, the source declares exactly this version, the changelog has a section for it
  with notes, \<open>git\<close> has no such tag, and the only file that has changed is the one asked
  for, which holds the notes of the section.
\<close>

theorem release_check_sound:
  assumes "runReleaseCheck env args fs = (None, out, fs')" and "parse_flags release_flags args = Inr flags"
    and repo: "repo = flag_value [''repo''] ''.'' flags"
    and source: "source = Abs (me_cwd env) (join2 repo (flag_value [''version-file''] ''client_options.go'' flags))"
    and changelog: "changelog = Abs (me_cwd env) (join2 repo (flag_value [''changelog''] ''CHANGELOG.md'' flags))"
  shows "\<exists>v pre post log ls listed.
    v = TrimPrefix (TrimSpace (flag_value [''version''] [] flags)) ''v'' \<and> v \<in> lang releaseVersionPattern \<and>
    ReadFile source fs = Some (pre @ ''const Version = '' @ [CHR 0x22] @ v @ [CHR 0x22] @ post) \<and>
    ReadFile changelog fs = Some log \<and>
    section_lines v (map trim_cr (text_lines log)) = Some ls \<and> TrimSpace (Join [CHR 0x0A] ls) \<noteq> [] \<and>
    me_gittag env (Abs (me_cwd env) repo) (''v'' @ v) fs = Some listed \<and> TrimSpace listed = [] \<and>
    (\<forall>p. mget fs' p = mget fs p \<or>
       p = Abs (me_cwd env) (flag_value [''notes-out''] [] flags) \<and> flag_value [''notes-out''] [] flags \<noteq> [] \<and>
       ReadFile p fs' = Some (TrimSpace (Join [CHR 0x0A] ls) @ [CHR 0x0A]))"
proof -
  let ?out = "flag_value [''notes-out''] [] flags"
  obtain ns tag where n: "release_notes env flags fs = Inr (ns, tag)"
      "(if ?out = [] then (True, fs) else WriteFile (me_denied env) (Abs (me_cwd env) ?out) (ns @ [CHR 0x0A]) 420 fs) = (True, fs')"
    using assms(1,2) by (auto simp: runReleaseCheck_def Let_def split: sum.splits prod.splits bool.splits if_splits)
  from n(1) obtain v log where v: "v = TrimPrefix (TrimSpace (flag_value [''version''] [] flags)) ''v''"
      "v \<in> lang releaseVersionPattern" "tag = ''v'' @ v"
    and const: "readVersionConstant (join2 repo (flag_value [''version-file''] ''client_options.go'' flags)) (ReadFile source fs) = Inr v"
    and log: "ReadFile changelog fs = Some log" "extractChangelogNotes log v = Inr ns"
    and tags: "ensureTagDoesNotExist env (Abs (me_cwd env) repo) tag fs = None"
    unfolding repo source changelog by (rule release_notes_Inr) auto
  obtain ls where ls: "section_lines v (map trim_cr (text_lines log)) = Some ls"
      "ns = TrimSpace (Join [CHR 0x0A] ls)" "ns \<noteq> []"
    using log(2) unfolding extract_section by (auto simp: Let_def split: option.splits if_splits)
  obtain listed where l: "me_gittag env (Abs (me_cwd env) repo) (''v'' @ v) fs = Some listed" "TrimSpace listed = []"
    using tags v(3) by (auto simp: ensureTagDoesNotExist_def split: option.splits if_splits)
  obtain pre post where c: "ReadFile source fs = Some (pre @ ''const Version = '' @ [CHR 0x22] @ v @ [CHR 0x22] @ post)"
    using const by (rule version_const)
  have f: "mget fs' p = mget fs p \<or> p = Abs (me_cwd env) ?out \<and> ?out \<noteq> [] \<and> ReadFile p fs' = Some (ns @ [CHR 0x0A])" for p
    using n(2) by (auto simp: WriteFile_def ReadFile_def mget_mput split: if_splits option.splits node.splits)
  show ?thesis
    using v(1,2) c log(1) ls l f by blast
qed

definition release_env :: maint_env where
  "release_env =
     \<lparr>me_cwd = ''/r'', me_denied = (\<lambda>_. False), me_stdout = True, me_getenv = (\<lambda>_. []),
      me_lsfiles = (\<lambda>_ _ _. None), me_gittag = (\<lambda>_ _ _. Some []), me_git = (\<lambda>_ _ fs. (False, fs)),
      me_gofmt = (\<lambda>_ _ _. None), me_brackets = (\<lambda>_. None)\<rparr>"

definition release_fs :: fs where
  "release_fs =
     [([''r''], Dir),
      ([''r'', ''CHANGELOG.md''], File (''## 1.2.0 - today'' @ [CHR 0x0A] @ ''first'' @ [CHR 0x0A] @ ''## 1.1.0'') 420),
      ([''r'', ''client_options.go''], File (''const Version = '' @ [CHR 0x22] @ ''1.2.0'' @ [CHR 0x22]) 420)]"

theorem release_check_sound_witness:
  "\<exists>pre post. ''1.2.0'' \<in> lang releaseVersionPattern \<and>
     ReadFile [''r'', ''client_options.go''] release_fs =
       Some (pre @ ''const Version = '' @ [CHR 0x22] @ ''1.2.0'' @ [CHR 0x22] @ post)"
proof -
  let ?flags = "[(''version'', ''v1.2.0'')]"
  have "runReleaseCheck release_env [''-version=v1.2.0''] release_fs =
      (None, ''validated release v1.2.0 using client_options.go and CHANGELOG.md'' @ [CHR 0x0A], release_fs)"
    "parse_flags release_flags [''-version=v1.2.0''] = Inr ?flags" "''.'' = flag_value [''repo''] ''.'' ?flags"
    "[''r'', ''client_options.go''] =
       Abs (me_cwd release_env) (join2 ''.'' (flag_value [''version-file''] ''client_options.go'' ?flags))"
    "[''r'', ''CHANGELOG.md''] = Abs (me_cwd release_env) (join2 ''.'' (flag_value [''changelog''] ''CHANGELOG.md'' ?flags))"
    by code_simp+
  note run = release_check_sound [OF this]
  have "TrimPrefix (TrimSpace (flag_value [''version''] [] ?flags)) ''v'' = ''1.2.0''"
    by code_simp
  with run show ?thesis by auto
qed

end
