(* ===== verification/Go_Float.thy ===== *)
theory Go_Float
  imports Complex_Main Go_Json
begin

text \<open>
  Arithmetic on \<open>float64\<close> as the language prescribes it: the exact result, rounded to the
  nearest double, ties to even, with the infinities and not-a-number of IEEE 754.
\<close>

section \<open>Values and rounding\<close>

definition f64_val :: "f64 \<Rightarrow> rat" where
  "f64_val f = (case f64_ratio (f64_mag f) of (n, d) \<Rightarrow> (if Signbit f then - 1 else 1) * (of_nat n / of_nat d))"

text \<open>\<open>neg\<close> is the sign of a zero.\<close>

definition f64_round :: "bool \<Rightarrow> rat \<Rightarrow> f64" where
  "f64_round neg q =
     (if q = 0 then f64_of neg 0
      else case quotient_of \<bar>q\<bar> of
        (n, d) \<Rightarrow> f64_of (q < 0) (case round_ratio (nat n) (nat d) of Some bits \<Rightarrow> bits | None \<Rightarrow> inf_bits))"

definition f64_of_int :: "int \<Rightarrow> f64" where
  "f64_of_int i = f64_round False (of_int i)"

section \<open>Operations\<close>

definition f64_neg :: "f64 \<Rightarrow> f64" where
  "f64_neg f = f64_of (\<not> Signbit f) (f64_mag f)"

definition f64_add :: "f64 \<Rightarrow> f64 \<Rightarrow> f64" where
  "f64_add x y =
     (if IsNaN x \<or> IsNaN y then f64_nan
      else if IsInf x then (if IsInf y \<and> Signbit x \<noteq> Signbit y then f64_nan else x)
      else if IsInf y then y
      else f64_round (Signbit x \<and> Signbit y) (f64_val x + f64_val y))"

definition f64_sub :: "f64 \<Rightarrow> f64 \<Rightarrow> f64" where
  "f64_sub x y = f64_add x (f64_neg y)"

definition f64_mul :: "f64 \<Rightarrow> f64 \<Rightarrow> f64" where
  "f64_mul x y =
     (let neg = (Signbit x \<noteq> Signbit y)
      in if IsNaN x \<or> IsNaN y \<or> IsInf x \<and> f64_is_zero y \<or> f64_is_zero x \<and> IsInf y then f64_nan
         else if IsInf x \<or> IsInf y then f64_of neg inf_bits
         else f64_round neg (f64_val x * f64_val y))"

definition f64_div :: "f64 \<Rightarrow> f64 \<Rightarrow> f64" where
  "f64_div x y =
     (let neg = (Signbit x \<noteq> Signbit y)
      in if IsNaN x \<or> IsNaN y \<or> IsInf x \<and> IsInf y \<or> f64_is_zero x \<and> f64_is_zero y then f64_nan
         else if IsInf x \<or> f64_is_zero y then f64_of neg inf_bits
         else if IsInf y then f64_of neg 0
         else f64_round neg (f64_val x / f64_val y))"

definition f64_less :: "f64 \<Rightarrow> f64 \<Rightarrow> bool" where
  "f64_less x y \<longleftrightarrow>
     \<not> IsNaN x \<and> \<not> IsNaN y \<and>
     (if IsInf x then Signbit x \<and> \<not> (IsInf y \<and> Signbit y)
      else if IsInf y then \<not> Signbit y
      else f64_val x < f64_val y)"

text \<open>\<open>math.Round\<close>: half away from zero\<close>

definition math_Round :: "f64 \<Rightarrow> f64" where
  "math_Round x =
     (if IsNaN x \<or> IsInf x then x
      else f64_round (Signbit x)
        ((if Signbit x then - 1 else 1) * of_int \<lfloor>\<bar>f64_val x\<bar> + 1 / 2\<rfloor>))"

section \<open>Integers below 2 to the 53 are exact\<close>

lemma bit_len_bounds: "0 < n \<Longrightarrow> 0 < bit_len n \<and> 2 ^ (bit_len n - 1) \<le> n \<and> n < 2 ^ bit_len n"
proof (induction n rule: bit_len.induct)
  case (1 n)
  show ?case
  proof (cases "n = 1")
    case True
    then show ?thesis by (simp add: bit_len.simps)
  next
    case False
    with 1 have n: "0 < n div 2" by auto
    with 1 have IH: "0 < bit_len (n div 2)" "2 ^ (bit_len (n div 2) - 1) \<le> n div 2" "n div 2 < 2 ^ bit_len (n div 2)"
      by auto
    then obtain k where k: "bit_len (n div 2) = Suc k" by (cases "bit_len (n div 2)") auto
    have "bit_len n = Suc (Suc k)" using 1 k by (simp add: bit_len.simps [of n])
    with IH k show ?thesis by auto
  qed
qed

lemma round_ratio_int:
  assumes "0 < n" "n < 2 ^ 53"
  shows "round_ratio n 1 = Some ((bit_len n + 1021) * 2 ^ 52 + n * 2 ^ (53 - bit_len n))"
    and "2 ^ 52 \<le> n * 2 ^ (53 - bit_len n)" "n * 2 ^ (53 - bit_len n) < 2 ^ 53" "bit_len n \<le> 53" "0 < bit_len n"
proof -
  let ?b = "bit_len n"
  have b: "0 < ?b" "2 ^ (?b - 1) \<le> n" "n < 2 ^ ?b" using bit_len_bounds [OF assms(1)] by auto
  show "?b \<le> 53"
  proof (rule ccontr)
    assume "\<not> ?b \<le> 53"
    then have "(2::nat) ^ 53 \<le> 2 ^ (?b - 1)" by (intro power_increasing) auto
    with b(2) assms(2) show False by simp
  qed
  then have e: "53 - ?b + ?b = 53" "?b - 1 + (53 - ?b) = 52" using b(1) by auto
  show lo: "2 ^ 52 \<le> n * 2 ^ (53 - ?b)"
    using mult_le_mono1 [OF b(2), of "2 ^ (53 - ?b)"] e by (simp flip: power_add)
  have "n * 2 ^ (53 - ?b) < 2 ^ ?b * 2 ^ (53 - ?b)" using b(3) by simp
  then show hi: "n * 2 ^ (53 - ?b) < 2 ^ 53" using e by (simp flip: power_add add: add.commute)
  show "0 < ?b" by (rule b(1))
  have one: "bit_len (Suc 0) = 1" by (simp add: bit_len.simps)
  obtain k where k: "?b = Suc k" using b(1) by (cases ?b) auto
  have "ratio_scale n 1 (- int k) = (n, 2 ^ k)"
    by (cases "k = 0") (simp_all add: ratio_scale_def)
  then have log: "ratio_log n 1 = int ?b - 1"
    using b(2) one k by (simp add: ratio_log_def Let_def)
  have ev: "round_even x 1 = x" for x by (simp add: round_even_def)
  have "52 - (int ?b - 1) = int (53 - ?b)" using \<open>?b \<le> 53\<close> by simp
  then have sc: "ratio_scale n 1 (52 - (int ?b - 1)) = (n * 2 ^ (53 - ?b), 1)"
    unfolding ratio_scale_def by (simp only: nat_int of_nat_0_le_iff if_True)
  have mx: "max (int ?b - 1) (- 1022) = int ?b - 1" by simp
  have "(?b + 1021) * 2 ^ 52 \<le> (1074 :: nat) * 2 ^ 52" using \<open>?b \<le> 53\<close> by (intro mult_le_mono1) simp
  then have "(?b + 1021) * 2 ^ 52 + n * 2 ^ (53 - ?b) < inf_bits"
    using hi by (simp add: inf_bits_def)
  moreover have "nat (int ?b - 1 + 1022) = ?b + 1021" by simp
  ultimately show "round_ratio n 1 = Some ((?b + 1021) * 2 ^ 52 + n * 2 ^ (53 - ?b))"
    unfolding round_ratio_def log mx Let_def sc prod.case ev using assms(1) by simp
qed

lemma quotient_digits: "x < d \<Longrightarrow> (e * d + x) div d = e" "x < d \<Longrightarrow> (e * d + x) mod d = (x :: nat)"
  by simp_all

lemma f64_of_mag: "m < 2 ^ 63 \<Longrightarrow> f64_mag (f64_of False m) = m \<and> \<not> Signbit (f64_of False m)"
  by (simp add: f64_mag_def f64_of_def Signbit_def unat_of_nat take_bit_nat_eq_self_iff)

lemma quotient_of_nat: "quotient_of (of_nat n) = (int n, 1)"
  using quotient_of_int [of "int n"] by simp

lemma f64_of_int_nat:
  assumes "n < 2 ^ 53"
  shows "f64_val (f64_of_int (int n)) = of_nat n" "\<not> IsNaN (f64_of_int (int n))" "\<not> IsInf (f64_of_int (int n))"
    "\<not> Signbit (f64_of_int (int n))" "f64_is_zero (f64_of_int (int n)) \<longleftrightarrow> n = 0"
proof -
  have "f64_val (f64_of_int (int n)) = of_nat n \<and> \<not> IsNaN (f64_of_int (int n)) \<and> \<not> IsInf (f64_of_int (int n)) \<and>
    \<not> Signbit (f64_of_int (int n)) \<and> (f64_is_zero (f64_of_int (int n)) \<longleftrightarrow> n = 0)"
  proof (cases "n = 0")
    case True
    have "f64_of_int 0 = 0" by (simp add: f64_of_int_def f64_round_def f64_of_def)
    moreover have "f64_val 0 = 0" by (simp add: f64_val_def f64_ratio_def ratio_scale_def f64_mag_def Let_def)
    ultimately show ?thesis
      using True by (simp add: IsNaN_def IsInf_def Signbit_def f64_mag_def inf_bits_def f64_is_zero_def)
  next
    case False
    let ?m = "n * 2 ^ (53 - bit_len n)" and ?e = "bit_len n + 1022"
    let ?mag = "(bit_len n + 1021) * 2 ^ 52 + ?m"
    note r = round_ratio_int [OF _ assms]
    have mag: "?mag = ?e * 2 ^ 52 + (?m - 2 ^ 52)" "?m - 2 ^ 52 < 2 ^ 52"
      using r(2,3) False by (simp_all add: algebra_simps)
    have small: "?e * 2 ^ 52 \<le> (1075 :: nat) * 2 ^ 52" using r(4) False by (intro mult_le_mono1) simp
    have f: "f64_of_int (int n) = f64_of False ?mag"
      using False r(1) by (simp add: f64_of_int_def f64_round_def quotient_of_nat)
    have m: "f64_mag (f64_of_int (int n)) = ?mag" "\<not> Signbit (f64_of_int (int n))"
      unfolding f using f64_of_mag [of ?mag] small mag by auto
    have ef: "?mag div 2 ^ 52 = ?e" "?mag mod 2 ^ 52 = ?m - 2 ^ 52"
      unfolding mag(1) by (rule quotient_digits [OF mag(2)])+
    have "f64_ratio ?mag = (n, 1) \<or> (\<exists>k. f64_ratio ?mag = (n * 2 ^ k, 2 ^ k))"
    proof -
      have ex: "int ?e - 1075 = - int (53 - bit_len n)" using r(4) False by simp
      have hid: "?m - 2 ^ 52 + 2 ^ 52 = ?m" using r(2) False by simp
      have "f64_ratio ?mag = ratio_scale ?m 1 (- int (53 - bit_len n))"
        unfolding f64_ratio_def ef Let_def ex [symmetric] using hid by simp
      then show ?thesis
        by (cases "53 - bit_len n = 0") (auto simp: ratio_scale_def)
    qed
    then have "f64_val (f64_of_int (int n)) = of_nat n"
      using m by (auto simp: f64_val_def)
    moreover have "?mag < inf_bits" "0 < ?mag"
      using small mag by (simp_all add: inf_bits_def)
    ultimately show ?thesis
      using m False by (simp add: IsNaN_def IsInf_def f64_is_zero_def)
  qed
  then show "f64_val (f64_of_int (int n)) = of_nat n" "\<not> IsNaN (f64_of_int (int n))" "\<not> IsInf (f64_of_int (int n))"
    "\<not> Signbit (f64_of_int (int n))" "f64_is_zero (f64_of_int (int n)) \<longleftrightarrow> n = 0" by auto
qed

lemma f64_add_nat:
  "a < 2 ^ 53 \<Longrightarrow> b < 2 ^ 53 \<Longrightarrow> f64_add (f64_of_int (int a)) (f64_of_int (int b)) = f64_of_int (int (a + b))"
  by (simp add: f64_add_def f64_of_int_nat) (simp add: f64_of_int_def)

lemma f64_mul_nat:
  "a < 2 ^ 53 \<Longrightarrow> b < 2 ^ 53 \<Longrightarrow> f64_mul (f64_of_int (int a)) (f64_of_int (int b)) = f64_of_int (int (a * b))"
  by (simp add: f64_mul_def f64_of_int_nat) (simp add: f64_of_int_def)

lemma f64_div_nat:
  "a < 2 ^ 53 \<Longrightarrow> b < 2 ^ 53 \<Longrightarrow> 0 < b \<Longrightarrow>
     f64_div (f64_of_int (int a)) (f64_of_int (int b)) = f64_round False (of_nat a / of_nat b)"
  by (simp add: f64_div_def f64_of_int_nat)

end
