(* ===== verification/Maint_Bench.thy ===== *)
theory Maint_Bench
  imports Maint_Files Go_Float
begin

text \<open>
  The command \<open>bench-compare\<close> (\<open>cmd/convex-go-maint/bench.go\<close>): benchmark outputs are parsed
  and compared metric by metric. Benchmarks that are only in the new output are reported in
  ascending order here; Go ranges over a map.
\<close>

section \<open>Printing percentages\<close>

text \<open>The verbs \<open>%.1f\<close> and, with \<open>sign\<close>, \<open>%+0.1f\<close>: the exact value to one decimal, ties to even\<close>

definition print_tenths :: "bool \<Rightarrow> f64 \<Rightarrow> string" where
  "print_tenths sign f =
     (if IsNaN f then (if sign then ''+NaN'' else ''NaN'')
      else if IsInf f then (if Signbit f then ''-Inf'' else ''+Inf'')
      else case f64_ratio (f64_mag f) of
        (num, den) \<Rightarrow>
          let q = round_even (num * 10) den
          in (if Signbit f then ''-'' else if sign then ''+'' else []) @
             nat_digits (q div 10) @ ''.'' @ nat_digits (q mod 10))"

section \<open>Parsing\<close>

record benchmarkMetrics =
  NsPerOp :: f64
  BytesPerOp :: f64
  AllocsPerOp :: f64

definition normalizeBenchmarkName :: "string \<Rightarrow> string" where
  "normalizeBenchmarkName name =
     (case cut_last (CHR ''-'') name of
        None \<Rightarrow> name
      | Some (before, after) \<Rightarrow> if after = [] \<or> \<not> list_all is_digit after then name else before)"

text \<open>The pairs of a value and a unit: the metrics, and which of the three have been seen.\<close>

record metric_scan =
  sc_metrics :: benchmarkMetrics
  sc_ns :: bool
  sc_bytes :: bool
  sc_allocs :: bool

fun metric_loop :: "string \<Rightarrow> string list \<Rightarrow> metric_scan \<Rightarrow> maint_error + metric_scan" where
  "metric_loop line (field # unit # rest) sc =
     (case ParseFloat field of
        None \<Rightarrow> Inl (InvalidMetric field line)
      | Some v \<Rightarrow>
          metric_loop line rest
            (if unit = ''ns/op'' then sc\<lparr>sc_metrics := (sc_metrics sc)\<lparr>NsPerOp := v\<rparr>, sc_ns := True\<rparr>
             else if unit = ''B/op'' then sc\<lparr>sc_metrics := (sc_metrics sc)\<lparr>BytesPerOp := v\<rparr>, sc_bytes := True\<rparr>
             else if unit = ''allocs/op'' then sc\<lparr>sc_metrics := (sc_metrics sc)\<lparr>AllocsPerOp := v\<rparr>, sc_allocs := True\<rparr>
             else sc))"
| "metric_loop line rest sc = Inr sc"

definition parseBenchmarkLine :: "string \<Rightarrow> maint_error + string \<times> benchmarkMetrics" where
  "parseBenchmarkLine line =
     (let fs = Fields line
      in if length fs < 8 then Inl (InvalidBenchLine line)
         else rbind (metric_loop line (drop 2 fs)
                \<lparr>sc_metrics = \<lparr>NsPerOp = 0, BytesPerOp = 0, AllocsPerOp = 0\<rparr>, sc_ns = False, sc_bytes = False, sc_allocs = False\<rparr>)
              (\<lambda>sc. if \<not> sc_ns sc \<or> \<not> sc_bytes sc \<or> \<not> sc_allocs sc then Inl (MissingMetrics line)
                    else Inr (normalizeBenchmarkName (fs ! 0), sc_metrics sc)))"

fun bench_loop :: "string list \<Rightarrow> (string, benchmarkMetrics) gomap \<Rightarrow> maint_error + (string, benchmarkMetrics) gomap" where
  "bench_loop [] benchmarks = Inr benchmarks"
| "bench_loop (raw # lines) benchmarks =
     (let line = TrimSpace raw
      in if \<not> HasPrefix line ''Benchmark'' then bench_loop lines benchmarks
         else rbind (parseBenchmarkLine line) (\<lambda>(name, metrics). bench_loop lines (mput name metrics benchmarks)))"

definition parseBenchmarkOutput :: "string \<Rightarrow> maint_error + (string, benchmarkMetrics) gomap" where
  "parseBenchmarkOutput body =
     rbind (bench_loop (text_lines body) []) (\<lambda>benchmarks. if benchmarks = [] then Inl NoBenchmarks else Inr benchmarks)"

section \<open>Comparing\<close>

definition regressionPercent :: "f64 \<Rightarrow> f64 \<Rightarrow> f64" where
  "regressionPercent oldValue newValue =
     (if f64_is_zero oldValue then (if f64_is_zero newValue then f64_of_int 0 else f64_of_int 100)
      else f64_div (f64_mul (f64_sub newValue oldValue) (f64_of_int 100)) oldValue)"

definition metric_table :: "benchmarkMetrics \<Rightarrow> benchmarkMetrics \<Rightarrow> (string \<times> f64) list" where
  "metric_table old new =
     [(''ns/op'', regressionPercent (NsPerOp old) (NsPerOp new)),
      (''B/op'', regressionPercent (BytesPerOp old) (BytesPerOp new)),
      (''allocs/op'', regressionPercent (AllocsPerOp old) (AllocsPerOp new))]"

definition over_budget :: "string \<Rightarrow> f64 \<Rightarrow> (string \<times> f64) list \<Rightarrow> string list" where
  "over_budget name maxRegression table =
     map (\<lambda>(label, regression). name @ '' '' @ label @ '' regression '' @ print_tenths False regression @ ''% exceeds '' @
            print_tenths False maxRegression @ ''%'')
       (filter (\<lambda>(label, regression). f64_less maxRegression regression) table)"

definition report_line :: "string \<Rightarrow> (string \<times> f64) list \<Rightarrow> bool \<Rightarrow> string" where
  "report_line name table withinBudget =
     name @ '': '' @ Join '', '' (map (\<lambda>(label, regression). label @ '' '' @ print_tenths True regression @ ''%'') table) @
     '' ('' @ (if withinBudget then ''within budget'' else ''over budget'') @ '')''"

text \<open>What one benchmark of the old output adds to the report and to the failures\<close>

definition compare_one ::
  "f64 \<Rightarrow> (string, benchmarkMetrics) gomap \<Rightarrow> string \<times> benchmarkMetrics \<Rightarrow> string list \<times> string list" where
  "compare_one maxRegression newBenchmarks = (\<lambda>(name, oldMetrics).
     case mget newBenchmarks name of
       None \<Rightarrow> ([], [''missing benchmark '' @ name @ '' in new output''])
     | Some newMetrics \<Rightarrow>
         let table = metric_table oldMetrics newMetrics; failures = over_budget name maxRegression table
         in ([report_line name table (failures = [])], failures))"

definition compareBenchmarkOutputs :: "string \<Rightarrow> string \<Rightarrow> f64 \<Rightarrow> string \<times> maint_error option" where
  "compareBenchmarkOutputs oldBody newBody maxRegression =
     (case parseBenchmarkOutput oldBody of
        Inl e \<Rightarrow> ([], Some e)
      | Inr oldBenchmarks \<Rightarrow>
          (case parseBenchmarkOutput newBody of
             Inl e \<Rightarrow> ([], Some e)
           | Inr newBenchmarks \<Rightarrow>
               let compared = map (compare_one maxRegression newBenchmarks) oldBenchmarks;
                   added = filter (\<lambda>name. mget oldBenchmarks name = None) (map fst newBenchmarks);
                   reportLines = concat (map fst compared) @ map (\<lambda>name. name @ '': new benchmark in candidate output'') added;
                   failures = concat (map snd compared)
               in (Join [CHR 0x0A] reportLines,
                   if failures \<noteq> [] then Some (BenchFailures (Join ''; '' failures)) else None)))"

section \<open>The command\<close>

definition float_flag :: "string \<Rightarrow> f64 \<Rightarrow> (string \<times> string) list \<Rightarrow> f64" where
  "float_flag name def flags =
     fold (\<lambda>(n, v) old. if n = name then (case ParseFloat v of Some f \<Rightarrow> f | None \<Rightarrow> old) else old) flags def"

definition bench_flags :: "string \<Rightarrow> flag_kind option" where
  "bench_flags name =
     (if name \<in> set [''old'', ''new''] then Some StringFlag
      else if name = ''max-regression'' then Some (CheckedFlag (\<lambda>s. ParseFloat s \<noteq> None))
      else None)"

definition runBenchCompare :: "maint_env \<Rightarrow> string list \<Rightarrow> fs \<Rightarrow> outcome3" where
  "runBenchCompare env args fs =
     (case parse_flags bench_flags args of
        Inl e \<Rightarrow> (Some (flag_failed e), [], fs)
      | Inr flags \<Rightarrow>
          let oldPath = flag_value [''old''] [] flags; newPath = flag_value [''new''] [] flags;
              maxRegression = float_flag ''max-regression'' (f64_of_int 25) flags
          in if TrimSpace oldPath = [] \<or> TrimSpace newPath = [] then (Some BenchNeedsFiles, [], fs)
             else if f64_less maxRegression (f64_of_int 0) then (Some NegativeRegression, [], fs)
             else case ReadFile (Abs (me_cwd env) oldPath) fs of
               None \<Rightarrow> (Some (ReadFailed oldPath), [], fs)
             | Some oldBody \<Rightarrow>
                 (case ReadFile (Abs (me_cwd env) newPath) fs of
                    None \<Rightarrow> (Some (ReadFailed newPath), [], fs)
                  | Some newBody \<Rightarrow>
                      (case compareBenchmarkOutputs oldBody newBody maxRegression of
                         (report, e) \<Rightarrow>
                           if report = [] then (e, [], fs)
                           else if \<not> me_stdout env then (Some StdoutFailed, [], fs)
                           else (e, report @ [CHR 0x0A], fs))))"

section \<open>What a passed comparison means\<close>

definition metrics_of :: "benchmarkMetrics \<Rightarrow> f64 list" where
  "metrics_of m = [NsPerOp m, BytesPerOp m, AllocsPerOp m]"

lemma over_budget_Nil:
  "over_budget name b (metric_table old new) = [] \<longleftrightarrow>
     list_all2 (\<lambda>x y. \<not> f64_less b (regressionPercent x y)) (metrics_of old) (metrics_of new)"
  by (auto simp: over_budget_def metric_table_def metrics_of_def)

definition within_budget :: "f64 \<Rightarrow> benchmarkMetrics \<Rightarrow> benchmarkMetrics \<Rightarrow> bool" where
  "within_budget maxRegression old new \<longleftrightarrow>
     list_all2 (\<lambda>x y. \<not> f64_less maxRegression (regressionPercent x y)) (metrics_of old) (metrics_of new)"

lemma compare_one_ok:
  "snd (compare_one maxRegression news p) = [] \<longleftrightarrow>
     (\<lambda>(name, old). case mget news name of None \<Rightarrow> False | Some new \<Rightarrow> within_budget maxRegression old new) p"
  by (cases p) (simp add: compare_one_def Let_def over_budget_Nil within_budget_def split: option.split)

text \<open>
  \<open>bench-compare\<close> is content exactly when both outputs can be read, every benchmark of the
  old output is in the new one, and none of its three metrics has grown by more than the
  limit.
\<close>

theorem bench_compare_iff:
  "snd (compareBenchmarkOutputs oldBody newBody maxRegression) = None \<longleftrightarrow>
     (\<exists>olds news. parseBenchmarkOutput oldBody = Inr olds \<and> parseBenchmarkOutput newBody = Inr news \<and>
        list_all (\<lambda>(name, old). case mget news name of None \<Rightarrow> False | Some new \<Rightarrow> within_budget maxRegression old new) olds)"
  by (cases "parseBenchmarkOutput oldBody"; cases "parseBenchmarkOutput newBody")
    (simp_all add: compareBenchmarkOutputs_def Let_def list_all_iff compare_one_ok)

text \<open>A metric that is not a number passes every limit, since no comparison with it holds.\<close>

lemma nan_within_budget: "IsNaN f \<Longrightarrow> \<not> f64_less maxRegression (f64_div f old)"
proof -
  have "IsNaN f64_nan" by (simp add: IsNaN_def f64_nan_def f64_mag_def inf_bits_def)
  then show "IsNaN f \<Longrightarrow> \<not> f64_less maxRegression (f64_div f old)"
    by (simp add: f64_less_def f64_div_def Let_def)
qed

end
