(* ===== verification/Maint_Main.thy ===== *)
theory Maint_Main
  imports Maint_Export Maint_Release Maint_Bench Go_Url
begin

text \<open>
  The other commands of \<open>cmd/convex-go-maint\<close> (\<open>main.go\<close>, \<open>integration.go\<close>): \<open>fmt-check\<close>,
  \<open>coverage-check\<close>, \<open>integration-env-check\<close>, and the choice of a command. The text of the
  usage goes to the standard error and is left out.
\<close>

section \<open>Formatting\<close>

definition trackedGoFiles :: "maint_env \<Rightarrow> fpath \<Rightarrow> fs \<Rightarrow> maint_error + string list" where
  "trackedGoFiles env repo fs = gitTrackedFiles env repo [''*.go''] fs"

definition listUnformattedFiles :: "maint_env \<Rightarrow> fpath \<Rightarrow> string list \<Rightarrow> fs \<Rightarrow> maint_error + string list" where
  "listUnformattedFiles env repo files fs =
     (if files = [] then Inr []
      else case me_gofmt env repo (''-l'' # files) fs of
        None \<Rightarrow> Inl GofmtFailed
      | Some output \<Rightarrow> Inr (Fields (TrimSpace output)))"

definition repo_flags :: "string \<Rightarrow> flag_kind option" where
  "repo_flags name = (if name = ''repo'' then Some StringFlag else None)"

definition runFmtCheck :: "maint_env \<Rightarrow> string list \<Rightarrow> fs \<Rightarrow> outcome3" where
  "runFmtCheck env args fs =
     (case parse_flags repo_flags args of
        Inl e \<Rightarrow> (Some (flag_failed e), [], fs)
      | Inr flags \<Rightarrow>
          let repo = Abs (me_cwd env) (flag_value [''repo''] ''.'' flags)
          in case rbind (trackedGoFiles env repo fs) (\<lambda>files. listUnformattedFiles env repo files fs) of
               Inl e \<Rightarrow> (Some e, [], fs)
             | Inr unformatted \<Rightarrow>
                 if \<not> me_stdout env then (Some StdoutFailed, [], fs)
                 else if unformatted = [] then (None, ''gofmt check passed'' @ [CHR 0x0A], fs)
                 else (Some (Unformatted (length unformatted)), concat (map (\<lambda>path. path @ [CHR 0x0A]) unformatted), fs))"

section \<open>Coverage\<close>

fun coverage_loop :: "string list \<Rightarrow> f64 \<Rightarrow> f64 \<Rightarrow> maint_error + f64 \<times> f64" where
  "coverage_loop [] covered tot = Inr (covered, tot)"
| "coverage_loop (entry # lines) covered tot =
     (let line = TrimSpace entry
      in if line = [] then coverage_loop lines covered tot
         else case Fields line of
           [_, stmts, cnt] \<Rightarrow>
             (case ParseInt stmts of
                None \<Rightarrow> Inl (InvalidStatements line)
              | Some numStmts \<Rightarrow>
                  (case ParseInt cnt of
                     None \<Rightarrow> Inl (InvalidCount line)
                   | Some count \<Rightarrow>
                       coverage_loop lines (if 0 < count then f64_add covered (f64_of_int numStmts) else covered)
                         (f64_add tot (f64_of_int numStmts))))
         | _ \<Rightarrow> Inl (InvalidCoverageLine line))"

definition parseCoverageProfile :: "string \<Rightarrow> maint_error + f64" where
  "parseCoverageProfile body =
     (let lines = text_lines body
      in if lines = [] \<or> \<not> HasPrefix (hd lines) ''mode: '' then Inl NoModeLine
         else rbind (coverage_loop (tl lines) (f64_of_int 0) (f64_of_int 0)) (\<lambda>(covered, tot).
           if f64_is_zero tot then Inl NoStatements
           else Inr (f64_div (f64_mul covered (f64_of_int 100)) tot)))"

definition coverageTotal :: "maint_env \<Rightarrow> string \<Rightarrow> fs \<Rightarrow> maint_error + f64" where
  "coverageTotal env path fs =
     (case ReadFile (Abs (me_cwd env) path) fs of
        None \<Rightarrow> Inl (ReadFailed path)
      | Some body \<Rightarrow> parseCoverageProfile body)"

definition roundCoveragePercent :: "f64 \<Rightarrow> f64" where
  "roundCoveragePercent v = f64_div (math_Round (f64_mul v (f64_of_int 10))) (f64_of_int 10)"

definition coverage_flags :: "string \<Rightarrow> flag_kind option" where
  "coverage_flags name =
     (if name = ''coverprofile'' then Some StringFlag
      else if name = ''min'' then Some (CheckedFlag (\<lambda>s. ParseFloat s \<noteq> None))
      else None)"

definition runCoverageCheck :: "maint_env \<Rightarrow> string list \<Rightarrow> fs \<Rightarrow> outcome3" where
  "runCoverageCheck env args fs =
     (case parse_flags coverage_flags args of
        Inl e \<Rightarrow> (Some (flag_failed e), [], fs)
      | Inr flags \<Rightarrow>
          (case coverageTotal env (flag_value [''coverprofile''] ''coverage.out'' flags) fs of
             Inl e \<Rightarrow> (Some e, [], fs)
           | Inr tot \<Rightarrow>
               let displayTotal = roundCoveragePercent tot;
                   displayMinimum = roundCoveragePercent (float_flag ''min'' (f64_of_int 90) flags)
               in if f64_less displayTotal displayMinimum then (Some (CoverageBelow displayTotal displayMinimum), [], fs)
                  else if \<not> me_stdout env then (Some StdoutFailed, [], fs)
                  else (None, ''coverage '' @ print_tenths False displayTotal @ ''% meets minimum '' @
                          print_tenths False displayMinimum @ ''%'' @ [CHR 0x0A], fs)))"

section \<open>The environment of integration tests\<close>

definition env_flags :: "string \<Rightarrow> flag_kind option" where
  "env_flags name =
     (if name \<in> set [''url-env'', ''auth-env'', ''refresh-auth-env'', ''expected-subject-env'', ''expected-issuer-env'',
        ''expected-token-identifier-env''] then Some StringFlag else None)"

definition runIntegrationEnvCheck :: "maint_env \<Rightarrow> string list \<Rightarrow> fs \<Rightarrow> outcome3" where
  "runIntegrationEnvCheck env args fs =
     (case parse_flags env_flags args of
        Inl e \<Rightarrow> (Some (flag_failed e), [], fs)
      | Inr flags \<Rightarrow>
          let urlEnv = flag_value [''url-env''] ''CONVEX_URL'' flags;
              authEnv = flag_value [''auth-env''] ''CONVEX_AUTH_TOKEN'' flags;
              refreshAuthEnv = flag_value [''refresh-auth-env''] ''CONVEX_AUTH_REFRESH_TOKEN'' flags;
              var = (\<lambda>name. TrimSpace (me_getenv env name));
              authToken = var authEnv;
              refreshAuthToken = var refreshAuthEnv;
              expected = (var (flag_value [''expected-subject-env''] ''CONVEX_AUTH_EXPECTED_SUBJECT'' flags) \<noteq> [] \<or>
                          var (flag_value [''expected-issuer-env''] ''CONVEX_AUTH_EXPECTED_ISSUER'' flags) \<noteq> [] \<or>
                          var (flag_value [''expected-token-identifier-env''] ''CONVEX_AUTH_EXPECTED_TOKEN_IDENTIFIER'' flags) \<noteq> [])
          in if var urlEnv = [] then (Some (MissingVariable urlEnv), [], fs)
             else case Parse (me_brackets env) (var urlEnv) of
               None \<Rightarrow> (Some (InvalidURL urlEnv), [], fs)
             | Some parsed \<Rightarrow>
                 if u_Scheme parsed \<noteq> ''http'' \<and> u_Scheme parsed \<noteq> ''https'' then (Some (NotHTTP urlEnv), [], fs)
                 else if u_Host parsed = [] then (Some (NoHost urlEnv), [], fs)
                 else if refreshAuthToken \<noteq> [] \<and> authToken = [] then (Some (VariableRequires refreshAuthEnv authEnv), [], fs)
                 else if authToken = [] \<and> expected then (Some (ExpectationsRequire authEnv), [], fs)
                 else if \<not> me_stdout env then (Some StdoutFailed, [], fs)
                 else (None, ''validated '' @ urlEnv @
                         (if authToken \<noteq> [] then '' with optional '' @ authEnv else []) @
                         (if refreshAuthToken \<noteq> [] then '' and optional '' @ refreshAuthEnv else []) @
                         (if expected then '' plus auth identity expectations'' else []) @ [CHR 0x0A], fs))"

section \<open>The choice of a command\<close>

definition maint_runWithIO :: "maint_env \<Rightarrow> string list \<Rightarrow> fs \<Rightarrow> outcome3" where
  "maint_runWithIO env args fs =
     (case args of
        [] \<Rightarrow> (Some HelpAsked, [], fs)
      | cmd # rest \<Rightarrow>
          if cmd = ''fmt-check'' then runFmtCheck env rest fs
          else if cmd = ''coverage-check'' then runCoverageCheck env rest fs
          else if cmd = ''bench-compare'' then runBenchCompare env rest fs
          else if cmd = ''export-snapshot'' then runExportSnapshot env rest fs
          else if cmd = ''integration-env-check'' then runIntegrationEnvCheck env rest fs
          else if cmd = ''release-check'' then runReleaseCheck env rest fs
          else if cmd \<in> set [''-h'', ''--help'', ''help''] then (Some HelpAsked, [], fs)
          else (Some (UnknownSubcommand cmd), [], fs))"

text \<open>\<open>run\<close>: the exit code, and what is written and left behind\<close>

definition maint_run :: "maint_env \<Rightarrow> string list \<Rightarrow> fs \<Rightarrow> int \<times> string \<times> fs" where
  "maint_run env args fs =
     (case maint_runWithIO env args fs of
        (e, out, fs) \<Rightarrow> (case e of None \<Rightarrow> 0 | Some e \<Rightarrow> if e = HelpAsked then 0 else 1, out, fs))"

section \<open>Commands that only read\<close>

lemma reads_only:
  "snd (snd (runFmtCheck env args fs)) = fs" "snd (snd (runCoverageCheck env args fs)) = fs"
  "snd (snd (runBenchCompare env args fs)) = fs" "snd (snd (runIntegrationEnvCheck env args fs)) = fs"
  by (simp_all add: runFmtCheck_def runCoverageCheck_def runBenchCompare_def runIntegrationEnvCheck_def Let_def
      split: sum.split option.split prod.split)

section \<open>Coverage is the nearest float\<close>

text \<open>The blocks of a profile: their statements, and how often they ran\<close>

fun coverage_blocks :: "string list \<Rightarrow> (nat \<times> int) list option" where
  "coverage_blocks [] = Some []"
| "coverage_blocks (entry # lines) =
     (let line = TrimSpace entry
      in if line = [] then coverage_blocks lines
         else case Fields line of
           [_, stmts, cnt] \<Rightarrow>
             (case (ParseInt stmts, ParseInt cnt) of
                (Some numStmts, Some count) \<Rightarrow>
                  if 0 \<le> numStmts then map_option ((#) (nat numStmts, count)) (coverage_blocks lines) else None
              | _ \<Rightarrow> None)
         | _ \<Rightarrow> None)"

definition all_statements :: "(nat \<times> int) list \<Rightarrow> nat" where
  "all_statements bs = sum_list (map fst bs)"

definition covered_statements :: "(nat \<times> int) list \<Rightarrow> nat" where
  "covered_statements bs = sum_list (map fst (filter (\<lambda>(n, count). 0 < count) bs))"

lemma statements_Cons [simp]:
  "all_statements ((n, c) # bs) = n + all_statements bs"
  "covered_statements ((n, c) # bs) = (if 0 < c then n else 0) + covered_statements bs"
  "all_statements [] = 0" "covered_statements [] = 0"
  by (simp_all add: all_statements_def covered_statements_def)

lemma covered_le_all: "covered_statements bs \<le> all_statements bs"
  by (induction bs) auto

lemma coverage_loop_blocks:
  "coverage_blocks lines = Some bs \<Longrightarrow> a \<le> t \<Longrightarrow> t + all_statements bs < 2 ^ 53 \<Longrightarrow>
     coverage_loop lines (f64_of_int (int a)) (f64_of_int (int t)) =
       Inr (f64_of_int (int (a + covered_statements bs)), f64_of_int (int (t + all_statements bs)))"
proof (induction lines arbitrary: a t bs)
  case (Cons entry lines)
  show ?case
  proof (cases "TrimSpace entry = []")
    case True
    with Cons show ?thesis by simp
  next
    case False
    with Cons.prems(1) obtain x stmts cnt n c cs where l: "Fields (TrimSpace entry) = [x, stmts, cnt]"
        "ParseInt stmts = Some (int n)" "ParseInt cnt = Some c" "coverage_blocks lines = Some cs" "bs = (n, c) # cs"
      by (auto simp: Let_def split: list.splits option.splits if_splits dest!: zero_le_imp_eq_int)
    have small: "a < 2 ^ 53" "t < 2 ^ 53" "n < 2 ^ 53" using Cons.prems(2,3) l(5) by auto
    have add: "f64_add (f64_of_int (int t)) (f64_of_int (int n)) = f64_of_int (int (t + n))"
      "f64_add (f64_of_int (int a)) (f64_of_int (int n)) = f64_of_int (int (a + n))"
      using small by (simp_all only: f64_add_nat)
    have "coverage_loop lines (f64_of_int (int (if 0 < c then a + n else a))) (f64_of_int (int (t + n))) =
        Inr (f64_of_int (int ((if 0 < c then a + n else a) + covered_statements cs)), f64_of_int (int (t + n + all_statements cs)))"
      using Cons.prems(2,3) l(4,5) by (intro Cons.IH) auto
    with False l add show ?thesis
      by (simp add: Let_def add.assoc split: if_splits)
  qed
qed simp

text \<open>
  C34: the coverage that is computed with floats is the float nearest to the exact
  percentage, for every profile whose blocks have together fewer than 2 to the 46
  statements, at least one, and no negative number of them.
\<close>

theorem coverage_exact:
  assumes "text_lines body = header # lines" and "HasPrefix header ''mode: ''"
    and "coverage_blocks lines = Some bs" and "0 < all_statements bs" and "all_statements bs < 2 ^ 46"
  shows "parseCoverageProfile body = Inr (f64_round False (of_nat (covered_statements bs * 100) / of_nat (all_statements bs)))"
proof -
  have small: "covered_statements bs < 2 ^ 53" "covered_statements bs * 100 < 2 ^ 53" "all_statements bs < 2 ^ 53"
    using covered_le_all [of bs] assms(5) by auto
  have "coverage_loop lines (f64_of_int 0) (f64_of_int 0) =
      Inr (f64_of_int (int (covered_statements bs)), f64_of_int (int (all_statements bs)))"
    using coverage_loop_blocks [OF assms(3), of 0 0] small by simp
  moreover have "f64_mul (f64_of_int (int (covered_statements bs))) (f64_of_int 100) = f64_of_int (int (covered_statements bs * 100))"
    using f64_mul_nat [OF small(1), of 100] by simp
  moreover have "\<not> f64_is_zero (f64_of_int (int (all_statements bs)))"
    using f64_of_int_nat(5) [OF small(3)] assms(4) by simp
  ultimately show ?thesis
    using assms(1,2,4) f64_div_nat [OF small(2,3)] by (simp add: parseCoverageProfile_def Let_def)
qed

theorem coverage_exact_witness:
  "parseCoverageProfile (''mode: set'' @ [CHR 0x0A] @ ''a.go:1.1,2.2 3 1'' @ [CHR 0x0A] @ ''a.go:3.1,4.2 1 0'') =
     Inr (f64_round False 75)"
proof -
  let ?body = "''mode: set'' @ [CHR 0x0A] @ ''a.go:1.1,2.2 3 1'' @ [CHR 0x0A] @ ''a.go:3.1,4.2 1 0''"
  have b: "text_lines ?body = [''mode: set'', ''a.go:1.1,2.2 3 1'', ''a.go:3.1,4.2 1 0'']" "HasPrefix ''mode: set'' ''mode: ''"
    "Fields (TrimSpace ''a.go:1.1,2.2 3 1'') = [''a.go:1.1,2.2'', ''3'', ''1'']" "TrimSpace ''a.go:1.1,2.2 3 1'' \<noteq> []"
    "Fields (TrimSpace ''a.go:3.1,4.2 1 0'') = [''a.go:3.1,4.2'', ''1'', ''0'']" "TrimSpace ''a.go:3.1,4.2 1 0'' \<noteq> []"
    by code_simp+
  have "ParseInt ''3'' = Some 3" "ParseInt ''1'' = Some 1" "ParseInt ''0'' = Some 0"
    by (simp_all add: ParseInt_def digits_val_def digit_val_def is_digit_def)
  with b have "coverage_blocks [''a.go:1.1,2.2 3 1'', ''a.go:3.1,4.2 1 0''] = Some [(3, 1), (1, 0)]"
    by (simp add: Let_def)
  from coverage_exact [OF b(1,2) this] show ?thesis by simp
qed

end
