(* ===== verification/Spec2Isabelle.thy ===== *)
theory Spec2Isabelle
  imports Sync_Codec Base_Properties Sync_Api Sync_Properties Http_Properties Live_Races App_Url App_Lifetime Core_Access App_Observing Codegen_Properties Maint_Main
begin

text \<open>
  A verification development for convex-go, a Go client for Convex deployments.

  \<^bold>\<open>The program.\<close> An application creates a client (\<open>client_options.go\<close>,
  \<open>client_facade.go\<close>) for a deployment. One half of it calls functions of the deployment by
  HTTP (\<open>client_http.go\<close>): arguments are encoded as Convex values
  (\<open>internal/core/value.go\<close>), function names are normalised (\<open>internal/core/path.go\<close>), and
  results are decoded (\<open>internal/core/function_result.go\<close>). The other half subscribes to
  queries (\<open>subscription_client.go\<close>, \<open>subscription_handles.go\<close>). It owns a manager
  (\<open>internal/syncclient\<close>) that keeps a websocket connection and restores it when it breaks,
  with a goroutine that reads, one that writes, and observers of the connection state. The
  manager drives a base client (\<open>baseclient\<close>), a deterministic state machine without any
  input or output: it keeps the active queries, the pending mutations and actions with
  their optimistic updates, the authentication and the results, and exchanges the messages
  of \<open>internal/syncprotocol\<close> with the server.

  \<^bold>\<open>The theories.\<close> Paths are relative to \<open>src\<close>. Every definition has the name of the Go
  function or type it translates, with a prefix or suffix where two clash; the file
  \<open>PROJECT.json\<close> gives the lines.

  \<^item> \<open>Go_Prelude\<close>, \<open>Go_Strings\<close>, \<open>Go_Encoding\<close>, \<open>Go_Json\<close>: the ground. Results with errors as
    a sum, Go maps as association lists with ascending keys, the interfaces \<open>codec\<close>,
    \<open>dictionary\<close> and \<open>machine\<close> as locales; what the sources use of the packages \<open>strings\<close>,
    \<open>path\<close>, \<open>encoding/base64\<close>, \<open>encoding/binary\<close>, \<open>strconv\<close>, \<open>unicode/utf8\<close> and
    \<open>encoding/json\<close>. A JSON document is its tree; duplicate keys and order are kept.
  \<^item> \<open>Core_Value\<close>: \<open>internal/core/value.go\<close>. Values, the wire form in both directions, Go data
    by reflection. Round trips through the wire, through documents and through Go data.
  \<^item> \<open>Core_Path\<close>: \<open>internal/core/path.go\<close>. Parsing, printing and canonical forms.
  \<^item> \<open>Core_Result\<close>, \<open>Core_Access\<close>: \<open>internal/core/function_result.go\<close>, and the constructors and
    accessors of values.
  \<^item> \<open>Sync_Protocol\<close>, \<open>Sync_Codec\<close>: \<open>internal/syncprotocol\<close>. Every message with its encoder and
    decoder, and the round trips, built from interpretations of \<open>json_codec\<close>.
  \<^item> \<open>Base_Canonical\<close>, \<open>Base_Optimistic\<close>, \<open>Base_Client\<close>: \<open>baseclient\<close>. The state is the record
    \<open>Client\<close>; every method is a function from the state to a result and a state.
    \<open>Base_Invariant\<close> has the invariant and that every operation keeps it. \<open>Base_Session\<close>
    defines runs of the client with any server and shows the refinement: a server that has
    processed what the client sent has exactly the client's queries and versions.
    \<open>Base_Behaviour\<close> and \<open>Base_Requests\<close> have the lemmas on transitions, requests and optimistic
    results, and \<open>Base_Properties\<close> the properties.
  \<^item> \<open>Sync_Connection\<close>, \<open>Sync_Manager\<close>, \<open>Sync_Api\<close>: \<open>internal/syncclient\<close>. The goroutines of a
    manager are the step relation \<open>mstep\<close>, one step for each section between two locks or
    channel operations: starting and finishing a run, and replacing the waiting result of a
    handle, take several. The calls of observers are made outside the lock, as in the code.
    Every message carries the session that has queued it, since the writers of connections
    that have been left go on reading the queue. \<open>Sync_Running\<close> shows that a manager runs the
    base client, \<open>Sync_Properties\<close> what a connection carries, how the phases follow the run
    loop, and how a run reacts when its context ends.
  \<^item> \<open>Http_Client\<close>, \<open>Http_Properties\<close>: \<open>client_http.go\<close>, \<open>errors.go\<close>. Calls from the argument to
    the result, the retry with a fresh token while other goroutines may change the
    credentials (\<open>he_credentials\<close>), and the queue of mutations.
  \<^item> \<open>Live_Client\<close>, \<open>Live_Properties\<close>, \<open>Live_Races\<close>: \<open>subscription_client.go\<close>,
    \<open>subscription_handles.go\<close>. The calls of the application and the goroutines of the realtime
    client, interleaved at the points where they take and release locks; what handles
    deliver, and runs in which the goroutines get into each other's way.
  \<^item> \<open>App_Client\<close>, \<open>App_Properties\<close>: \<open>client_options.go\<close>, \<open>client_facade.go\<close>,
    \<open>auth_callback.go\<close>, \<open>subscription_options.go\<close>. Options and the credentials of both halves.
  \<^item> \<open>App_Control\<close>, \<open>App_Typed\<close>: the methods with a bounded context; \<open>function_reference.go\<close> and
    the calls that decode into a variable of the caller. How \<open>json.Unmarshal\<close> fills a variable
    is a parameter, and a function for types composed of the basic ones, for which typed
    references return the exact result.
  \<^item> \<open>App_Lifetime\<close>: \<open>Subscribe\<close> and \<open>WatchAll\<close> of the client, which start the realtime client.
    A \<open>Context\<close> is an argument of these calls and is handed down to the run of the manager;
    \<open>end_context\<close> ends one. The realtime client ends with the context of the call that has
    started it, and with no other, and then refuses every later subscription until \<open>Close\<close>.
  \<^item> \<open>App_Observers\<close>, \<open>App_Observing\<close>: \<open>client_connection_state.go\<close>, \<open>connection_state.go\<close>,
    \<open>subscription_connection_state.go\<close>. Observers that outlive realtime clients: every method is
    cut where its locks cut it, and goroutines are lists of such parts that take turns; a
    goroutine in \<open>Close\<close> waits until the run that it has cancelled has ended. While a client is
    open its observers are attached exactly once, and closing can lose an observer.
  \<^item> \<open>Go_Url\<close>, \<open>App_Url\<close>: what is used of \<open>net/url\<close>, and the addresses for calls
    (\<open>normalizeDeploymentURL\<close>) and for the connection (\<open>WebSocketURL\<close>). The constructors of the
    clients take them as arguments.

  \<^item> \<open>Go_Regexp\<close>, \<open>Go_Flag\<close>, \<open>Codegen_Strip\<close>, \<open>Codegen_Infer\<close>, \<open>Codegen_Names\<close>, \<open>Codegen_Generate\<close>,
    \<open>Codegen_Main\<close>, \<open>Codegen_Properties\<close>: the code generator (\<open>internal/codegen\<close>,
    \<open>cmd/convex-go-codegen\<close>), which reads the source files of a deployment and prints Go
    variables for its functions: how comments are blanked, which exports are found, how
    they are named, when the command is content with an existing file, and a panic. Regular
    expressions and command lines are those of the packages \<open>regexp\<close> and \<open>flag\<close>; the formatter
    of generated code, the Unicode tables beyond ASCII and the file system are parameters.
  \<^item> \<open>Go_Float\<close>, \<open>Maint_Files\<close>, \<open>Maint_Export\<close>, \<open>Maint_Release\<close>, \<open>Maint_Bench\<close>, \<open>Maint_Main\<close>: the
    commands of the maintainers (\<open>cmd/convex-go-maint\<close>) over a tree of files. Arithmetic on
    doubles is exact arithmetic on rationals followed by rounding. Shown are what a snapshot
    copies and when \<open>-force\<close> deletes the repository itself, what a passed release check
    guarantees, that the coverage is the float nearest to the exact percentage, and what a
    comparison of benchmarks accepts. The commands \<open>git\<close> and \<open>gofmt\<close> are parameters
    (\<open>maint_env\<close>); links, hexadecimal floats and paths of Windows are left out.

  \<^bold>\<open>Assumptions, all visible in the statements.\<close> The network, the clock, contexts, callbacks
  of the application and the server are the environment: they may do anything at any step,
  and what they return is a parameter (\<open>http_env\<close>, \<open>fetch_env\<close>, the steps of \<open>mstep\<close>).
  \<open>room\<close> says that the 32-bit counters of identifiers have not wrapped around. The texts of
  errors, which only reach log messages and close reasons, are the parameter \<open>texts\<close>. Whether
  two results share the memory of a map or slice, which decides how \<open>reflect.DeepEqual\<close>
  compares a value that is not equal to itself, is the parameter of \<open>queryResultsEqual\<close>. A
  call of an observer or an optimistic update returns at the end of its step. Hosts in brackets
  are parsed by a parameter, because the releases of Go differ there. Loops are structural
  recursion or functions with a termination proof; there is no fuel.

  \<^bold>\<open>Not modelled.\<close> The adapter of the websocket package and \<open>net/http\<close> themselves; decoding
  of documents into structs of the caller; the example program, which is a terminal dialogue
  over the library; the aliases by which the root package exports types of \<open>internal\<close>.
\<close>

end
